(* ===== verification/Prelude.thy ===== *)
theory Prelude
  imports Main "HOL-Library.AList"
begin

section \<open>Shared vocabulary of the development\<close>

text \<open>
  What every component theory uses: asynchronous methods as state-and-exception programs, the error
  values the services raise, the part of the JavaScript string and number library the sources call,
  and JavaScript's insertion-ordered \<open>Map\<close> as an association list.

  Strings are \<^typ>\<open>string\<close>, lists of characters below 256; \<open>toLowerCase\<close>, \<open>trim\<close> and the
  character classes of the regular expressions are the ASCII ones, which is what the keys, handles,
  addresses and tokens of the modelled code are made of.  Times are integers counting milliseconds.
\<close>

named_theorems prog_simps \<open>running programs step by step\<close>
named_theorems js_map_simps \<open>lookups in insertion-ordered maps\<close>
named_theorems view_simps \<open>what an operation does to the views of a world\<close>

subsection \<open>Errors and programs\<close>

text \<open>
  The error classes of the code: the factory methods of \<open>AppError\<close> (with the message the caller
  passes, \<^const>\<open>None\<close> where it passes none), the service's own error classes, Postgres' unique
  violation, and any other rejection.
\<close>

datatype app_error =
    Unauthorized "string option"
  | Forbidden "string option"
  | RateLimited "string option"
  | ConflictErr "string option"
  | NotFound "string option"
  | ValidationErr "(string \<times> string) list" "string option"
  | UnsupportedApiVersion
  | ApiVersionSunset
  | TurnstileFailed
  | GpsImplausible
  | EmailTakenErr
  | OAuth2RequestErr string
  | OAuthCodeRefused string
  | UniqueViolation
  | Unavailable string
  | PlainError string

text \<open>
  An \<open>async\<close> method: it reads and updates the world, and it resolves (\<^const>\<open>Inr\<close>) or rejects
  (\<^const>\<open>Inl\<close>).  A rejection keeps the writes made before it, as in the source.
\<close>

type_synonym ('w, 'a) prog = "'w \<Rightarrow> (app_error + 'a) \<times> 'w"

definition ret :: "'a \<Rightarrow> ('w, 'a) prog" where
  "ret x = (\<lambda>w. (Inr x, w))"

definition raise :: "app_error \<Rightarrow> ('w, 'a) prog" where
  "raise e = (\<lambda>w. (Inl e, w))"

definition seq :: "('w, 'a) prog \<Rightarrow> ('a \<Rightarrow> ('w, 'b) prog) \<Rightarrow> ('w, 'b) prog" where
  "seq m f = (\<lambda>w. case m w of (Inl e, w') \<Rightarrow> (Inl e, w') | (Inr x, w') \<Rightarrow> f x w')"

text \<open>\<open>try { m } catch (e) { h e }\<close>.\<close>

definition recover :: "('w, 'a) prog \<Rightarrow> (app_error \<Rightarrow> ('w, 'a) prog) \<Rightarrow> ('w, 'a) prog" where
  "recover m h = (\<lambda>w. case m w of (Inl e, w') \<Rightarrow> h e w' | (Inr x, w') \<Rightarrow> (Inr x, w'))"

text \<open>\<open>reads f\<close> looks at the world, \<open>writes f\<close> replaces it.\<close>

definition reads :: "('w \<Rightarrow> 'a) \<Rightarrow> ('w, 'a) prog" where
  "reads f = (\<lambda>w. (Inr (f w), w))"

definition writes :: "('w \<Rightarrow> 'w) \<Rightarrow> ('w, unit) prog" where
  "writes f = (\<lambda>w. (Inr (), f w))"

text \<open>\<open>guard b e\<close> is \<open>if (!b) throw e\<close>.\<close>

definition guard :: "bool \<Rightarrow> app_error \<Rightarrow> ('w, unit) prog" where
  "guard b e = (if b then ret () else raise e)"

fun for_each :: "('a \<Rightarrow> ('w, unit) prog) \<Rightarrow> 'a list \<Rightarrow> ('w, unit) prog" where
  "for_each f [] = ret ()"
| "for_each f (x # xs) = seq (f x) (\<lambda>_. for_each f xs)"

lemma ret_run [prog_simps]: "ret x w = (Inr x, w)"
  by (simp add: ret_def)

lemma raise_run [prog_simps]: "raise e w = (Inl e, w)"
  by (simp add: raise_def)

lemma reads_run [prog_simps]: "reads f w = (Inr (f w), w)"
  by (simp add: reads_def)

lemma writes_run [prog_simps]: "writes f w = (Inr (), f w)"
  by (simp add: writes_def)

lemma guard_run [prog_simps]: "guard b e w = (if b then (Inr (), w) else (Inl e, w))"
  by (simp add: guard_def prog_simps)

lemma seq_run [prog_simps]:
  "seq m f w = (case fst (m w) of Inl e \<Rightarrow> (Inl e, snd (m w)) | Inr x \<Rightarrow> f x (snd (m w)))"
  by (simp add: seq_def split: prod.split sum.split)

lemma recover_run [prog_simps]:
  "recover m h w = (case fst (m w) of Inl e \<Rightarrow> h e (snd (m w)) | Inr x \<Rightarrow> (Inr x, snd (m w)))"
  by (simp add: recover_def split: prod.split sum.split)

lemma seq_assoc: "seq (seq m f) g = seq m (\<lambda>x. seq (f x) g)"
  by (rule ext) (simp add: prog_simps split: sum.split)

lemma seq_ret_state: "snd (seq m (\<lambda>_. ret c) w) = snd (m w)"
  by (simp add: seq_run ret_run split: sum.split)

lemma seq_ret_left: "seq (ret x) f = f x"
  by (rule ext) (simp add: prog_simps)

lemma seq_ret_right: "seq m ret = m"
  by (rule ext) (simp add: prog_simps prod_eq_iff split: sum.split)

text \<open>A result that resolves went through every step of a sequence.\<close>

lemma seq_InrE:
  assumes "seq m f w = (Inr y, w')"
  obtains x w1 where "m w = (Inr x, w1)" "f x w1 = (Inr y, w')"
  using assms by (auto simp: seq_def split: prod.splits sum.splits)

text \<open>An invariant of the world that every step keeps is kept by the composition.\<close>

definition keeps :: "('w \<Rightarrow> bool) \<Rightarrow> ('w, 'a) prog \<Rightarrow> bool" where
  "keeps I m \<longleftrightarrow> (\<forall>w. I w \<longrightarrow> I (snd (m w)))"

lemma keepsD: "keeps I m \<Longrightarrow> I w \<Longrightarrow> I (snd (m w))"
  by (simp add: keeps_def)

lemma keeps_ret [intro]: "keeps I (ret x)"
  by (simp add: keeps_def prog_simps)

lemma keeps_raise [intro]: "keeps I (raise e)"
  by (simp add: keeps_def prog_simps)

lemma keeps_reads [intro]: "keeps I (reads f)"
  by (simp add: keeps_def prog_simps)

lemma keeps_guard [intro]: "keeps I (guard b e)"
  by (simp add: keeps_def prog_simps)

lemma keeps_writes: "(\<And>w. I w \<Longrightarrow> I (f w)) \<Longrightarrow> keeps I (writes f)"
  by (simp add: keeps_def prog_simps)

lemma keeps_seq [intro]:
  assumes "keeps I m" "\<And>x. keeps I (f x)"
  shows "keeps I (seq m f)"
  using assms by (simp add: keeps_def prog_simps split: sum.split)

lemma keeps_recover [intro]:
  assumes "keeps I m" "\<And>e. keeps I (h e)"
  shows "keeps I (recover m h)"
  using assms by (simp add: keeps_def prog_simps split: sum.split)

lemma keeps_if [intro]: "keeps I m \<Longrightarrow> keeps I n \<Longrightarrow> keeps I (if b then m else n)"
  by simp

lemma keeps_case_option [intro]:
  "keeps I m \<Longrightarrow> (\<And>x. keeps I (f x)) \<Longrightarrow> keeps I (case y of None \<Rightarrow> m | Some x \<Rightarrow> f x)"
  by (cases y) auto

lemma keeps_for_each: "(\<And>x. keeps I (f x)) \<Longrightarrow> keeps I (for_each f xs)"
  by (induction xs) auto

text \<open>
  A client's requests over time: each pair is the time since the request before and the request's
  program; the result says which requests were accepted.  \<open>adv\<close> moves the world's clock.
\<close>

fun spaced_runs :: "(int \<Rightarrow> 'w \<Rightarrow> 'w) \<Rightarrow> (int \<times> ('w, 'a) prog) list \<Rightarrow> 'w \<Rightarrow> bool list" where
  "spaced_runs adv [] w = []"
| "spaced_runs adv ((d, m) # rs) w =
     (case m (adv d w) of (r, w') \<Rightarrow> (\<not> isl r) # spaced_runs adv rs w')"

text \<open>Only whether a request fails and the world it leaves matter.\<close>

lemma spaced_runs_cong:
  assumes "\<And>x w. x \<in> set xs \<Longrightarrow> isl (fst (f x w)) = isl (fst (g x w)) \<and> snd (f x w) = snd (g x w)"
  shows "spaced_runs adv (map (\<lambda>x. (d x, f x)) xs) w = spaced_runs adv (map (\<lambda>x. (d x, g x)) xs) w"
  using assms by (induction xs arbitrary: w) (auto simp: split_beta)

subsection \<open>JavaScript strings\<close>

definition lower_char :: "char \<Rightarrow> char" where
  "lower_char c =
     (let n = (of_char c :: nat) in if 65 \<le> n \<and> n \<le> 90 then char_of (n + 32) else c)"

definition toLowerCase :: "string \<Rightarrow> string" where
  "toLowerCase = map lower_char"

definition is_space :: "char \<Rightarrow> bool" where
  "is_space c \<longleftrightarrow> (let n = (of_char c :: nat) in (9 \<le> n \<and> n \<le> 13) \<or> n = 32)"

definition trimStart :: "string \<Rightarrow> string" where
  "trimStart = dropWhile is_space"

definition trimEnd :: "string \<Rightarrow> string" where
  "trimEnd s = rev (dropWhile is_space (rev s))"

definition trim :: "string \<Rightarrow> string" where
  "trim s = trimEnd (trimStart s)"

definition is_digit :: "char \<Rightarrow> bool" where
  "is_digit c \<longleftrightarrow> (let n = (of_char c :: nat) in 48 \<le> n \<and> n \<le> 57)"

text \<open>\<open>s.indexOf(c)\<close> for a one-character needle; \<^const>\<open>None\<close> is JavaScript's \<open>-1\<close>.\<close>

fun indexOf :: "char \<Rightarrow> string \<Rightarrow> nat option" where
  "indexOf c [] = None"
| "indexOf c (x # xs) = (if x = c then Some 0 else map_option Suc (indexOf c xs))"

text \<open>\<open>s.split(c)\<close> for a one-character separator: never empty.\<close>

fun split_char :: "char \<Rightarrow> string \<Rightarrow> string list" where
  "split_char c [] = [[]]"
| "split_char c (x # xs) =
     (if x = c then [] # split_char c xs
      else (case split_char c xs of [] \<Rightarrow> [[x]] | p # ps \<Rightarrow> (x # p) # ps))"

definition startsWith :: "string \<Rightarrow> string \<Rightarrow> bool" where
  "startsWith s p \<longleftrightarrow> take (length p) s = p"

fun join_with :: "string \<Rightarrow> string list \<Rightarrow> string" where
  "join_with sep [] = []"
| "join_with sep [x] = x"
| "join_with sep (x # y # ys) = x @ sep @ join_with sep (y # ys)"

lemma lower_char_idem [simp]: "lower_char (lower_char c) = lower_char c"
  by (simp add: lower_char_def Let_def of_char_of)

lemma toLowerCase_idem [simp]: "toLowerCase (toLowerCase s) = toLowerCase s"
  by (simp add: toLowerCase_def)

lemma toLowerCase_append: "toLowerCase (s @ t) = toLowerCase s @ toLowerCase t"
  by (simp add: toLowerCase_def)

lemma length_toLowerCase [simp]: "length (toLowerCase s) = length s"
  by (simp add: toLowerCase_def)

lemma toLowerCase_Nil [simp]: "toLowerCase [] = []" "toLowerCase s = [] \<longleftrightarrow> s = []"
  by (simp_all add: toLowerCase_def)

lemma is_space_lower_char [simp]: "is_space (lower_char c) = is_space c"
  by (auto simp: is_space_def lower_char_def Let_def of_char_of)

lemma dropWhile_space_map: "dropWhile is_space (map lower_char s) = map lower_char (dropWhile is_space s)"
  by (induction s) auto

lemma trim_toLowerCase: "trim (toLowerCase s) = toLowerCase (trim s)"
  by (simp add: trim_def trimStart_def trimEnd_def toLowerCase_def dropWhile_space_map rev_map)

lemma dropWhile_idem: "dropWhile P (dropWhile P xs) = dropWhile P xs"
  by (induction xs) auto

lemma trimEnd_idem [simp]: "trimEnd (trimEnd s) = trimEnd s"
  by (simp add: trimEnd_def dropWhile_idem)

lemma trimStart_trimEnd: "trimStart (trimEnd s) = trimEnd (trimStart s)"
proof (induction s)
  case Nil
  show ?case by (simp add: trimStart_def trimEnd_def)
next
  case (Cons c s)
  show ?case
  proof (cases "is_space c")
    case True
    have eq: "trimEnd (c # s) = (if trimEnd s = [] then [] else c # trimEnd s)"
      using True by (auto simp: trimEnd_def dropWhile_append)
    from True have "trimStart (c # s) = trimStart s" by (simp add: trimStart_def)
    with Cons True eq show ?thesis
      by (auto simp: trimStart_def split: if_splits)
  next
    case False
    then have "trimEnd (c # s) = c # trimEnd s"
      by (auto simp: trimEnd_def dropWhile_append)
    with False show ?thesis by (simp add: trimStart_def)
  qed
qed

lemma trim_idem [simp]: "trim (trim s) = trim s"
  by (simp add: trim_def trimStart_trimEnd) (simp add: trimStart_def dropWhile_idem)

lemma indexOf_None [simp]: "indexOf c s = None \<longleftrightarrow> c \<notin> set s"
  by (induction s) auto

lemma indexOf_append: "c \<notin> set s \<Longrightarrow> indexOf c (s @ c # t) = Some (length s)"
  by (induction s) auto

lemma indexOf_Some:
  "indexOf c s = Some i \<Longrightarrow> i < length s \<and> s ! i = c \<and> c \<notin> set (take i s)"
  by (induction s arbitrary: i) (auto split: if_splits)

lemma split_char_not_Nil [simp]: "split_char c s \<noteq> []"
  by (induction s) (auto split: list.splits)

lemma split_char_no_sep: "c \<notin> set s \<Longrightarrow> split_char c s = [s]"
  by (induction s) auto

lemma split_char_append:
  "c \<notin> set s \<Longrightarrow> split_char c (s @ c # t) = s # split_char c t"
  by (induction s) auto

lemma split_char_pieces: "p \<in> set (split_char c s) \<Longrightarrow> c \<notin> set p"
  by (induction s arbitrary: p) (auto split: list.splits if_splits)

lemma join_split_char: "join_with [c] (split_char c s) = s"
proof (induction s)
  case (Cons x s)
  obtain p ps where "split_char c s = p # ps" by (cases "split_char c s") auto
  with Cons show ?case by (cases ps) auto
qed simp

lemma startsWith_append [simp]: "startsWith (p @ s) p"
  by (simp add: startsWith_def)

subsection \<open>Numbers in strings\<close>

definition digit_char :: "nat \<Rightarrow> char" where
  "digit_char d = char_of (48 + d)"

definition digit_val :: "char \<Rightarrow> nat" where
  "digit_val c = of_char c - 48"

text \<open>\<open>String(n)\<close> of a whole number.\<close>

fun string_of_nat :: "nat \<Rightarrow> string" where
  "string_of_nat n =
     (if n < 10 then [digit_char n] else string_of_nat (n div 10) @ [digit_char (n mod 10)])"

declare string_of_nat.simps [simp del]

definition string_of_int :: "int \<Rightarrow> string" where
  "string_of_int n = (if n < 0 then CHR ''-'' # string_of_nat (nat (- n)) else string_of_nat (nat n))"

definition digits_val :: "string \<Rightarrow> nat" where
  "digits_val = foldl (\<lambda>acc c. 10 * acc + digit_val c) 0"

text \<open>
  \<open>Number.parseInt(s, 10)\<close>: leading white space, an optional sign, the longest run of digits;
  \<^const>\<open>None\<close> is \<open>NaN\<close>.
\<close>

definition parse_digits :: "string \<Rightarrow> nat option" where
  "parse_digits s = (let ds = takeWhile is_digit s in if ds = [] then None else Some (digits_val ds))"

definition parseInt :: "string \<Rightarrow> int option" where
  "parseInt s =
     (case trimStart s of
        [] \<Rightarrow> None
      | c # cs \<Rightarrow>
          if c = CHR ''-'' then map_option (\<lambda>n. - int n) (parse_digits cs)
          else if c = CHR ''+'' then map_option int (parse_digits cs)
          else map_option int (parse_digits (c # cs)))"

lemma of_char_digit_char: "d < 10 \<Longrightarrow> (of_char (digit_char d) :: nat) = 48 + d"
  by (simp add: digit_char_def of_char_of)

lemma digit_char_props:
  assumes "d < 10"
  shows "is_digit (digit_char d)" "digit_val (digit_char d) = d" "\<not> is_space (digit_char d)"
    "digit_char d \<noteq> CHR ''-''" "digit_char d \<noteq> CHR ''+''"
proof -
  show "is_digit (digit_char d)" "digit_val (digit_char d) = d" "\<not> is_space (digit_char d)"
    using assms by (simp_all add: is_digit_def digit_val_def is_space_def of_char_digit_char)
  have "(of_char (digit_char d) :: nat) \<noteq> of_char (CHR ''-'')"
    "(of_char (digit_char d) :: nat) \<noteq> of_char (CHR ''+'')"
    using assms by (simp_all add: of_char_digit_char)
  then show "digit_char d \<noteq> CHR ''-''" "digit_char d \<noteq> CHR ''+''" by metis+
qed

lemma string_of_nat_digits: "\<forall>c \<in> set (string_of_nat n). is_digit c"
proof (induction n rule: string_of_nat.induct)
  case (1 n)
  show ?case
    using 1 by (auto simp: string_of_nat.simps [of n] digit_char_props(1))
qed

lemma digits_val_string_of_nat [simp]: "digits_val (string_of_nat n) = n"
proof (induction n rule: string_of_nat.induct)
  case (1 n)
  show ?case
    using 1 by (simp add: string_of_nat.simps [of n] digits_val_def digit_char_props(2))
qed

lemma string_of_nat_not_Nil [simp]: "string_of_nat n \<noteq> []"
  by (subst string_of_nat.simps) simp

lemma string_of_nat_hd:
  obtains c cs where "string_of_nat n = c # cs" "is_digit c" "\<not> is_space c" "c \<noteq> CHR ''-''" "c \<noteq> CHR ''+''"
proof -
  obtain c cs where eq: "string_of_nat n = c # cs" by (cases "string_of_nat n") auto
  with string_of_nat_digits [of n] have d: "is_digit c" by simp
  then have "\<not> is_space c" "c \<noteq> CHR ''-''" "c \<noteq> CHR ''+''"
    by (auto simp: is_digit_def is_space_def Let_def)
  with eq d that show ?thesis by blast
qed

lemma parse_digits_string_of_nat: "parse_digits (string_of_nat n) = Some n"
  using string_of_nat_digits [of n]
  by (simp add: parse_digits_def takeWhile_eq_all_conv [THEN iffD2])

text \<open>Reading back a printed counter gives the counter.\<close>

lemma parseInt_string_of_int [simp]: "parseInt (string_of_int n) = Some n"
proof (cases "n < 0")
  case True
  then show ?thesis
    by (simp add: parseInt_def string_of_int_def trimStart_def is_space_def parse_digits_string_of_nat)
next
  case False
  obtain c cs where "string_of_nat (nat n) = c # cs" "\<not> is_space c" "c \<noteq> CHR ''-''" "c \<noteq> CHR ''+''"
    by (rule string_of_nat_hd [of "nat n"])
  with False parse_digits_string_of_nat [of "nat n"] show ?thesis
    by (simp add: parseInt_def string_of_int_def trimStart_def)
qed

text \<open>\<open>Math.ceil(a / b)\<close> on whole numbers, \<open>b > 0\<close>.\<close>

definition ceil_div :: "int \<Rightarrow> int \<Rightarrow> int" where
  "ceil_div a b = - ((- a) div b)"

lemma ceil_div_ge: "0 < b \<Longrightarrow> a \<le> ceil_div a b * b"
proof -
  assume "0 < b"
  then have "0 \<le> (- a) mod b" by simp
  moreover have "(- a) div b * b + (- a) mod b = - a" by simp
  ultimately have "a \<le> - ((- a) div b * b)" by linarith
  then show ?thesis by (simp add: ceil_div_def)
qed

lemma ceil_div_lt: "0 < b \<Longrightarrow> ceil_div a b * b < a + b"
proof -
  assume b: "0 < b"
  have "(- a) mod b < b" using b by simp
  moreover have "(- a) div b * b + (- a) mod b = - a" by simp
  ultimately have "- ((- a) div b * b) < a + b" by linarith
  then show ?thesis by (simp add: ceil_div_def)
qed

subsection \<open>Insertion-ordered maps\<close>

text \<open>
  JavaScript's \<open>Map\<close>: iteration follows insertion, \<open>set\<close> on a present key keeps its place and on a
  new key appends, \<open>delete\<close> removes.  \<^const>\<open>AList.update\<close> and \<^const>\<open>AList.delete\<close> are exactly
  these; a well-formed map has distinct keys.
\<close>

type_synonym ('k, 'v) js_map = "('k \<times> 'v) list"

abbreviation jm_get :: "('k, 'v) js_map \<Rightarrow> 'k \<Rightarrow> 'v option" where
  "jm_get \<equiv> map_of"

abbreviation jm_set :: "'k \<Rightarrow> 'v \<Rightarrow> ('k, 'v) js_map \<Rightarrow> ('k, 'v) js_map" where
  "jm_set \<equiv> AList.update"

abbreviation jm_delete :: "'k \<Rightarrow> ('k, 'v) js_map \<Rightarrow> ('k, 'v) js_map" where
  "jm_delete \<equiv> AList.delete"

abbreviation jm_keys :: "('k, 'v) js_map \<Rightarrow> 'k list" where
  "jm_keys m \<equiv> map fst m"

abbreviation jm_ok :: "('k, 'v) js_map \<Rightarrow> bool" where
  "jm_ok m \<equiv> distinct (map fst m)"

lemmas jm_get_set [js_map_simps, simp] = AList.update_conv'
lemmas jm_get_delete [js_map_simps, simp] = AList.delete_conv'
lemmas jm_ok_set [simp, intro] = AList.distinct_update
lemmas jm_ok_delete [simp, intro] = AList.distinct_delete

lemma jm_ok_filter [intro]: "jm_ok m \<Longrightarrow> jm_ok (filter P m)"
  by (induction m) auto

lemma jm_get_filter [js_map_simps]:
  assumes "jm_ok m"
  shows "jm_get (filter P m) k = (case jm_get m k of None \<Rightarrow> None | Some v \<Rightarrow> if P (k, v) then Some v else None)"
  using assms by (induction m) (auto split: option.splits dest: map_of_SomeD simp: rev_image_eqI)

lemma jm_ok_map [simp]: "jm_ok (map (\<lambda>(k, v). (k, f k v)) m) = jm_ok m"
  by (simp add: comp_def case_prod_beta)

lemma jm_get_map [js_map_simps]:
  "jm_get (map (\<lambda>(k, v). (k, f k v)) m) k = map_option (f k) (jm_get m k)"
  by (induction m) auto

text \<open>\<open>Set.add\<close> on a \<open>Set\<close> in insertion order.\<close>

definition set_add :: "'a \<Rightarrow> 'a list \<Rightarrow> 'a list" where
  "set_add x xs = (if x \<in> set xs then xs else xs @ [x])"

subsection \<open>Tables\<close>

text \<open>
  A database table is the list of its rows in insertion order; a lookup by a key is \<^const>\<open>find\<close>, an
  \<open>UPDATE \<dots> WHERE\<close> is \<open>update_rows\<close>.
\<close>

definition update_rows :: "('r \<Rightarrow> bool) \<Rightarrow> ('r \<Rightarrow> 'r) \<Rightarrow> 'r list \<Rightarrow> 'r list" where
  "update_rows P f = map (\<lambda>r. if P r then f r else r)"

text \<open>A field assignment on the first row that satisfies \<open>P\<close>, the row \<open>find\<close> returns.\<close>

fun update_first :: "('r \<Rightarrow> bool) \<Rightarrow> ('r \<Rightarrow> 'r) \<Rightarrow> 'r list \<Rightarrow> 'r list" where
  "update_first P f [] = []"
| "update_first P f (r # rs) = (if P r then f r # rs else r # update_first P f rs)"

lemma find_SomeD: "find P xs = Some x \<Longrightarrow> P x \<and> x \<in> set xs"
  by (auto simp: find_Some_iff)

lemma find_NoneD: "find P xs = None \<Longrightarrow> x \<in> set xs \<Longrightarrow> \<not> P x"
  by (auto simp: find_None_iff)

lemma find_snoc:
  "find P (xs @ [x]) = (case find P xs of None \<Rightarrow> if P x then Some x else None | Some y \<Rightarrow> Some y)"
  by (induction xs) auto

lemma find_update_rows:
  assumes "\<And>r. Q r \<Longrightarrow> P (f r) = P r"
  shows "find P (update_rows Q f xs) = map_option (\<lambda>r. if Q r then f r else r) (find P xs)"
  using assms by (induction xs) (auto simp: update_rows_def)

lemma length_update_rows [simp]: "length (update_rows P f xs) = length xs"
  by (simp add: update_rows_def)

lemma filter_update_rows:
  assumes "\<And>r. Q r \<Longrightarrow> P (f r) = P r"
  shows "filter P (update_rows Q f xs) = update_rows Q f (filter P xs)"
  using assms by (induction xs) (auto simp: update_rows_def)

subsection \<open>Worlds\<close>

text \<open>
  A world is an extensible record: every in-memory store of the code is a group of fields, each
  component extends the world of the components below it, and an operation written for a small world
  runs unchanged in a larger one.  The clock (\<open>Date.now()\<close>, the injected \<open>now\<close> functions) is part of
  the world; it does not move during one operation, and \<open>tick\<close> moves it between two.
\<close>

record clock_world =
  clock :: int

definition tick :: "int \<Rightarrow> 'w clock_world_scheme \<Rightarrow> 'w clock_world_scheme" where
  "tick d w = w\<lparr>clock := clock w + d\<rparr>"

lemma clock_tick [simp]: "clock (tick d w) = clock w + d"
  by (simp add: tick_def)

text \<open>An expiry instant; \<open>Never\<close> is \<open>Number.POSITIVE_INFINITY\<close>.\<close>

datatype expiry = At int | Never

fun expired :: "expiry \<Rightarrow> int \<Rightarrow> bool" where
  "expired (At t) now = (t \<le> now)"
| "expired Never now = False"

lemma expired_mono: "expired x t \<Longrightarrow> t \<le> t' \<Longrightarrow> expired x t'"
  by (cases x) auto

end
