(* ===== verification/Cache.thy ===== *)
theory Cache
  imports Prelude
begin

section \<open>The cache (\<open>auth/cache.ts\<close>)\<close>

text \<open>
  \<open>CacheClient\<close> is the record \<open>cache_client\<close> of the operations the services call,
  \<open>InMemoryCacheClient\<close> the operations \<open>cache_*\<close> on the fields \<open>cache_store\<close> and \<open>cache_sets\<close> of a
  world.  The locale \<open>cache_laws\<close> is the contract the services rely on: a map from keys to live
  entries, each with its expiry, in which \<open>incr\<close> opens a window that later increments do not extend.
  The in-memory client is interpreted as an instance at the end.
\<close>

subsection \<open>Cached strings\<close>

text \<open>
  The cache holds strings.  A string is kept as plain text, or, when it is what \<open>JSON.stringify\<close> made
  of an object, as that object: the projection of a session, each field \<^const>\<open>None\<close> when it is absent
  or has another type than the declared one, or the payload of a socket ticket.
\<close>

text \<open>The account status (\<open>auth/stores.ts\<close>), which a session projection carries.\<close>

datatype account_status = Active | Suspended | Review | Banned

record session_json =
  sj_userId :: "string option"
  sj_roles :: "string list option"
  sj_expiresAtMs :: "int option"
  sj_createdAtMs :: "int option"
  sj_epoch :: "int option"
  sj_accountStatus :: "account_status option"

datatype cache_value =
    Text string
  | SessionDoc session_json
  | TicketDoc "string option" "string option"

text \<open>\<open>Number.parseInt(value, 10)\<close>: a JSON object text starts with a brace, which is \<open>NaN\<close>.\<close>

fun value_int :: "cache_value \<Rightarrow> int option" where
  "value_int (Text s) = parseInt s"
| "value_int _ = None"

subsection \<open>The in-memory client\<close>

record cache_entry =
  ce_value :: cache_value
  ce_expiresAtMs :: expiry

record set_entry =
  se_members :: "string list"
  se_expiresAtMs :: expiry

record cache_world = clock_world +
  cache_store :: "(string, cache_entry) js_map"
  cache_sets :: "(string, set_entry) js_map"

definition cache_live :: "string \<Rightarrow> ('w cache_world_scheme, cache_entry option) prog" where
  "cache_live key = (\<lambda>w.
     case jm_get (cache_store w) key of
       None \<Rightarrow> (Inr None, w)
     | Some entry \<Rightarrow>
         if expired (ce_expiresAtMs entry) (clock w)
         then (Inr None, w\<lparr>cache_store := jm_delete key (cache_store w)\<rparr>)
         else (Inr (Some entry), w))"

definition put_entry :: "string \<Rightarrow> cache_entry \<Rightarrow> 'w cache_world_scheme \<Rightarrow> 'w cache_world_scheme" where
  "put_entry key entry w = w\<lparr>cache_store := jm_set key entry (cache_store w)\<rparr>"

definition cache_get :: "string \<Rightarrow> ('w cache_world_scheme, cache_value option) prog" where
  "cache_get key = seq (cache_live key) (\<lambda>entry. ret (map_option ce_value entry))"

definition cache_set :: "string \<Rightarrow> cache_value \<Rightarrow> int \<Rightarrow> ('w cache_world_scheme, unit) prog" where
  "cache_set key value ttlSeconds =
     writes (\<lambda>w. put_entry key \<lparr>ce_value = value, ce_expiresAtMs = At (clock w + ttlSeconds * 1000)\<rparr> w)"

definition cache_del :: "string \<Rightarrow> ('w cache_world_scheme, unit) prog" where
  "cache_del key = writes (\<lambda>w. w\<lparr>cache_store := jm_delete key (cache_store w)\<rparr>)"

fun cache_mget :: "string list \<Rightarrow> ('w cache_world_scheme, cache_value option list) prog" where
  "cache_mget [] = ret []"
| "cache_mget (key # keys) =
     seq (cache_get key) (\<lambda>v. seq (cache_mget keys) (\<lambda>vs. ret (v # vs)))"

text \<open>The result is a JavaScript number; \<^const>\<open>None\<close> is \<open>NaN\<close>, and \<open>String(NaN)\<close> is \<open>"NaN"\<close>.\<close>

definition cache_incr :: "string \<Rightarrow> int \<Rightarrow> ('w cache_world_scheme, int option) prog" where
  "cache_incr key ttlSeconds =
     seq (cache_live key) (\<lambda>existing.
       case existing of
         None \<Rightarrow>
           seq (writes (\<lambda>w. put_entry key
                  \<lparr>ce_value = Text ''1'', ce_expiresAtMs = At (clock w + ttlSeconds * 1000)\<rparr> w))
               (\<lambda>_. ret (Some 1))
       | Some entry \<Rightarrow>
           (let next = map_option (\<lambda>n. n + 1) (value_int (ce_value entry));
                text = (case next of None \<Rightarrow> ''NaN'' | Some n \<Rightarrow> string_of_int n)
            in seq (writes (put_entry key (entry\<lparr>ce_value := Text text\<rparr>))) (\<lambda>_. ret next)))"

definition cache_live_set :: "string \<Rightarrow> ('w cache_world_scheme, set_entry option) prog" where
  "cache_live_set key = (\<lambda>w.
     case jm_get (cache_sets w) key of
       None \<Rightarrow> (Inr None, w)
     | Some entry \<Rightarrow>
         if expired (se_expiresAtMs entry) (clock w)
         then (Inr None, w\<lparr>cache_sets := jm_delete key (cache_sets w)\<rparr>)
         else (Inr (Some entry), w))"

definition put_set :: "string \<Rightarrow> set_entry \<Rightarrow> 'w cache_world_scheme \<Rightarrow> 'w cache_world_scheme" where
  "put_set key entry w = w\<lparr>cache_sets := jm_set key entry (cache_sets w)\<rparr>"

text \<open>JavaScript's \<open>Set\<close> is a list without repetitions in insertion order.\<close>

fun add_members :: "string list \<Rightarrow> string list \<Rightarrow> int \<times> string list" where
  "add_members [] ms = (0, ms)"
| "add_members (x # xs) ms =
     (let (added, ms') = add_members xs (set_add x ms)
      in ((if x \<in> set ms then 0 else 1) + added, ms'))"

fun remove_members :: "string list \<Rightarrow> string list \<Rightarrow> int \<times> string list" where
  "remove_members [] ms = (0, ms)"
| "remove_members (x # xs) ms =
     (let (removed, ms') = remove_members xs (removeAll x ms)
      in ((if x \<in> set ms then 1 else 0) + removed, ms'))"

definition cache_sadd :: "string \<Rightarrow> string list \<Rightarrow> ('w cache_world_scheme, int) prog" where
  "cache_sadd key members =
     seq (cache_live_set key) (\<lambda>found.
       let entry = (case found of None \<Rightarrow> \<lparr>se_members = [], se_expiresAtMs = Never\<rparr> | Some e \<Rightarrow> e);
           (added, members') = add_members members (se_members entry)
       in seq (writes (put_set key (entry\<lparr>se_members := members'\<rparr>))) (\<lambda>_. ret added))"

definition cache_srem :: "string \<Rightarrow> string list \<Rightarrow> ('w cache_world_scheme, int) prog" where
  "cache_srem key members =
     seq (cache_live_set key) (\<lambda>found.
       case found of
         None \<Rightarrow> ret 0
       | Some entry \<Rightarrow>
           (let (removed, members') = remove_members members (se_members entry)
            in seq (writes (put_set key (entry\<lparr>se_members := members'\<rparr>))) (\<lambda>_. ret removed)))"

definition cache_smembers :: "string \<Rightarrow> ('w cache_world_scheme, string list) prog" where
  "cache_smembers key =
     seq (cache_live_set key) (\<lambda>found. ret (case found of None \<Rightarrow> [] | Some e \<Rightarrow> se_members e))"

definition cache_smismember :: "string \<Rightarrow> string list \<Rightarrow> ('w cache_world_scheme, int list) prog" where
  "cache_smismember key members =
     seq (cache_live_set key) (\<lambda>found.
       ret (map (\<lambda>m. case found of None \<Rightarrow> 0 | Some e \<Rightarrow> if m \<in> set (se_members e) then 1 else 0) members))"

definition cache_scard :: "string \<Rightarrow> ('w cache_world_scheme, nat) prog" where
  "cache_scard key =
     seq (cache_live_set key) (\<lambda>found. ret (case found of None \<Rightarrow> 0 | Some e \<Rightarrow> length (se_members e)))"

definition cache_expire :: "string \<Rightarrow> int \<Rightarrow> ('w cache_world_scheme, unit) prog" where
  "cache_expire key ttlSeconds =
     seq (reads (\<lambda>w. At (clock w + ttlSeconds * 1000))) (\<lambda>at.
     seq (cache_live_set key) (\<lambda>setEntry.
     seq (case setEntry of None \<Rightarrow> ret () | Some e \<Rightarrow> writes (put_set key (e\<lparr>se_expiresAtMs := at\<rparr>))) (\<lambda>_.
     seq (cache_live key) (\<lambda>entry.
     case entry of None \<Rightarrow> ret () | Some e \<Rightarrow> writes (put_entry key (e\<lparr>ce_expiresAtMs := at\<rparr>))))))"

definition cache_expireNx :: "string \<Rightarrow> int \<Rightarrow> ('w cache_world_scheme, unit) prog" where
  "cache_expireNx key ttlSeconds =
     seq (reads (\<lambda>w. At (clock w + ttlSeconds * 1000))) (\<lambda>at.
     seq (cache_live_set key) (\<lambda>setEntry.
     seq (case setEntry of None \<Rightarrow> ret ()
          | Some e \<Rightarrow> if se_expiresAtMs e = Never then writes (put_set key (e\<lparr>se_expiresAtMs := at\<rparr>)) else ret ()) (\<lambda>_.
     seq (cache_live key) (\<lambda>entry.
     case entry of None \<Rightarrow> ret ()
     | Some e \<Rightarrow> if ce_expiresAtMs e = Never then writes (put_entry key (e\<lparr>ce_expiresAtMs := at\<rparr>)) else ret ()))))"

definition cache_size :: "'w cache_world_scheme \<Rightarrow> nat" where
  "cache_size w = length (cache_store w)"

definition cache_expiryOf :: "string \<Rightarrow> ('w cache_world_scheme, expiry option) prog" where
  "cache_expiryOf key = seq (cache_live key) (\<lambda>entry. ret (map_option ce_expiresAtMs entry))"

subsection \<open>The interface and its contract\<close>

record 'w cache_client =
  cc_get :: "string \<Rightarrow> ('w, cache_value option) prog"
  cc_set :: "string \<Rightarrow> cache_value \<Rightarrow> int \<Rightarrow> ('w, unit) prog"
  cc_del :: "string \<Rightarrow> ('w, unit) prog"
  cc_mget :: "(string list \<Rightarrow> ('w, cache_value option list) prog) option"
  cc_incr :: "string \<Rightarrow> int \<Rightarrow> ('w, int option) prog"
  cc_sadd :: "string \<Rightarrow> string list \<Rightarrow> ('w, int) prog"
  cc_srem :: "string \<Rightarrow> string list \<Rightarrow> ('w, int) prog"
  cc_smembers :: "string \<Rightarrow> ('w, string list) prog"
  cc_smismember :: "string \<Rightarrow> string list \<Rightarrow> ('w, int list) prog"
  cc_scard :: "string \<Rightarrow> ('w, nat) prog"
  cc_expire :: "string \<Rightarrow> int \<Rightarrow> ('w, unit) prog"
  cc_expireNx :: "string \<Rightarrow> int \<Rightarrow> ('w, unit) prog"

definition in_memory_cache :: "'w cache_world_scheme cache_client" where
  "in_memory_cache =
     \<lparr>cc_get = cache_get, cc_set = cache_set, cc_del = cache_del, cc_mget = Some cache_mget,
      cc_incr = cache_incr, cc_sadd = cache_sadd, cc_srem = cache_srem,
      cc_smembers = cache_smembers, cc_smismember = cache_smismember, cc_scard = cache_scard,
      cc_expire = cache_expire, cc_expireNx = cache_expireNx\<rparr>"

text \<open>
  The abstract state of a cache: the live entries, each with its value and expiry.
\<close>

type_synonym cache_view = "string \<Rightarrow> (cache_value \<times> expiry) option"

locale cache_laws =
  fixes C :: "'w cache_client"
    and entry :: "'w \<Rightarrow> cache_view"
    and now :: "'w \<Rightarrow> int"
    and advance :: "int \<Rightarrow> 'w \<Rightarrow> 'w"
  assumes advance_now: "now (advance d w) = now w + d"
    and advance_view: "0 \<le> d \<Longrightarrow> entry (advance d w) k =
      (case entry w k of None \<Rightarrow> None
       | Some (v, x) \<Rightarrow> if expired x (now w + d) then None else Some (v, x))"
    and get_result: "fst (cc_get C k w) = Inr (map_option fst (entry w k))"
    and get_view: "entry (snd (cc_get C k w)) = entry w"
    and get_now: "now (snd (cc_get C k w)) = now w"
    and set_result: "fst (cc_set C k v ttl w) = Inr ()"
    and set_view: "0 < ttl \<Longrightarrow>
      entry (snd (cc_set C k v ttl w)) = (entry w)(k \<mapsto> (v, At (now w + ttl * 1000)))"
    and set_now: "now (snd (cc_set C k v ttl w)) = now w"
    and del_result: "fst (cc_del C k w) = Inr ()"
    and del_view: "entry (snd (cc_del C k w)) = (entry w)(k := None)"
    and del_now: "now (snd (cc_del C k w)) = now w"
    and mget_result: "cc_mget C = Some mg \<Longrightarrow>
      fst (mg ks w) = Inr (map (\<lambda>k. map_option fst (entry w k)) ks)"
    and mget_view: "cc_mget C = Some mg \<Longrightarrow> entry (snd (mg ks w)) = entry w"
    and mget_now: "cc_mget C = Some mg \<Longrightarrow> now (snd (mg ks w)) = now w"
    and incr_fresh: "entry w k = None \<Longrightarrow> fst (cc_incr C k ttl w) = Inr (Some 1)"
    and incr_fresh_view: "entry w k = None \<Longrightarrow> 0 < ttl \<Longrightarrow>
      entry (snd (cc_incr C k ttl w)) = (entry w)(k \<mapsto> (Text ''1'', At (now w + ttl * 1000)))"
    and incr_present: "entry w k = Some (v, x) \<Longrightarrow>
      fst (cc_incr C k ttl w) = Inr (map_option (\<lambda>n. n + 1) (value_int v))"
    and incr_present_view: "entry w k = Some (v, x) \<Longrightarrow>
      entry (snd (cc_incr C k ttl w)) =
        (entry w)(k \<mapsto> (Text (case value_int v of None \<Rightarrow> ''NaN'' | Some n \<Rightarrow> string_of_int (n + 1)), x))"
    and incr_now: "now (snd (cc_incr C k ttl w)) = now w"
begin

lemmas now_laws = get_now set_now del_now mget_now incr_now

lemmas result_laws = get_result set_result del_result mget_result incr_fresh incr_present

lemmas entry_laws = get_view set_view del_view mget_view

text \<open>The counter a key holds: 0 without a live entry, \<^const>\<open>None\<close> when it is not a number.\<close>

definition counter :: "'w \<Rightarrow> string \<Rightarrow> int option" where
  "counter w k = (case entry w k of None \<Rightarrow> Some 0 | Some (v, _) \<Rightarrow> value_int v)"

lemma parseInt_one [simp]: "parseInt ''1'' = Some 1"
  by code_simp

lemma incr_counts:
  assumes "counter w k = Some n"
  shows "fst (cc_incr C k ttl w) = Inr (Some (n + 1))"
  using assms
  by (cases "entry w k") (auto simp: counter_def incr_fresh incr_present split: prod.splits)

lemma incr_counter:
  assumes "counter w k = Some n" "0 < ttl"
  shows "counter (snd (cc_incr C k ttl w)) k = Some (n + 1)"
  using assms
  by (cases "entry w k")
    (auto simp: counter_def incr_fresh_view incr_present_view split: prod.splits)

lemma incr_entry_other:
  assumes "k' \<noteq> k" "0 < ttl"
  shows "entry (snd (cc_incr C k ttl w)) k' = entry w k'"
  using assms by (cases "entry w k") (auto simp: incr_fresh_view incr_present_view)

lemma incr_counter_other:
  "k' \<noteq> k \<Longrightarrow> 0 < ttl \<Longrightarrow> counter (snd (cc_incr C k ttl w)) k' = counter w k'"
  by (simp add: counter_def incr_entry_other)

text \<open>An increment of a live counter keeps its window; the window is opened by the first one.\<close>

lemma incr_expiry:
  assumes "0 < ttl"
  shows "map_option snd (entry (snd (cc_incr C k ttl w)) k) =
    Some (case entry w k of None \<Rightarrow> At (now w + ttl * 1000) | Some (_, x) \<Rightarrow> x)"
  using assms by (cases "entry w k") (auto simp: incr_fresh_view incr_present_view)

fun incrs :: "nat \<Rightarrow> string \<Rightarrow> int \<Rightarrow> 'w \<Rightarrow> int option list \<times> 'w" where
  "incrs 0 k ttl w = ([], w)"
| "incrs (Suc m) k ttl w =
     (case cc_incr C k ttl w of (r, w') \<Rightarrow>
        let (rs, w'') = incrs m k ttl w'
        in ((case r of Inl _ \<Rightarrow> None | Inr n \<Rightarrow> n) # rs, w''))"

text \<open>Within a window the increments count up one by one, so at most one of them returns 1.\<close>

lemma incrs_results:
  assumes "counter w k = Some n" "0 < ttl"
  shows "fst (incrs m k ttl w) = map (\<lambda>i. Some (n + 1 + int i)) [0..<m]"
  using assms(1)
proof (induction m arbitrary: w n)
  case 0
  show ?case by simp
next
  case (Suc m)
  let ?w = "snd (cc_incr C k ttl w)"
  have c: "counter ?w k = Some (n + 1)" using Suc.prems assms(2) by (rule incr_counter)
  have "fst (incrs (Suc m) k ttl w) = Some (n + 1) # fst (incrs m k ttl ?w)"
    using incr_counts [OF Suc.prems, of ttl] by (auto simp: split_beta Let_def)
  also have "\<dots> = Some (n + 1) # map (\<lambda>i. Some (n + 1 + 1 + int i)) [0..<m]"
    by (simp add: Suc.IH [OF c])
  also have "\<dots> = map (\<lambda>i. Some (n + 1 + int i)) [0..<Suc m]"
    by (simp add: map_upt_Suc add_ac del: upt_Suc)
  finally show ?case .
qed

lemma incrs_window:
  assumes "0 < ttl" "entry w k = Some (v, x)"
  shows "map_option snd (entry (snd (incrs m k ttl w)) k) = Some x"
  using assms(2)
proof (induction m arbitrary: w v)
  case 0
  then show ?case by simp
next
  case (Suc m)
  obtain v' where "entry (snd (cc_incr C k ttl w)) k = Some (v', x)"
    using incr_expiry [OF assms(1), of k w] Suc.prems by auto
  from Suc.IH [OF this] show ?case by (simp add: split_beta Let_def)
qed

end

subsection \<open>The in-memory client keeps the contract\<close>

definition mem_entry :: "'w cache_world_scheme \<Rightarrow> cache_view" where
  "mem_entry w k = (case jm_get (cache_store w) k of
     None \<Rightarrow> None
   | Some e \<Rightarrow> if expired (ce_expiresAtMs e) (clock w) then None else Some (ce_value e, ce_expiresAtMs e))"

lemma clock_put_entry [simp]: "clock (put_entry k e w) = clock w"
  by (simp add: put_entry_def)

lemma mem_entry_put [simp]:
  "mem_entry (put_entry k e w) = (mem_entry w)
     (k := if expired (ce_expiresAtMs e) (clock w) then None else Some (ce_value e, ce_expiresAtMs e))"
  by (rule ext) (auto simp: mem_entry_def put_entry_def split: option.split)

lemma mem_entry_delete [simp]:
  "mem_entry (w\<lparr>cache_store := jm_delete k (cache_store w)\<rparr>) = (mem_entry w)(k := None)"
  by (rule ext) (auto simp: mem_entry_def split: option.split)

lemma cache_live_result:
  "fst (cache_live k w) =
     Inr (map_option (\<lambda>(v, x). \<lparr>ce_value = v, ce_expiresAtMs = x\<rparr>) (mem_entry w k))"
  by (auto simp: cache_live_def mem_entry_def split: option.splits)

lemma cache_live_view [simp]: "mem_entry (snd (cache_live k w)) = mem_entry w"
proof (cases "\<exists>e. jm_get (cache_store w) k = Some e \<and> expired (ce_expiresAtMs e) (clock w)")
  case True
  then have "mem_entry w k = None" by (auto simp: mem_entry_def)
  then have "(mem_entry w)(k := None) = mem_entry w" by auto
  with True show ?thesis by (auto simp: cache_live_def)
next
  case False
  then show ?thesis by (auto simp: cache_live_def split: option.splits)
qed

lemma cache_live_clock [simp]: "clock (snd (cache_live k w)) = clock w"
  by (auto simp: cache_live_def split: option.splits)

lemma cache_get_result: "fst (cache_get k w) = Inr (map_option fst (mem_entry w k))"
  by (cases "mem_entry w k") (auto simp: cache_get_def prog_simps cache_live_result)

lemma cache_get_view [simp]: "mem_entry (snd (cache_get k w)) = mem_entry w"
  by (simp add: cache_get_def prog_simps cache_live_result)

lemma cache_get_clock [simp]: "clock (snd (cache_get k w)) = clock w"
  by (simp add: cache_get_def prog_simps cache_live_result)

lemma cache_mget_laws:
  "fst (cache_mget ks w) = Inr (map (\<lambda>k. map_option fst (mem_entry w k)) ks) \<and>
   mem_entry (snd (cache_mget ks w)) = mem_entry w \<and> clock (snd (cache_mget ks w)) = clock w"
  by (induction ks arbitrary: w) (simp_all add: prog_simps cache_get_result)

interpretation mem_cache: cache_laws in_memory_cache mem_entry clock tick
proof (unfold_locales, goal_cases)
  case (2 d w k)
  then show ?case
    by (auto simp: mem_entry_def tick_def expired_mono split: option.splits dest: expired_mono)
next
  case (15 w k ttl)
  then show ?case
    by (simp add: in_memory_cache_def cache_incr_def prog_simps cache_live_result)
next
  case (16 w k ttl)
  then show ?case
    by (simp add: in_memory_cache_def cache_incr_def prog_simps cache_live_result)
next
  case (17 w k v x ttl)
  then show ?case
    by (simp add: in_memory_cache_def cache_incr_def prog_simps cache_live_result Let_def)
next
  case (18 w k v x ttl)
  then have live: "\<not> expired x (clock w)" by (auto simp: mem_entry_def split: option.splits if_splits)
  show ?case
    using 18 live
    by (cases "value_int v")
      (auto simp: in_memory_cache_def cache_incr_def prog_simps cache_live_result Let_def)
next
  case (19 k ttl w)
  show ?case
    by (cases "mem_entry w k")
      (auto simp: in_memory_cache_def cache_incr_def prog_simps cache_live_result Let_def)
qed (auto simp: in_memory_cache_def cache_get_result cache_set_def cache_del_def prog_simps
       cache_mget_laws)

end
