(* ===== verification/Handle_Policy.thy ===== *)
theory Handle_Policy
  imports Prelude
begin

section \<open>Handles, reserved names and the official account (\<open>auth/handle-policy.ts\<close>, \<open>auth/reserved-handles.ts\<close>, \<open>auth/official-account.ts\<close>, \<open>auth/operator-target.ts\<close>)\<close>

text \<open>
  Who may take which handle, and when.  The format check is the contract's \<open>HANDLE_REGEX\<close>, a parameter
  \<open>handle_ok\<close>; the date in a refusal is printed by a parameter \<open>isoDate\<close> (\<open>toISOString\<close>).
\<close>

subsection \<open>The rename cooldown\<close>

definition HANDLE_RENAME_COOLDOWN_MS :: int where
  "HANDLE_RENAME_COOLDOWN_MS = 30 * 24 * 60 * 60 * 1000"

text \<open>The instant from which the handle may change again, when that is still to come.\<close>

definition handleChangeableAtFrom :: "int option \<Rightarrow> int \<Rightarrow> int option" where
  "handleChangeableAtFrom handleChangedAt now =
     (case handleChangedAt of
        None \<Rightarrow> None
      | Some at \<Rightarrow>
          (let next = at + HANDLE_RENAME_COOLDOWN_MS in if next > now then Some next else None))"

definition handleChanged :: "string option \<Rightarrow> string \<Rightarrow> bool" where
  "handleChanged current submitted \<longleftrightarrow>
     toLowerCase (case current of None \<Rightarrow> [] | Some h \<Rightarrow> h) \<noteq> toLowerCase submitted"

record handle_write_input =
  hw_current :: "string option"
  hw_submitted :: string
  hw_profileComplete :: bool
  hw_handleChangedAt :: "int option"
  hw_isTaken :: bool
  hw_now :: int

definition decideHandleWrite ::
  "(string \<Rightarrow> bool) \<Rightarrow> (int \<Rightarrow> string) \<Rightarrow> handle_write_input \<Rightarrow> app_error + (string \<times> int option)" where
  "decideHandleWrite handle_ok isoDate input =
     (let submitted = trim (hw_submitted input)
      in if \<not> handle_ok submitted
         then Inl (ValidationErr [(''handle'', ''That username isn't a valid format.'')] None)
         else if hw_isTaken input then Inl (ConflictErr (Some ''That username is taken.''))
         else if hw_profileComplete input
         then (case handleChangeableAtFrom (hw_handleChangedAt input) (hw_now input) of
                 Some next \<Rightarrow>
                   Inl (RateLimited (Some (''You can change your username again on '' @ isoDate next @ ''.'')))
               | None \<Rightarrow> Inr (submitted, Some (hw_now input)))
         else Inr (submitted, None))"

subsection \<open>Reserved handles\<close>

definition RESERVED_HANDLES :: "string list" where
  "RESERVED_HANDLES =
     [''admin'', ''administrator'', ''civfix'', ''support'', ''help'', ''about'', ''settings'', ''me'',
      ''login'', ''logout'', ''register'', ''api'', ''city'', ''official'', ''mod'', ''moderator'',
      ''team'', ''staff'', ''reviewer'', ''root'', ''system'', ''null'', ''undefined'']"

definition TOMBSTONE_HANDLE_PREFIX :: string where
  "TOMBSTONE_HANDLE_PREFIX = ''deleted_''"

definition GENERATED_HANDLE_HEX_LENGTH :: nat where
  "GENERATED_HANDLE_HEX_LENGTH = 12"

definition is_hex :: "char \<Rightarrow> bool" where
  "is_hex c \<longleftrightarrow> is_digit c \<or> (let n = (of_char c :: nat) in 97 \<le> n \<and> n \<le> 102)"

text \<open>\<open>/^deleted_[0-9a-f]{12}$/\<close>\<close>

definition TOMBSTONE_HANDLE_RE :: "string \<Rightarrow> bool" where
  "TOMBSTONE_HANDLE_RE h \<longleftrightarrow>
     startsWith h TOMBSTONE_HANDLE_PREFIX \<and>
     (let rest = drop (length TOMBSTONE_HANDLE_PREFIX) h
      in length rest = GENERATED_HANDLE_HEX_LENGTH \<and> list_all is_hex rest)"

definition isReservedHandle :: "string \<Rightarrow> bool" where
  "isReservedHandle handle =
     (let h = toLowerCase (trim handle)
      in h \<in> set (map toLowerCase RESERVED_HANDLES) \<or> TOMBSTONE_HANDLE_RE h)"

definition uuidHexPrefix :: "string \<Rightarrow> string" where
  "uuidHexPrefix uuid = toLowerCase (take GENERATED_HANDLE_HEX_LENGTH (filter (\<lambda>c. c \<noteq> CHR ''-'') uuid))"

definition generatePlaceholderHandle :: "string \<Rightarrow> string" where
  "generatePlaceholderHandle uuid = ''user'' @ uuidHexPrefix uuid"

definition generateTombstoneHandle :: "string \<Rightarrow> string" where
  "generateTombstoneHandle uuid = TOMBSTONE_HANDLE_PREFIX @ uuidHexPrefix uuid"

subsection \<open>The official account\<close>

definition CIVFIX_OFFICIAL_USER_ID :: string where
  "CIVFIX_OFFICIAL_USER_ID = ''00000000-0000-4000-8000-00000000c1f1''"

definition CIVFIX_OFFICIAL_DISPLAY_NAME :: string where
  "CIVFIX_OFFICIAL_DISPLAY_NAME = ''CivFix''"

definition isOfficialAccount :: "string option \<Rightarrow> bool" where
  "isOfficialAccount userId =
     (case userId of None \<Rightarrow> False | Some u \<Rightarrow> toLowerCase u = CIVFIX_OFFICIAL_USER_ID)"

text \<open>
  The lookalike key of a display name, on ASCII names: the look-alikes of the letter \<open>i\<close> are folded
  into it and everything but letters and digits is dropped (Unicode folding is the identity there).
\<close>

definition NAME_LOOKALIKES :: "char \<Rightarrow> char" where
  "NAME_LOOKALIKES c =
     (if c = CHR ''1'' \<or> c = CHR ''!'' \<or> c = CHR ''|'' \<or> c = CHR ''l'' then CHR ''i'' else c)"

definition NAME_KEY_CHAR_RE :: "char \<Rightarrow> bool" where
  "NAME_KEY_CHAR_RE c \<longleftrightarrow> is_digit c \<or> (let n = (of_char c :: nat) in 97 \<le> n \<and> n \<le> 122)"

definition nameKey :: "string \<Rightarrow> string" where
  "nameKey name = filter NAME_KEY_CHAR_RE (map NAME_LOOKALIKES (toLowerCase name))"

definition impersonatesOfficialName :: "string \<Rightarrow> bool" where
  "impersonatesOfficialName name \<longleftrightarrow> nameKey name = nameKey CIVFIX_OFFICIAL_DISPLAY_NAME"

definition newAccountDisplayName :: "string \<Rightarrow> string \<Rightarrow> string" where
  "newAccountDisplayName name fallback = (if impersonatesOfficialName name then fallback else name)"

definition OPERATOR_ROLE :: string where
  "OPERATOR_ROLE = ''operator''"

definition isOperatorRole :: "string option \<Rightarrow> bool" where
  "isOperatorRole role \<longleftrightarrow> role = Some OPERATOR_ROLE"

definition assertTargetIsNotOperatorRole :: "string option \<Rightarrow> string \<Rightarrow> ('w, unit) prog" where
  "assertTargetIsNotOperatorRole role verb =
     (if isOperatorRole role
      then raise (Forbidden (Some (''You cannot '' @ verb @ '' an operator account from the console.'')))
      else ret ())"

definition assertTargetIsNotOfficialAccount :: "string \<Rightarrow> string \<Rightarrow> ('w, unit) prog" where
  "assertTargetIsNotOfficialAccount userId verb =
     (if isOfficialAccount (Some userId)
      then raise (Forbidden (Some (''You cannot '' @ verb @ '' the official CivFix account from the console.'')))
      else ret ())"

subsection \<open>Properties\<close>

text \<open>A decided write is a trimmed, well-formed, free handle, and the clock it stamps is the rename's.\<close>

lemma decideHandleWrite_Inr:
  assumes "decideHandleWrite handle_ok isoDate input = Inr (h, stamp)"
  shows "h = trim (hw_submitted input) \<and> handle_ok h \<and> \<not> hw_isTaken input \<and>
    stamp = (if hw_profileComplete input then Some (hw_now input) else None)"
  using assms by (auto simp: decideHandleWrite_def Let_def split: if_splits option.splits)

text \<open>Two renames accepted in a row are at least the cooldown apart.\<close>

lemma rename_cooldown:
  assumes "decideHandleWrite handle_ok isoDate input = Inr (h, Some stamp)"
    and "hw_profileComplete input'" "hw_handleChangedAt input' = Some stamp"
    and "decideHandleWrite handle_ok isoDate input' = Inr (h', stamp')"
  shows "stamp + HANDLE_RENAME_COOLDOWN_MS \<le> hw_now input'"
  using assms(2-4)
  by (auto simp: decideHandleWrite_def handleChangeableAtFrom_def Let_def
      split: if_splits option.splits)

text \<open>A tombstone handle is reserved, so no live account can take the handle of an erased one.\<close>

definition uuid_like :: "string \<Rightarrow> bool" where
  "uuid_like u \<longleftrightarrow> list_all (\<lambda>c. is_hex c \<or> c = CHR ''-'') u \<and>
     12 \<le> length (filter (\<lambda>c. c \<noteq> CHR ''-'') u)"

lemma is_hex_plain: "is_hex c \<Longrightarrow> \<not> is_space c \<and> lower_char c = c"
  by (auto simp: is_hex_def is_digit_def is_space_def lower_char_def Let_def)

lemma uuidHexPrefix_hex:
  assumes "uuid_like u"
  shows "list_all is_hex (uuidHexPrefix u)" "length (uuidHexPrefix u) = 12"
proof -
  let ?t = "take 12 (filter (\<lambda>c. c \<noteq> CHR ''-'') u)"
  have hex: "list_all is_hex ?t"
    using assms by (auto simp: uuid_like_def list_all_iff dest!: in_set_takeD)
  then have "map lower_char ?t = ?t"
    by (intro map_idI) (auto simp: list_all_iff dest: is_hex_plain)
  with hex show "list_all is_hex (uuidHexPrefix u)"
    by (simp add: uuidHexPrefix_def toLowerCase_def GENERATED_HANDLE_HEX_LENGTH_def)
  show "length (uuidHexPrefix u) = 12"
    using assms by (simp add: uuidHexPrefix_def uuid_like_def GENERATED_HANDLE_HEX_LENGTH_def)
qed

lemma trim_no_space: "list_all (\<lambda>c. \<not> is_space c) s \<Longrightarrow> trim s = s"
proof -
  assume a: "list_all (\<lambda>c. \<not> is_space c) s"
  have dw: "list_all (\<lambda>c. \<not> is_space c) t \<Longrightarrow> dropWhile is_space t = t" for t by (cases t) auto
  from a have "list_all (\<lambda>c. \<not> is_space c) (rev s)" by (simp add: list_all_iff)
  with a show ?thesis by (simp add: trim_def trimStart_def trimEnd_def dw)
qed

lemma tombstone_reserved:
  assumes "uuid_like u"
  shows "isReservedHandle (generateTombstoneHandle u)"
proof -
  let ?p = "uuidHexPrefix u"
  have hex: "list_all is_hex ?p" and len: "length ?p = 12" using uuidHexPrefix_hex [OF assms] by auto
  have low: "map lower_char ?p = ?p"
    using hex by (intro map_idI) (auto simp: list_all_iff dest: is_hex_plain)
  have pre: "toLowerCase TOMBSTONE_HANDLE_PREFIX = TOMBSTONE_HANDLE_PREFIX"
    "list_all (\<lambda>c. \<not> is_space c) TOMBSTONE_HANDLE_PREFIX" by code_simp+
  have "list_all (\<lambda>c. \<not> is_space c) (TOMBSTONE_HANDLE_PREFIX @ ?p)"
    using pre(2) hex by (auto simp: list_all_iff dest: is_hex_plain)
  then have "trim (TOMBSTONE_HANDLE_PREFIX @ ?p) = TOMBSTONE_HANDLE_PREFIX @ ?p"
    by (rule trim_no_space)
  moreover have "toLowerCase (TOMBSTONE_HANDLE_PREFIX @ ?p) = TOMBSTONE_HANDLE_PREFIX @ ?p"
    using pre(1) low by (simp add: toLowerCase_append) (simp add: toLowerCase_def)
  moreover have "TOMBSTONE_HANDLE_RE (TOMBSTONE_HANDLE_PREFIX @ ?p)"
    using hex len by (simp add: TOMBSTONE_HANDLE_RE_def GENERATED_HANDLE_HEX_LENGTH_def)
  ultimately show ?thesis
    by (simp add: isReservedHandle_def generateTombstoneHandle_def Let_def)
qed

lemma newAccountDisplayName_safe:
  "\<not> impersonatesOfficialName fallback \<Longrightarrow> \<not> impersonatesOfficialName (newAccountDisplayName name fallback)"
  by (simp add: newAccountDisplayName_def)

end
