(* ===== verification/Auth_Stores.thy ===== *)
theory Auth_Stores
  imports Cache Handle_Policy
begin

section \<open>The stores of the auth subsystem (\<open>auth/stores.ts\<close>)\<close>

text \<open>
  Sessions, users, provider identities and one-time codes: the interfaces as records of operations, and
  the in-memory implementations on the fields of \<open>auth_world\<close>.  A random UUID is the next value of an
  injective supply \<open>uuid_of\<close> (a parameter): the model's counterpart of \<open>randomUUID()\<close>, whose values do
  not repeat.
\<close>

subsection \<open>Rows\<close>

record session_row =
  row_id :: string
  row_userId :: string
  row_roles :: "string list"
  row_createdAt :: int
  row_expiresAt :: int
  row_lastSeenAt :: int
  row_userAgent :: "string option"
  row_ip :: "string option"

record session_record = session_row +
  rec_accountStatus :: account_status

record session_insert =
  si_id :: string
  si_userId :: string
  si_roles :: "string list"
  si_expiresAt :: int
  si_lastSeenAt :: int
  si_userAgent :: "string option"
  si_ip :: "string option"

record user_record =
  u_id :: string
  u_role :: string
  u_displayName :: string
  u_handle :: "string option"
  u_handleChangedAt :: "int option"
  u_email :: "string option"
  u_emailVerified :: bool
  u_avatarUrl :: "string option"
  u_avatarMedia :: "string option"
  u_profileComplete :: bool
  u_allowDirectMessages :: bool
  u_showVolunteerHours :: "bool option"
  u_locale :: string
  u_primaryOrganizationId :: "string option"
  u_createdAt :: int
  u_deletedAt :: "int option"

datatype email_conflict_policy = ReturnExisting | Reject

record create_user_input =
  cu_displayName :: string
  cu_role :: "string option"
  cu_emailVerified :: "bool option"
  cu_avatarUrl :: "string option"
  cu_handle :: "string option"
  cu_profileComplete :: "bool option"
  cu_onEmailConflict :: "email_conflict_policy option"

record update_profile_input =
  up_handle :: string
  up_displayName :: string

text \<open>An absent field (\<open>undefined\<close>) is \<^const>\<open>None\<close>; the organization may also be set to \<open>null\<close>.\<close>

record update_settings_input =
  st_allowDirectMessages :: "bool option"
  st_locale :: "string option"
  st_showVolunteerHours :: "bool option"
  st_primaryOrganizationId :: "string option option"

record oauth_identity =
  oi_id :: string
  oi_userId :: string
  oi_provider :: string
  oi_providerUserId :: string

record otp_record =
  otp_id :: string
  otp_email :: string
  otp_codeHash :: string
  otp_expiresAt :: int
  otp_attempts :: int
  otp_consumedAt :: "int option"
  otp_createdAt :: int

record auth_world = cache_world +
  session_rows :: "(string, session_row) js_map"
  session_statuses :: "(string, account_status) js_map"
  user_rows :: "(string, user_record) js_map"
  user_statuses :: "(string, account_status) js_map"
  memberships :: "(string, string list) js_map"
  identity_rows :: "(string, oauth_identity) js_map"
  otp_rows :: "otp_record list"
  entropy :: nat

definition randomUUID :: "(nat \<Rightarrow> string) \<Rightarrow> ('w auth_world_scheme, string) prog" where
  "randomUUID uuid_of = (\<lambda>w. (Inr (uuid_of (entropy w)), w\<lparr>entropy := Suc (entropy w)\<rparr>))"

subsection \<open>Sessions\<close>

record 'w session_store =
  ss_insert :: "session_insert \<Rightarrow> ('w, unit) prog"
  ss_findById :: "string \<Rightarrow> ('w, session_record option) prog"
  ss_updateExpiry :: "string \<Rightarrow> int \<Rightarrow> int \<Rightarrow> ('w, unit) prog"
  ss_deleteById :: "string \<Rightarrow> ('w, unit) prog"
  ss_deleteAllForUser :: "string \<Rightarrow> ('w, string list) prog"

definition session_insert_row :: "session_insert \<Rightarrow> ('w auth_world_scheme, unit) prog" where
  "session_insert_row row = writes (\<lambda>w. w\<lparr>session_rows := jm_set (si_id row)
     \<lparr>row_id = si_id row, row_userId = si_userId row, row_roles = si_roles row,
      row_createdAt = si_lastSeenAt row, row_expiresAt = si_expiresAt row,
      row_lastSeenAt = si_lastSeenAt row, row_userAgent = si_userAgent row, row_ip = si_ip row\<rparr>
     (session_rows w)\<rparr>)"

definition session_setAccountStatus :: "string \<Rightarrow> account_status \<Rightarrow> ('w auth_world_scheme, unit) prog" where
  "session_setAccountStatus userId status =
     writes (\<lambda>w. w\<lparr>session_statuses := jm_set userId status (session_statuses w)\<rparr>)"

definition session_status :: "'w auth_world_scheme \<Rightarrow> string \<Rightarrow> account_status" where
  "session_status w userId = (case jm_get (session_statuses w) userId of None \<Rightarrow> Active | Some s \<Rightarrow> s)"

definition session_findById :: "string \<Rightarrow> ('w auth_world_scheme, session_record option) prog" where
  "session_findById hash = reads (\<lambda>w.
     map_option (\<lambda>row. session_row.extend row \<lparr>rec_accountStatus = session_status w (row_userId row)\<rparr>)
       (jm_get (session_rows w) hash))"

definition session_updateExpiry :: "string \<Rightarrow> int \<Rightarrow> int \<Rightarrow> ('w auth_world_scheme, unit) prog" where
  "session_updateExpiry hash expiresAt lastSeen = writes (\<lambda>w.
     case jm_get (session_rows w) hash of
       None \<Rightarrow> w
     | Some row \<Rightarrow> w\<lparr>session_rows := jm_set hash
         (row\<lparr>row_expiresAt := expiresAt, row_lastSeenAt := lastSeen\<rparr>) (session_rows w)\<rparr>)"

definition session_deleteById :: "string \<Rightarrow> ('w auth_world_scheme, unit) prog" where
  "session_deleteById hash = writes (\<lambda>w. w\<lparr>session_rows := jm_delete hash (session_rows w)\<rparr>)"

definition session_deleteAllForUser :: "string \<Rightarrow> ('w auth_world_scheme, string list) prog" where
  "session_deleteAllForUser userId = (\<lambda>w.
     (Inr (map fst (filter (\<lambda>(_, row). row_userId row = userId) (session_rows w))),
      w\<lparr>session_rows := filter (\<lambda>(_, row). row_userId row \<noteq> userId) (session_rows w)\<rparr>))"

definition in_memory_sessions :: "'w auth_world_scheme session_store" where
  "in_memory_sessions =
     \<lparr>ss_insert = session_insert_row, ss_findById = session_findById,
      ss_updateExpiry = session_updateExpiry, ss_deleteById = session_deleteById,
      ss_deleteAllForUser = session_deleteAllForUser\<rparr>"

subsection \<open>Users\<close>

record 'w user_store =
  us_findById :: "string \<Rightarrow> ('w, user_record option) prog"
  us_findByEmail :: "string \<Rightarrow> ('w, user_record option) prog"
  us_findByHandle :: "string \<Rightarrow> ('w, user_record option) prog"
  us_create :: "string option \<Rightarrow> create_user_input \<Rightarrow> ('w, user_record) prog"
  us_updateProfile :: "string \<Rightarrow> update_profile_input \<Rightarrow> ('w, user_record) prog"
  us_setRole :: "string \<Rightarrow> string \<Rightarrow> ('w, user_record) prog"
  us_updateSettings :: "string \<Rightarrow> update_settings_input \<Rightarrow> ('w, user_record) prog"
  us_softDeleteAndAnonymize :: "string \<Rightarrow> ('w, user_record) prog"
  us_accountStatus :: "string \<Rightarrow> ('w, account_status) prog"

definition put_user :: "string \<Rightarrow> user_record \<Rightarrow> 'w auth_world_scheme \<Rightarrow> 'w auth_world_scheme" where
  "put_user i row w = w\<lparr>user_rows := jm_set i row (user_rows w)\<rparr>"

definition user_accountStatus :: "string \<Rightarrow> ('w auth_world_scheme, account_status) prog" where
  "user_accountStatus i =
     reads (\<lambda>w. case jm_get (user_statuses w) i of None \<Rightarrow> Active | Some s \<Rightarrow> s)"

definition user_setAccountStatus :: "string \<Rightarrow> account_status \<Rightarrow> ('w auth_world_scheme, unit) prog" where
  "user_setAccountStatus i status =
     writes (\<lambda>w. w\<lparr>user_statuses := jm_set i status (user_statuses w)\<rparr>)"

definition user_findById :: "string \<Rightarrow> ('w auth_world_scheme, user_record option) prog" where
  "user_findById i = reads (\<lambda>w. jm_get (user_rows w) i)"

definition rowByEmail :: "string \<Rightarrow> 'w auth_world_scheme \<Rightarrow> user_record option" where
  "rowByEmail email w =
     find (\<lambda>row. case u_email row of None \<Rightarrow> False | Some e \<Rightarrow> toLowerCase e = toLowerCase email)
       (map snd (user_rows w))"

definition user_findByEmail :: "string \<Rightarrow> ('w auth_world_scheme, user_record option) prog" where
  "user_findByEmail email = reads (rowByEmail email)"

definition rowByHandle :: "string \<Rightarrow> 'w auth_world_scheme \<Rightarrow> user_record option" where
  "rowByHandle handle w =
     find (\<lambda>row. case u_handle row of None \<Rightarrow> False | Some h \<Rightarrow> toLowerCase h = toLowerCase handle)
       (map snd (user_rows w))"

definition user_findByHandle :: "string \<Rightarrow> ('w auth_world_scheme, user_record option) prog" where
  "user_findByHandle handle = reads (rowByHandle handle)"

abbreviation or_else :: "'a option \<Rightarrow> 'a \<Rightarrow> 'a" where
  "or_else x d \<equiv> (case x of None \<Rightarrow> d | Some y \<Rightarrow> y)"

definition new_user_row :: "string \<Rightarrow> string option \<Rightarrow> create_user_input \<Rightarrow> int \<Rightarrow> user_record" where
  "new_user_row i email input at =
     \<lparr>u_id = i,
      u_role = or_else (cu_role input) ''citizen'',
      u_displayName = cu_displayName input,
      u_handle = Some (or_else (cu_handle input) (generatePlaceholderHandle i)),
      u_handleChangedAt = None,
      u_email = map_option toLowerCase email,
      u_emailVerified = (email \<noteq> None \<and> or_else (cu_emailVerified input) False),
      u_avatarUrl = cu_avatarUrl input,
      u_avatarMedia = None,
      u_profileComplete = or_else (cu_profileComplete input) False,
      u_allowDirectMessages = True,
      u_showVolunteerHours = None,
      u_locale = ''en'',
      u_primaryOrganizationId = None,
      u_createdAt = at,
      u_deletedAt = None\<rparr>"

definition user_create ::
  "(nat \<Rightarrow> string) \<Rightarrow> string option \<Rightarrow> create_user_input \<Rightarrow> ('w auth_world_scheme, user_record) prog" where
  "user_create uuid_of email input =
     seq (reads (\<lambda>w. case email of None \<Rightarrow> None | Some e \<Rightarrow> rowByEmail e w)) (\<lambda>existing.
     case existing of
       Some row \<Rightarrow>
         if cu_onEmailConflict input = Some Reject then raise EmailTakenErr else ret row
     | None \<Rightarrow>
         seq (randomUUID uuid_of) (\<lambda>i.
         seq (reads clock) (\<lambda>at.
         (let row = new_user_row i email input at
          in seq (writes (put_user i row)) (\<lambda>_. ret row)))))"

definition user_updateProfile ::
  "(string \<Rightarrow> bool) \<Rightarrow> (int \<Rightarrow> string) \<Rightarrow> string \<Rightarrow> update_profile_input \<Rightarrow>
   ('w auth_world_scheme, user_record) prog" where
  "user_updateProfile handle_ok isoDate i input =
     seq (user_findById i) (\<lambda>found.
     case found of
       None \<Rightarrow> raise (NotFound (Some ''User not found.''))
     | Some row \<Rightarrow>
         seq (if handleChanged (u_handle row) (up_handle input)
              then seq (user_findByHandle (up_handle input)) (\<lambda>taken.
                   seq (reads clock) (\<lambda>now.
                   case decideHandleWrite handle_ok isoDate
                          \<lparr>hw_current = u_handle row, hw_submitted = up_handle input,
                           hw_profileComplete = u_profileComplete row,
                           hw_handleChangedAt = u_handleChangedAt row,
                           hw_isTaken = (case taken of None \<Rightarrow> False | Some t \<Rightarrow> u_id t \<noteq> i),
                           hw_now = now\<rparr> of
                     Inl e \<Rightarrow> raise e
                   | Inr (h, at) \<Rightarrow> ret (Some h, at)))
              else ret (u_handle row, u_handleChangedAt row)) (\<lambda>(handle, handleChangedAt).
         (let next = row\<lparr>u_handle := handle, u_handleChangedAt := handleChangedAt,
                         u_displayName := up_displayName input, u_profileComplete := True\<rparr>
          in seq (writes (put_user i next)) (\<lambda>_. ret next))))"

definition user_setRole :: "string \<Rightarrow> string \<Rightarrow> ('w auth_world_scheme, user_record) prog" where
  "user_setRole i role =
     seq (user_findById i) (\<lambda>found.
     case found of
       None \<Rightarrow> raise (PlainError ''InMemoryUserStore.setRole: user not found'')
     | Some row \<Rightarrow>
         (let next = row\<lparr>u_role := role\<rparr> in seq (writes (put_user i next)) (\<lambda>_. ret next)))"

definition PRIMARY_ORGANIZATION_NOT_A_MEMBER :: string where
  "PRIMARY_ORGANIZATION_NOT_A_MEMBER = ''Pick an organization you belong to, or clear the selection.''"

definition user_updateSettings :: "string \<Rightarrow> update_settings_input \<Rightarrow> ('w auth_world_scheme, user_record) prog" where
  "user_updateSettings i input =
     seq (user_findById i) (\<lambda>found.
     case found of
       None \<Rightarrow> raise (PlainError ''InMemoryUserStore.updateSettings: user not found'')
     | Some row \<Rightarrow>
         seq (reads (\<lambda>w. or_else (jm_get (memberships w) i) [])) (\<lambda>orgs.
         if (case st_primaryOrganizationId input of Some (Some org) \<Rightarrow> org \<notin> set orgs | _ \<Rightarrow> False)
         then raise (ValidationErr [(''primaryOrganizationId'', PRIMARY_ORGANIZATION_NOT_A_MEMBER)] None)
         else
           (let next = row\<lparr>u_allowDirectMessages := or_else (st_allowDirectMessages input) (u_allowDirectMessages row),
                           u_locale := or_else (st_locale input) (u_locale row),
                           u_showVolunteerHours :=
                             (case st_showVolunteerHours input of None \<Rightarrow> u_showVolunteerHours row | Some b \<Rightarrow> Some b),
                           u_primaryOrganizationId :=
                             or_else (st_primaryOrganizationId input) (u_primaryOrganizationId row)\<rparr>
            in seq (writes (put_user i next)) (\<lambda>_. ret next))))"

definition user_seedMembership :: "string \<Rightarrow> string \<Rightarrow> ('w auth_world_scheme, unit) prog" where
  "user_seedMembership userId organizationId = writes (\<lambda>w.
     w\<lparr>memberships := jm_set userId
         (set_add organizationId (or_else (jm_get (memberships w) userId) [])) (memberships w)\<rparr>)"

text \<open>
  The label of an erased author (\<open>DELETED_USER_LABEL\<close>) is the contract's, a parameter; \<open>cascades\<close> are the
  registered erasure callbacks.
\<close>

definition user_softDeleteAndAnonymize ::
  "(nat \<Rightarrow> string) \<Rightarrow> string \<Rightarrow> (string \<Rightarrow> ('w auth_world_scheme, unit) prog) list \<Rightarrow> string \<Rightarrow>
   ('w auth_world_scheme, user_record) prog" where
  "user_softDeleteAndAnonymize uuid_of deletedLabel cascades i =
     seq (user_findById i) (\<lambda>found.
     case found of
       None \<Rightarrow> raise (PlainError ''InMemoryUserStore.softDeleteAndAnonymize: user not found'')
     | Some row \<Rightarrow>
         seq (for_each (\<lambda>cascade. cascade i) cascades) (\<lambda>_.
         seq (reads clock) (\<lambda>at.
         seq (randomUUID uuid_of) (\<lambda>uuid.
         (let next = row\<lparr>u_deletedAt := Some (or_else (u_deletedAt row) at),
                         u_allowDirectMessages := False,
                         u_email := None,
                         u_emailVerified := False,
                         u_displayName := deletedLabel,
                         u_handle := Some (generateTombstoneHandle uuid),
                         u_avatarUrl := None,
                         u_avatarMedia := None,
                         u_primaryOrganizationId := None\<rparr>
          in seq (writes (put_user i next)) (\<lambda>_. ret next))))))"

definition user_seed :: "user_record \<Rightarrow> ('w auth_world_scheme, unit) prog" where
  "user_seed row = writes (put_user (u_id row) row)"

text \<open>\<open>makeInMemoryStores\<close> registers the deletion of the user's sessions as the one cascade.\<close>

definition in_memory_users ::
  "(nat \<Rightarrow> string) \<Rightarrow> (string \<Rightarrow> bool) \<Rightarrow> (int \<Rightarrow> string) \<Rightarrow> string \<Rightarrow> 'w auth_world_scheme user_store" where
  "in_memory_users uuid_of handle_ok isoDate deletedLabel =
     \<lparr>us_findById = user_findById, us_findByEmail = user_findByEmail, us_findByHandle = user_findByHandle,
      us_create = user_create uuid_of, us_updateProfile = user_updateProfile handle_ok isoDate,
      us_setRole = user_setRole, us_updateSettings = user_updateSettings,
      us_softDeleteAndAnonymize = user_softDeleteAndAnonymize uuid_of deletedLabel
        [\<lambda>i. seq (session_deleteAllForUser i) (\<lambda>_. ret ())],
      us_accountStatus = user_accountStatus\<rparr>"

subsection \<open>Provider identities\<close>

record 'w identity_store =
  is_findByProvider :: "string \<Rightarrow> string \<Rightarrow> ('w, oauth_identity option) prog"
  is_linkIdentity :: "string \<Rightarrow> string \<Rightarrow> string \<Rightarrow> ('w, unit) prog"
  is_deleteAllForUser :: "string \<Rightarrow> ('w, unit) prog"
  is_hasIdentityForUser :: "string \<Rightarrow> ('w, bool) prog"

definition identity_key :: "string \<Rightarrow> string \<Rightarrow> string" where
  "identity_key provider providerUserId = provider @ '':'' @ providerUserId"

definition identity_findByProvider :: "string \<Rightarrow> string \<Rightarrow> ('w auth_world_scheme, oauth_identity option) prog" where
  "identity_findByProvider provider providerUserId =
     reads (\<lambda>w. jm_get (identity_rows w) (identity_key provider providerUserId))"

definition identity_linkIdentity ::
  "(nat \<Rightarrow> string) \<Rightarrow> string \<Rightarrow> string \<Rightarrow> string \<Rightarrow> ('w auth_world_scheme, unit) prog" where
  "identity_linkIdentity uuid_of userId provider providerUserId =
     seq (randomUUID uuid_of) (\<lambda>i.
     writes (\<lambda>w. w\<lparr>identity_rows := jm_set (identity_key provider providerUserId)
       \<lparr>oi_id = i, oi_userId = userId, oi_provider = provider, oi_providerUserId = providerUserId\<rparr>
       (identity_rows w)\<rparr>))"

definition identity_deleteAllForUser :: "string \<Rightarrow> ('w auth_world_scheme, unit) prog" where
  "identity_deleteAllForUser userId =
     writes (\<lambda>w. w\<lparr>identity_rows := filter (\<lambda>(_, row). oi_userId row \<noteq> userId) (identity_rows w)\<rparr>)"

definition identity_hasIdentityForUser :: "string \<Rightarrow> ('w auth_world_scheme, bool) prog" where
  "identity_hasIdentityForUser userId =
     reads (\<lambda>w. list_ex (\<lambda>(_, row). oi_userId row = userId) (identity_rows w))"

definition in_memory_identities :: "(nat \<Rightarrow> string) \<Rightarrow> 'w auth_world_scheme identity_store" where
  "in_memory_identities uuid_of =
     \<lparr>is_findByProvider = identity_findByProvider, is_linkIdentity = identity_linkIdentity uuid_of,
      is_deleteAllForUser = identity_deleteAllForUser, is_hasIdentityForUser = identity_hasIdentityForUser\<rparr>"

subsection \<open>One-time codes\<close>

record 'w otp_store =
  os_invalidateActiveForEmail :: "string \<Rightarrow> ('w, unit) prog"
  os_insert :: "string \<Rightarrow> string \<Rightarrow> int \<Rightarrow> ('w, otp_record) prog"
  os_findLatestActive :: "string \<Rightarrow> int \<Rightarrow> ('w, otp_record option) prog"
  os_incrementAttempts :: "string \<Rightarrow> ('w, int) prog"
  os_markConsumed :: "string \<Rightarrow> int \<Rightarrow> ('w, bool) prog"

definition same_email :: "string \<Rightarrow> otp_record \<Rightarrow> bool" where
  "same_email email row \<longleftrightarrow> toLowerCase (otp_email row) = toLowerCase email"

definition otp_invalidateActiveForEmail :: "string \<Rightarrow> ('w auth_world_scheme, unit) prog" where
  "otp_invalidateActiveForEmail email = writes (\<lambda>w. w\<lparr>otp_rows :=
     map (\<lambda>row. if same_email email row \<and> otp_consumedAt row = None
                then row\<lparr>otp_consumedAt := Some (clock w)\<rparr> else row) (otp_rows w)\<rparr>)"

definition otp_insert ::
  "(nat \<Rightarrow> string) \<Rightarrow> string \<Rightarrow> string \<Rightarrow> int \<Rightarrow> ('w auth_world_scheme, otp_record) prog" where
  "otp_insert uuid_of email codeHash expiresAt =
     seq (randomUUID uuid_of) (\<lambda>i.
     seq (reads clock) (\<lambda>at.
     (let record = \<lparr>otp_id = i, otp_email = email, otp_codeHash = codeHash, otp_expiresAt = expiresAt,
                    otp_attempts = 0, otp_consumedAt = None, otp_createdAt = at\<rparr>
      in seq (writes (\<lambda>w. w\<lparr>otp_rows := otp_rows w @ [record]\<rparr>)) (\<lambda>_. ret record))))"

definition otp_active :: "string \<Rightarrow> int \<Rightarrow> otp_record \<Rightarrow> bool" where
  "otp_active email now row \<longleftrightarrow>
     same_email email row \<and> otp_consumedAt row = None \<and> \<not> otp_expiresAt row \<le> now"

fun latest_active :: "string \<Rightarrow> int \<Rightarrow> otp_record option \<Rightarrow> otp_record list \<Rightarrow> otp_record option" where
  "latest_active email now best [] = best"
| "latest_active email now best (row # rows) =
     (if \<not> otp_active email now row then latest_active email now best rows
      else if (case best of None \<Rightarrow> True | Some b \<Rightarrow> otp_createdAt row > otp_createdAt b)
      then latest_active email now (Some row) rows
      else latest_active email now best rows)"

definition otp_findLatestActive :: "string \<Rightarrow> int \<Rightarrow> ('w auth_world_scheme, otp_record option) prog" where
  "otp_findLatestActive email now = reads (\<lambda>w. latest_active email now None (otp_rows w))"

definition otp_row :: "'w auth_world_scheme \<Rightarrow> string \<Rightarrow> otp_record option" where
  "otp_row w i = find (\<lambda>r. otp_id r = i) (otp_rows w)"

definition otp_incrementAttempts :: "string \<Rightarrow> ('w auth_world_scheme, int) prog" where
  "otp_incrementAttempts i = (\<lambda>w.
     case otp_row w i of
       None \<Rightarrow> (Inr 0, w)
     | Some row \<Rightarrow>
         (Inr (otp_attempts row + 1),
          w\<lparr>otp_rows := update_first (\<lambda>r. otp_id r = i)
              (\<lambda>r. r\<lparr>otp_attempts := otp_attempts r + 1\<rparr>) (otp_rows w)\<rparr>))"

definition otp_markConsumed :: "string \<Rightarrow> int \<Rightarrow> ('w auth_world_scheme, bool) prog" where
  "otp_markConsumed i at = (\<lambda>w.
     case otp_row w i of
       None \<Rightarrow> (Inr False, w)
     | Some row \<Rightarrow>
         if otp_consumedAt row \<noteq> None then (Inr False, w)
         else (Inr True, w\<lparr>otp_rows := update_first (\<lambda>r. otp_id r = i)
                 (\<lambda>r. r\<lparr>otp_consumedAt := Some at\<rparr>) (otp_rows w)\<rparr>))"

definition in_memory_otps :: "(nat \<Rightarrow> string) \<Rightarrow> 'w auth_world_scheme otp_store" where
  "in_memory_otps uuid_of =
     \<lparr>os_invalidateActiveForEmail = otp_invalidateActiveForEmail, os_insert = otp_insert uuid_of,
      os_findLatestActive = otp_findLatestActive, os_incrementAttempts = otp_incrementAttempts,
      os_markConsumed = otp_markConsumed\<rparr>"

subsection \<open>The contract of a session store\<close>

text \<open>
  The abstract state of a session store: the row of a hash and the account status joined to a row.
  \<open>ok\<close> is the representation invariant, which every operation keeps.
\<close>

definition inserted_row :: "session_insert \<Rightarrow> session_row" where
  "inserted_row row =
     \<lparr>row_id = si_id row, row_userId = si_userId row, row_roles = si_roles row,
      row_createdAt = si_lastSeenAt row, row_expiresAt = si_expiresAt row,
      row_lastSeenAt = si_lastSeenAt row, row_userAgent = si_userAgent row, row_ip = si_ip row\<rparr>"

definition with_status :: "session_row \<Rightarrow> account_status \<Rightarrow> session_record" where
  "with_status r s = session_row.extend r \<lparr>rec_accountStatus = s\<rparr>"

lemma with_status_fields [simp]:
  "row_id (with_status r s) = row_id r" "row_userId (with_status r s) = row_userId r"
  "row_roles (with_status r s) = row_roles r" "row_createdAt (with_status r s) = row_createdAt r"
  "row_expiresAt (with_status r s) = row_expiresAt r" "rec_accountStatus (with_status r s) = s"
  by (simp_all add: with_status_def session_row.defs)

locale session_store_laws =
  fixes S :: "'w session_store"
    and rows :: "'w \<Rightarrow> string \<Rightarrow> session_row option"
    and status :: "'w \<Rightarrow> string \<Rightarrow> account_status"
    and ok :: "'w \<Rightarrow> bool"
  assumes find_result: "fst (ss_findById S h w) =
      Inr (map_option (\<lambda>r. with_status r (status w (row_userId r))) (rows w h))"
    and find_rows: "rows (snd (ss_findById S h w)) = rows w"
    and insert_result: "fst (ss_insert S row w) = Inr ()"
    and insert_rows: "rows (snd (ss_insert S row w)) = (rows w)(si_id row \<mapsto> inserted_row row)"
    and update_result: "fst (ss_updateExpiry S h x t w) = Inr ()"
    and update_rows: "rows (snd (ss_updateExpiry S h x t w)) =
      (rows w)(h := map_option (\<lambda>r. r\<lparr>row_expiresAt := x, row_lastSeenAt := t\<rparr>) (rows w h))"
    and delete_result: "fst (ss_deleteById S h w) = Inr ()"
    and delete_rows: "rows (snd (ss_deleteById S h w)) = (rows w)(h := None)"
    and delete_all_result: "ok w \<Longrightarrow> \<exists>ids. fst (ss_deleteAllForUser S u w) = Inr ids \<and> distinct ids \<and>
      set ids = {h. \<exists>r. rows w h = Some r \<and> row_userId r = u}"
    and delete_all_rows: "ok w \<Longrightarrow> rows (snd (ss_deleteAllForUser S u w)) =
      (\<lambda>h. case rows w h of None \<Rightarrow> None | Some r \<Rightarrow> if row_userId r = u then None else Some r)"
    and find_ok: "ok (snd (ss_findById S h w)) = ok w"
    and insert_ok: "ok w \<Longrightarrow> ok (snd (ss_insert S row w))"
    and update_ok: "ok w \<Longrightarrow> ok (snd (ss_updateExpiry S h x t w))"
    and delete_ok: "ok w \<Longrightarrow> ok (snd (ss_deleteById S h w))"
    and delete_all_ok: "ok w \<Longrightarrow> ok (snd (ss_deleteAllForUser S u w))"
    and store_status: "status (snd (ss_findById S h w)) = status w"
      "status (snd (ss_insert S row w)) = status w"
      "status (snd (ss_updateExpiry S h x t w)) = status w"
      "status (snd (ss_deleteById S h w)) = status w"
      "status (snd (ss_deleteAllForUser S u w)) = status w"

definition mem_session_rows :: "'w auth_world_scheme \<Rightarrow> string \<Rightarrow> session_row option" where
  "mem_session_rows w = jm_get (session_rows w)"

definition mem_sessions_ok :: "'w auth_world_scheme \<Rightarrow> bool" where
  "mem_sessions_ok w \<longleftrightarrow> jm_ok (session_rows w)"

lemmas session_store_defs =
  in_memory_sessions_def session_insert_row_def session_findById_def session_updateExpiry_def
  session_deleteById_def session_deleteAllForUser_def mem_session_rows_def mem_sessions_ok_def

lemma jm_keys_filter:
  "jm_ok m \<Longrightarrow> distinct (map fst (filter P m)) \<and> set (map fst (filter P m)) = {k. \<exists>v. jm_get m k = Some v \<and> P (k, v)}"
  by (auto simp: image_iff intro!: jm_ok_filter dest: map_of_SomeD intro: map_of_is_SomeI)

interpretation mem_sessions: session_store_laws in_memory_sessions mem_session_rows session_status mem_sessions_ok
proof (unfold_locales, goal_cases)
  case (9 w u)
  show ?case
    using jm_keys_filter [of "session_rows w" "\<lambda>(_, row). row_userId row = u"] 9
    by (simp add: session_store_defs)
qed (auto simp: session_store_defs prog_simps session_status_def inserted_row_def with_status_def
       js_map_simps fun_eq_iff map_option_case split: option.splits)

end
