(* ===== verification/Session_Service.thy ===== *)
theory Session_Service
  imports Auth_Stores
begin

section \<open>Sessions (\<open>auth/session-service.ts\<close>)\<close>

text \<open>
  A session is a durable row and a cached projection of it.  A projection authenticates only while it is
  unexpired, younger than the absolute maximum, its user carries no ban marker and its epoch is the
  user's current one; otherwise the row decides.  This theory translates the whole class and states the
  effect of every method on the views of the cache and of the store.  The SHA-256 digest and the random
  tokens are parameters (\<open>sd_sha256Hex\<close>, \<open>sd_generateToken\<close>); log lines are left out.
\<close>

subsection \<open>Constants and types\<close>

definition DEFAULT_SESSION_TTL_SECONDS :: int where
  "DEFAULT_SESSION_TTL_SECONDS = 30 * 24 * 60 * 60"

definition ABSOLUTE_SESSION_MAX_SECONDS :: int where
  "ABSOLUTE_SESSION_MAX_SECONDS = 90 * 24 * 60 * 60"

definition BANNED_MARKER_GRACE_SECONDS :: int where
  "BANNED_MARKER_GRACE_SECONDS = 60"

definition DEFAULT_SLIDE_GRANULARITY_MS :: int where
  "DEFAULT_SLIDE_GRANULARITY_MS = 60 * 60 * 1000"

definition BANNED_MARKER_VALUE :: string where
  "BANNED_MARKER_VALUE = ''1''"

definition MINT_REFUSED_MESSAGE :: string where
  "MINT_REFUSED_MESSAGE = ''This account cannot start a new session.''"

datatype session_source = FromCache | FromStore

record resolve_result =
  rr_userId :: string
  rr_roles :: "string list"
  rr_accountStatus :: account_status
  rr_source :: session_source
  rr_expiresAtMs :: int

record session_meta =
  sm_userAgent :: "string option"
  sm_ip :: "string option"
  sm_accountStatus :: "account_status option"

record cached_session =
  cs_userId :: string
  cs_roles :: "string list"
  cs_expiresAtMs :: int
  cs_createdAtMs :: int
  cs_epoch :: int
  cs_accountStatus :: account_status

record user_gate =
  ug_active :: bool
  ug_epoch :: int

text \<open>\<open>CACHE_MISS\<close> is distinct from \<open>null\<close>, a decided rejection.\<close>

datatype cache_lookup = CACHE_MISS | Decided "resolve_result option"

definition REVOKED_STATUSES :: "account_status list" where
  "REVOKED_STATUSES = [Banned]"

definition isMintRefused :: "account_status \<Rightarrow> bool" where
  "isMintRefused status \<longleftrightarrow> status = Banned \<or> status = Suspended"

record 'w session_user_lookup =
  su_accountStatus :: "string \<Rightarrow> ('w, account_status) prog"
  su_findRole :: "string \<Rightarrow> ('w, string option) prog"

record 'w session_deps =
  sd_store :: "'w session_store"
  sd_cache :: "'w cache_client"
  sd_users :: "'w session_user_lookup option"
  sd_ttlSeconds :: int
  sd_absoluteMaxSeconds :: int
  sd_slideGranularityMs :: int
  sd_now :: "'w \<Rightarrow> int"
  sd_generateToken :: "('w, string) prog"
  sd_sha256Hex :: "string \<Rightarrow> string"

definition sessionKey :: "string \<Rightarrow> string" where
  "sessionKey hash = ''sess:'' @ hash"

definition bannedKey :: "string \<Rightarrow> string" where
  "bannedKey userId = ''banned:'' @ userId"

definition epochKey :: "string \<Rightarrow> string" where
  "epochKey userId = ''sessepoch:'' @ userId"

definition parseEpoch :: "cache_value option \<Rightarrow> int" where
  "parseEpoch raw = (case raw of None \<Rightarrow> 0 | Some v \<Rightarrow> or_else (value_int v) 0)"

subsection \<open>Projections\<close>

definition json_of :: "cached_session \<Rightarrow> cache_value" where
  "json_of c = SessionDoc
     \<lparr>sj_userId = Some (cs_userId c), sj_roles = Some (cs_roles c),
      sj_expiresAtMs = Some (cs_expiresAtMs c), sj_createdAtMs = Some (cs_createdAtMs c),
      sj_epoch = Some (cs_epoch c), sj_accountStatus = Some (cs_accountStatus c)\<rparr>"

fun parseCache :: "cache_value \<Rightarrow> cached_session option" where
  "parseCache (SessionDoc j) =
     (case (sj_userId j, sj_roles j, sj_expiresAtMs j, sj_createdAtMs j, sj_epoch j, sj_accountStatus j) of
        (Some u, Some rs, Some x, Some c, Some e, Some s) \<Rightarrow>
          Some \<lparr>cs_userId = u, cs_roles = rs, cs_expiresAtMs = x, cs_createdAtMs = c, cs_epoch = e,
                cs_accountStatus = s\<rparr>
      | _ \<Rightarrow> None)"
| "parseCache _ = None"

definition writeCache :: "'w session_deps \<Rightarrow> string \<Rightarrow> cached_session \<Rightarrow> int \<Rightarrow> ('w, unit) prog" where
  "writeCache D hash value nowMs =
     (let ttl = max 1 (ceil_div (cs_expiresAtMs value - nowMs) 1000)
      in cc_set (sd_cache D) (sessionKey hash) (json_of value) ttl)"

definition absolutelyExpired :: "'w session_deps \<Rightarrow> int \<Rightarrow> int \<Rightarrow> bool" where
  "absolutelyExpired D createdAtMs nowMs \<longleftrightarrow> nowMs \<ge> createdAtMs + sd_absoluteMaxSeconds D * 1000"

definition evictSessionCache :: "'w session_deps \<Rightarrow> string \<Rightarrow> ('w, unit) prog" where
  "evictSessionCache D hash = recover (cc_del (sd_cache D) (sessionKey hash)) (\<lambda>_. ret ())"

definition expireSession :: "'w session_deps \<Rightarrow> string \<Rightarrow> ('w, unit) prog" where
  "expireSession D hash =
     seq (ss_deleteById (sd_store D) hash) (\<lambda>_. evictSessionCache D hash)"

subsection \<open>Ban markers and epochs\<close>

definition markBanned :: "'w session_deps \<Rightarrow> string \<Rightarrow> ('w, unit) prog" where
  "markBanned D userId =
     cc_set (sd_cache D) (bannedKey userId) (Text BANNED_MARKER_VALUE)
       (sd_ttlSeconds D + BANNED_MARKER_GRACE_SECONDS)"

definition clearBan :: "'w session_deps \<Rightarrow> string \<Rightarrow> ('w, unit) prog" where
  "clearBan D userId = cc_del (sd_cache D) (bannedKey userId)"

definition isUserActive :: "'w session_deps \<Rightarrow> string \<Rightarrow> ('w, bool) prog" where
  "isUserActive D userId =
     seq (cc_get (sd_cache D) (bannedKey userId)) (\<lambda>marked. ret (marked = None))"

definition currentEpoch :: "'w session_deps \<Rightarrow> string \<Rightarrow> ('w, int) prog" where
  "currentEpoch D userId = seq (cc_get (sd_cache D) (epochKey userId)) (\<lambda>raw. ret (parseEpoch raw))"

definition bumpEpoch :: "'w session_deps \<Rightarrow> string \<Rightarrow> ('w, int option) prog" where
  "bumpEpoch D userId =
     cc_incr (sd_cache D) (epochKey userId) (sd_ttlSeconds D + BANNED_MARKER_GRACE_SECONDS)"

definition nth_or_null :: "'a option list \<Rightarrow> nat \<Rightarrow> 'a option" where
  "nth_or_null xs i = (if i < length xs then xs ! i else None)"

definition userGate :: "'w session_deps \<Rightarrow> string \<Rightarrow> ('w, user_gate) prog" where
  "userGate D userId =
     (if isOfficialAccount (Some userId) then ret \<lparr>ug_active = False, ug_epoch = 0\<rparr>
      else
        seq (case cc_mget (sd_cache D) of
               Some mget \<Rightarrow> mget [bannedKey userId, epochKey userId]
             | None \<Rightarrow>
                 seq (cc_get (sd_cache D) (bannedKey userId)) (\<lambda>b.
                 seq (cc_get (sd_cache D) (epochKey userId)) (\<lambda>e. ret [b, e]))) (\<lambda>found.
        ret \<lparr>ug_active = (nth_or_null found 0 = None), ug_epoch = parseEpoch (nth_or_null found 1)\<rparr>))"

definition enforceRevokedStatus :: "'w session_deps \<Rightarrow> string \<Rightarrow> string \<Rightarrow> ('w, unit) prog" where
  "enforceRevokedStatus D userId hash =
     seq (recover (markBanned D userId) (\<lambda>_. ret ())) (\<lambda>_. expireSession D hash)"

subsection \<open>Minting\<close>

definition settleMint ::
  "'w session_deps \<Rightarrow> string \<Rightarrow> string \<Rightarrow> int \<Rightarrow> account_status \<Rightarrow> ('w, int \<times> account_status) prog" where
  "settleMint D userId hash mintEpoch mintStatus =
     seq (currentEpoch D userId) (\<lambda>epoch.
     case sd_users D of
       None \<Rightarrow> ret (epoch, mintStatus)
     | Some users \<Rightarrow>
         if epoch = mintEpoch then ret (epoch, mintStatus)
         else
           seq (su_accountStatus users userId) (\<lambda>status.
           if isMintRefused status
           then seq (ss_deleteById (sd_store D) hash) (\<lambda>_. raise (Forbidden (Some MINT_REFUSED_MESSAGE)))
           else ret (epoch, status)))"

definition createSession ::
  "'w session_deps \<Rightarrow> string \<Rightarrow> string list \<Rightarrow> session_meta \<Rightarrow> ('w, string) prog" where
  "createSession D userId roles meta =
     (if isOfficialAccount (Some userId) then raise (Forbidden (Some MINT_REFUSED_MESSAGE))
      else
        seq (sd_generateToken D) (\<lambda>token.
        seq (reads (sd_now D)) (\<lambda>nowMs.
        (let hash = sd_sha256Hex D token;
             expiresAt = nowMs + sd_ttlSeconds D * 1000
         in
        seq (currentEpoch D userId) (\<lambda>epoch.
        seq (case sd_users D of
               Some users \<Rightarrow> su_accountStatus users userId
             | None \<Rightarrow> ret (or_else (sm_accountStatus meta) Active)) (\<lambda>mintStatus.
        if isMintRefused mintStatus then raise (Forbidden (Some MINT_REFUSED_MESSAGE))
        else
          seq (ss_insert (sd_store D)
                 \<lparr>si_id = hash, si_userId = userId, si_roles = roles, si_expiresAt = expiresAt,
                  si_lastSeenAt = nowMs, si_userAgent = sm_userAgent meta, si_ip = sm_ip meta\<rparr>) (\<lambda>_.
          seq (settleMint D userId hash epoch mintStatus) (\<lambda>(settledEpoch, settledStatus).
          seq (writeCache D hash
                 \<lparr>cs_userId = userId, cs_roles = roles, cs_expiresAtMs = expiresAt,
                  cs_createdAtMs = nowMs, cs_epoch = settledEpoch, cs_accountStatus = settledStatus\<rparr>
                 nowMs) (\<lambda>_.
          ret token)))))))))"

subsection \<open>Resolving\<close>

definition maybeSlide :: "'w session_deps \<Rightarrow> string \<Rightarrow> int \<Rightarrow> int \<Rightarrow> int \<Rightarrow> ('w, unit) prog" where
  "maybeSlide D hash currentExpiryMs createdAtMs nowMs =
     (let remainingMs = currentExpiryMs - nowMs;
          ceilingMs = createdAtMs + sd_absoluteMaxSeconds D * 1000;
          extendedMs = min (nowMs + sd_ttlSeconds D * 1000) ceilingMs
      in
      if 2 * remainingMs \<ge> sd_ttlSeconds D * 1000 then ret ()
      else if extendedMs - currentExpiryMs < sd_slideGranularityMs D then ret ()
      else
        seq (ss_updateExpiry (sd_store D) hash extendedMs nowMs) (\<lambda>_.
        seq (cc_get (sd_cache D) (sessionKey hash)) (\<lambda>raw.
        case (case raw of None \<Rightarrow> None | Some v \<Rightarrow> parseCache v) of
          None \<Rightarrow> ret ()
        | Some cached \<Rightarrow> writeCache D hash (cached\<lparr>cs_expiresAtMs := extendedMs\<rparr>) nowMs)))"

definition resolveFromCache :: "'w session_deps \<Rightarrow> string \<Rightarrow> int \<Rightarrow> ('w, cache_lookup) prog" where
  "resolveFromCache D hash nowMs =
     seq (cc_get (sd_cache D) (sessionKey hash)) (\<lambda>cachedRaw.
     case cachedRaw of
       None \<Rightarrow> ret CACHE_MISS
     | Some raw \<Rightarrow>
         (let rejected = seq (evictSessionCache D hash) (\<lambda>_. ret CACHE_MISS)
          in case parseCache raw of
            None \<Rightarrow> rejected
          | Some cached \<Rightarrow>
              if cs_expiresAtMs cached > nowMs \<and> cs_accountStatus cached \<notin> set REVOKED_STATUSES
              then
                if absolutelyExpired D (cs_createdAtMs cached) nowMs
                then seq (expireSession D hash) (\<lambda>_. ret (Decided None))
                else
                  seq (userGate D (cs_userId cached)) (\<lambda>gate.
                  if \<not> ug_active gate then ret (Decided None)
                  else if cs_epoch cached = ug_epoch gate
                  then
                    seq (maybeSlide D hash (cs_expiresAtMs cached) (cs_createdAtMs cached) nowMs) (\<lambda>_.
                    ret (Decided (Some
                      \<lparr>rr_userId = cs_userId cached, rr_roles = cs_roles cached,
                       rr_accountStatus = cs_accountStatus cached, rr_source = FromCache,
                       rr_expiresAtMs = cs_expiresAtMs cached\<rparr>)))
                  else rejected)
              else rejected))"

definition resolveFromStore :: "'w session_deps \<Rightarrow> string \<Rightarrow> int \<Rightarrow> ('w, resolve_result option) prog" where
  "resolveFromStore D hash nowMs =
     seq (ss_findById (sd_store D) hash) (\<lambda>found.
     case found of
       None \<Rightarrow> ret None
     | Some row \<Rightarrow>
         if row_expiresAt row \<le> nowMs \<or> absolutelyExpired D (row_createdAt row) nowMs
         then seq (expireSession D hash) (\<lambda>_. ret None)
         else
           seq (userGate D (row_userId row)) (\<lambda>gate.
           if \<not> ug_active gate then ret None
           else if rec_accountStatus row \<in> set REVOKED_STATUSES
           then seq (enforceRevokedStatus D (row_userId row) hash) (\<lambda>_. ret None)
           else
             seq (writeCache D hash
                    \<lparr>cs_userId = row_userId row, cs_roles = row_roles row,
                     cs_expiresAtMs = row_expiresAt row, cs_createdAtMs = row_createdAt row,
                     cs_epoch = ug_epoch gate, cs_accountStatus = rec_accountStatus row\<rparr> nowMs) (\<lambda>_.
             seq (maybeSlide D hash (row_expiresAt row) (row_createdAt row) nowMs) (\<lambda>_.
             ret (Some
               \<lparr>rr_userId = row_userId row, rr_roles = row_roles row,
                rr_accountStatus = rec_accountStatus row, rr_source = FromStore,
                rr_expiresAtMs = row_expiresAt row\<rparr>)))))"

definition resolveSessionByHash :: "'w session_deps \<Rightarrow> string \<Rightarrow> ('w, resolve_result option) prog" where
  "resolveSessionByHash D hash =
     seq (reads (sd_now D)) (\<lambda>nowMs.
     seq (resolveFromCache D hash nowMs) (\<lambda>fromCache.
     case fromCache of
       Decided r \<Rightarrow> ret r
     | CACHE_MISS \<Rightarrow> resolveFromStore D hash nowMs))"

definition resolveSession :: "'w session_deps \<Rightarrow> string \<Rightarrow> ('w, resolve_result option) prog" where
  "resolveSession D token = resolveSessionByHash D (sd_sha256Hex D token)"

subsection \<open>Revoking\<close>

definition revokeSessionByHash :: "'w session_deps \<Rightarrow> string \<Rightarrow> ('w, unit) prog" where
  "revokeSessionByHash D hash =
     seq (cc_del (sd_cache D) (sessionKey hash)) (\<lambda>_. ss_deleteById (sd_store D) hash)"

definition revokeSession :: "'w session_deps \<Rightarrow> string \<Rightarrow> ('w, unit) prog" where
  "revokeSession D token = revokeSessionByHash D (sd_sha256Hex D token)"

definition evictSessionCaches :: "'w session_deps \<Rightarrow> string list \<Rightarrow> ('w, unit) prog" where
  "evictSessionCaches D hashes =
     for_each (\<lambda>hash. recover (cc_del (sd_cache D) (sessionKey hash)) (\<lambda>_. ret ())) hashes"

definition revokeAllForUser :: "'w session_deps \<Rightarrow> string \<Rightarrow> ('w, nat) prog" where
  "revokeAllForUser D userId =
     seq (bumpEpoch D userId) (\<lambda>_.
     seq (ss_deleteAllForUser (sd_store D) userId) (\<lambda>ids.
     seq (evictSessionCaches D ids) (\<lambda>_. ret (length ids))))"

definition banUser :: "'w session_deps \<Rightarrow> string \<Rightarrow> ('w, nat) prog" where
  "banUser D userId =
     seq (markBanned D userId) (\<lambda>_.
     seq (bumpEpoch D userId) (\<lambda>_.
     seq (ss_deleteAllForUser (sd_store D) userId) (\<lambda>ids.
     seq (evictSessionCaches D ids) (\<lambda>_. ret (length ids)))))"

definition applyAccountStatus :: "'w session_deps \<Rightarrow> string \<Rightarrow> account_status \<Rightarrow> ('w, nat) prog" where
  "applyAccountStatus D userId status =
     seq (if status = Banned \<or> status = Suspended
          then
            seq (case sd_users D of None \<Rightarrow> ret None | Some users \<Rightarrow> su_findRole users userId) (\<lambda>role.
            assertTargetIsNotOperatorRole role (if status = Banned then ''ban'' else ''suspend''))
          else ret ()) (\<lambda>_.
     if status = Banned then banUser D userId
     else
       seq (clearBan D userId) (\<lambda>_.
       if status = Suspended then revokeAllForUser D userId
       else seq (bumpEpoch D userId) (\<lambda>_. ret 0)))"

end
