(* ===== verification/Session_Laws.thy ===== *)
theory Session_Laws
  imports Session_Service
begin

section \<open>What the session service does\<close>

text \<open>
  The pure verdict of a lookup, the coherence invariant between projections and rows, and the locale in
  which every method's result and effect are computed from the contracts of the cache and of the store.
\<close>

subsection \<open>Keys and projections\<close>

lemma key_neq [simp]:
  "sessionKey h \<noteq> bannedKey u" "bannedKey u \<noteq> sessionKey h" "sessionKey h \<noteq> epochKey u"
  "epochKey u \<noteq> sessionKey h" "bannedKey u \<noteq> epochKey u'" "epochKey u' \<noteq> bannedKey u"
  by (simp_all add: sessionKey_def bannedKey_def epochKey_def)

lemma key_inj [simp]:
  "sessionKey h = sessionKey h' \<longleftrightarrow> h = h'" "bannedKey u = bannedKey u' \<longleftrightarrow> u = u'"
  "epochKey u = epochKey u' \<longleftrightarrow> u = u'"
  by (simp_all add: sessionKey_def bannedKey_def epochKey_def)

lemma parseCache_json_of [simp]: "parseCache (json_of c) = Some c"
  by (simp add: json_of_def)

definition cache_ttl :: "int \<Rightarrow> int \<Rightarrow> int" where
  "cache_ttl expiresAtMs nowMs = max 1 (ceil_div (expiresAtMs - nowMs) 1000)"

lemma cache_ttl_pos [simp]: "0 < cache_ttl x n"
  by (simp add: cache_ttl_def)

lemma cache_ttl_covers: "x \<le> n + cache_ttl x n * 1000"
  using ceil_div_ge [of 1000 "x - n"] by (auto simp: cache_ttl_def max_def)

lemma cache_ttl_le: "0 < ttl \<Longrightarrow> x \<le> n + ttl * 1000 \<Longrightarrow> cache_ttl x n \<le> ttl"
  using ceil_div_lt [of 1000 "x - n"] by (auto simp: cache_ttl_def max_def)

subsection \<open>The verdict of a lookup\<close>

definition user_active :: "cache_view \<Rightarrow> string \<Rightarrow> bool" where
  "user_active en u \<longleftrightarrow> \<not> isOfficialAccount (Some u) \<and> en (bannedKey u) = None"

definition epoch_in :: "cache_view \<Rightarrow> string \<Rightarrow> int" where
  "epoch_in en u = parseEpoch (map_option fst (en (epochKey u)))"

definition session_of_cached :: "cached_session \<Rightarrow> resolve_result" where
  "session_of_cached c =
     \<lparr>rr_userId = cs_userId c, rr_roles = cs_roles c, rr_accountStatus = cs_accountStatus c,
      rr_source = FromCache, rr_expiresAtMs = cs_expiresAtMs c\<rparr>"

definition session_of_row :: "session_row \<Rightarrow> account_status \<Rightarrow> resolve_result" where
  "session_of_row r s =
     \<lparr>rr_userId = row_userId r, rr_roles = row_roles r, rr_accountStatus = s,
      rr_source = FromStore, rr_expiresAtMs = row_expiresAt r\<rparr>"

definition usable :: "'w session_deps \<Rightarrow> int \<Rightarrow> cached_session \<Rightarrow> bool" where
  "usable D n c \<longleftrightarrow> cs_expiresAtMs c > n \<and> cs_accountStatus c \<noteq> Banned"

definition cache_verdict :: "'w session_deps \<Rightarrow> cache_view \<Rightarrow> int \<Rightarrow> string \<Rightarrow> cache_lookup" where
  "cache_verdict D en n h =
     (case en (sessionKey h) of None \<Rightarrow> CACHE_MISS | Some (raw, _) \<Rightarrow>
       (case parseCache raw of None \<Rightarrow> CACHE_MISS | Some c \<Rightarrow>
          if \<not> usable D n c then CACHE_MISS
          else if absolutelyExpired D (cs_createdAtMs c) n then Decided None
          else if \<not> user_active en (cs_userId c) then Decided None
          else if cs_epoch c = epoch_in en (cs_userId c) then Decided (Some (session_of_cached c))
          else CACHE_MISS))"

definition row_live :: "'w session_deps \<Rightarrow> int \<Rightarrow> session_row \<Rightarrow> bool" where
  "row_live D n r \<longleftrightarrow> n < row_expiresAt r \<and> \<not> absolutelyExpired D (row_createdAt r) n"

definition store_verdict ::
  "'w session_deps \<Rightarrow> cache_view \<Rightarrow> (string \<Rightarrow> session_row option) \<Rightarrow> (string \<Rightarrow> account_status) \<Rightarrow> int \<Rightarrow>
   string \<Rightarrow> resolve_result option" where
  "store_verdict D en rs st n h =
     (case rs h of None \<Rightarrow> None | Some r \<Rightarrow>
        if row_live D n r \<and> user_active en (row_userId r) \<and> st (row_userId r) \<noteq> Banned
        then Some (session_of_row r (st (row_userId r))) else None)"

definition resolve_verdict ::
  "'w session_deps \<Rightarrow> cache_view \<Rightarrow> (string \<Rightarrow> session_row option) \<Rightarrow> (string \<Rightarrow> account_status) \<Rightarrow> int \<Rightarrow>
   string \<Rightarrow> resolve_result option" where
  "resolve_verdict D en rs st n h =
     (case cache_verdict D en n h of Decided r \<Rightarrow> r | CACHE_MISS \<Rightarrow> store_verdict D en rs st n h)"

subsection \<open>Coherence of projections and rows\<close>

definition projects :: "cached_session \<Rightarrow> session_row \<Rightarrow> bool" where
  "projects c r \<longleftrightarrow> cs_userId c = row_userId r \<and> cs_roles c = row_roles r \<and>
     cs_expiresAtMs c = row_expiresAt r \<and> cs_createdAtMs c = row_createdAt r"

text \<open>
  Every live projection projects a row and lapses within the session lifetime; every row lapses within the
  session lifetime, and never after the absolute maximum of its creation.
\<close>

definition backed ::
  "'w session_deps \<Rightarrow> (string \<Rightarrow> session_row option) \<Rightarrow> int \<Rightarrow> string \<Rightarrow> (cache_value \<times> expiry) option \<Rightarrow> bool" where
  "backed D rs n h e \<longleftrightarrow>
     (case e of None \<Rightarrow> True | Some (v, x) \<Rightarrow>
        (\<exists>c r t. v = json_of c \<and> rs h = Some r \<and> projects c r \<and> x = At t \<and> t \<le> n + sd_ttlSeconds D * 1000))"

definition row_bounded :: "'w session_deps \<Rightarrow> int \<Rightarrow> session_row \<Rightarrow> bool" where
  "row_bounded D n r \<longleftrightarrow> row_createdAt r \<le> n \<and> row_expiresAt r \<le> n + sd_ttlSeconds D * 1000 \<and>
     row_expiresAt r \<le> row_createdAt r + sd_absoluteMaxSeconds D * 1000"

definition coherent ::
  "'w session_deps \<Rightarrow> cache_view \<Rightarrow> (string \<Rightarrow> session_row option) \<Rightarrow> int \<Rightarrow> bool" where
  "coherent D en rs n \<longleftrightarrow>
     (\<forall>h. backed D rs n h (en (sessionKey h))) \<and> (\<forall>h r. rs h = Some r \<longrightarrow> row_bounded D n r)"

lemma backed_None [simp]: "backed D rs n h None"
  by (simp add: backed_def)

lemma coherent_backed: "coherent D en rs n \<Longrightarrow> backed D rs n h (en (sessionKey h))"
  by (simp add: coherent_def)

lemma coherent_row: "coherent D en rs n \<Longrightarrow> rs h = Some r \<Longrightarrow> row_bounded D n r"
  by (auto simp: coherent_def)

lemma coherent_projection:
  assumes "coherent D en rs n" "en (sessionKey h) = Some (v, x)"
  obtains c r t where "v = json_of c" "rs h = Some r" "projects c r" "row_bounded D n r" "x = At t"
    "t \<le> n + sd_ttlSeconds D * 1000"
  using coherent_backed [OF assms(1), of h] coherent_row [OF assms(1)] assms(2)
  by (auto simp: backed_def)

lemma coherent_other_key:
  "(\<And>h. sessionKey h \<noteq> k) \<Longrightarrow> coherent D (en(k := v)) rs n = coherent D en rs n"
  by (simp add: coherent_def)

lemma coherent_key_simps [simp]:
  "coherent D (en(bannedKey u := v)) rs n = coherent D en rs n"
  "coherent D (en(epochKey u := v)) rs n = coherent D en rs n"
  by (simp_all add: coherent_other_key)

lemma coherent_evict: "coherent D en rs n \<Longrightarrow> coherent D (en(sessionKey h := None)) rs n"
  by (simp add: coherent_def)

lemma coherent_subset:
  assumes "coherent D en rs n" "\<And>k e. en' k = Some e \<Longrightarrow> en k = Some e" "n \<le> n'"
  shows "coherent D en' rs n'"
proof -
  have "backed D rs n' h (en' (sessionKey h))" for h
    using coherent_backed [OF assms(1), of h] assms(2) [of "sessionKey h"] assms(3)
    by (cases "en' (sessionKey h)") (fastforce simp: backed_def)+
  moreover have "row_bounded D n' r" if "rs h = Some r" for h r
    using coherent_row [OF assms(1) that] assms(3) by (simp add: row_bounded_def)
  ultimately show ?thesis by (simp add: coherent_def)
qed

lemma backed_change_row: "h' \<noteq> h \<Longrightarrow> backed D (rs(h := r)) n h' e = backed D rs n h' e"
  by (simp add: backed_def split: option.split)

lemma coherent_drop:
  assumes "coherent D en rs n"
  shows "coherent D (en(sessionKey h := None)) (rs(h := None)) n"
proof -
  have "backed D (rs(h := None)) n h' ((en(sessionKey h := None)) (sessionKey h'))" for h'
    using coherent_backed [OF assms, of h'] by (cases "h' = h") (simp_all add: backed_change_row)
  then show ?thesis using assms by (auto simp: coherent_def)
qed

definition drop_rows :: "string set \<Rightarrow> (string \<Rightarrow> 'r option) \<Rightarrow> string \<Rightarrow> 'r option" where
  "drop_rows hs rs = (\<lambda>h. if h \<in> hs then None else rs h)"

definition drop_cached :: "string set \<Rightarrow> cache_view \<Rightarrow> cache_view" where
  "drop_cached hs = drop_rows (sessionKey ` hs)"

lemma drop_cached_simps [simp]:
  "drop_cached hs en (sessionKey h) = (if h \<in> hs then None else en (sessionKey h))"
  "drop_cached hs en (bannedKey u) = en (bannedKey u)" "drop_cached hs en (epochKey u) = en (epochKey u)"
  by (auto simp: drop_cached_def drop_rows_def)

lemma drop_cached_Cons: "drop_cached (insert h hs) en = drop_cached hs (en(sessionKey h := None))"
  by (auto simp: drop_cached_def drop_rows_def fun_eq_iff)

lemma drop_cached_empty [simp]: "drop_cached {} en = en"
  by (simp add: drop_cached_def drop_rows_def)

lemma coherent_drop_all: "coherent D en rs n \<Longrightarrow> coherent D (drop_cached hs en) (drop_rows hs rs) n"
  by (auto simp: coherent_def backed_def drop_rows_def split: option.splits)

lemma coherent_write:
  assumes "coherent D en rs n" "0 < sd_ttlSeconds D" "projects c r" "row_bounded D n r"
  shows "coherent D (en(sessionKey h \<mapsto> (json_of c, At (n + cache_ttl (cs_expiresAtMs c) n * 1000))))
    (rs(h \<mapsto> r)) n"
proof -
  have ttl: "cache_ttl (cs_expiresAtMs c) n \<le> sd_ttlSeconds D"
    using assms by (auto intro!: cache_ttl_le simp: projects_def row_bounded_def)
  have "backed D (rs(h \<mapsto> r)) n h'
      ((en(sessionKey h \<mapsto> (json_of c, At (n + cache_ttl (cs_expiresAtMs c) n * 1000)))) (sessionKey h'))" for h'
    using coherent_backed [OF assms(1), of h'] assms(3) ttl
    by (cases "h' = h") (auto simp: backed_change_row, simp add: backed_def, blast)
  then show ?thesis using assms by (auto simp: coherent_def)
qed

subsection \<open>Sliding\<close>

definition slide_to :: "'w session_deps \<Rightarrow> int \<Rightarrow> int \<Rightarrow> int \<Rightarrow> int option" where
  "slide_to D x c n =
     (let e = min (n + sd_ttlSeconds D * 1000) (c + sd_absoluteMaxSeconds D * 1000)
      in if 2 * (x - n) \<ge> sd_ttlSeconds D * 1000 \<or> e - x < sd_slideGranularityMs D then None else Some e)"

definition slid_row :: "int \<Rightarrow> int \<Rightarrow> session_row \<Rightarrow> session_row" where
  "slid_row e n r = r\<lparr>row_expiresAt := e, row_lastSeenAt := n\<rparr>"

lemma slid_row_bounded:
  "slide_to D x (row_createdAt r) n = Some e \<Longrightarrow> row_bounded D n r \<Longrightarrow> row_bounded D n (slid_row e n r)"
  by (auto simp: slide_to_def slid_row_def row_bounded_def Let_def split: if_splits)

definition slid_entry :: "string \<Rightarrow> int \<Rightarrow> int \<Rightarrow> cache_view \<Rightarrow> cache_view" where
  "slid_entry h e n en =
     (case en (sessionKey h) of None \<Rightarrow> en | Some (v, _) \<Rightarrow>
       (case parseCache v of None \<Rightarrow> en | Some c \<Rightarrow>
          en(sessionKey h \<mapsto> (json_of (c\<lparr>cs_expiresAtMs := e\<rparr>), At (n + cache_ttl e n * 1000)))))"

lemma slid_entry_other [simp]: "k \<noteq> sessionKey h \<Longrightarrow> slid_entry h e n en k = en k"
  by (simp add: slid_entry_def split: option.split)

lemma coherent_slide:
  assumes "coherent D en rs n" "0 < sd_ttlSeconds D" "rs h = Some r" "slide_to D x (row_createdAt r) n = Some e"
  shows "coherent D (slid_entry h e n en) (rs(h \<mapsto> slid_row e n r)) n"
proof (cases "en (sessionKey h)")
  case None
  have b: "row_bounded D n (slid_row e n r)"
    using assms(4) coherent_row [OF assms(1,3)] by (rule slid_row_bounded)
  have "backed D (rs(h \<mapsto> slid_row e n r)) n h' (en (sessionKey h'))" for h'
    using coherent_backed [OF assms(1), of h'] None by (cases "h' = h") (simp_all add: backed_change_row)
  with None b assms(1) show ?thesis by (auto simp: slid_entry_def coherent_def)
next
  case (Some vx)
  obtain v y where vx: "vx = (v, y)" by (cases vx)
  obtain c where c: "v = json_of c" "projects c r"
    using coherent_projection [OF assms(1) Some [unfolded vx]] assms(3) by (metis option.inject)
  have "coherent D (en(sessionKey h \<mapsto> (json_of (c\<lparr>cs_expiresAtMs := e\<rparr>),
      At (n + cache_ttl (cs_expiresAtMs (c\<lparr>cs_expiresAtMs := e\<rparr>)) n * 1000)))) (rs(h \<mapsto> slid_row e n r)) n"
    using assms(1,2) c(2) slid_row_bounded [OF assms(4) coherent_row [OF assms(1,3)]]
    by (intro coherent_write) (auto simp: projects_def slid_row_def)
  then show ?thesis using Some vx c(1) by (simp add: slid_entry_def)
qed

text \<open>The sessions of a user may only go: no row appears, and none changes hands.\<close>

definition only_from :: "(string \<Rightarrow> session_row option) \<Rightarrow> (string \<Rightarrow> session_row option) \<Rightarrow> bool" where
  "only_from rs rs' \<longleftrightarrow> (\<forall>h r'. rs' h = Some r' \<longrightarrow> (\<exists>r. rs h = Some r \<and> row_userId r' = row_userId r))"

lemma only_from_refl [simp, intro]: "only_from rs rs"
  by (simp add: only_from_def)

lemma only_from_delete [intro]: "only_from rs (rs(h := None))"
  by (simp add: only_from_def)

lemma only_from_slide [intro]:
  "only_from rs (rs(h := map_option (slid_row e n) (rs h)))"
  "rs h = Some r \<Longrightarrow> only_from rs (rs(h \<mapsto> slid_row e n r))"
  by (auto simp: only_from_def slid_row_def)

definition no_sessions :: "string \<Rightarrow> (string \<Rightarrow> session_row option) \<Rightarrow> bool" where
  "no_sessions u rs \<longleftrightarrow> (\<forall>h r. rs h = Some r \<longrightarrow> row_userId r \<noteq> u)"

lemma no_sessions_only_from: "only_from rs rs' \<Longrightarrow> no_sessions u rs \<Longrightarrow> no_sessions u rs'"
  by (fastforce simp: only_from_def no_sessions_def)

lemma no_sessions_verdict:
  assumes "coherent D en rs n" "no_sessions u rs" "resolve_verdict D en rs st n h = Some r"
  shows "rr_userId r \<noteq> u"
proof (cases "cache_verdict D en n h")
  case CACHE_MISS
  with assms show ?thesis
    by (fastforce simp: resolve_verdict_def store_verdict_def no_sessions_def session_of_row_def
        split: option.splits if_splits)
next
  case (Decided d)
  with assms(3) obtain v x c where e: "en (sessionKey h) = Some (v, x)" "parseCache v = Some c"
    "r = session_of_cached c"
    by (auto simp: resolve_verdict_def cache_verdict_def split: option.splits if_splits)
  from coherent_projection [OF assms(1) e(1)] e(2,3) assms(2) show ?thesis
    by (metis no_sessions_def option.inject parseCache_json_of projects_def resolve_result.select_convs(1)
        session_of_cached_def)
qed

subsection \<open>The environment of the service\<close>

text \<open>
  The contracts the service relies on: a cache, a session store, an account lookup and a token source, no
  one of which touches the state of another.
\<close>

locale session_env =
  cache: cache_laws "sd_cache D" entry "sd_now D" advance +
  store: session_store_laws "sd_store D" rows status ok
  for D :: "'w session_deps" and entry :: "'w \<Rightarrow> cache_view" and advance :: "int \<Rightarrow> 'w \<Rightarrow> 'w"
    and rows :: "'w \<Rightarrow> string \<Rightarrow> session_row option" and status :: "'w \<Rightarrow> string \<Rightarrow> account_status"
    and ok :: "'w \<Rightarrow> bool" +
  fixes account :: "'w \<Rightarrow> string \<Rightarrow> account_status" and role :: "'w \<Rightarrow> string \<Rightarrow> string option"
  assumes cache_rows: "rows (snd (cc_get (sd_cache D) k w)) = rows w"
      "rows (snd (cc_set (sd_cache D) k v i w)) = rows w"
      "rows (snd (cc_del (sd_cache D) k w)) = rows w"
      "cc_mget (sd_cache D) = Some mg \<Longrightarrow> rows (snd (mg ks w)) = rows w"
      "rows (snd (cc_incr (sd_cache D) k i w)) = rows w"
    and cache_status: "status (snd (cc_get (sd_cache D) k w)) = status w"
      "status (snd (cc_set (sd_cache D) k v i w)) = status w"
      "status (snd (cc_del (sd_cache D) k w)) = status w"
      "cc_mget (sd_cache D) = Some mg \<Longrightarrow> status (snd (mg ks w)) = status w"
      "status (snd (cc_incr (sd_cache D) k i w)) = status w"
    and cache_ok: "ok (snd (cc_get (sd_cache D) k w)) = ok w"
      "ok (snd (cc_set (sd_cache D) k v i w)) = ok w"
      "ok (snd (cc_del (sd_cache D) k w)) = ok w"
      "cc_mget (sd_cache D) = Some mg \<Longrightarrow> ok (snd (mg ks w)) = ok w"
      "ok (snd (cc_incr (sd_cache D) k i w)) = ok w"
    and store_entry: "entry (snd (ss_findById (sd_store D) h w)) = entry w"
      "entry (snd (ss_insert (sd_store D) row w)) = entry w"
      "entry (snd (ss_updateExpiry (sd_store D) h x t w)) = entry w"
      "entry (snd (ss_deleteById (sd_store D) h w)) = entry w"
      "entry (snd (ss_deleteAllForUser (sd_store D) u w)) = entry w"
    and store_now: "sd_now D (snd (ss_findById (sd_store D) h w)) = sd_now D w"
      "sd_now D (snd (ss_insert (sd_store D) row w)) = sd_now D w"
      "sd_now D (snd (ss_updateExpiry (sd_store D) h x t w)) = sd_now D w"
      "sd_now D (snd (ss_deleteById (sd_store D) h w)) = sd_now D w"
      "sd_now D (snd (ss_deleteAllForUser (sd_store D) u w)) = sd_now D w"
    and account_result: "sd_users D = Some us \<Longrightarrow> su_accountStatus us u w = (Inr (account w u), w)"
    and role_result: "sd_users D = Some us \<Longrightarrow> su_findRole us u w = (Inr (role w u), w)"
    and account_frame: "account (snd (ss_insert (sd_store D) row w)) = account w"
      "account (snd (cc_get (sd_cache D) k w)) = account w"
    and token_result: "\<exists>t. fst (sd_generateToken D w) = Inr t"
    and token_frame: "entry (snd (sd_generateToken D w)) = entry w"
      "rows (snd (sd_generateToken D w)) = rows w" "status (snd (sd_generateToken D w)) = status w"
      "ok (snd (sd_generateToken D w)) = ok w" "sd_now D (snd (sd_generateToken D w)) = sd_now D w"
      "account (snd (sd_generateToken D w)) = account w"
begin

lemmas frame_laws [simp] =
  cache.now_laws cache.entry_laws cache_rows cache_status cache_ok store.find_rows store.insert_rows
  store.update_rows store.delete_rows store.store_status store_entry store_now store.find_ok
  store.insert_ok store.update_ok store.delete_ok store.delete_all_ok account_frame token_frame

lemmas outcome_laws [simp] =
  cache.get_result cache.set_result cache.del_result cache.mget_result store.find_result
  store.insert_result store.update_result store.delete_result account_result role_result

subsection \<open>The small steps\<close>

lemma writeCache_run [simp]:
  "fst (writeCache D h c n w) = Inr ()"
  "rows (snd (writeCache D h c n w)) = rows w" "status (snd (writeCache D h c n w)) = status w"
  "ok (snd (writeCache D h c n w)) = ok w" "sd_now D (snd (writeCache D h c n w)) = sd_now D w"
  "entry (snd (writeCache D h c n w)) =
     (entry w)(sessionKey h \<mapsto> (json_of c, At (sd_now D w + cache_ttl (cs_expiresAtMs c) n * 1000)))"
  by (simp_all add: writeCache_def cache_ttl_def [symmetric] Let_def)

lemma evictSessionCache_run [simp]:
  "fst (evictSessionCache D h w) = Inr ()"
  "rows (snd (evictSessionCache D h w)) = rows w" "status (snd (evictSessionCache D h w)) = status w"
  "ok (snd (evictSessionCache D h w)) = ok w" "sd_now D (snd (evictSessionCache D h w)) = sd_now D w"
  "entry (snd (evictSessionCache D h w)) = (entry w)(sessionKey h := None)"
  by (simp_all add: evictSessionCache_def prog_simps)

lemma expireSession_run [simp]:
  "fst (expireSession D h w) = Inr ()"
  "rows (snd (expireSession D h w)) = (rows w)(h := None)"
  "status (snd (expireSession D h w)) = status w"
  "ok w \<Longrightarrow> ok (snd (expireSession D h w))" "sd_now D (snd (expireSession D h w)) = sd_now D w"
  "entry (snd (expireSession D h w)) = (entry w)(sessionKey h := None)"
  by (simp_all add: expireSession_def prog_simps)

lemma userGate_run [simp]:
  "fst (userGate D u w) = Inr \<lparr>ug_active = user_active (entry w) u,
     ug_epoch = (if isOfficialAccount (Some u) then 0 else epoch_in (entry w) u)\<rparr>"
  "rows (snd (userGate D u w)) = rows w" "status (snd (userGate D u w)) = status w"
  "ok (snd (userGate D u w)) = ok w" "sd_now D (snd (userGate D u w)) = sd_now D w"
  "entry (snd (userGate D u w)) = entry w"
  by (cases "cc_mget (sd_cache D)";
      simp add: userGate_def prog_simps nth_or_null_def user_active_def epoch_in_def)+

lemma currentEpoch_run [simp]:
  "fst (currentEpoch D u w) = Inr (epoch_in (entry w) u)"
  "rows (snd (currentEpoch D u w)) = rows w" "status (snd (currentEpoch D u w)) = status w"
  "ok (snd (currentEpoch D u w)) = ok w" "sd_now D (snd (currentEpoch D u w)) = sd_now D w"
  "entry (snd (currentEpoch D u w)) = entry w" "account (snd (currentEpoch D u w)) = account w"
  by (simp_all add: currentEpoch_def prog_simps epoch_in_def)

lemma maybeSlide_run:
  "fst (maybeSlide D h x c n w) = Inr ()"
  "status (snd (maybeSlide D h x c n w)) = status w"
  "ok w \<Longrightarrow> ok (snd (maybeSlide D h x c n w))" "sd_now D (snd (maybeSlide D h x c n w)) = sd_now D w"
  "rows (snd (maybeSlide D h x c n w)) =
     (case slide_to D x c n of None \<Rightarrow> rows w
      | Some e \<Rightarrow> (rows w)(h := map_option (slid_row e n) (rows w h)))"
  "sd_now D w = n \<Longrightarrow> entry (snd (maybeSlide D h x c n w)) =
     (case slide_to D x c n of None \<Rightarrow> entry w | Some e \<Rightarrow> slid_entry h e n (entry w))"
  by (auto simp: maybeSlide_def Let_def slide_to_def slid_row_def [abs_def] slid_entry_def prog_simps
      split: option.split)

lemmas maybeSlide_frame [simp] = maybeSlide_run(1-4)

subsection \<open>Resolving\<close>

lemma resolveFromCache_result:
  "fst (resolveFromCache D h n w) = Inr (cache_verdict D (entry w) n h)"
  by (auto simp: resolveFromCache_def prog_simps cache_verdict_def usable_def REVOKED_STATUSES_def Let_def
      maybeSlide_run session_of_cached_def user_active_def split: option.split)

lemma resolveFromStore_result:
  "fst (resolveFromStore D h n w) = Inr (store_verdict D (entry w) (rows w) (status w) n h)"
  by (auto simp: resolveFromStore_def prog_simps store_verdict_def row_live_def REVOKED_STATUSES_def
      maybeSlide_run session_of_row_def enforceRevokedStatus_def markBanned_def split: option.split)

lemma cache_miss_effect:
  assumes "cache_verdict D (entry w) n h = CACHE_MISS"
  shows "rows (snd (resolveFromCache D h n w)) = rows w"
    "status (snd (resolveFromCache D h n w)) = status w" "ok (snd (resolveFromCache D h n w)) = ok w"
    "sd_now D (snd (resolveFromCache D h n w)) = sd_now D w"
    "entry (snd (resolveFromCache D h n w)) = (entry w)(sessionKey h := None)"
  using assms
  by (auto simp: resolveFromCache_def prog_simps cache_verdict_def usable_def REVOKED_STATUSES_def Let_def
      user_active_def fun_upd_idem split: option.splits if_splits)

lemma store_verdict_evicted [simp]:
  "store_verdict D (en(sessionKey h := e)) rs st n h' = store_verdict D en rs st n h'"
  by (simp add: store_verdict_def user_active_def split: option.split)

theorem resolve_result:
  "fst (resolveSessionByHash D h w) =
     Inr (resolve_verdict D (entry w) (rows w) (status w) (sd_now D w) h)"
  by (auto simp: resolveSessionByHash_def prog_simps resolveFromCache_result resolveFromStore_result
      resolve_verdict_def cache_miss_effect split: cache_lookup.split)

text \<open>A lookup keeps coherence, the representation invariant and the clock, and never adds a row.\<close>

lemma maybeSlide_coherent:
  assumes "coherent D (entry w) (rows w) (sd_now D w)" "0 < sd_ttlSeconds D" "rows w h = Some r"
  shows "coherent D (entry (snd (maybeSlide D h x (row_createdAt r) (sd_now D w) w)))
    (rows (snd (maybeSlide D h x (row_createdAt r) (sd_now D w) w))) (sd_now D w)"
  using assms coherent_slide [OF assms(1,2,3), of x]
  by (auto simp: maybeSlide_run split: option.split)

lemma resolveFromCache_coherent:
  assumes "coherent D (entry w) (rows w) (sd_now D w)" "0 < sd_ttlSeconds D"
  shows "coherent D (entry (snd (resolveFromCache D h (sd_now D w) w)))
    (rows (snd (resolveFromCache D h (sd_now D w) w))) (sd_now D w)"
proof (cases "entry w (sessionKey h)")
  case None
  then show ?thesis using assms by (simp add: resolveFromCache_def prog_simps)
next
  case (Some vx)
  then obtain v y where e: "entry w (sessionKey h) = Some (v, y)" by (cases vx) auto
  obtain c r where c: "v = json_of c" "rows w h = Some r" "projects c r"
    using coherent_projection [OF assms(1) e] by metis
  have evicted: "coherent D ((entry w)(sessionKey h := None)) (rows w) (sd_now D w)"
    and dropped: "coherent D ((entry w)(sessionKey h := None)) ((rows w)(h := None)) (sd_now D w)"
    using assms(1) by (simp_all add: coherent_evict coherent_drop)
  let ?w = "snd (userGate D (cs_userId c) (snd (cc_get (sd_cache D) (sessionKey h) w)))"
  have slid: "coherent D (entry (snd (maybeSlide D h (cs_expiresAtMs c) (cs_createdAtMs c) (sd_now D w) ?w)))
     (rows (snd (maybeSlide D h (cs_expiresAtMs c) (cs_createdAtMs c) (sd_now D w) ?w))) (sd_now D w)"
    using maybeSlide_coherent [of ?w h r "cs_expiresAtMs c"] assms c by (simp add: projects_def)
  show ?thesis
    using e c(1) evicted dropped slid assms(1)
    by (auto simp: resolveFromCache_def prog_simps Let_def split: option.split)
qed

lemma resolveFromStore_coherent:
  assumes "coherent D (entry w) (rows w) (sd_now D w)" "0 < sd_ttlSeconds D"
  shows "coherent D (entry (snd (resolveFromStore D h (sd_now D w) w)))
    (rows (snd (resolveFromStore D h (sd_now D w) w))) (sd_now D w)"
proof (cases "rows w h")
  case None
  then show ?thesis using assms by (simp add: resolveFromStore_def prog_simps)
next
  case (Some r)
  let ?st = "status w (row_userId r)"
  let ?w = "snd (userGate D (row_userId r) (snd (ss_findById (sd_store D) h w)))"
  let ?c = "\<lparr>cs_userId = row_userId r, cs_roles = row_roles r, cs_expiresAtMs = row_expiresAt r,
     cs_createdAtMs = row_createdAt r,
     cs_epoch = (if isOfficialAccount (Some (row_userId r)) then 0 else epoch_in (entry w) (row_userId r)),
     cs_accountStatus = ?st\<rparr>"
  let ?w' = "snd (writeCache D h ?c (sd_now D w) ?w)"
  have same: "(rows w)(h \<mapsto> r) = rows w" using Some by (simp add: fun_upd_idem)
  have "coherent D (entry ?w') (rows ?w') (sd_now D ?w')"
    using coherent_write [OF assms, of ?c r h] coherent_row [OF assms(1) Some]
    by (simp add: projects_def same)
  then have slid: "coherent D (entry (snd (maybeSlide D h (row_expiresAt r) (row_createdAt r) (sd_now D w) ?w')))
     (rows (snd (maybeSlide D h (row_expiresAt r) (row_createdAt r) (sd_now D w) ?w'))) (sd_now D w)"
    using maybeSlide_coherent [of ?w' h r "row_expiresAt r"] assms(2) Some by simp
  have dropped: "coherent D ((entry w)(sessionKey h := None)) ((rows w)(h := None)) (sd_now D w)"
    using assms(1) by (rule coherent_drop)
  have marked: "coherent D ((entry w)(bannedKey u \<mapsto> m, sessionKey h := None)) ((rows w)(h := None)) (sd_now D w)" for u m
    using assms(1) by (intro coherent_drop) simp
  show ?thesis
    using Some slid dropped marked assms
    by (auto simp: resolveFromStore_def prog_simps enforceRevokedStatus_def markBanned_def
        BANNED_MARKER_GRACE_SECONDS_def)
qed

lemma resolveFromCache_frame [simp]:
  "status (snd (resolveFromCache D h n w)) = status w"
  "ok w \<Longrightarrow> ok (snd (resolveFromCache D h n w))"
  "sd_now D (snd (resolveFromCache D h n w)) = sd_now D w"
  "only_from (rows w) (rows (snd (resolveFromCache D h n w)))"
  by (auto simp: resolveFromCache_def prog_simps Let_def maybeSlide_run split: option.split)

lemma resolveFromStore_frame [simp]:
  "status (snd (resolveFromStore D h n w)) = status w"
  "ok w \<Longrightarrow> ok (snd (resolveFromStore D h n w))"
  "sd_now D (snd (resolveFromStore D h n w)) = sd_now D w"
  "only_from (rows w) (rows (snd (resolveFromStore D h n w)))"
  by (auto simp: resolveFromStore_def prog_simps Let_def maybeSlide_run enforceRevokedStatus_def
      markBanned_def split: option.split)

lemma resolve_split:
  "snd (resolveSessionByHash D h w) =
     (case cache_verdict D (entry w) (sd_now D w) h of
        Decided _ \<Rightarrow> snd (resolveFromCache D h (sd_now D w) w)
      | CACHE_MISS \<Rightarrow> snd (resolveFromStore D h (sd_now D w) (snd (resolveFromCache D h (sd_now D w) w))))"
  by (simp add: resolveSessionByHash_def prog_simps resolveFromCache_result split: cache_lookup.split)

lemma only_from_trans: "only_from a b \<Longrightarrow> only_from b c \<Longrightarrow> only_from a c"
  by (fastforce simp: only_from_def)

lemma resolve_frame [simp]:
  "status (snd (resolveSessionByHash D h w)) = status w"
  "ok w \<Longrightarrow> ok (snd (resolveSessionByHash D h w))"
  "sd_now D (snd (resolveSessionByHash D h w)) = sd_now D w"
  "only_from (rows w) (rows (snd (resolveSessionByHash D h w)))"
  using only_from_trans [OF resolveFromCache_frame(4) resolveFromStore_frame(4)]
  by (auto simp: resolve_split split: cache_lookup.split)

lemma resolve_coherent:
  assumes "coherent D (entry w) (rows w) (sd_now D w)" "0 < sd_ttlSeconds D"
  shows "coherent D (entry (snd (resolveSessionByHash D h w))) (rows (snd (resolveSessionByHash D h w)))
    (sd_now D w)"
  using resolveFromCache_coherent [OF assms, of h]
    resolveFromStore_coherent [of "snd (resolveFromCache D h (sd_now D w) w)" h] assms(2)
  by (simp add: resolve_split split: cache_lookup.split)

subsection \<open>Minting\<close>

definition mint_status :: "'w \<Rightarrow> string \<Rightarrow> session_meta \<Rightarrow> account_status" where
  "mint_status w u meta = (if sd_users D = None then or_else (sm_accountStatus meta) Active else account w u)"

definition minted_row :: "int \<Rightarrow> string \<Rightarrow> string \<Rightarrow> string list \<Rightarrow> session_meta \<Rightarrow> session_row" where
  "minted_row n h u roles meta =
     \<lparr>row_id = h, row_userId = u, row_roles = roles, row_createdAt = n,
      row_expiresAt = n + sd_ttlSeconds D * 1000, row_lastSeenAt = n,
      row_userAgent = sm_userAgent meta, row_ip = sm_ip meta\<rparr>"

definition minted_cache :: "'w \<Rightarrow> string \<Rightarrow> string list \<Rightarrow> session_meta \<Rightarrow> cached_session" where
  "minted_cache w u roles meta =
     \<lparr>cs_userId = u, cs_roles = roles, cs_expiresAtMs = sd_now D w + sd_ttlSeconds D * 1000,
      cs_createdAtMs = sd_now D w, cs_epoch = epoch_in (entry w) u,
      cs_accountStatus = mint_status w u meta\<rparr>"

definition mintable :: "'w \<Rightarrow> string \<Rightarrow> session_meta \<Rightarrow> bool" where
  "mintable w u meta \<longleftrightarrow> \<not> isOfficialAccount (Some u) \<and> \<not> isMintRefused (mint_status w u meta)"

lemma settleMint_quiet:
  "settleMint D u h (epoch_in (entry w) u) s w = (Inr (epoch_in (entry w) u, s), snd (currentEpoch D u w))"
  by (simp add: settleMint_def prog_simps split: option.split)

lemma createSession_refused:
  assumes "\<not> mintable w u meta"
  shows "fst (createSession D u roles meta w) = Inl (Forbidden (Some MINT_REFUSED_MESSAGE))"
    "rows (snd (createSession D u roles meta w)) = rows w"
    "entry (snd (createSession D u roles meta w)) = entry w"
    "status (snd (createSession D u roles meta w)) = status w"
    "ok (snd (createSession D u roles meta w)) = ok w"
    "sd_now D (snd (createSession D u roles meta w)) = sd_now D w"
  using assms token_result [of w]
  by (cases "sd_users D";
      force simp: createSession_def prog_simps mintable_def mint_status_def Let_def)+

lemma createSession_minted:
  assumes "mintable w u meta"
  obtains t where "fst (sd_generateToken D w) = Inr t" "fst (createSession D u roles meta w) = Inr t"
    "rows (snd (createSession D u roles meta w)) =
       (rows w)(sd_sha256Hex D t \<mapsto> minted_row (sd_now D w) (sd_sha256Hex D t) u roles meta)"
    "entry (snd (createSession D u roles meta w)) =
       (entry w)(sessionKey (sd_sha256Hex D t) \<mapsto>
         (json_of (minted_cache w u roles meta),
          At (sd_now D w + cache_ttl (sd_now D w + sd_ttlSeconds D * 1000) (sd_now D w) * 1000)))"
    "status (snd (createSession D u roles meta w)) = status w"
    "ok w \<Longrightarrow> ok (snd (createSession D u roles meta w))"
    "sd_now D (snd (createSession D u roles meta w)) = sd_now D w"
proof -
  obtain t where t: "fst (sd_generateToken D w) = Inr t" using token_result by blast
  let ?g = "snd (sd_generateToken D w)"
  let ?e = "snd (currentEpoch D u ?g)"
  let ?i = "\<lparr>si_id = sd_sha256Hex D t, si_userId = u, si_roles = roles,
     si_expiresAt = sd_now D w + sd_ttlSeconds D * 1000, si_lastSeenAt = sd_now D w,
     si_userAgent = sm_userAgent meta, si_ip = sm_ip meta\<rparr>"
  have settle: "settleMint D u (sd_sha256Hex D t) (epoch_in (entry w) u) s (snd (ss_insert (sd_store D) ?i ?e)) =
    (Inr (epoch_in (entry w) u, s), snd (currentEpoch D u (snd (ss_insert (sd_store D) ?i ?e))))" for s
    using settleMint_quiet [of u _ "snd (ss_insert (sd_store D) ?i ?e)"] by simp
  have run: "createSession D u roles meta w =
    (Inr t, snd (writeCache D (sd_sha256Hex D t) (minted_cache w u roles meta) (sd_now D w)
       (snd (currentEpoch D u (snd (ss_insert (sd_store D) ?i ?e))))))"
    using assms t
    by (cases "sd_users D")
      (simp_all add: createSession_def prog_simps mintable_def mint_status_def minted_cache_def Let_def settle)
  show ?thesis
    by (rule that [OF t]) (simp_all add: run minted_row_def inserted_row_def minted_cache_def)
qed

subsection \<open>Revoking\<close>

abbreviation ttl_ok :: bool where
  "ttl_ok \<equiv> 0 < sd_ttlSeconds D"

lemma bumpEpoch_frame [simp]:
  "rows (snd (bumpEpoch D u w)) = rows w" "status (snd (bumpEpoch D u w)) = status w"
  "ok (snd (bumpEpoch D u w)) = ok w" "sd_now D (snd (bumpEpoch D u w)) = sd_now D w"
  by (simp_all add: bumpEpoch_def)

lemma bumpEpoch_run:
  assumes ttl_ok
  obtains n e where "fst (bumpEpoch D u w) = Inr n"
    "entry (snd (bumpEpoch D u w)) = (entry w)(epochKey u \<mapsto> e)"
  using assms cache.incr_fresh_view [of w "epochKey u"] cache.incr_present_view [of w "epochKey u"]
    cache.incr_fresh [of w "epochKey u"] cache.incr_present [of w "epochKey u"]
  by (cases "entry w (epochKey u)") (auto simp: bumpEpoch_def BANNED_MARKER_GRACE_SECONDS_def)

lemma bumpEpoch_epoch:
  assumes ttl_ok "\<And>v x. entry w (epochKey u) = Some (v, x) \<Longrightarrow> value_int v \<noteq> None"
  shows "epoch_in (entry (snd (bumpEpoch D u w))) u = epoch_in (entry w) u + 1"
proof (cases "entry w (epochKey u)")
  case None
  then show ?thesis
    using assms(1) by (simp add: bumpEpoch_def BANNED_MARKER_GRACE_SECONDS_def cache.incr_fresh_view
        epoch_in_def parseEpoch_def)
next
  case (Some e)
  obtain v x where e: "e = (v, x)" by (cases e)
  with assms(2) Some obtain i where "value_int v = Some i" by auto
  with Some e show ?thesis
    by (simp add: bumpEpoch_def cache.incr_present_view epoch_in_def parseEpoch_def)
qed

lemma evictSessionCaches_run [simp]:
  "fst (evictSessionCaches D hs w) = Inr ()"
  "rows (snd (evictSessionCaches D hs w)) = rows w"
  "status (snd (evictSessionCaches D hs w)) = status w"
  "ok (snd (evictSessionCaches D hs w)) = ok w"
  "sd_now D (snd (evictSessionCaches D hs w)) = sd_now D w"
  "entry (snd (evictSessionCaches D hs w)) =
     drop_cached (set hs) (entry w)"
  unfolding evictSessionCaches_def
  by (induction hs arbitrary: w) (simp_all add: prog_simps drop_cached_Cons)

definition of_user :: "'w \<Rightarrow> string \<Rightarrow> string set" where
  "of_user w u = {h. \<exists>r. rows w h = Some r \<and> row_userId r = u}"

lemma revokeAll_tail:
  assumes "ok w"
  shows "\<exists>w'. seq (ss_deleteAllForUser (sd_store D) u) (\<lambda>ids. seq (evictSessionCaches D ids) (\<lambda>_. ret (length ids))) w
      = (Inr (card (of_user w u)), w') \<and>
    rows w' = drop_rows (of_user w u) (rows w) \<and> entry w' = drop_cached (of_user w u) (entry w) \<and>
    status w' = status w \<and> ok w' \<and> sd_now D w' = sd_now D w"
proof -
  obtain ids where ids: "fst (ss_deleteAllForUser (sd_store D) u w) = Inr ids" "distinct ids"
    "set ids = of_user w u"
    using store.delete_all_result [OF assms, of u] by (auto simp: of_user_def)
  have "rows (snd (ss_deleteAllForUser (sd_store D) u w)) = drop_rows (of_user w u) (rows w)"
    by (auto simp: store.delete_all_rows [OF assms] of_user_def drop_rows_def fun_eq_iff split: option.split)
  with ids assms show ?thesis
    by (simp add: prog_simps distinct_card [symmetric])
qed

lemma revokeAllForUser_run:
  assumes ttl_ok "ok w"
  shows "\<exists>w' e. revokeAllForUser D u w = (Inr (card (of_user w u)), w') \<and>
    rows w' = drop_rows (of_user w u) (rows w) \<and>
    entry w' = drop_cached (of_user w u) ((entry w)(epochKey u \<mapsto> e)) \<and>
    entry (snd (bumpEpoch D u w)) = (entry w)(epochKey u \<mapsto> e) \<and>
    status w' = status w \<and> ok w' \<and> sd_now D w' = sd_now D w"
proof -
  obtain n e where b: "fst (bumpEpoch D u w) = Inr n"
    "entry (snd (bumpEpoch D u w)) = (entry w)(epochKey u \<mapsto> e)"
    using bumpEpoch_run [OF assms(1)] by blast
  have "of_user (snd (bumpEpoch D u w)) u = of_user w u" by (simp add: of_user_def)
  with revokeAll_tail [of "snd (bumpEpoch D u w)" u] assms(2) b
  show ?thesis by (intro exI [of _ "snd (revokeAllForUser D u w)"] exI [of _ e])
    (auto simp: revokeAllForUser_def seq_run [of "bumpEpoch D u"])
qed

lemma markBanned_run [simp]:
  "fst (markBanned D u w) = Inr ()" "rows (snd (markBanned D u w)) = rows w"
  "status (snd (markBanned D u w)) = status w" "ok (snd (markBanned D u w)) = ok w"
  "sd_now D (snd (markBanned D u w)) = sd_now D w"
  "ttl_ok \<Longrightarrow> entry (snd (markBanned D u w)) = (entry w)(bannedKey u \<mapsto>
     (Text BANNED_MARKER_VALUE, At (sd_now D w + (sd_ttlSeconds D + BANNED_MARKER_GRACE_SECONDS) * 1000)))"
  by (simp_all add: markBanned_def BANNED_MARKER_GRACE_SECONDS_def)

lemma banUser_revokes:
  "banUser D u w = revokeAllForUser D u (snd (markBanned D u w))"
  by (simp add: banUser_def revokeAllForUser_def seq_run [of "markBanned D u"])

lemma clearBan_run [simp]:
  "fst (clearBan D u w) = Inr ()" "rows (snd (clearBan D u w)) = rows w"
  "status (snd (clearBan D u w)) = status w" "ok (snd (clearBan D u w)) = ok w"
  "sd_now D (snd (clearBan D u w)) = sd_now D w"
  "entry (snd (clearBan D u w)) = (entry w)(bannedKey u := None)"
  by (simp_all add: clearBan_def)

subsection \<open>The invariant of the service\<close>

definition inv :: "'w \<Rightarrow> bool" where
  "inv w \<longleftrightarrow> ok w \<and> coherent D (entry w) (rows w) (sd_now D w)"

lemma inv_resolve: "ttl_ok \<Longrightarrow> inv w \<Longrightarrow> inv (snd (resolveSessionByHash D h w))"
  by (simp add: inv_def resolve_coherent)

lemma inv_revoke: "inv w \<Longrightarrow> inv (snd (revokeSessionByHash D h w))"
  by (simp add: inv_def revokeSessionByHash_def prog_simps coherent_drop)

lemma inv_revokeAll:
  assumes ttl_ok "inv w"
  shows "inv (snd (revokeAllForUser D u w))"
proof -
  obtain w' e where r: "revokeAllForUser D u w = (Inr (card (of_user w u)), w')"
    "rows w' = drop_rows (of_user w u) (rows w)"
    "entry w' = drop_cached (of_user w u) ((entry w)(epochKey u \<mapsto> e))" "ok w'" "sd_now D w' = sd_now D w"
    using revokeAllForUser_run [OF assms(1), of w u] assms(2) by (auto simp: inv_def)
  have "coherent D (entry w') (rows w') (sd_now D w)"
    unfolding r using assms(2) by (intro coherent_drop_all) (simp add: inv_def)
  with r show ?thesis by (simp add: inv_def)
qed

lemma inv_bump: "ttl_ok \<Longrightarrow> inv w \<Longrightarrow> inv (snd (bumpEpoch D u w))"
  using bumpEpoch_run [of u w] by (metis bumpEpoch_frame(1,3,4) coherent_key_simps(2) inv_def)

lemma inv_ban: "ttl_ok \<Longrightarrow> inv w \<Longrightarrow> inv (snd (banUser D u w))"
  using inv_revokeAll [of "snd (markBanned D u w)" u] by (simp add: banUser_revokes inv_def)

lemma inv_create:
  assumes ttl_ok "sd_ttlSeconds D \<le> sd_absoluteMaxSeconds D" "inv w"
  shows "inv (snd (createSession D u roles meta w))"
proof (cases "mintable w u meta")
  case True
  then obtain t where t:
    "rows (snd (createSession D u roles meta w)) =
       (rows w)(sd_sha256Hex D t \<mapsto> minted_row (sd_now D w) (sd_sha256Hex D t) u roles meta)"
    "entry (snd (createSession D u roles meta w)) =
       (entry w)(sessionKey (sd_sha256Hex D t) \<mapsto>
         (json_of (minted_cache w u roles meta),
          At (sd_now D w + cache_ttl (cs_expiresAtMs (minted_cache w u roles meta)) (sd_now D w) * 1000)))"
    "ok w \<Longrightarrow> ok (snd (createSession D u roles meta w))"
    "sd_now D (snd (createSession D u roles meta w)) = sd_now D w"
    by (rule createSession_minted [of w u meta roles]) (simp add: minted_cache_def)
  have "coherent D (entry (snd (createSession D u roles meta w)))
    (rows (snd (createSession D u roles meta w))) (sd_now D w)"
    unfolding t using assms
    by (intro coherent_write) (auto simp: inv_def projects_def minted_cache_def minted_row_def row_bounded_def)
  with t(3,4) assms(3) show ?thesis by (simp add: inv_def)
next
  case False
  with assms(3) show ?thesis by (simp add: inv_def createSession_refused)
qed

lemma inv_advance:
  assumes "inv w" "0 \<le> d" "ok (advance d w)" "rows (advance d w) = rows w"
  shows "inv (advance d w)"
proof -
  have sub: "entry w k = Some e" if "entry (advance d w) k = Some e" for k e
    using that unfolding cache.advance_view [OF assms(2)]
    by (auto split: option.splits if_splits)
  have "coherent D (entry (advance d w)) (rows w) (sd_now D w + d)"
    by (rule coherent_subset [of D "entry w" "rows w" "sd_now D w"])
      (use assms(1,2) sub in \<open>simp_all add: inv_def\<close>)
  with assms(3,4) show ?thesis by (simp add: inv_def cache.advance_now)
qed

text \<open>\<open>applyAccountStatus\<close> first refuses an operator as its target, and then it is one of the methods above.\<close>

definition protected_target :: "'w \<Rightarrow> string \<Rightarrow> account_status \<Rightarrow> bool" where
  "protected_target w u s \<longleftrightarrow>
     (s = Banned \<or> s = Suspended) \<and> sd_users D \<noteq> None \<and> isOperatorRole (role w u)"

lemma apply_protected:
  assumes "protected_target w u s"
  shows "snd (applyAccountStatus D u s w) = w \<and> isl (fst (applyAccountStatus D u s w))"
  using assms by (auto simp: applyAccountStatus_def protected_target_def assertTargetIsNotOperatorRole_def prog_simps)

lemma apply_unprotected:
  assumes "\<not> protected_target w u s"
  shows "applyAccountStatus D u s w =
    (if s = Banned then banUser D u w
     else if s = Suspended then revokeAllForUser D u (snd (clearBan D u w))
     else seq (bumpEpoch D u) (\<lambda>_. ret 0) (snd (clearBan D u w)))"
  using assms
  by (cases "sd_users D")
    (auto simp: applyAccountStatus_def protected_target_def assertTargetIsNotOperatorRole_def
      isOperatorRole_def seq_run [of "clearBan D u"] prog_simps(1,5,6))

lemma inv_apply:
  assumes ttl_ok "inv w"
  shows "inv (snd (applyAccountStatus D u s w))"
proof (cases "protected_target w u s")
  case True
  then show ?thesis using apply_protected [OF True] assms(2) by simp
next
  case False
  have "inv (snd (clearBan D u w))" using assms(2) by (simp add: inv_def)
  then show ?thesis
    using assms inv_revokeAll [of "snd (clearBan D u w)" u] inv_bump [of "snd (clearBan D u w)" u] inv_ban
    by (auto simp: apply_unprotected [OF False] seq_ret_state)
qed

lemma only_from_revoke: "only_from (rows w) (rows (snd (revokeSessionByHash D h w)))"
  by (auto simp: revokeSessionByHash_def prog_simps)

lemma only_from_revokeAll: "ttl_ok \<Longrightarrow> ok w \<Longrightarrow> only_from (rows w) (rows (snd (revokeAllForUser D u w)))"
  using revokeAllForUser_run [of w u] by (fastforce simp: only_from_def drop_rows_def)

lemma only_from_apply:
  assumes ttl_ok "ok w"
  shows "only_from (rows w) (rows (snd (applyAccountStatus D u s w)))"
proof (cases "protected_target w u s")
  case True
  then show ?thesis using apply_protected [OF True] by simp
next
  case False
  then show ?thesis
    using assms only_from_revokeAll [of "snd (clearBan D u w)" u] only_from_revokeAll [of "snd (markBanned D u w)" u]
    by (auto simp: apply_unprotected [OF False] banUser_revokes seq_ret_state)
qed

lemma only_from_ban: "ttl_ok \<Longrightarrow> ok w \<Longrightarrow> only_from (rows w) (rows (snd (banUser D u w)))"
  using only_from_revokeAll [of "snd (markBanned D u w)" u] by (simp add: banUser_revokes)

lemma no_sessions_revokeAll: "ttl_ok \<Longrightarrow> ok w \<Longrightarrow> no_sessions u (rows (snd (revokeAllForUser D u w)))"
  using revokeAllForUser_run [of w u] by (fastforce simp: no_sessions_def drop_rows_def of_user_def)

lemma no_sessions_ban: "ttl_ok \<Longrightarrow> ok w \<Longrightarrow> no_sessions u (rows (snd (banUser D u w)))"
  by (simp add: banUser_revokes no_sessions_revokeAll)

lemma no_sessions_create:
  assumes "no_sessions u (rows w)" "u' \<noteq> u"
  shows "no_sessions u (rows (snd (createSession D u' roles meta w)))"
proof (cases "mintable w u' meta")
  case True
  with assms show ?thesis
    by (elim createSession_minted [of w u' meta roles]) (simp add: no_sessions_def minted_row_def)
next
  case False
  with assms show ?thesis by (simp add: createSession_refused)
qed

lemma gone:
  assumes "inv w" "no_sessions u (rows w)" "fst (resolveSession D t w) = Inr (Some r)"
  shows "rr_userId r \<noteq> u"
  using assms no_sessions_verdict [of D "entry w" "rows w" "sd_now D w" u]
  by (auto simp: inv_def resolveSession_def resolve_result)

text \<open>A minted token resolves for its whole lifetime, from the cache or from the row.\<close>

lemma minted_resolves:
  assumes "fst (createSession D u roles meta w) = Inr t" "ttl_ok" "0 \<le> d" "d < sd_ttlSeconds D * 1000"
    "d < sd_absoluteMaxSeconds D * 1000" "entry w (bannedKey u) = None" "status w u \<noteq> Banned"
    and adv: "\<And>w. rows (advance d w) = rows w" "\<And>w. status (advance d w) = status w"
  obtains r where
    "fst (resolveSession D t (advance d (snd (createSession D u roles meta w)))) = Inr (Some r)"
    "rr_userId r = u" "rr_roles r = roles" "rr_expiresAtMs r = sd_now D w + sd_ttlSeconds D * 1000"
proof -
  have m: "mintable w u meta" using assms(1) createSession_refused(1) by (cases "mintable w u meta") auto
  let ?w = "snd (createSession D u roles meta w)" and ?n = "sd_now D w"
  let ?h = "sd_sha256Hex D t" and ?x = "?n + sd_ttlSeconds D * 1000" and ?c = "minted_cache w u roles meta"
  obtain t' where "fst (createSession D u roles meta w) = Inr t'"
    "rows ?w = (rows w)(sd_sha256Hex D t' \<mapsto> minted_row ?n (sd_sha256Hex D t') u roles meta)"
    "entry ?w = (entry w)(sessionKey (sd_sha256Hex D t') \<mapsto> (json_of ?c, At (?n + cache_ttl ?x ?n * 1000)))"
    "status ?w = status w" "sd_now D ?w = ?n"
    by (rule createSession_minted [OF m, of roles])
  then have s: "rows ?w = (rows w)(?h \<mapsto> minted_row ?n ?h u roles meta)"
    "entry ?w = (entry w)(sessionKey ?h \<mapsto> (json_of ?c, At (?n + cache_ttl ?x ?n * 1000)))"
    "status ?w = status w" "sd_now D ?w = ?n"
    using assms(1) by auto
  let ?v = "advance d ?w"
  have fresh: "\<not> expired (At (?n + cache_ttl ?x ?n * 1000)) (?n + d)"
    using cache_ttl_covers [of ?x ?n] assms(4) by simp
  have e: "entry ?v (sessionKey ?h) = Some (json_of ?c, At (?n + cache_ttl ?x ?n * 1000))"
    using cache.advance_view [OF assms(3), of ?w "sessionKey ?h"] fresh by (simp add: s)
  have b: "entry ?v (bannedKey u) = None"
    using cache.advance_view [OF assms(3), of ?w "bannedKey u"] assms(6) by (simp add: s)
  have act: "user_active (entry ?v) u" using m b by (simp add: user_active_def mintable_def)
  have ok: "usable D (?n + d) ?c" "\<not> absolutelyExpired D ?n (?n + d)"
    using assms(4,5) m by (auto simp: usable_def minted_cache_def mintable_def isMintRefused_def
        absolutelyExpired_def)
  have rl: "row_live D (?n + d) (minted_row ?n ?h u roles meta)"
    using assms(4) ok(2) by (simp add: row_live_def minted_row_def)
  have "resolve_verdict D (entry ?v) (rows ?v) (status ?v) (sd_now D ?v) ?h =
    Some (if epoch_in (entry w) u = epoch_in (entry ?v) u then session_of_cached ?c
          else session_of_row (minted_row ?n ?h u roles meta) (status w u))"
    using e act ok rl assms(7)
    by (simp add: resolve_verdict_def cache_verdict_def store_verdict_def s adv cache.advance_now
        minted_cache_def minted_row_def)
  then show ?thesis
    by (intro that [of "if epoch_in (entry w) u = epoch_in (entry ?v) u then session_of_cached ?c
          else session_of_row (minted_row ?n ?h u roles meta) (status w u)"])
      (simp_all add: resolveSession_def resolve_result session_of_cached_def session_of_row_def
        minted_cache_def minted_row_def)
qed

end

end
