(* ===== verification/Session_Runs.thy ===== *)
theory Session_Runs
  imports Session_Laws
begin

section \<open>The session service on the in-memory stores\<close>

text \<open>
  The service wired to the in-memory cache, session store and user store (the constructor of
  \<open>SessionService\<close>), the interpretation of its environment, and the properties of its runs: arbitrary
  sequences of logins, lookups, logouts, revocations, bans, status changes and waits.
\<close>

definition session_service ::
  "(nat \<Rightarrow> string) \<Rightarrow> (string \<Rightarrow> string) \<Rightarrow> int \<Rightarrow> int \<Rightarrow> int \<Rightarrow> 'w auth_world_scheme session_deps" where
  "session_service token_of sha256Hex ttl absoluteMax slide =
     \<lparr>sd_store = in_memory_sessions, sd_cache = in_memory_cache,
      sd_users = Some \<lparr>su_accountStatus = user_accountStatus,
                       su_findRole = (\<lambda>u. seq (user_findById u) (\<lambda>r. ret (map_option u_role r)))\<rparr>,
      sd_ttlSeconds = ttl, sd_absoluteMaxSeconds = absoluteMax, sd_slideGranularityMs = slide,
      sd_now = clock, sd_generateToken = randomUUID token_of, sd_sha256Hex = sha256Hex\<rparr>"

definition mem_account :: "'w auth_world_scheme \<Rightarrow> string \<Rightarrow> account_status" where
  "mem_account w u = or_else (jm_get (user_statuses w) u) Active"

definition mem_role :: "'w auth_world_scheme \<Rightarrow> string \<Rightarrow> string option" where
  "mem_role w u = map_option u_role (jm_get (user_rows w) u)"

lemma session_service_fields [simp]:
  "sd_store (session_service tk sha ttl am sl) = in_memory_sessions"
  "sd_cache (session_service tk sha ttl am sl) = in_memory_cache"
  "sd_ttlSeconds (session_service tk sha ttl am sl) = ttl"
  "sd_absoluteMaxSeconds (session_service tk sha ttl am sl) = am"
  "sd_slideGranularityMs (session_service tk sha ttl am sl) = sl"
  "sd_now (session_service tk sha ttl am sl) = clock"
  "sd_generateToken (session_service tk sha ttl am sl) = randomUUID tk"
  "sd_sha256Hex (session_service tk sha ttl am sl) = sha"
  "sd_users (session_service tk sha ttl am sl) \<noteq> None"
  by (simp_all add: session_service_def)

subsection \<open>The cache does not touch the other stores\<close>

definition auth_rest :: "'w auth_world_scheme \<Rightarrow>
  (string, session_row) js_map \<times> (string, account_status) js_map \<times> (string, user_record) js_map \<times>
  (string, account_status) js_map \<times> otp_record list \<times> nat" where
  "auth_rest w = (session_rows w, session_statuses w, user_rows w, user_statuses w, otp_rows w, entropy w)"

lemma auth_rest_cache [simp]:
  "auth_rest (snd (cache_get k w)) = auth_rest w" "auth_rest (snd (cache_set k v i w)) = auth_rest w"
  "auth_rest (snd (cache_del k w)) = auth_rest w" "auth_rest (snd (cache_incr k i w)) = auth_rest w"
  by (auto simp: auth_rest_def cache_get_def cache_set_def cache_del_def cache_incr_def cache_live_def
      put_entry_def prog_simps Let_def split: option.split)

lemma auth_rest_mget [simp]: "auth_rest (snd (cache_mget ks w)) = auth_rest w"
  by (induction ks arbitrary: w) (simp_all add: prog_simps cache_get_result cache_mget_laws)

lemma auth_rest_views:
  assumes "auth_rest w' = auth_rest w"
  shows "mem_session_rows w' = mem_session_rows w" "session_status w' = session_status w"
    "mem_sessions_ok w' = mem_sessions_ok w" "mem_account w' = mem_account w" "mem_role w' = mem_role w"
    "otp_rows w' = otp_rows w"
  using assms by (simp_all add: auth_rest_def mem_session_rows_def session_status_def [abs_def]
      mem_sessions_ok_def mem_account_def [abs_def] mem_role_def [abs_def])

lemmas cache_frames [simp] =
  auth_rest_views [OF auth_rest_cache(1)] auth_rest_views [OF auth_rest_cache(2)]
  auth_rest_views [OF auth_rest_cache(3)] auth_rest_views [OF auth_rest_cache(4)]
  auth_rest_views [OF auth_rest_mget]

lemma mem_entry_other [simp]:
  "mem_entry (w\<lparr>session_rows := a\<rparr>) = mem_entry w" "mem_entry (w\<lparr>session_statuses := b\<rparr>) = mem_entry w"
  "mem_entry (w\<lparr>otp_rows := c\<rparr>) = mem_entry w" "mem_entry (w\<lparr>entropy := d\<rparr>) = mem_entry w"
  "mem_entry (w\<lparr>user_rows := f\<rparr>) = mem_entry w" "mem_entry (w\<lparr>user_statuses := b\<rparr>) = mem_entry w"
  by (simp_all add: mem_entry_def fun_eq_iff split: option.split)

interpretation sess: session_env "session_service tk sha ttl am sl" mem_entry tick mem_session_rows
  session_status mem_sessions_ok mem_account mem_role
  for tk sha ttl am sl
proof (intro session_env.intro, goal_cases)
  case 1
  then show ?case by (simp add: mem_cache.cache_laws_axioms)
next
  case 2
  then show ?case by (simp add: mem_sessions.session_store_laws_axioms)
next
  case 3
  show ?case
  proof (unfold_locales, goal_cases)
    case (18 h x t w)
    then show ?case by (simp add: session_store_defs prog_simps split: option.split)
  next
    case (23 h x t w)
    then show ?case by (simp add: session_store_defs prog_simps split: option.split)
  qed ((clarsimp simp: in_memory_cache_def; fail)
      | (clarsimp simp: session_service_def session_store_defs prog_simps
        user_accountStatus_def user_findById_def mem_account_def [abs_def] mem_role_def randomUUID_def
        session_status_def [abs_def]; fail))+
qed

subsection \<open>Runs\<close>

text \<open>
  \<open>SetStatus\<close> is the write of the account's status, which both stores read; \<open>Apply\<close> is
  \<open>applyAccountStatus\<close>, which the callers run after it; \<open>Wait\<close> lets the clock run forward.
\<close>

datatype session_op =
    Login string "string list" session_meta
  | Lookup string
  | Logout string
  | LogoutAll string
  | Ban string
  | Apply string account_status
  | SetStatus string account_status
  | Wait int

fun run_op :: "'w auth_world_scheme session_deps \<Rightarrow> session_op \<Rightarrow> 'w auth_world_scheme \<Rightarrow> 'w auth_world_scheme" where
  "run_op D (Login u roles meta) w = snd (createSession D u roles meta w)"
| "run_op D (Lookup token) w = snd (resolveSession D token w)"
| "run_op D (Logout token) w = snd (revokeSession D token w)"
| "run_op D (LogoutAll u) w = snd (revokeAllForUser D u w)"
| "run_op D (Ban u) w = snd (banUser D u w)"
| "run_op D (Apply u s) w = snd (applyAccountStatus D u s w)"
| "run_op D (SetStatus u s) w =
     snd (seq (session_setAccountStatus u s) (\<lambda>_. user_setAccountStatus u s) w)"
| "run_op D (Wait d) w = tick (max 0 d) w"

definition run_ops ::
  "'w auth_world_scheme session_deps \<Rightarrow> session_op list \<Rightarrow> 'w auth_world_scheme \<Rightarrow> 'w auth_world_scheme" where
  "run_ops D ops w = foldl (\<lambda>w op. run_op D op w) w ops"

definition fresh_world :: "'w auth_world_scheme \<Rightarrow> bool" where
  "fresh_world w \<longleftrightarrow> session_rows w = [] \<and> cache_store w = []"

lemma run_ops_simps [simp]:
  "run_ops D [] w = w" "run_ops D (op # ops) w = run_ops D ops (run_op D op w)"
  "run_ops D (ops @ ops') w = run_ops D ops' (run_ops D ops w)"
  by (simp_all add: run_ops_def)

lemma status_writes [simp]:
  "mem_entry (run_op D (SetStatus u s) w) = mem_entry w" "clock (run_op D (SetStatus u s) w) = clock w"
  "mem_session_rows (run_op D (SetStatus u s) w) = mem_session_rows w"
  "mem_sessions_ok (run_op D (SetStatus u s) w) = mem_sessions_ok w"
  by (simp_all add: session_setAccountStatus_def user_setAccountStatus_def prog_simps mem_session_rows_def
      mem_sessions_ok_def)

lemma tick_views [simp]:
  "mem_session_rows (tick d w) = mem_session_rows w" "mem_sessions_ok (tick d w) = mem_sessions_ok w"
  "session_status (tick d w) = session_status w"
  by (simp_all add: tick_def mem_session_rows_def mem_sessions_ok_def session_status_def [abs_def])

abbreviation sane :: "int \<Rightarrow> int \<Rightarrow> bool" where
  "sane ttl am \<equiv> 0 < ttl \<and> ttl \<le> am"

lemma inv_op:
  assumes "sane ttl am" "sess.inv tk sha ttl am sl w"
  shows "sess.inv tk sha ttl am sl (run_op (session_service tk sha ttl am sl) op w)"
proof (cases op)
  case (SetStatus u s)
  then show ?thesis
    using assms(2) status_writes [of "session_service tk sha ttl am sl" u s w]
    by (simp add: sess.inv_def del: run_op.simps)
next
  case (Wait d)
  have "mem_sessions_ok w" using assms(2) by (simp add: sess.inv_def)
  with Wait sess.inv_advance [OF assms(2), of "max 0 d"] show ?thesis by simp
qed (use assms in \<open>simp_all add: sess.inv_create sess.inv_resolve sess.inv_revoke sess.inv_revokeAll sess.inv_ban
     sess.inv_apply resolveSession_def revokeSession_def\<close>)

lemma inv_fresh: "fresh_world w \<Longrightarrow> sess.inv tk sha ttl am sl w"
  by (simp add: sess.inv_def fresh_world_def coherent_def mem_entry_def mem_session_rows_def mem_sessions_ok_def)

lemma inv_ops:
  assumes "sane ttl am" "sess.inv tk sha ttl am sl w"
  shows "sess.inv tk sha ttl am sl (run_ops (session_service tk sha ttl am sl) ops w)"
  using assms(2) by (induction ops arbitrary: w) (simp_all add: inv_op [OF assms(1)])

lemmas inv_run = inv_ops [OF _ inv_fresh]

fun logs_in :: "string \<Rightarrow> session_op \<Rightarrow> bool" where
  "logs_in u (Login u' _ _) = (u' = u)"
| "logs_in u _ = False"

lemma no_sessions_op:
  assumes "0 < ttl" "mem_sessions_ok w" "no_sessions u (mem_session_rows w)" "\<not> logs_in u op"
  shows "no_sessions u (mem_session_rows (run_op (session_service tk sha ttl am sl) op w))"
proof (cases op)
  case (SetStatus v s)
  with assms(3) show ?thesis by (simp del: run_op.simps)
next
  case (LogoutAll v)
  show ?thesis
    using no_sessions_only_from [OF sess.only_from_revokeAll assms(3)] assms(1,2) LogoutAll by simp
next
  case (Ban v)
  show ?thesis
    using no_sessions_only_from [OF sess.only_from_ban assms(3)] assms(1,2) Ban by simp
next
  case (Apply v s)
  show ?thesis
    using no_sessions_only_from [OF sess.only_from_apply assms(3)] assms(1,2) Apply by simp
qed (use assms in \<open>auto intro: no_sessions_only_from [OF _ assms(3)] sess.no_sessions_create
      sess.resolve_frame(4) sess.only_from_revoke simp: resolveSession_def revokeSession_def\<close>)

lemma no_sessions_ops:
  assumes "sane ttl am" "sess.inv tk sha ttl am sl w" "no_sessions u (mem_session_rows w)"
    "\<not> list_ex (logs_in u) ops"
  shows "no_sessions u (mem_session_rows (run_ops (session_service tk sha ttl am sl) ops w))"
  using assms(2-4)
proof (induction ops arbitrary: w)
  case (Cons op ops)
  have "no_sessions u (mem_session_rows (run_op (session_service tk sha ttl am sl) op w))"
    using Cons.prems assms(1) by (intro no_sessions_op) (auto simp: sess.inv_def)
  with Cons inv_op [OF assms(1) Cons.prems(1)] show ?case by simp
qed simp

lemma gone_after:
  assumes "sane ttl am" "sess.inv tk sha ttl am sl w" "no_sessions u (mem_session_rows w)"
    "\<not> list_ex (logs_in u) ops"
    "fst (resolveSession (session_service tk sha ttl am sl) token
        (run_ops (session_service tk sha ttl am sl) ops w)) = Inr (Some r)"
  shows "rr_userId r \<noteq> u"
  by (rule sess.gone [OF inv_ops [OF assms(1,2)] no_sessions_ops [OF assms(1-4)] assms(5)])

subsection \<open>Properties\<close>

definition empty_auth_world :: auth_world where
  "empty_auth_world =
     \<lparr>clock = 0, cache_store = [], cache_sets = [], session_rows = [], session_statuses = [],
      user_rows = [], user_statuses = [], memberships = [], identity_rows = [], otp_rows = [], entropy = 0\<rparr>"

definition sample_token :: "nat \<Rightarrow> string" where
  "sample_token n = ''t'' @ string_of_nat n"

definition sample_sha :: "string \<Rightarrow> string" where
  "sample_sha s = ''h'' @ s"

definition sample_service :: "auth_world session_deps" where
  "sample_service = session_service sample_token sample_sha
     DEFAULT_SESSION_TTL_SECONDS ABSOLUTE_SESSION_MAX_SECONDS DEFAULT_SLIDE_GRANULARITY_MS"

definition no_meta :: session_meta where
  "no_meta = \<lparr>sm_userAgent = None, sm_ip = None, sm_accountStatus = None\<rparr>"

text \<open>
  C3: after all sessions of a user are revoked, and until the user logs in again, no token resolves to the
  user, whatever else happens: the sessions stay gone through any sequence of operations and waits.
\<close>

theorem logout_everywhere:
  assumes "fresh_world w0" "0 < ttl" "ttl \<le> am" "\<not> list_ex (logs_in u) later"
    "fst (resolveSession (session_service tk sha ttl am sl) token
       (run_ops (session_service tk sha ttl am sl) (earlier @ LogoutAll u # later) w0)) = Inr (Some r)"
  shows "rr_userId r \<noteq> u"
proof -
  let ?w = "run_ops (session_service tk sha ttl am sl) earlier w0"
  have inv: "sess.inv tk sha ttl am sl ?w"
    using assms(1-3) by (simp add: inv_run)
  then have "no_sessions u (mem_session_rows (snd (revokeAllForUser (session_service tk sha ttl am sl) u ?w)))"
    using assms(2) by (intro sess.no_sessions_revokeAll) (simp_all add: sess.inv_def)
  moreover have "sess.inv tk sha ttl am sl (snd (revokeAllForUser (session_service tk sha ttl am sl) u ?w))"
    using inv assms(2) by (simp add: sess.inv_revokeAll)
  ultimately show ?thesis
    using gone_after [of ttl am tk sha sl _ u later token r] assms(2-5) by simp
qed

lemma sample_run:
  "fst (resolveSession sample_service ''t1'' (run_ops sample_service
      ([Login ''alice'' [] no_meta, Login ''bob'' [''citizen''] no_meta] @ LogoutAll ''alice'' # [Wait 5000])
      empty_auth_world)) =
   Inr (Some \<lparr>rr_userId = ''bob'', rr_roles = [''citizen''], rr_accountStatus = Active, rr_source = FromCache,
              rr_expiresAtMs = 2592000000\<rparr>)"
  by code_simp

theorem logout_everywhere_witness:
  "rr_userId \<lparr>rr_userId = ''bob'', rr_roles = [''citizen''], rr_accountStatus = Active, rr_source = FromCache,
     rr_expiresAtMs = 2592000000\<rparr> \<noteq> ''alice''"
  by (rule logout_everywhere [OF _ _ _ _ sample_run [unfolded sample_service_def]])
    (simp_all add: fresh_world_def empty_auth_world_def DEFAULT_SESSION_TTL_SECONDS_def
      ABSOLUTE_SESSION_MAX_SECONDS_def)

text \<open>
  C16: a lookup that authenticates names a user who is not the official account and carries no ban marker,
  with a status other than banned and an expiry in the future.  This needs no invariant: it holds in every
  world, whatever the cache and the store contain.
\<close>

theorem resolve_sound:
  assumes "fst (resolveSession (session_service tk sha ttl am sl) token w) = Inr (Some r)"
  shows "\<not> isOfficialAccount (Some (rr_userId r)) \<and> mem_entry w (bannedKey (rr_userId r)) = None \<and>
    rr_accountStatus r \<noteq> Banned \<and> clock w < rr_expiresAtMs r"
  using assms
  by (auto simp: resolveSession_def sess.resolve_result resolve_verdict_def cache_verdict_def
      store_verdict_def user_active_def usable_def row_live_def session_of_cached_def session_of_row_def
      simp del: not_None_eq split: cache_lookup.splits option.splits if_splits)

theorem resolve_sound_witness:
  "(let r = \<lparr>rr_userId = ''bob'', rr_roles = [''citizen''], rr_accountStatus = Active, rr_source = FromCache,
             rr_expiresAtMs = 2592000000\<rparr>;
        w = run_ops sample_service
          ([Login ''alice'' [] no_meta, Login ''bob'' [''citizen''] no_meta] @ LogoutAll ''alice'' # [Wait 5000])
          empty_auth_world
    in \<not> isOfficialAccount (Some (rr_userId r)) \<and> mem_entry w (bannedKey (rr_userId r)) = None \<and>
       rr_accountStatus r \<noteq> Banned \<and> clock w < rr_expiresAtMs r)"
  unfolding Let_def sample_service_def
  by (rule resolve_sound [OF sample_run [unfolded sample_service_def]])

text \<open>
  C19: in every run from empty stores, a live projection always has a row, with the same user, roles, creation
  and expiry, and no row outlives the session lifetime from now or the absolute maximum from its creation.
\<close>

theorem projections_have_rows:
  assumes "fresh_world w0" "0 < ttl" "ttl \<le> am" "w = run_ops (session_service tk sha ttl am sl) ops w0"
  shows "(\<forall>h v x. mem_entry w (sessionKey h) = Some (v, x) \<longrightarrow>
      (\<exists>c r. parseCache v = Some c \<and> mem_session_rows w h = Some r \<and> cs_userId c = row_userId r \<and>
        cs_roles c = row_roles r \<and> cs_createdAtMs c = row_createdAt r \<and> cs_expiresAtMs c = row_expiresAt r)) \<and>
    (\<forall>h r. mem_session_rows w h = Some r \<longrightarrow>
      row_expiresAt r \<le> min (clock w + ttl * 1000) (row_createdAt r + am * 1000))"
proof -
  have inv: "sess.inv tk sha ttl am sl w" using assms by (simp add: inv_run)
  have "\<exists>c r. parseCache v = Some c \<and> mem_session_rows w h = Some r \<and> cs_userId c = row_userId r \<and>
        cs_roles c = row_roles r \<and> cs_createdAtMs c = row_createdAt r \<and> cs_expiresAtMs c = row_expiresAt r"
    if "mem_entry w (sessionKey h) = Some (v, x)" for h v x
    using inv that unfolding sess.inv_def
    by (auto elim!: coherent_projection simp: projects_def)
  moreover have "row_expiresAt r \<le> min (clock w + ttl * 1000) (row_createdAt r + am * 1000)"
    if "mem_session_rows w h = Some r" for h r
    using inv coherent_row that unfolding sess.inv_def by (fastforce simp: row_bounded_def)
  ultimately show ?thesis by blast
qed

theorem projections_have_rows_witness:
  "\<exists>w. w = run_ops sample_service [Login ''bob'' [''citizen''] no_meta, Wait 5000] empty_auth_world \<and>
    (\<forall>h v x. mem_entry w (sessionKey h) = Some (v, x) \<longrightarrow>
      (\<exists>c r. parseCache v = Some c \<and> mem_session_rows w h = Some r \<and> cs_userId c = row_userId r \<and>
        cs_roles c = row_roles r \<and> cs_createdAtMs c = row_createdAt r \<and> cs_expiresAtMs c = row_expiresAt r)) \<and>
    (\<forall>h r. mem_session_rows w h = Some r \<longrightarrow>
      row_expiresAt r \<le> min (clock w + DEFAULT_SESSION_TTL_SECONDS * 1000)
        (row_createdAt r + ABSOLUTE_SESSION_MAX_SECONDS * 1000))"
  using projections_have_rows [OF _ _ _ refl, of empty_auth_world DEFAULT_SESSION_TTL_SECONDS
      ABSOLUTE_SESSION_MAX_SECONDS sample_token sample_sha DEFAULT_SLIDE_GRANULARITY_MS
      "[Login ''bob'' [''citizen''] no_meta, Wait 5000]"]
  by (simp add: sample_service_def fresh_world_def empty_auth_world_def DEFAULT_SESSION_TTL_SECONDS_def
      ABSOLUTE_SESSION_MAX_SECONDS_def del: run_ops_simps)

text \<open>
  the ban marker outlives every projection cached before it: when the marker has lapsed, so has every
  such projection.  The marker alone therefore rejects a session whose row is already gone.
\<close>

theorem ban_marker_outlives_projections:
  assumes "fresh_world w0" "0 < ttl" "ttl \<le> am" "w = run_ops (session_service tk sha ttl am sl) ops w0" "0 \<le> d"
    "mem_entry (tick d (snd (markBanned (session_service tk sha ttl am sl) u w))) (bannedKey u) = None"
  shows "mem_entry (tick d (snd (markBanned (session_service tk sha ttl am sl) u w))) (sessionKey h) = None"
proof (rule ccontr)
  let ?D = "session_service tk sha ttl am sl"
  have inv: "sess.inv tk sha ttl am sl w" using assms(1-4) by (simp add: inv_run)
  have set: "mem_entry (snd (markBanned ?D u w)) = (mem_entry w)(bannedKey u \<mapsto>
    (Text BANNED_MARKER_VALUE, At (clock w + (ttl + BANNED_MARKER_GRACE_SECONDS) * 1000)))"
    and clk: "clock (snd (markBanned ?D u w)) = clock w"
    using sess.markBanned_run(5,6) [of tk sha ttl am sl u w] assms(2) by simp_all
  have late: "clock w + (ttl + BANNED_MARKER_GRACE_SECONDS) * 1000 \<le> clock w + d"
    using assms(6) mem_cache.advance_view [OF assms(5), of "snd (markBanned ?D u w)" "bannedKey u"]
    by (simp add: set clk split: if_splits)
  assume "mem_entry (tick d (snd (markBanned ?D u w))) (sessionKey h) \<noteq> None"
  then obtain v x where e: "mem_entry w (sessionKey h) = Some (v, x)" "\<not> expired x (clock w + d)"
    using mem_cache.advance_view [OF assms(5), of "snd (markBanned ?D u w)" "sessionKey h"]
    by (auto simp: set clk split: option.splits if_splits)
  from inv e(1) obtain t where "x = At t" "t \<le> clock w + ttl * 1000"
    unfolding sess.inv_def by (auto elim!: coherent_projection)
  with e(2) late show False by (simp add: BANNED_MARKER_GRACE_SECONDS_def)
qed

theorem ban_marker_outlives_projections_witness:
  "(let w = run_ops sample_service [Login ''bob'' [''citizen''] no_meta] empty_auth_world
    in mem_entry (tick 2592060000 (snd (markBanned sample_service ''bob'' w))) (bannedKey ''bob'') = None \<and>
       mem_entry (tick 2592060000 (snd (markBanned sample_service ''bob'' w))) (sessionKey ''ht0'') = None)"
proof -
  let ?w = "run_ops sample_service [Login ''bob'' [''citizen''] no_meta] empty_auth_world"
  have lapsed: "mem_entry (tick 2592060000 (snd (markBanned sample_service ''bob'' ?w))) (bannedKey ''bob'') = None"
    by code_simp
  then have "mem_entry (tick 2592060000 (snd (markBanned sample_service ''bob'' ?w))) (sessionKey ''ht0'') = None"
    unfolding sample_service_def
    by (intro ban_marker_outlives_projections [OF _ _ _ refl])
      (simp_all add: fresh_world_def empty_auth_world_def DEFAULT_SESSION_TTL_SECONDS_def
      ABSOLUTE_SESSION_MAX_SECONDS_def del: run_ops_simps)
  with lapsed show ?thesis by (simp only: Let_def)
qed

text \<open>
  a token resolves to its user and roles at every moment of the session lifetime (and of the absolute
  maximum) after the login that returned it, as long as the user is not banned and no one intervenes; this
  covers the lapse of the epoch counter, after which the row decides.
\<close>

theorem login_stays_valid:
  assumes "fst (createSession (session_service tk sha ttl am sl) u roles meta w) = Inr token" "0 < ttl"
    "0 \<le> d" "d < ttl * 1000" "d < am * 1000" "mem_entry w (bannedKey u) = None" "session_status w u \<noteq> Banned"
  shows "\<exists>r. fst (resolveSession (session_service tk sha ttl am sl) token
        (tick d (snd (createSession (session_service tk sha ttl am sl) u roles meta w)))) = Inr (Some r) \<and>
      rr_userId r = u \<and> rr_roles r = roles \<and> rr_expiresAtMs r = clock w + ttl * 1000"
  using assms by - (rule sess.minted_resolves [OF assms(1), of d]; simp)

theorem login_stays_valid_witness:
  "(let w = snd (createSession sample_service ''bob'' [''citizen''] no_meta empty_auth_world)
    in \<exists>r. fst (resolveSession sample_service ''t0'' (tick 2591999999 w)) = Inr (Some r) \<and>
      rr_userId r = ''bob'' \<and> rr_roles r = [''citizen''] \<and> rr_expiresAtMs r = 2592000000)"
proof -
  have clk: "clock empty_auth_world = 0" by (simp add: empty_auth_world_def)
  have "fst (createSession sample_service ''bob'' [''citizen''] no_meta empty_auth_world) = Inr ''t0''"
    "mem_entry empty_auth_world (bannedKey ''bob'') = None" "session_status empty_auth_world ''bob'' \<noteq> Banned"
    by code_simp+
  from login_stays_valid [OF this(1) [unfolded sample_service_def] _ _ _ _ this(2,3), of 2591999999]
  show ?thesis
    by (simp add: Let_def sample_service_def DEFAULT_SESSION_TTL_SECONDS_def ABSOLUTE_SESSION_MAX_SECONDS_def clk)
qed

text \<open>
  minting is refused, with the same message and no trace in the store or the cache, exactly for the
  official account and for banned and suspended accounts; otherwise it yields a token whose row and projection
  carry the user, the roles and the expiry.
\<close>

theorem mint_outcome:
  "(if isOfficialAccount (Some u) \<or> mem_account w u \<in> {Banned, Suspended}
    then fst (createSession (session_service tk sha ttl am sl) u roles meta w) =
           Inl (Forbidden (Some MINT_REFUSED_MESSAGE)) \<and>
         mem_session_rows (snd (createSession (session_service tk sha ttl am sl) u roles meta w)) =
           mem_session_rows w \<and>
         mem_entry (snd (createSession (session_service tk sha ttl am sl) u roles meta w)) = mem_entry w
    else \<exists>token. fst (createSession (session_service tk sha ttl am sl) u roles meta w) = Inr token \<and>
         mem_session_rows (snd (createSession (session_service tk sha ttl am sl) u roles meta w)) =
           (mem_session_rows w)(sha token \<mapsto>
             \<lparr>row_id = sha token, row_userId = u, row_roles = roles, row_createdAt = clock w,
              row_expiresAt = clock w + ttl * 1000, row_lastSeenAt = clock w,
              row_userAgent = sm_userAgent meta, row_ip = sm_ip meta\<rparr>))"
proof -
  have m: "sess.mintable tk sha ttl am sl w u meta \<longleftrightarrow> \<not> (isOfficialAccount (Some u) \<or> mem_account w u \<in> {Banned, Suspended})"
    by (auto simp: sess.mintable_def sess.mint_status_def isMintRefused_def)
  show ?thesis
  proof (cases "sess.mintable tk sha ttl am sl w u meta")
    case True
    then have acc: "\<not> (isOfficialAccount (Some u) \<or> mem_account w u \<in> {Banned, Suspended})" by (simp add: m)
    from True show ?thesis
      by (elim sess.createSession_minted [where roles = roles]) (use acc in \<open>simp add: sess.minted_row_def\<close>)
  next
    case False
    then have "isOfficialAccount (Some u) \<or> mem_account w u \<in> {Banned, Suspended}" by (simp add: m)
    with False show ?thesis by (simp add: sess.createSession_refused)
  qed
qed

text \<open>A cache whose deletion of one key is rejected, as a broken connection makes it.\<close>

definition rejects_del :: "string \<Rightarrow> 'w session_deps \<Rightarrow> 'w session_deps" where
  "rejects_del key D = D\<lparr>sd_cache := (sd_cache D)\<lparr>cc_del :=
     (\<lambda>k. if k = key then raise (PlainError ''ECONNRESET'') else cc_del (sd_cache D) k)\<rparr>\<rparr>"

text \<open>
  a projection stranded by a rejected deletion can authenticate again.  The epoch counter lapses at a fixed
  time after its first increment, so a later increment can bring it back to the epoch of a projection that was
  already refused: here a suspended user, whose row is gone, resolves as active 31 days later.
\<close>

theorem stranded_projection_authenticates:
  "(let D = sample_service; day = 24 * 60 * 60 * 1000;
        mid = run_ops D [Apply ''alice'' Active, Wait (20 * day), Login ''alice'' [] no_meta, Wait (9 * day),
          SetStatus ''alice'' Suspended] empty_auth_world;
        suspended = snd (applyAccountStatus (rejects_del (sessionKey ''ht0'') D) ''alice'' Suspended mid);
        later = run_ops D [Wait (2 * day), Apply ''alice'' Suspended] suspended
    in (mem_session_rows suspended ''ht0'', fst (resolveSession D ''t0'' suspended),
        mem_account later ''alice'',
        map_sum id (map_option rr_accountStatus) (fst (resolveSession D ''t0'' later)))) =
   (None, Inr None, Suspended, Inr (Some Active))"
  by code_simp

end
