(* ===== verification/Session_Race.thy ===== *)
theory Session_Race
  imports Session_Runs
begin

section \<open>A login racing a suspension\<close>

text \<open>
  \<open>createSession\<close> and a suspension (the status write, then \<open>applyAccountStatus\<close>) as interleaved
  steps, one for each awaited call, on the same world.  \<open>Promise.all\<close> starts the epoch read and the status
  read together, so either may take effect first; \<open>epoch_first\<close> restricts the steps to the order in which
  the calls are written.
\<close>

datatype mint_pc =
    Reading "int option" "account_status option"
  | Inserting int account_status
  | Settling int account_status
  | Rechecking int
  | Caching int account_status
  | Minted
  | Refused

datatype suspend_pc = Writing | Bumping | Deleting | Evicting "string list" | Suspension_done

text \<open>The login's constants: user, roles, client, the hash of its token and the time it started.\<close>

record mint_call =
  mc_user :: string
  mc_roles :: "string list"
  mc_meta :: session_meta
  mc_hash :: string
  mc_now :: int

definition mint_row :: "'w session_deps \<Rightarrow> mint_call \<Rightarrow> session_insert" where
  "mint_row D c =
     \<lparr>si_id = mc_hash c, si_userId = mc_user c, si_roles = mc_roles c,
      si_expiresAt = mc_now c + sd_ttlSeconds D * 1000, si_lastSeenAt = mc_now c,
      si_userAgent = sm_userAgent (mc_meta c), si_ip = sm_ip (mc_meta c)\<rparr>"

definition mint_projection :: "'w session_deps \<Rightarrow> mint_call \<Rightarrow> int \<Rightarrow> account_status \<Rightarrow> cached_session" where
  "mint_projection D c e s =
     \<lparr>cs_userId = mc_user c, cs_roles = mc_roles c, cs_expiresAtMs = mc_now c + sd_ttlSeconds D * 1000,
      cs_createdAtMs = mc_now c, cs_epoch = e, cs_accountStatus = s\<rparr>"

text \<open>The steps of \<open>createSession\<close> and \<open>settleMint\<close>.\<close>

inductive mint_step ::
  "'w auth_world_scheme session_deps \<Rightarrow> mint_call \<Rightarrow> mint_pc \<times> 'w auth_world_scheme \<Rightarrow>
   mint_pc \<times> 'w auth_world_scheme \<Rightarrow> bool"
  for D :: "'w auth_world_scheme session_deps" and c :: mint_call where
  read_epoch: "currentEpoch D (mc_user c) w = (Inr e, w') \<Longrightarrow>
    mint_step D c (Reading None s, w) (Reading (Some e) s, w')"
| read_status: "user_accountStatus (mc_user c) w = (Inr s, w') \<Longrightarrow>
    mint_step D c (Reading e None, w) (Reading e (Some s), w')"
| refuse: "isMintRefused s \<Longrightarrow> mint_step D c (Reading (Some e) (Some s), w) (Refused, w)"
| accept: "\<not> isMintRefused s \<Longrightarrow> mint_step D c (Reading (Some e) (Some s), w) (Inserting e s, w)"
| insert: "ss_insert (sd_store D) (mint_row D c) w = (Inr (), w') \<Longrightarrow>
    mint_step D c (Inserting e s, w) (Settling e s, w')"
| settle: "currentEpoch D (mc_user c) w = (Inr e', w') \<Longrightarrow>
    mint_step D c (Settling e s, w) (if e' = e then Caching e' s else Rechecking e', w')"
| recheck_refuse: "user_accountStatus (mc_user c) w = (Inr s, w1) \<Longrightarrow> isMintRefused s \<Longrightarrow>
    ss_deleteById (sd_store D) (mc_hash c) w1 = (Inr (), w') \<Longrightarrow>
    mint_step D c (Rechecking e, w) (Refused, w')"
| recheck_accept: "user_accountStatus (mc_user c) w = (Inr s, w') \<Longrightarrow> \<not> isMintRefused s \<Longrightarrow>
    mint_step D c (Rechecking e, w) (Caching e s, w')"
| cache: "writeCache D (mc_hash c) (mint_projection D c e s) (mc_now c) w = (Inr (), w') \<Longrightarrow>
    mint_step D c (Caching e s, w) (Minted, w')"

text \<open>The steps of a suspension: the status write and \<open>revokeAllForUser\<close>.\<close>

inductive suspend_step ::
  "'w auth_world_scheme session_deps \<Rightarrow> string \<Rightarrow> suspend_pc \<times> 'w auth_world_scheme \<Rightarrow>
   suspend_pc \<times> 'w auth_world_scheme \<Rightarrow> bool"
  for D :: "'w auth_world_scheme session_deps" and u :: string where
  status_write: "suspend_step D u (Writing, w) (Bumping, run_op D (SetStatus u Suspended) w)"
| epoch_bump: "bumpEpoch D u w = (Inr n, w') \<Longrightarrow> suspend_step D u (Bumping, w) (Deleting, w')"
| rows_delete: "ss_deleteAllForUser (sd_store D) u w = (Inr ids, w') \<Longrightarrow>
    suspend_step D u (Deleting, w) (Evicting ids, w')"
| cache_evict: "evictSessionCaches D ids w = (Inr (), w') \<Longrightarrow>
    suspend_step D u (Evicting ids, w) (Suspension_done, w')"

inductive_cases mint_stepE: "mint_step D c (m, w) (m', w')"
inductive_cases suspend_stepE: "suspend_step D u (p, w) (p', w')"

text \<open>The status is read only after the epoch.\<close>

fun epoch_first :: "mint_pc \<Rightarrow> bool" where
  "epoch_first (Reading None (Some _)) = False"
| "epoch_first _ = True"

inductive race ::
  "(mint_pc \<Rightarrow> bool) \<Rightarrow> 'w auth_world_scheme session_deps \<Rightarrow> mint_call \<Rightarrow> 'w auth_world_scheme \<Rightarrow>
   mint_pc \<Rightarrow> suspend_pc \<Rightarrow> 'w auth_world_scheme \<Rightarrow> bool"
  for ok :: "mint_pc \<Rightarrow> bool" and D :: "'w auth_world_scheme session_deps" and c :: mint_call
    and w0 :: "'w auth_world_scheme" where
  start: "race ok D c w0 (Reading None None) Writing w0"
| mint: "race ok D c w0 m p w \<Longrightarrow> mint_step D c (m, w) (m', w') \<Longrightarrow> ok m' \<Longrightarrow> race ok D c w0 m' p w'"
| suspend: "race ok D c w0 m p w \<Longrightarrow> suspend_step D (mc_user c) (p, w) (p', w') \<Longrightarrow> race ok D c w0 m p' w'"

subsection \<open>The invariant of the written order\<close>

fun bumped :: "suspend_pc \<Rightarrow> bool" where
  "bumped Writing = False" | "bumped Bumping = False" | "bumped _ = True"

fun deleted :: "suspend_pc \<Rightarrow> bool" where
  "deleted (Evicting _) = True" | "deleted Suspension_done = True" | "deleted _ = False"

lemma deleted_bumped: "deleted p \<Longrightarrow> bumped p"
  by (cases p) auto

definition numeric_epoch :: "cache_view \<Rightarrow> string \<Rightarrow> bool" where
  "numeric_epoch en u \<longleftrightarrow> (\<forall>v x. en (epochKey u) = Some (v, x) \<longrightarrow> value_int v \<noteq> None)"

definition stale_at :: "int \<Rightarrow> string \<Rightarrow> (cache_value \<times> expiry) option \<Rightarrow> bool" where
  "stale_at e u entry \<longleftrightarrow> (\<forall>v x. entry = Some (v, x) \<longrightarrow>
     (\<exists>k. parseCache v = Some k \<and> cs_userId k = u \<and> cs_epoch k = e))"

fun mint_inv :: "int \<Rightarrow> mint_call \<Rightarrow> suspend_pc \<Rightarrow> 'w auth_world_scheme \<Rightarrow> mint_pc \<Rightarrow> bool" where
  "mint_inv e0 c p w (Reading e s) \<longleftrightarrow>
     mem_entry w (sessionKey (mc_hash c)) = None \<and> mem_session_rows w (mc_hash c) = None \<and>
     (e = None \<longrightarrow> s = None) \<and>
     (\<forall>x y. e = Some x \<and> s = Some y \<and> x \<noteq> e0 \<longrightarrow> y = Suspended) \<and>
     (\<forall>x. e = Some x \<and> x \<noteq> e0 \<longrightarrow> bumped p)"
| "mint_inv e0 c p w (Inserting e s) \<longleftrightarrow>
     mem_entry w (sessionKey (mc_hash c)) = None \<and> mem_session_rows w (mc_hash c) = None \<and> e = e0"
| "mint_inv e0 c p w (Settling e s) \<longleftrightarrow> mem_entry w (sessionKey (mc_hash c)) = None \<and> e = e0"
| "mint_inv e0 c p w (Rechecking e) \<longleftrightarrow> mem_entry w (sessionKey (mc_hash c)) = None \<and> bumped p"
| "mint_inv e0 c p w (Caching e s) \<longleftrightarrow>
     mem_entry w (sessionKey (mc_hash c)) = None \<and> e = e0 \<and> (deleted p \<longrightarrow> mem_session_rows w (mc_hash c) = None)"
| "mint_inv e0 c p w Minted \<longleftrightarrow>
     stale_at e0 (mc_user c) (mem_entry w (sessionKey (mc_hash c))) \<and>
     (deleted p \<longrightarrow> mem_session_rows w (mc_hash c) = None)"
| "mint_inv e0 c p w Refused \<longleftrightarrow>
     mem_entry w (sessionKey (mc_hash c)) = None \<and> mem_session_rows w (mc_hash c) = None"

definition race_inv :: "int \<Rightarrow> mint_call \<Rightarrow> mint_pc \<Rightarrow> suspend_pc \<Rightarrow> 'w auth_world_scheme \<Rightarrow> bool" where
  "race_inv e0 c m p w \<longleftrightarrow>
     mem_sessions_ok w \<and> numeric_epoch (mem_entry w) (mc_user c) \<and>
     epoch_in (mem_entry w) (mc_user c) = (if bumped p then e0 + 1 else e0) \<and>
     (p \<noteq> Writing \<longrightarrow> mem_account w (mc_user c) = Suspended) \<and>
     (\<forall>r. mem_session_rows w (mc_hash c) = Some r \<longrightarrow> row_userId r = mc_user c) \<and>
     mint_inv e0 c p w m"

lemma race_start:
  assumes "mem_sessions_ok w" "numeric_epoch (mem_entry w) (mc_user c)"
    "mem_entry w (sessionKey (mc_hash c)) = None" "mem_session_rows w (mc_hash c) = None"
  shows "race_inv (epoch_in (mem_entry w) (mc_user c)) c (Reading None None) Writing w"
  using assms by (simp add: race_inv_def)

subsubsection \<open>The effect of a step on what the invariant reads\<close>

lemma account_frames [simp]:
  "mem_account (snd (currentEpoch (session_service tk sha ttl am sl) u w)) = mem_account w"
  "mem_account (snd (writeCache (session_service tk sha ttl am sl) h k n w)) = mem_account w"
  "mem_account (snd (bumpEpoch (session_service tk sha ttl am sl) u w)) = mem_account w"
  by (simp_all add: currentEpoch_def writeCache_def bumpEpoch_def prog_simps cache_get_result Let_def
      in_memory_cache_def)

lemma account_store_frames [simp]:
  "mem_account (snd (ss_insert in_memory_sessions row w)) = mem_account w"
  "mem_account (snd (ss_deleteById in_memory_sessions h w)) = mem_account w"
  "mem_account (snd (ss_deleteAllForUser in_memory_sessions u w)) = mem_account w"
  by (simp_all add: prog_simps session_store_defs mem_account_def [abs_def])

lemma account_evict [simp]:
  "mem_account (snd (evictSessionCaches (session_service tk sha ttl am sl) hs w)) = mem_account w"
  unfolding evictSessionCaches_def
  by (induction hs arbitrary: w) (simp_all add: prog_simps in_memory_cache_def split: sum.split)

lemma set_status_account [simp]: "mem_account (run_op D (SetStatus u s) w) = (mem_account w)(u := s)"
  by (auto simp: session_setAccountStatus_def user_setAccountStatus_def prog_simps mem_account_def fun_eq_iff)

lemma accountStatus_run: "user_accountStatus u w = (Inr (mem_account w u), w)"
  by (simp add: user_accountStatus_def prog_simps mem_account_def)

lemma delete_all_entry [simp]:
  "mem_entry (snd (ss_deleteAllForUser in_memory_sessions u w)) = mem_entry w"
  "mem_entry (snd (ss_insert in_memory_sessions row w)) = mem_entry w"
  "mem_entry (snd (ss_deleteById in_memory_sessions h w)) = mem_entry w"
  by (simp_all add: session_store_defs prog_simps)

lemma numeric_frames [simp]:
  "numeric_epoch (en(sessionKey h := e)) u = numeric_epoch en u"
  "numeric_epoch (drop_cached hs en) u = numeric_epoch en u"
  "epoch_in (en(sessionKey h := e)) u = epoch_in en u"
  "epoch_in (drop_cached hs en) u = epoch_in en u"
  by (simp_all add: numeric_epoch_def epoch_in_def)

lemma bump_view:
  assumes "0 < ttl" "numeric_epoch (mem_entry w) u"
  shows "numeric_epoch (mem_entry (snd (bumpEpoch (session_service tk sha ttl am sl) u w))) u \<and>
    epoch_in (mem_entry (snd (bumpEpoch (session_service tk sha ttl am sl) u w))) u =
      epoch_in (mem_entry w) u + 1 \<and>
    mem_entry (snd (bumpEpoch (session_service tk sha ttl am sl) u w)) (sessionKey h) =
      mem_entry w (sessionKey h)"
proof -
  obtain e where e: "mem_entry (snd (bumpEpoch (session_service tk sha ttl am sl) u w)) =
    (mem_entry w)(epochKey u \<mapsto> e)"
    by (rule sess.bumpEpoch_run [of tk sha ttl am sl u w]) (use assms(1) in auto)
  have "epoch_in (mem_entry (snd (bumpEpoch (session_service tk sha ttl am sl) u w))) u =
      epoch_in (mem_entry w) u + 1"
    using assms by (intro sess.bumpEpoch_epoch) (auto simp: numeric_epoch_def)
  moreover have "numeric_epoch (mem_entry (snd (bumpEpoch (session_service tk sha ttl am sl) u w))) u"
    using assms mem_cache.incr_fresh_view [of w "epochKey u" "ttl + BANNED_MARKER_GRACE_SECONDS"]
      mem_cache.incr_present_view [of w "epochKey u" _ _ "ttl + BANNED_MARKER_GRACE_SECONDS"]
    by (cases "mem_entry w (epochKey u)")
      (auto simp: numeric_epoch_def bumpEpoch_def BANNED_MARKER_GRACE_SECONDS_def)
  ultimately show ?thesis by (simp add: e)
qed

subsubsection \<open>Preservation\<close>

lemma mint_keeps:
  fixes w :: "'w auth_world_scheme"
  assumes "mint_step (session_service tk sha ttl am sl) c (m, w) (m', w')" "race_inv e0 c m p w" "epoch_first m'"
  shows "race_inv e0 c m' p w'"
  using assms(1)
proof (cases rule: mint_step.cases)
  case (read_epoch e s)
  then have "e = epoch_in (mem_entry w) (mc_user c)"
    "w' = snd (currentEpoch (session_service tk sha ttl am sl) (mc_user c) w)"
    using sess.currentEpoch_run(1) [of tk sha ttl am sl "mc_user c" w] by simp_all
  then show ?thesis using assms(2) read_epoch(1,2) by (simp add: race_inv_def)
next
  case (read_status s e)
  then have "s = mem_account w (mc_user c)" "w' = w" by (auto simp: accountStatus_run)
  then show ?thesis using assms(2,3) read_status(1,2) by (cases e) (auto simp: race_inv_def)
next
  case (refuse s e)
  then show ?thesis using assms(2) by (simp add: race_inv_def)
next
  case (accept s e)
  then show ?thesis using assms(2) by (auto simp: race_inv_def isMintRefused_def)
next
  case (insert e s)
  then have "w' = snd (ss_insert in_memory_sessions
    (mint_row (session_service tk sha ttl am sl :: 'w auth_world_scheme session_deps) c) w)" by simp
  then show ?thesis using assms(2) insert(1,2)
    by (simp add: race_inv_def mem_sessions.insert_rows mem_sessions.insert_ok mint_row_def inserted_row_def)
next
  case (settle e' e s)
  then have "e' = epoch_in (mem_entry w) (mc_user c)"
    "w' = snd (currentEpoch (session_service tk sha ttl am sl) (mc_user c) w)"
    using sess.currentEpoch_run(1) [of tk sha ttl am sl "mc_user c" w] by simp_all
  then show ?thesis using assms(2) settle(1,2) by (auto simp: race_inv_def dest: deleted_bumped split: if_splits)
next
  case (recheck_refuse s w1 e)
  then have "w' = snd (ss_deleteById in_memory_sessions (mc_hash c) w)" by (simp add: accountStatus_run)
  then show ?thesis using assms(2) recheck_refuse(1,2)
    by (simp add: race_inv_def mem_sessions.delete_rows mem_sessions.delete_ok)
next
  case (recheck_accept s e)
  then have "mem_account w (mc_user c) \<noteq> Suspended" "bumped p"
    using assms(2) by (auto simp: accountStatus_run isMintRefused_def race_inv_def)
  then show ?thesis using assms(2) by (cases p) (auto simp: race_inv_def)
next
  case (cache e s)
  then have "w' = snd (writeCache (session_service tk sha ttl am sl) (mc_hash c)
    (mint_projection (session_service tk sha ttl am sl :: 'w auth_world_scheme session_deps) c e s) (mc_now c) w)" by simp
  then show ?thesis using assms(2) cache(1,2) by (simp add: race_inv_def stale_at_def mint_projection_def)
qed

lemma mint_inv_frame:
  assumes "mint_inv e0 c p w m" "mem_session_rows w' (mc_hash c) = mem_session_rows w (mc_hash c)"
    "mem_entry w' (sessionKey (mc_hash c)) = mem_entry w (sessionKey (mc_hash c))"
    "bumped p \<Longrightarrow> bumped p'" "deleted p' = deleted p"
  shows "mint_inv e0 c p' w' m"
  using assms by (cases m) auto

lemma suspend_keeps:
  fixes w :: "'w auth_world_scheme"
  assumes "suspend_step (session_service tk sha ttl am sl) (mc_user c) (p, w) (p', w')" "race_inv e0 c m p w" "0 < ttl"
  shows "race_inv e0 c m p' w'"
  using assms(1)
proof (cases rule: suspend_step.cases)
  case status_write
  then show ?thesis
    using assms(2) mint_inv_frame [of e0 c p w m w' p'] by (simp add: race_inv_def del: run_op.simps)
next
  case (epoch_bump n)
  then have "w' = snd (bumpEpoch (session_service tk sha ttl am sl) (mc_user c) w)" by simp
  then show ?thesis
    using assms(2) epoch_bump(1,2) bump_view [OF assms(3), of w "mc_user c"] mint_inv_frame [of e0 c p w m w' p']
    by (simp add: race_inv_def)
next
  case (rows_delete ids)
  then have w': "w' = snd (ss_deleteAllForUser in_memory_sessions (mc_user c) w)" by simp
  have "mem_session_rows w' (mc_hash c) = None"
    using assms(2) mem_sessions.delete_all_rows [of w "mc_user c"]
    by (auto simp: w' race_inv_def split: option.split)
  then show ?thesis
    using assms(2) rows_delete(1,2) w' by (cases m) (auto simp: race_inv_def mem_sessions.delete_all_ok)
next
  case (cache_evict ids)
  then have "w' = snd (evictSessionCaches (session_service tk sha ttl am sl) ids w)" by simp
  then show ?thesis
    using assms(2) cache_evict(1,2) by (cases m) (auto simp: race_inv_def stale_at_def)
qed

lemma race_keeps:
  assumes "race epoch_first (session_service tk sha ttl am sl) c w0 m p w" "0 < ttl"
    "race_inv e0 c (Reading None None) Writing w0"
  shows "race_inv e0 c m p w"
  using assms(1)
proof (induction rule: race.induct)
  case start
  show ?case by (rule assms(3))
next
  case (mint m p w m' w')
  show ?case by (rule mint_keeps [OF mint.hyps(2) mint.IH mint.hyps(3)])
next
  case (suspend m p w p' w')
  show ?case by (rule suspend_keeps [OF suspend.hyps(2) suspend.IH assms(2)])
qed

subsection \<open>Running a schedule\<close>

datatype turn = Mint_epoch | Mint_status | Mint_next | Suspend_next

fun mint_turn ::
  "'w auth_world_scheme session_deps \<Rightarrow> mint_call \<Rightarrow> turn \<Rightarrow> mint_pc \<Rightarrow> 'w auth_world_scheme \<Rightarrow>
   (mint_pc \<times> 'w auth_world_scheme) option" where
  "mint_turn D c Mint_epoch (Reading None s) w =
     (case currentEpoch D (mc_user c) w of (Inr e, w') \<Rightarrow> Some (Reading (Some e) s, w') | _ \<Rightarrow> None)"
| "mint_turn D c Mint_status (Reading e None) w =
     (case user_accountStatus (mc_user c) w of (Inr s, w') \<Rightarrow> Some (Reading e (Some s), w') | _ \<Rightarrow> None)"
| "mint_turn D c Mint_next (Reading (Some e) (Some s)) w =
     Some (if isMintRefused s then Refused else Inserting e s, w)"
| "mint_turn D c Mint_next (Inserting e s) w =
     (case ss_insert (sd_store D) (mint_row D c) w of (Inr _, w') \<Rightarrow> Some (Settling e s, w') | _ \<Rightarrow> None)"
| "mint_turn D c Mint_next (Settling e s) w =
     (case currentEpoch D (mc_user c) w of
        (Inr e', w') \<Rightarrow> Some (if e' = e then Caching e' s else Rechecking e', w') | _ \<Rightarrow> None)"
| "mint_turn D c Mint_next (Caching e s) w =
     (case writeCache D (mc_hash c) (mint_projection D c e s) (mc_now c) w of
        (Inr _, w') \<Rightarrow> Some (Minted, w') | _ \<Rightarrow> None)"
| "mint_turn D c _ _ w = None"

fun suspend_turn ::
  "'w auth_world_scheme session_deps \<Rightarrow> string \<Rightarrow> suspend_pc \<Rightarrow> 'w auth_world_scheme \<Rightarrow>
   (suspend_pc \<times> 'w auth_world_scheme) option" where
  "suspend_turn D u Writing w = Some (Bumping, run_op D (SetStatus u Suspended) w)"
| "suspend_turn D u Bumping w = (case bumpEpoch D u w of (Inr _, w') \<Rightarrow> Some (Deleting, w') | _ \<Rightarrow> None)"
| "suspend_turn D u Deleting w =
     (case ss_deleteAllForUser (sd_store D) u w of (Inr ids, w') \<Rightarrow> Some (Evicting ids, w') | _ \<Rightarrow> None)"
| "suspend_turn D u (Evicting ids) w =
     (case evictSessionCaches D ids w of (Inr _, w') \<Rightarrow> Some (Suspension_done, w') | _ \<Rightarrow> None)"
| "suspend_turn D u Suspension_done w = None"

fun schedule ::
  "(mint_pc \<Rightarrow> bool) \<Rightarrow> 'w auth_world_scheme session_deps \<Rightarrow> mint_call \<Rightarrow> turn list \<Rightarrow>
   mint_pc \<times> suspend_pc \<times> 'w auth_world_scheme \<Rightarrow> (mint_pc \<times> suspend_pc \<times> 'w auth_world_scheme) option" where
  "schedule ok D c [] st = Some st"
| "schedule ok D c (Suspend_next # ts) (m, p, w) =
     (case suspend_turn D (mc_user c) p w of None \<Rightarrow> None | Some (p', w') \<Rightarrow> schedule ok D c ts (m, p', w'))"
| "schedule ok D c (t # ts) (m, p, w) =
     (case mint_turn D c t m w of None \<Rightarrow> None
      | Some (m', w') \<Rightarrow> if ok m' then schedule ok D c ts (m', p, w') else None)"

lemma mint_turn_step: "mint_turn D c t m w = Some (m', w') \<Longrightarrow> mint_step D c (m, w) (m', w')"
  by (induction D c t m w rule: mint_turn.induct)
    (auto split: prod.splits sum.splits intro: mint_step.intros)

lemma suspend_turn_step: "suspend_turn D u p w = Some (p', w') \<Longrightarrow> suspend_step D u (p, w) (p', w')"
  by (induction D u p w rule: suspend_turn.induct)
    (auto split: prod.splits sum.splits intro: suspend_step.intros simp del: run_op.simps)

lemma schedule_race:
  assumes "schedule ok D c ts (m, p, w) = Some (m', p', w')" "race ok D c w0 m p w"
  shows "race ok D c w0 m' p' w'"
  using assms
proof (induction ts arbitrary: m p w)
  case (Cons t ts)
  show ?case
  proof (cases "t = Suspend_next")
    case True
    with Cons.prems obtain p1 w1 where "suspend_turn D (mc_user c) p w = Some (p1, w1)"
      "schedule ok D c ts (m, p1, w1) = Some (m', p', w')"
      by (auto split: option.splits)
    with Cons show ?thesis by (blast intro: race.suspend suspend_turn_step)
  next
    case False
    with Cons.prems obtain m1 w1 where "mint_turn D c t m w = Some (m1, w1)" "ok m1"
      "schedule ok D c ts (m1, p, w1) = Some (m', p', w')"
      by (cases t) (auto split: option.splits if_splits)
    with Cons show ?thesis by (blast intro: race.mint mint_turn_step)
  qed
qed simp

fun ends_with :: "('w \<Rightarrow> bool) \<Rightarrow> (mint_pc \<times> suspend_pc \<times> 'w) option \<Rightarrow> bool" where
  "ends_with P (Some (Minted, Suspension_done, w)) = P w"
| "ends_with P _ = False"

lemma ends_with_race:
  assumes "ends_with P (schedule ok D c ts (Reading None None, Writing, w0))"
  obtains w where "race ok D c w0 Minted Suspension_done w" "P w"
proof -
  from assms obtain w where "schedule ok D c ts (Reading None None, Writing, w0) = Some (Minted, Suspension_done, w)" "P w"
    by (cases "(P, schedule ok D c ts (Reading None None, Writing, w0))" rule: ends_with.cases) auto
  with that schedule_race [OF _ race.start] show ?thesis by blast
qed

subsection \<open>Properties\<close>

text \<open>
  C15: when the epoch is read before the status, no interleaving of a login with a suspension leaves a session:
  once the suspension is done and the login has finished, the login's token does not resolve.
\<close>

theorem suspension_beats_login:
  assumes "race epoch_first (session_service tk sha ttl am sl) c w0 m Suspension_done w" "m = Minted \<or> m = Refused"
    "0 < ttl" "mem_sessions_ok w0" "numeric_epoch (mem_entry w0) (mc_user c)"
    "mem_entry w0 (sessionKey (mc_hash c)) = None" "mem_session_rows w0 (mc_hash c) = None"
  shows "fst (resolveSessionByHash (session_service tk sha ttl am sl) (mc_hash c) w) = Inr None"
proof -
  let ?e = "epoch_in (mem_entry w0) (mc_user c)"
  have inv: "race_inv ?e c m Suspension_done w"
    using assms(1,3) race_start [OF assms(4-7)] by (rule race_keeps)
  then have "mem_session_rows w (mc_hash c) = None"
    and ep: "epoch_in (mem_entry w) (mc_user c) = ?e + 1"
    and st: "stale_at ?e (mc_user c) (mem_entry w (sessionKey (mc_hash c)))"
    using assms(2) by (auto simp: race_inv_def stale_at_def)
  then have "resolve_verdict (session_service tk sha ttl am sl :: 'a auth_world_scheme session_deps)
      (mem_entry w) (mem_session_rows w) (session_status w) (clock w) (mc_hash c) = None"
    by (auto simp: resolve_verdict_def store_verdict_def cache_verdict_def stale_at_def split: option.splits)
  then show ?thesis by (simp add: sess.resolve_result)
qed

definition sample_call :: mint_call where
  "sample_call = \<lparr>mc_user = ''alice'', mc_roles = [], mc_meta = no_meta, mc_hash = ''h'', mc_now = 0\<rparr>"

text \<open>
  C27: with the two reads of \<open>Promise.all\<close> in the other order, the status before the write and the epoch after
  the increment, the login completes and its token resolves as active after the suspension is done.
\<close>

theorem login_can_survive_suspension:
  "\<exists>w. race (\<lambda>_. True) sample_service sample_call empty_auth_world Minted Suspension_done w \<and>
    mem_account w ''alice'' = Suspended \<and>
    map_sum id (map_option (\<lambda>r. (rr_userId r, rr_accountStatus r)))
      (fst (resolveSessionByHash sample_service ''h'' w)) = Inr (Some (''alice'', Active))"
proof -
  let ?P = "\<lambda>w. mem_account w ''alice'' = Suspended \<and>
        map_sum id (map_option (\<lambda>r. (rr_userId r, rr_accountStatus r)))
          (fst (resolveSessionByHash sample_service ''h'' w)) = Inr (Some (''alice'', Active))"
  have "ends_with ?P (schedule (\<lambda>_. True) sample_service sample_call
      [Mint_status, Suspend_next, Suspend_next, Mint_epoch, Suspend_next, Suspend_next, Mint_next, Mint_next,
       Mint_next, Mint_next] (Reading None None, Writing, empty_auth_world))"
    by code_simp
  then show ?thesis by (rule ends_with_race) blast
qed

theorem suspension_beats_login_witness:
  "\<exists>w. race epoch_first sample_service sample_call empty_auth_world Minted Suspension_done w \<and>
    fst (resolveSessionByHash sample_service (mc_hash sample_call) w) = Inr None"
proof -
  have "ends_with (\<lambda>_. True) (schedule epoch_first sample_service sample_call
      [Mint_epoch, Mint_status, Mint_next, Mint_next, Suspend_next, Mint_next, Suspend_next, Suspend_next,
       Suspend_next, Mint_next] (Reading None None, Writing, empty_auth_world))"
    by code_simp
  then obtain w where w: "race epoch_first sample_service sample_call empty_auth_world Minted Suspension_done w"
    by (rule ends_with_race)
  have "fst (resolveSessionByHash sample_service (mc_hash sample_call) w) = Inr None"
    unfolding sample_service_def
    by (rule suspension_beats_login [OF w [unfolded sample_service_def]])
      (simp_all add: empty_auth_world_def numeric_epoch_def mem_entry_def mem_session_rows_def
        mem_sessions_ok_def DEFAULT_SESSION_TTL_SECONDS_def)
  with w show ?thesis by blast
qed

end
