(* ===== verification/Single_Use_Secret.thy ===== *)
theory Single_Use_Secret
  imports Cache
begin

section \<open>Single-use secrets and socket tickets (\<open>auth/single-use-secret.ts\<close>, \<open>auth/ws-ticket.ts\<close>)\<close>

text \<open>
  A secret is stored under its digest and redeemed by the caller whose increment of a claim counter returns
  1.  The model has the two methods, the ticket store on top of them, and the interleavings of any number of
  concurrent redemptions of one secret with the passing of time.
\<close>

subsection \<open>The store\<close>

record 'w secret_options =
  so_prefix :: string
  so_ttlSeconds :: int
  so_newSecret :: "('w, string) prog"
  so_sha256Hex :: "string \<Rightarrow> string"

definition PRESENT :: cache_value where
  "PRESENT = Text ''1''"

definition CLAIM_SEGMENT :: string where
  "CLAIM_SEGMENT = ''claim:''"

definition valueKey :: "'w secret_options \<Rightarrow> string \<Rightarrow> string" where
  "valueKey opts secret = so_prefix opts @ so_sha256Hex opts secret"

definition claimKey :: "'w secret_options \<Rightarrow> string \<Rightarrow> string" where
  "claimKey opts secret = so_prefix opts @ CLAIM_SEGMENT @ so_sha256Hex opts secret"

definition secret_mint :: "'w cache_client \<Rightarrow> 'w secret_options \<Rightarrow> cache_value \<Rightarrow> ('w, string \<times> int) prog" where
  "secret_mint C opts v =
     seq (so_newSecret opts) (\<lambda>secret.
     seq (cc_set C (valueKey opts secret) v (so_ttlSeconds opts)) (\<lambda>_.
     ret (secret, so_ttlSeconds opts)))"

definition secret_redeem :: "'w cache_client \<Rightarrow> 'w secret_options \<Rightarrow> string \<Rightarrow> ('w, cache_value option) prog" where
  "secret_redeem C opts secret =
     (if secret = [] then ret None
      else
        seq (cc_incr C (claimKey opts secret) (so_ttlSeconds opts)) (\<lambda>claim.
        if claim \<noteq> Some 1 then ret None
        else
          seq (cc_get C (valueKey opts secret)) (\<lambda>v.
          case v of
            None \<Rightarrow> ret None
          | Some x \<Rightarrow> seq (cc_del C (valueKey opts secret)) (\<lambda>_. ret (Some x)))))"

subsection \<open>Socket tickets\<close>

definition WS_TICKET_TTL_SECONDS :: int where
  "WS_TICKET_TTL_SECONDS = 30"

definition WS_TICKET_PREFIX :: string where
  "WS_TICKET_PREFIX = ''wsticket:''"

record ws_ticket_payload =
  wt_userId :: string
  wt_sessionHash :: "string option"

definition encodePayload :: "string \<Rightarrow> string \<Rightarrow> cache_value" where
  "encodePayload userId sessionHash = TicketDoc (Some userId) (Some sessionHash)"

text \<open>A text that starts with a brace and is kept as text is not the JSON of an object, so parsing fails.\<close>

fun decodePayload :: "cache_value \<Rightarrow> ws_ticket_payload option" where
  "decodePayload (Text raw) =
     (if \<not> startsWith raw ''{'' then Some \<lparr>wt_userId = raw, wt_sessionHash = None\<rparr> else None)"
| "decodePayload (TicketDoc u s) =
     (case u of
        None \<Rightarrow> None
      | Some userId \<Rightarrow> if userId = [] then None else Some \<lparr>wt_userId = userId, wt_sessionHash = s\<rparr>)"
| "decodePayload (SessionDoc _) = None"

definition ws_ticket_options ::
  "int option \<Rightarrow> ('w, string) prog \<Rightarrow> (string \<Rightarrow> string) \<Rightarrow> 'w secret_options" where
  "ws_ticket_options ttlSeconds newTicketId sha256Hex =
     \<lparr>so_prefix = WS_TICKET_PREFIX,
      so_ttlSeconds = (case ttlSeconds of None \<Rightarrow> WS_TICKET_TTL_SECONDS | Some t \<Rightarrow> t),
      so_newSecret = newTicketId, so_sha256Hex = sha256Hex\<rparr>"

definition ticket_mint :: "'w cache_client \<Rightarrow> 'w secret_options \<Rightarrow> string \<Rightarrow> string \<Rightarrow> ('w, string \<times> int) prog" where
  "ticket_mint C opts userId sessionHash = secret_mint C opts (encodePayload userId sessionHash)"

definition ticket_redeem :: "'w cache_client \<Rightarrow> 'w secret_options \<Rightarrow> string \<Rightarrow> ('w, ws_ticket_payload option) prog" where
  "ticket_redeem C opts ticket =
     seq (secret_redeem C opts ticket) (\<lambda>raw.
     ret (case raw of None \<Rightarrow> None | Some v \<Rightarrow> decodePayload v))"

lemma decode_encode: "userId \<noteq> [] \<Longrightarrow> decodePayload (encodePayload userId h) = Some \<lparr>wt_userId = userId, wt_sessionHash = Some h\<rparr>"
  by (simp add: encodePayload_def)

subsection \<open>Concurrent redemptions\<close>

text \<open>
  Each redemption is its three awaited calls; \<open>Idle\<close> has not called, \<open>Won\<close> received 1 from the claim,
  \<open>Holding\<close> read the value, \<open>Finished\<close> returned.  Any redemption may take the next step, and time may
  pass.
\<close>

datatype redeem_pc = Idle | Won | Holding cache_value | Finished "cache_value option"

inductive redeem_step ::
  "'w cache_client \<Rightarrow> (int \<Rightarrow> 'w \<Rightarrow> 'w) \<Rightarrow> 'w secret_options \<Rightarrow> string \<Rightarrow>
   (nat \<Rightarrow> redeem_pc) \<times> 'w \<Rightarrow> (nat \<Rightarrow> redeem_pc) \<times> 'w \<Rightarrow> bool"
  for C :: "'w cache_client" and advance :: "int \<Rightarrow> 'w \<Rightarrow> 'w" and opts :: "'w secret_options" and secret :: string where
  claim_won: "pcs i = Idle \<Longrightarrow> cc_incr C (claimKey opts secret) (so_ttlSeconds opts) w = (Inr (Some 1), w') \<Longrightarrow>
    redeem_step C advance opts secret (pcs, w) (pcs(i := Won), w')"
| claim_lost: "pcs i = Idle \<Longrightarrow> cc_incr C (claimKey opts secret) (so_ttlSeconds opts) w = (Inr n, w') \<Longrightarrow> n \<noteq> Some 1 \<Longrightarrow>
    redeem_step C advance opts secret (pcs, w) (pcs(i := Finished None), w')"
| read_missing: "pcs i = Won \<Longrightarrow> cc_get C (valueKey opts secret) w = (Inr None, w') \<Longrightarrow>
    redeem_step C advance opts secret (pcs, w) (pcs(i := Finished None), w')"
| read_value: "pcs i = Won \<Longrightarrow> cc_get C (valueKey opts secret) w = (Inr (Some v), w') \<Longrightarrow>
    redeem_step C advance opts secret (pcs, w) (pcs(i := Holding v), w')"
| delete_value: "pcs i = Holding v \<Longrightarrow> cc_del C (valueKey opts secret) w = (Inr (), w') \<Longrightarrow>
    redeem_step C advance opts secret (pcs, w) (pcs(i := Finished (Some v)), w')"
| wait: "0 \<le> d \<Longrightarrow> redeem_step C advance opts secret (pcs, w) (pcs, advance d w)"

inductive_cases redeem_stepE: "redeem_step C advance opts secret st (pcs', w')"

fun holds :: "redeem_pc \<Rightarrow> bool" where
  "holds (Holding _) = True" | "holds (Finished (Some _)) = True" | "holds _ = False"

definition winner :: "redeem_pc \<Rightarrow> bool" where
  "winner pc \<longleftrightarrow> pc = Won \<or> holds pc"

definition at_most_one :: "(nat \<Rightarrow> bool) \<Rightarrow> bool" where
  "at_most_one P \<longleftrightarrow> (\<forall>i j. P i \<longrightarrow> P j \<longrightarrow> i = j)"

lemma keys_differ: "so_sha256Hex opts secret \<noteq> CLAIM_SEGMENT @ so_sha256Hex opts secret \<Longrightarrow>
  valueKey opts secret \<noteq> claimKey opts secret"
  by (simp add: valueKey_def claimKey_def)

lemma claim_value_neq [simp]: "valueKey opts secret \<noteq> claimKey opts secret"
proof
  assume "valueKey opts secret = claimKey opts secret"
  then have "length (valueKey opts secret) = length (claimKey opts secret)" by (rule arg_cong)
  then show False by (simp add: valueKey_def claimKey_def CLAIM_SEGMENT_def)
qed

lemmas claim_value_neq' [simp] = claim_value_neq [symmetric]

context cache_laws
begin

text \<open>
  A claim that exists counts at least 1, and a value lapses within its lifetime.  While a redemption has won,
  the claim outlives the value, so no second redemption can win and still find the value.
\<close>

definition claim_ok :: "'w secret_options \<Rightarrow> string \<Rightarrow> 'w \<Rightarrow> bool" where
  "claim_ok opts secret w \<longleftrightarrow>
     (\<forall>c x. entry w (claimKey opts secret) = Some (c, x) \<longrightarrow> (\<exists>n. value_int c = Some n \<and> 1 \<le> n))"

definition value_ok :: "'w secret_options \<Rightarrow> string \<Rightarrow> 'w \<Rightarrow> bool" where
  "value_ok opts secret w \<longleftrightarrow>
     (\<forall>v x. entry w (valueKey opts secret) = Some (v, x) \<longrightarrow>
        (\<exists>t. x = At t \<and> t \<le> now w + so_ttlSeconds opts * 1000))"

definition guarded :: "'w secret_options \<Rightarrow> string \<Rightarrow> 'w \<Rightarrow> bool" where
  "guarded opts secret w \<longleftrightarrow>
     (\<forall>v t. entry w (valueKey opts secret) = Some (v, At t) \<longrightarrow>
        (\<exists>c t'. entry w (claimKey opts secret) = Some (c, At t') \<and> t \<le> t'))"

definition redeem_inv :: "'w secret_options \<Rightarrow> string \<Rightarrow> (nat \<Rightarrow> redeem_pc) \<times> 'w \<Rightarrow> bool" where
  "redeem_inv opts secret st \<longleftrightarrow>
     claim_ok opts secret (snd st) \<and> value_ok opts secret (snd st) \<and>
     at_most_one (\<lambda>i. holds (fst st i)) \<and>
     (entry (snd st) (valueKey opts secret) \<noteq> None \<longrightarrow> at_most_one (\<lambda>i. winner (fst st i))) \<and>
     ((\<exists>i. winner (fst st i)) \<longrightarrow> guarded opts secret (snd st))"

lemma claim_result:
  assumes "claim_ok opts secret w"
  shows "fst (cc_incr C (claimKey opts secret) ttl w) = Inr (Some 1) \<longleftrightarrow> entry w (claimKey opts secret) = None"
  using assms incr_fresh [of w "claimKey opts secret" ttl] incr_present [of w "claimKey opts secret" _ _ ttl]
  by (cases "entry w (claimKey opts secret)") (auto simp: claim_ok_def)

lemma claim_keeps:
  assumes "0 < ttl" "claim_ok opts secret w"
  shows "claim_ok opts secret (snd (cc_incr C (claimKey opts secret) ttl w))"
  using assms incr_fresh_view [of w "claimKey opts secret" ttl]
    incr_present_view [of w "claimKey opts secret" _ _ ttl]
  by (cases "entry w (claimKey opts secret)") (auto simp: claim_ok_def)

lemma incr_value [simp]:
  "0 < ttl \<Longrightarrow> entry (snd (cc_incr C (claimKey opts secret) ttl w)) (valueKey opts secret) =
     entry w (valueKey opts secret)"
  by (simp add: incr_entry_other)

lemma value_ok_mono: "value_ok opts secret w \<Longrightarrow> entry w' (valueKey opts secret) = entry w (valueKey opts secret) \<Longrightarrow>
  now w' = now w \<Longrightarrow> value_ok opts secret w'"
  by (simp add: value_ok_def)

lemma at_most_one_upd:
  "at_most_one (\<lambda>i. P (f i)) \<Longrightarrow> (P x \<Longrightarrow> P (f k) \<or> (\<forall>i. \<not> P (f i))) \<Longrightarrow> at_most_one (\<lambda>i. P ((f(k := x)) i))"
  by (auto simp: at_most_one_def)

lemma claim_guards:
  assumes "0 < so_ttlSeconds opts" "value_ok opts secret w" "entry w (claimKey opts secret) = None"
  shows "guarded opts secret (snd (cc_incr C (claimKey opts secret) (so_ttlSeconds opts) w))"
  using assms incr_fresh_view [OF assms(3,1)] by (auto simp: guarded_def value_ok_def)

lemma guarded_incr:
  assumes "0 < ttl" "guarded opts secret w"
  shows "guarded opts secret (snd (cc_incr C (claimKey opts secret) ttl w))"
  using assms incr_present_view [of w "claimKey opts secret" _ _ ttl] by (fastforce simp: guarded_def)

lemma redeem_step_inv:
  assumes "redeem_step C advance opts secret st st'" "redeem_inv opts secret st" "0 < so_ttlSeconds opts"
  shows "redeem_inv opts secret st'"
  using assms(1)
proof (cases rule: redeem_step.cases)
  case (claim_won pcs i w w')
  have inv: "claim_ok opts secret w" "value_ok opts secret w" "at_most_one (\<lambda>i. holds (pcs i))"
    "(\<exists>i. winner (pcs i)) \<longrightarrow> guarded opts secret w"
    using assms(2) claim_won by (simp_all add: redeem_inv_def)
  have w': "w' = snd (cc_incr C (claimKey opts secret) (so_ttlSeconds opts) w)" using claim_won by simp
  have absent: "entry w (claimKey opts secret) = None"
    using claim_result [OF inv(1), of "so_ttlSeconds opts"] claim_won by simp
  then have none: "\<forall>i. \<not> winner (pcs i)" if "entry w (valueKey opts secret) \<noteq> None"
    using that inv(2,4) by (fastforce simp: guarded_def value_ok_def)
  have "at_most_one (\<lambda>j. holds ((pcs(i := Won)) j))" using inv(3) by (intro at_most_one_upd) auto
  moreover have "at_most_one (\<lambda>j. winner ((pcs(i := Won)) j))" if "entry w (valueKey opts secret) \<noteq> None"
    using none [OF that] by (auto simp: at_most_one_def winner_def)
  moreover have ev: "entry w' (valueKey opts secret) = entry w (valueKey opts secret)"
    using assms(3) by (simp add: w')
  moreover have "value_ok opts secret w'" using inv(2) ev by (rule value_ok_mono) (simp add: w' incr_now)
  ultimately show ?thesis
    using claim_guards [OF assms(3) inv(2) absent, folded w'] claim_keeps [OF assms(3) inv(1), folded w'] claim_won(2)
    by (simp add: redeem_inv_def)
next
  case (claim_lost pcs i w n w')
  have w': "w' = snd (cc_incr C (claimKey opts secret) (so_ttlSeconds opts) w)" using claim_lost by simp
  have inv: "claim_ok opts secret w" "value_ok opts secret w" "at_most_one (\<lambda>i. holds (pcs i))"
    "entry w (valueKey opts secret) \<noteq> None \<longrightarrow> at_most_one (\<lambda>i. winner (pcs i))"
    "(\<exists>i. winner (pcs i)) \<longrightarrow> guarded opts secret w"
    using assms(2) claim_lost by (simp_all add: redeem_inv_def)
  have ev: "entry w' (valueKey opts secret) = entry w (valueKey opts secret)" using assms(3) by (simp add: w')
  have "value_ok opts secret w'" using inv(2) ev by (rule value_ok_mono) (simp add: w' incr_now)
  moreover have "at_most_one (\<lambda>j. holds ((pcs(i := Finished None)) j))"
    using inv(3) by (intro at_most_one_upd) auto
  moreover have "at_most_one (\<lambda>j. winner ((pcs(i := Finished None)) j))" if "entry w (valueKey opts secret) \<noteq> None"
    using inv(4) that by (intro at_most_one_upd) (auto simp: winner_def)
  moreover have "\<exists>j. winner (pcs j)" if "\<exists>j. winner ((pcs(i := Finished None)) j)"
    using that by (auto simp: winner_def split: if_splits)
  ultimately show ?thesis
    using inv(5) claim_keeps [OF assms(3) inv(1), folded w'] guarded_incr [OF assms(3), of opts secret w, folded w'] claim_lost(2) ev
    by (simp add: redeem_inv_def)
next
  case (read_missing pcs i w w')
  then have w': "w' = snd (cc_get C (valueKey opts secret) w)" by simp
  show ?thesis
    using assms(2) read_missing(1,2,3)
    by (auto simp: redeem_inv_def claim_ok_def value_ok_def guarded_def w' get_view get_now winner_def at_most_one_def)
next
  case (read_value pcs i w v w')
  then have w': "w' = snd (cc_get C (valueKey opts secret) w)" by simp
  have live: "entry w (valueKey opts secret) \<noteq> None"
    using get_result [of "valueKey opts secret" w]
    by (cases "entry w (valueKey opts secret)") (auto simp: read_value)
  show ?thesis
    using assms(2) read_value(1,2,3) live
    by (auto simp: redeem_inv_def claim_ok_def value_ok_def guarded_def w' get_view get_now winner_def at_most_one_def)
next
  case (delete_value pcs i v w w')
  then have w': "w' = snd (cc_del C (valueKey opts secret) w)" by simp
  show ?thesis
    using assms(2) delete_value(1,2,3)
    by (auto simp: redeem_inv_def claim_ok_def value_ok_def guarded_def w' del_view del_now winner_def at_most_one_def)
next
  case (wait d pcs w)
  have adv: "entry (advance d w) k = Some (v, x) \<longleftrightarrow> entry w k = Some (v, x) \<and> \<not> expired x (now w + d)" for k v x
    using advance_view [OF wait(3), of w k] by (auto split: option.splits if_splits)
  have "claim_ok opts secret (advance d w)" "value_ok opts secret (advance d w)"
    using assms(2) wait by (auto simp: redeem_inv_def claim_ok_def value_ok_def adv advance_now)
  moreover have "guarded opts secret (advance d w)" if "guarded opts secret w"
    using that by (fastforce simp: guarded_def adv)
  moreover have "entry w (valueKey opts secret) \<noteq> None" if "entry (advance d w) (valueKey opts secret) \<noteq> None"
    using that adv by fastforce
  ultimately show ?thesis using assms(2) wait(1,2) by (auto simp: redeem_inv_def)
qed

text \<open>Reachable states of any number of concurrent redemptions.\<close>

lemma redeem_steps_inv:
  assumes "(redeem_step C advance opts secret)\<^sup>*\<^sup>* st st'" "redeem_inv opts secret st" "0 < so_ttlSeconds opts"
  shows "redeem_inv opts secret st'"
  using assms by (induction rule: rtranclp_induct) (auto intro: redeem_step_inv)

lemma redeemed_once:
  assumes "(redeem_step C advance opts secret)\<^sup>*\<^sup>* (\<lambda>_. Idle, w) (pcs, w')" "0 < so_ttlSeconds opts"
    "claim_ok opts secret w" "value_ok opts secret w"
    "pcs i = Finished (Some v)" "pcs j = Finished (Some v')"
  shows "i = j"
proof -
  have "redeem_inv opts secret (\<lambda>_. Idle, w)"
    using assms(3,4) by (simp add: redeem_inv_def at_most_one_def winner_def)
  from redeem_steps_inv [OF assms(1) this assms(2)] assms(5,6) show ?thesis
    by (auto simp: redeem_inv_def at_most_one_def)
qed

text \<open>A sequential redemption right after the mint, or at any time in the lifetime, yields the value.\<close>

lemma mint_then_redeem:
  assumes "fst (so_newSecret opts w) = Inr secret" "secret \<noteq> []" "0 < so_ttlSeconds opts"
    "0 \<le> d" "d < so_ttlSeconds opts * 1000"
    "entry (snd (so_newSecret opts w)) (claimKey opts secret) = None"
  shows "fst (secret_redeem C opts secret (advance d (snd (secret_mint C opts v w)))) = Inr (Some v)"
proof -
  let ?w = "advance d (snd (secret_mint C opts v w))"
  have m: "snd (secret_mint C opts v w) = snd (cc_set C (valueKey opts secret) v (so_ttlSeconds opts) (snd (so_newSecret opts w)))"
    using assms(1) by (simp add: secret_mint_def prog_simps set_result)
  have c: "entry ?w (claimKey opts secret) = None"
    using assms(3,6) by (simp add: advance_view [OF assms(4)] m set_view)
  have e: "entry ?w (valueKey opts secret) = Some (v, At (now (snd (so_newSecret opts w)) + so_ttlSeconds opts * 1000))"
    using assms(3,5) by (simp add: advance_view [OF assms(4)] m set_view set_now)
  show ?thesis
    using assms(2,3) c e
    by (simp add: secret_redeem_def prog_simps incr_fresh get_result del_result)
qed

text \<open>A second redemption while the value could still be there is refused.\<close>

lemma redeem_consumes:
  assumes "0 < so_ttlSeconds opts" "secret \<noteq> []" "fst (secret_redeem C opts secret w) = Inr (Some v)"
  shows "entry (snd (secret_redeem C opts secret w)) (valueKey opts secret) = None"
  using assms
  by (auto simp: secret_redeem_def prog_simps get_result del_result del_view
      split: option.splits if_splits sum.splits)

end

subsection \<open>Properties\<close>

text \<open>
  C22: of any number of concurrent redemptions of one secret, interleaved in any order and with time passing
  between their calls, at most one obtains the value, even when a redemption starts after the claim of an
  earlier one has lapsed.
\<close>

theorem secret_redeemed_once:
  fixes w :: "'w cache_world_scheme"
  assumes "(redeem_step in_memory_cache tick opts secret)\<^sup>*\<^sup>* (\<lambda>_. Idle, w) (pcs, w')" "0 < so_ttlSeconds opts"
    "mem_entry w (claimKey opts secret) = None"
    "mem_entry w (valueKey opts secret) = Some (v, At t)" "t \<le> clock w + so_ttlSeconds opts * 1000"
    "pcs i = Finished (Some a)" "pcs j = Finished (Some b)"
  shows "i = j"
  using assms(1,2) _ _ assms(6,7)
  by (rule mem_cache.redeemed_once)
    (use assms(3-5) in \<open>auto simp: mem_cache.claim_ok_def mem_cache.value_ok_def\<close>)

text \<open>
  a ticket minted for a user and a session is redeemed, at any time of its lifetime, as exactly that user
  and session.
\<close>

theorem ticket_roundtrip:
  fixes w :: "'w cache_world_scheme"
  assumes "fst (so_newSecret opts w) = Inr ticket" "ticket \<noteq> []" "userId \<noteq> []" "0 < so_ttlSeconds opts" "0 \<le> d"
    "d < so_ttlSeconds opts * 1000" "mem_entry (snd (so_newSecret opts w)) (claimKey opts ticket) = None"
  shows "fst (ticket_redeem in_memory_cache opts ticket
      (tick d (snd (ticket_mint in_memory_cache opts userId sessionHash w)))) =
    Inr (Some \<lparr>wt_userId = userId, wt_sessionHash = Some sessionHash\<rparr>)"
  using mem_cache.mint_then_redeem [OF assms(1,2,4-7)] decode_encode [OF assms(3)]
  by (simp add: ticket_redeem_def ticket_mint_def prog_simps)

definition sample_options :: "cache_world secret_options" where
  "sample_options = ws_ticket_options None (ret ''ticket'') (\<lambda>s. ''h'' @ s)"

definition empty_cache_world :: cache_world where
  "empty_cache_world = \<lparr>clock = 0, cache_store = [], cache_sets = []\<rparr>"

theorem ticket_roundtrip_witness:
  "fst (ticket_redeem in_memory_cache sample_options ''ticket''
      (tick 29999 (snd (ticket_mint in_memory_cache sample_options ''alice'' ''hash'' empty_cache_world)))) =
    Inr (Some \<lparr>wt_userId = ''alice'', wt_sessionHash = Some ''hash''\<rparr>)"
  by (rule ticket_roundtrip)
    (simp_all add: sample_options_def ws_ticket_options_def ret_def WS_TICKET_TTL_SECONDS_def empty_cache_world_def
      mem_entry_def)

definition minted_world :: cache_world where
  "minted_world = snd (ticket_mint in_memory_cache sample_options ''alice'' ''hash'' empty_cache_world)"

theorem secret_redeemed_once_witness:
  "\<exists>pcs w'. (redeem_step in_memory_cache tick sample_options ''ticket'')\<^sup>*\<^sup>* (\<lambda>_. Idle, minted_world) (pcs, w') \<and>
     pcs 0 = Finished (Some (encodePayload ''alice'' ''hash'')) \<and>
     (\<forall>j b. pcs j = Finished (Some b) \<longrightarrow> 0 = j)"
proof -
  let ?step = "redeem_step in_memory_cache tick sample_options ''ticket''"
  let ?v = "encodePayload ''alice'' ''hash''"
  let ?w1 = "snd (cc_incr in_memory_cache (claimKey sample_options ''ticket'') (so_ttlSeconds sample_options) minted_world)"
  let ?w2 = "snd (cc_get in_memory_cache (valueKey sample_options ''ticket'') ?w1)"
  let ?w3 = "snd (cc_del in_memory_cache (valueKey sample_options ''ticket'') ?w2)"
  have r1: "fst (cc_incr in_memory_cache (claimKey sample_options ''ticket'') (so_ttlSeconds sample_options) minted_world) = Inr (Some 1)"
    and r2: "fst (cc_get in_memory_cache (valueKey sample_options ''ticket'') ?w1) = Inr (Some ?v)"
    and none: "mem_entry minted_world (claimKey sample_options ''ticket'') = None"
    and some: "mem_entry minted_world (valueKey sample_options ''ticket'') = Some (?v, At 30000)"
    and ttl: "0 < so_ttlSeconds sample_options" "30000 \<le> clock minted_world + so_ttlSeconds sample_options * 1000"
    by code_simp+
  have s1: "?step (\<lambda>_. Idle, minted_world) ((\<lambda>_. Idle)(0 := Won), ?w1)"
    by (rule redeem_step.claim_won) (simp_all add: r1 prod_eq_iff)
  have s2: "?step ((\<lambda>_. Idle)(0 := Won), ?w1) (((\<lambda>_. Idle)(0 := Won))(0 := Holding ?v), ?w2)"
    by (rule redeem_step.read_value) (simp_all add: r2 prod_eq_iff)
  have s3: "?step (((\<lambda>_. Idle)(0 := Won))(0 := Holding ?v), ?w2)
      ((((\<lambda>_. Idle)(0 := Won))(0 := Holding ?v))(0 := Finished (Some ?v)), ?w3)"
    by (rule redeem_step.delete_value) (simp_all add: mem_cache.del_result prod_eq_iff)
  let ?pcs = "(((\<lambda>_. Idle)(0 := Won))(0 := Holding ?v))(0 := Finished (Some ?v))"
  have steps: "?step\<^sup>*\<^sup>* (\<lambda>_. Idle, minted_world) (?pcs, ?w3)"
    using s1 s2 s3 by (meson converse_rtranclp_into_rtranclp rtranclp.rtrancl_refl)
  have "\<forall>j b. ?pcs j = Finished (Some b) \<longrightarrow> 0 = j"
    using secret_redeemed_once [OF steps ttl(1) none some ttl(2), of 0 ?v] by simp
  with steps show ?thesis by (intro exI [of _ ?pcs] exI [of _ ?w3] conjI) simp_all
qed

end
