(* ===== verification/Counter_Store.thy ===== *)
theory Counter_Store
  imports Prelude
begin

section \<open>Windowed counters (\<open>abuse/counter-store.ts\<close> and its small clients)\<close>

text \<open>
  \<open>CounterStore\<close> is the record \<open>counter_store\<close>; \<open>InMemoryCounterStore\<close> is the group \<open>counter_*\<close> on
  the field \<open>counter_entries\<close> of a world.  The locale \<open>counter_laws\<close> states what the quota code relies
  on: a counter lives in the window its first increment opened, an increment never extends the window,
  a give-back never goes below zero, never opens a window and never extends one.  Every quota of the
  system has the shape \<open>limited\<close>, proved once in the locale: in one window exactly the first \<open>limit\<close>
  requests pass.  The fail-closed budget (\<open>services/host/counter-budget.ts\<close>) and the upload byte meter
  (\<open>services/media-byte-quota.ts\<close>) are here too.
\<close>

subsection \<open>The in-memory store\<close>

record counter_entry =
  ct_count :: int
  ct_expiresAtMs :: int

record counter_world = clock_world +
  counter_entries :: "(string, counter_entry) js_map"

definition counter_live :: "string \<Rightarrow> ('w counter_world_scheme, counter_entry option) prog" where
  "counter_live key = (\<lambda>w.
     case jm_get (counter_entries w) key of
       None \<Rightarrow> (Inr None, w)
     | Some entry \<Rightarrow>
         if ct_expiresAtMs entry \<le> clock w
         then (Inr None, w\<lparr>counter_entries := jm_delete key (counter_entries w)\<rparr>)
         else (Inr (Some entry), w))"

definition put_counter :: "string \<Rightarrow> counter_entry \<Rightarrow> 'w counter_world_scheme \<Rightarrow> 'w counter_world_scheme" where
  "put_counter key entry w = w\<lparr>counter_entries := jm_set key entry (counter_entries w)\<rparr>"

definition counter_incrBy :: "string \<Rightarrow> int \<Rightarrow> int \<Rightarrow> ('w counter_world_scheme, int) prog" where
  "counter_incrBy key by ttlSeconds =
     (let amount = max 0 by in
      seq (counter_live key) (\<lambda>existing.
        case existing of
          None \<Rightarrow>
            seq (writes (\<lambda>w. put_counter key
                   \<lparr>ct_count = amount, ct_expiresAtMs = clock w + ttlSeconds * 1000\<rparr> w))
                (\<lambda>_. ret amount)
        | Some entry \<Rightarrow>
            seq (writes (put_counter key (entry\<lparr>ct_count := ct_count entry + amount\<rparr>)))
                (\<lambda>_. ret (ct_count entry + amount))))"

definition counter_incr :: "string \<Rightarrow> int \<Rightarrow> ('w counter_world_scheme, int) prog" where
  "counter_incr key ttlSeconds = counter_incrBy key 1 ttlSeconds"

definition counter_decrBy :: "string \<Rightarrow> int \<Rightarrow> ('w counter_world_scheme, int) prog" where
  "counter_decrBy key by =
     seq (counter_live key) (\<lambda>existing.
       case existing of
         None \<Rightarrow> ret 0
       | Some entry \<Rightarrow>
           (let n = max 0 (ct_count entry - max 0 by)
            in seq (writes (put_counter key (entry\<lparr>ct_count := n\<rparr>))) (\<lambda>_. ret n)))"

definition counter_peek :: "string \<Rightarrow> ('w counter_world_scheme, int) prog" where
  "counter_peek key =
     seq (counter_live key) (\<lambda>existing. ret (case existing of None \<Rightarrow> 0 | Some e \<Rightarrow> ct_count e))"

subsection \<open>The interface, a limited action and the fail-closed budget\<close>

record 'w counter_store =
  cs_incr :: "string \<Rightarrow> int \<Rightarrow> ('w, int) prog"
  cs_incrBy :: "string \<Rightarrow> int \<Rightarrow> int \<Rightarrow> ('w, int) prog"
  cs_decrBy :: "string \<Rightarrow> int \<Rightarrow> ('w, int) prog"

definition in_memory_counters :: "'w counter_world_scheme counter_store" where
  "in_memory_counters =
     \<lparr>cs_incr = counter_incr, cs_incrBy = counter_incrBy, cs_decrBy = counter_decrBy\<rparr>"

text \<open>Charge one unit and refuse when the running count passes the limit.\<close>

definition limited :: "'w counter_store \<Rightarrow> string \<Rightarrow> int \<Rightarrow> int \<Rightarrow> app_error \<Rightarrow> ('w, int) prog" where
  "limited S key windowSeconds limit refusal =
     seq (cs_incr S key windowSeconds) (\<lambda>count.
       if count > limit then raise refusal else ret count)"

record counter_budget =
  cb_key :: string
  cb_windowSeconds :: int
  cb_cap :: int
  cb_unavailableMessage :: string
  cb_exceededMessage :: string

definition reserveCounterBudget :: "'w counter_store option \<Rightarrow> counter_budget \<Rightarrow> ('w, unit) prog" where
  "reserveCounterBudget counters budget =
     (case counters of
        None \<Rightarrow> ret ()
      | Some S \<Rightarrow>
          seq (recover (cs_incr S (cb_key budget) (cb_windowSeconds budget))
                 (\<lambda>_. raise (RateLimited (Some (cb_unavailableMessage budget))))) (\<lambda>used.
          if used > cb_cap budget then raise (RateLimited (Some (cb_exceededMessage budget)))
          else ret ()))"

subsection \<open>The contract\<close>

type_synonym counter_view = "string \<Rightarrow> (int \<times> int) option"

locale counter_laws =
  fixes S :: "'w counter_store"
    and count_of :: "'w \<Rightarrow> counter_view"
    and now :: "'w \<Rightarrow> int"
    and advance :: "int \<Rightarrow> 'w \<Rightarrow> 'w"
  assumes incr_is_incrBy: "cs_incr S k ttl = cs_incrBy S k 1 ttl"
    and incrBy_fresh: "count_of w k = None \<Longrightarrow> fst (cs_incrBy S k b ttl w) = Inr (max 0 b)"
    and incrBy_fresh_view: "count_of w k = None \<Longrightarrow> 0 < ttl \<Longrightarrow>
      count_of (snd (cs_incrBy S k b ttl w)) = (count_of w)(k \<mapsto> (max 0 b, now w + ttl * 1000))"
    and incrBy_present: "count_of w k = Some (n, x) \<Longrightarrow>
      fst (cs_incrBy S k b ttl w) = Inr (n + max 0 b)"
    and incrBy_present_view: "count_of w k = Some (n, x) \<Longrightarrow>
      count_of (snd (cs_incrBy S k b ttl w)) = (count_of w)(k \<mapsto> (n + max 0 b, x))"
    and incrBy_now: "now (snd (cs_incrBy S k b ttl w)) = now w"
    and decrBy_result: "fst (cs_decrBy S k b w) =
      Inr (case count_of w k of None \<Rightarrow> 0 | Some (n, x) \<Rightarrow> max 0 (n - max 0 b))"
    and decrBy_view: "count_of (snd (cs_decrBy S k b w)) =
      (count_of w)(k := map_option (\<lambda>(n, x). (max 0 (n - max 0 b), x)) (count_of w k))"
    and decrBy_now: "now (snd (cs_decrBy S k b w)) = now w"
    and advance_now: "now (advance d w) = now w + d"
    and advance_view: "0 \<le> d \<Longrightarrow> count_of (advance d w) k =
      (case count_of w k of None \<Rightarrow> None
       | Some (n, x) \<Rightarrow> if x \<le> now w + d then None else Some (n, x))"
begin

definition held :: "'w \<Rightarrow> string \<Rightarrow> int" where
  "held w k = (case count_of w k of None \<Rightarrow> 0 | Some (n, _) \<Rightarrow> n)"

lemma incr_result: "fst (cs_incr S k ttl w) = Inr (held w k + 1)"
  by (cases "count_of w k") (auto simp: held_def incr_is_incrBy incrBy_fresh incrBy_present)

lemma incr_view:
  assumes "0 < ttl"
  shows "count_of (snd (cs_incr S k ttl w)) = (count_of w)(k \<mapsto>
    (held w k + 1, case count_of w k of None \<Rightarrow> now w + ttl * 1000 | Some (_, x) \<Rightarrow> x))"
  using assms
  by (cases "count_of w k")
    (auto simp: held_def incr_is_incrBy incrBy_fresh_view incrBy_present_view)

lemma incr_now: "now (snd (cs_incr S k ttl w)) = now w"
  by (simp add: incr_is_incrBy incrBy_now)

text \<open>One charged action: accepted exactly while the count before it is below the limit.\<close>

lemma limited_result:
  "fst (limited S k ttl limit e w) =
     (if held w k < limit then Inr (held w k + 1) else Inl e)"
  by (simp add: limited_def prog_simps incr_result)

lemma limited_state: "snd (limited S k ttl limit e w) = snd (cs_incr S k ttl w)"
  by (simp add: limited_def prog_simps incr_result)

text \<open>A burst of requests on one key, each some time after the one before.\<close>

lemma burst_in_window:
  assumes "count_of w k = Some (n, x)" "0 < ttl" "\<forall>d \<in> set ds. 0 \<le> d" "now w + sum_list ds < x"
  shows "spaced_runs advance (map (\<lambda>d. (d, limited S k ttl limit e)) ds) w =
    map (\<lambda>i. n + int i < limit) [0..<length ds]"
  using assms
proof (induction ds arbitrary: w n)
  case Nil
  then show ?case by simp
next
  case (Cons d ds)
  let ?run = "\<lambda>ds. spaced_runs advance (map (\<lambda>d. (d, limited S k ttl limit e)) ds)"
  let ?w = "advance d w"
  let ?w' = "snd (cs_incr S k ttl ?w)"
  have tail: "0 \<le> sum_list ds" using Cons.prems(3) by (intro sum_list_nonneg) auto
  have live: "count_of ?w k = Some (n, x)"
    using Cons.prems tail by (simp add: advance_view)
  then have h: "held ?w k = n" by (simp add: held_def)
  have view: "count_of ?w' k = Some (n + 1, x)"
    using Cons.prems(2) live by (simp add: incr_view h)
  have rest: "?run ds ?w' = map (\<lambda>i. n + 1 + int i < limit) [0..<length ds]"
    using Cons.prems by (intro Cons.IH [OF view]) (auto simp: incr_now advance_now)
  have "?run (d # ds) w = (n < limit) # ?run ds ?w'"
    by (simp add: split_beta limited_result limited_state h)
  also have "\<dots> = map (\<lambda>i. n + int i < limit) [0..<length (d # ds)]"
    unfolding rest by (simp add: map_upt_Suc add_ac del: upt_Suc)
  finally show ?case .
qed

text \<open>From a fresh key, the first \<open>limit\<close> requests of the window pass and no other.\<close>

lemma burst_from_fresh:
  assumes "count_of w k = None" "0 < ttl" "0 \<le> d0" "\<forall>d \<in> set ds. 0 \<le> d" "sum_list ds < ttl * 1000"
  shows "spaced_runs advance (map (\<lambda>d. (d, limited S k ttl limit e)) (d0 # ds)) w =
    map (\<lambda>i. int i < limit) [0..<Suc (length ds)]"
proof -
  let ?w = "advance d0 w"
  let ?w' = "snd (cs_incr S k ttl ?w)"
  have fresh: "count_of ?w k = None" using assms by (simp add: advance_view)
  then have h: "held ?w k = 0" by (simp add: held_def)
  have view: "count_of ?w' k = Some (1, now w + d0 + ttl * 1000)"
    using assms(2) fresh by (simp add: incr_view h advance_now)
  have "spaced_runs advance (map (\<lambda>d. (d, limited S k ttl limit e)) ds) ?w' =
      map (\<lambda>i. 1 + int i < limit) [0..<length ds]"
    using assms by (intro burst_in_window [OF view]) (auto simp: incr_now advance_now)
  then show ?thesis
    by (simp add: split_beta limited_result limited_state h map_upt_Suc add_ac del: upt_Suc)
qed

text \<open>An accepted charge that is given back leaves the count and the window as they were.\<close>

lemma give_back:
  assumes "0 < ttl" "0 \<le> b" "count_of w k = Some (n, x)" "0 \<le> n"
  shows "count_of (snd (cs_decrBy S k b (snd (cs_incrBy S k b ttl w)))) = count_of w"
  using assms by (auto simp: decrBy_view incrBy_present_view)

end

subsection \<open>The in-memory store keeps the contract\<close>

definition mem_count :: "'w counter_world_scheme \<Rightarrow> counter_view" where
  "mem_count w k = (case jm_get (counter_entries w) k of
     None \<Rightarrow> None
   | Some e \<Rightarrow> if ct_expiresAtMs e \<le> clock w then None else Some (ct_count e, ct_expiresAtMs e))"

lemma clock_put_counter [simp]: "clock (put_counter k e w) = clock w"
  by (simp add: put_counter_def)

lemma mem_count_put [simp]:
  "mem_count (put_counter k e w) = (mem_count w)
     (k := if ct_expiresAtMs e \<le> clock w then None else Some (ct_count e, ct_expiresAtMs e))"
  by (rule ext) (auto simp: mem_count_def put_counter_def split: option.split)

lemma mem_count_delete [simp]:
  "mem_count (w\<lparr>counter_entries := jm_delete k (counter_entries w)\<rparr>) = (mem_count w)(k := None)"
  by (rule ext) (auto simp: mem_count_def split: option.split)

lemma counter_live_result:
  "fst (counter_live k w) =
     Inr (map_option (\<lambda>(n, x). \<lparr>ct_count = n, ct_expiresAtMs = x\<rparr>) (mem_count w k))"
  by (auto simp: counter_live_def mem_count_def split: option.splits)

lemma counter_live_view [simp]: "mem_count (snd (counter_live k w)) = mem_count w"
proof (cases "\<exists>e. jm_get (counter_entries w) k = Some e \<and> ct_expiresAtMs e \<le> clock w")
  case True
  then have "mem_count w k = None" by (auto simp: mem_count_def)
  then have "(mem_count w)(k := None) = mem_count w" by auto
  with True show ?thesis by (auto simp: counter_live_def)
next
  case False
  then show ?thesis by (auto simp: counter_live_def split: option.splits)
qed

lemma counter_live_clock [simp]: "clock (snd (counter_live k w)) = clock w"
  by (auto simp: counter_live_def split: option.splits)

lemma mem_count_live: "mem_count w k = Some (n, x) \<Longrightarrow> clock w < x"
  by (auto simp: mem_count_def split: option.splits if_splits)

lemmas counter_simps = in_memory_counters_def counter_incrBy_def counter_decrBy_def counter_incr_def
  prog_simps counter_live_result Let_def

interpretation mem_counters: counter_laws in_memory_counters mem_count clock tick
proof (unfold_locales, goal_cases)
  case (5 w k n x b ttl)
  with mem_count_live [OF 5] show ?case by (auto simp: counter_simps)
next
  case (6 k b ttl w)
  show ?case by (cases "mem_count w k") (auto simp: counter_simps)
next
  case (7 k b w)
  show ?case by (cases "mem_count w k") (auto simp: counter_simps)
next
  case (8 k b w)
  show ?case
    by (cases "mem_count w k") (auto simp: counter_simps dest: mem_count_live)
next
  case (9 k b w)
  show ?case by (cases "mem_count w k") (auto simp: counter_simps)
next
  case (11 d w k)
  then show ?case by (auto simp: mem_count_def tick_def split: option.splits)
qed (auto simp: counter_simps)

subsection \<open>The fail-closed budget\<close>

text \<open>An unreachable store, and a store that answers a count over the cap, both refuse the action.\<close>

lemma reserveCounterBudget_fails_closed:
  assumes "fst (cs_incr S (cb_key b) (cb_windowSeconds b) w) = Inl err"
  shows "fst (reserveCounterBudget (Some S) b w) = Inl (RateLimited (Some (cb_unavailableMessage b)))"
  using assms by (simp add: reserveCounterBudget_def prog_simps)

lemma reserveCounterBudget_accepts_iff:
  "fst (reserveCounterBudget (Some S) b w) = Inr () \<longleftrightarrow>
     (\<exists>n. fst (cs_incr S (cb_key b) (cb_windowSeconds b) w) = Inr n \<and> n \<le> cb_cap b)"
  by (auto simp: reserveCounterBudget_def prog_simps split: sum.splits)

subsection \<open>The byte meter\<close>

record meter_entry =
  bm_total :: int
  bm_expiresAtMs :: int

record meter_world = clock_world +
  meter_entries :: "(string, meter_entry) js_map"

definition MEDIA_UPLOAD_BYTES_PER_DAY :: int where
  "MEDIA_UPLOAD_BYTES_PER_DAY = 512 * 1024 * 1024"

definition MEDIA_UPLOAD_BYTE_WINDOW_SECONDS :: int where
  "MEDIA_UPLOAD_BYTE_WINDOW_SECONDS = 24 * 60 * 60"

definition meter_add :: "string \<Rightarrow> int \<Rightarrow> ('w meter_world_scheme, int) prog" where
  "meter_add subject bytes = (\<lambda>w.
     let fresh = \<lparr>bm_total = bytes, bm_expiresAtMs = clock w + MEDIA_UPLOAD_BYTE_WINDOW_SECONDS * 1000\<rparr>;
         opened = (Inr bytes, w\<lparr>meter_entries := jm_set subject fresh (meter_entries w)\<rparr>)
     in case jm_get (meter_entries w) subject of
          None \<Rightarrow> opened
        | Some existing \<Rightarrow>
            if bm_expiresAtMs existing \<le> clock w then opened
            else (Inr (bm_total existing + bytes),
                  w\<lparr>meter_entries := jm_set subject
                       (existing\<lparr>bm_total := bm_total existing + bytes\<rparr>) (meter_entries w)\<rparr>))"

lemma meter_add_window:
  assumes "jm_get (meter_entries w) s = Some e" "clock w < bm_expiresAtMs e"
  shows "fst (meter_add s b w) = Inr (bm_total e + b)"
    and "map_option bm_expiresAtMs (jm_get (meter_entries (snd (meter_add s b w))) s) =
      Some (bm_expiresAtMs e)"
  using assms by (auto simp: meter_add_def Let_def)

end
