(* ===== verification/Ip_Buckets.thy ===== *)
theory Ip_Buckets
  imports Counter_Store
begin

section \<open>Network buckets and anonymous quotas (\<open>abuse/ip-rate-limit.ts\<close>, \<open>adapters/net-ipv6.ts\<close>, \<open>abuse/h3-cap.ts\<close>)\<close>

text \<open>
  \<open>normalizeIp\<close> maps every client address to a rate-limit bucket: an IPv4 address (also when mapped
  into IPv6) to itself, an IPv6 address to its /64 prefix, a missing one to a bucket of its own.  The
  quotas built on it are instances of \<open>limited\<close>.
\<close>

subsection \<open>IPv6 expansion\<close>

text \<open>\<open>addr.split("::")\<close>: leftmost, non-overlapping occurrences.\<close>

fun split_dcolon :: "string \<Rightarrow> string list" where
  "split_dcolon [] = [[]]"
| "split_dcolon [c] = [[c]]"
| "split_dcolon (c # d # cs) =
     (if c = CHR '':'' \<and> d = CHR '':'' then [] # split_dcolon cs
      else (case split_dcolon (d # cs) of [] \<Rightarrow> [[c]] | p # ps \<Rightarrow> (c # p) # ps))"

record ipv6_expansion =
  hextets :: "string list"
  runs :: nat
  fill :: int

definition IPV6_HEXTET_COUNT :: int where
  "IPV6_HEXTET_COUNT = 8"

definition pieces :: "string \<Rightarrow> string list" where
  "pieces s = (if s = [] then [] else split_char (CHR '':'') s)"

definition expandIpv6Hextets :: "string \<Rightarrow> ipv6_expansion" where
  "expandIpv6Hextets addr =
     (let halves = split_dcolon addr;
          rns = length halves - 1;
          headRaw = (case halves of [] \<Rightarrow> [] | h # _ \<Rightarrow> h);
          tailRaw = (if rns = 0 then None
                     else Some (case halves of _ # t # _ \<Rightarrow> t | _ \<Rightarrow> []));
          hd = pieces headRaw
      in case tailRaw of
           None \<Rightarrow> \<lparr>hextets = hd, runs = rns, fill = 0\<rparr>
         | Some t \<Rightarrow>
             (let tl = pieces t;
                  fl = IPV6_HEXTET_COUNT - int (length hd) - int (length tl)
              in \<lparr>hextets = hd @ replicate (nat (max 0 fl)) ''0'' @ tl, runs = rns, fill = fl\<rparr>))"

subsection \<open>The bucket of an address\<close>

definition IPV6_PREFIX_HEXTETS :: nat where
  "IPV6_PREFIX_HEXTETS = 4"

definition UNKNOWN_IP_BUCKET :: string where
  "UNKNOWN_IP_BUCKET = ''unknown''"

text \<open>\<open>/^\d{1,3}\.\d{1,3}\.\d{1,3}\.\d{1,3}$/\<close>\<close>

definition is_ipv4 :: "string \<Rightarrow> bool" where
  "is_ipv4 s \<longleftrightarrow>
     (let ps = split_char (CHR ''.'') s
      in length ps = 4 \<and> (\<forall>p \<in> set ps. 1 \<le> length p \<and> length p \<le> 3 \<and> list_all is_digit p))"

text \<open>The capture of \<open>/^::ffff:(ipv4)$/\<close>.\<close>

definition mapped_ipv4 :: "string \<Rightarrow> string option" where
  "mapped_ipv4 s =
     (if startsWith s ''::ffff:'' \<and> is_ipv4 (drop 7 s) then Some (drop 7 s) else None)"

definition is_newline :: "char \<Rightarrow> bool" where
  "is_newline c \<longleftrightarrow> of_char c = (10::nat) \<or> of_char c = (13::nat)"

text \<open>\<open>h.replace(/^0+(?=.)/, "")\<close>: leading zeros go, the last character stays.\<close>

fun strip_zeros :: "string \<Rightarrow> string" where
  "strip_zeros (c # d # cs) =
     (if c = CHR ''0'' \<and> \<not> is_newline d then strip_zeros (d # cs) else c # d # cs)"
| "strip_zeros s = s"

definition ipv6Prefix64 :: "string \<Rightarrow> string" where
  "ipv6Prefix64 addr =
     (let hs = hextets (expandIpv6Hextets addr);
          part = (\<lambda>i. let h = (if i < length hs then hs ! i else ''0'');
                           trimmed = strip_zeros h
                       in if trimmed = [] then ''0'' else trimmed)
      in join_with '':'' (map part [0..<IPV6_PREFIX_HEXTETS]) @ ''::/64'')"

definition normalizeIp :: "string option \<Rightarrow> string" where
  "normalizeIp ip =
     (let raw = toLowerCase (trim (case ip of None \<Rightarrow> [] | Some s \<Rightarrow> s))
      in if raw = [] then UNKNOWN_IP_BUCKET
         else case mapped_ipv4 raw of
                Some v4 \<Rightarrow> v4
              | None \<Rightarrow>
                  if is_ipv4 raw then raw
                  else if CHR '':'' \<in> set raw then ipv6Prefix64 raw
                  else raw)"

subsection \<open>Quotas\<close>

definition IP_HARD_LIMIT_PER_HOUR :: int where
  "IP_HARD_LIMIT_PER_HOUR = 10"

definition IP_WINDOW_SECONDS :: int where
  "IP_WINDOW_SECONDS = 60 * 60"

definition IP_COUNTER_PREFIX :: string where
  "IP_COUNTER_PREFIX = ''abuse:ip:''"

definition classifyIpAllowance :: "string \<Rightarrow> int" where
  "classifyIpAllowance normalizedIp = IP_HARD_LIMIT_PER_HOUR"

definition ip_refusal :: app_error where
  "ip_refusal = RateLimited (Some ''Too many anonymous submissions from this network. Try again later.'')"

definition enforceIpRateLimit ::
  "'w counter_store \<Rightarrow> (string \<Rightarrow> int) option \<Rightarrow> string option \<Rightarrow> ('w, string \<times> int \<times> int) prog" where
  "enforceIpRateLimit counters limitFor ip =
     (let normalizedIp = normalizeIp ip;
          limit = (case limitFor of None \<Rightarrow> classifyIpAllowance | Some f \<Rightarrow> f) normalizedIp;
          key = IP_COUNTER_PREFIX @ normalizedIp
      in seq (cs_incr counters key IP_WINDOW_SECONDS) (\<lambda>count.
           if count > limit then raise ip_refusal else ret (normalizedIp, count, limit)))"

definition H3_CELL_LIMIT_PER_HOUR :: int where
  "H3_CELL_LIMIT_PER_HOUR = 30"

definition H3_WINDOW_SECONDS :: int where
  "H3_WINDOW_SECONDS = 60 * 60"

definition H3_COUNTER_PREFIX :: string where
  "H3_COUNTER_PREFIX = ''abuse:h3:''"

definition h3CellCapExempt :: "string option \<Rightarrow> bool" where
  "h3CellCapExempt userId \<longleftrightarrow> userId \<noteq> None"

definition h3_refusal :: app_error where
  "h3_refusal = RateLimited (Some ''Too many anonymous reports for this location right now. Try later.'')"

text \<open>
  The cell of a point is computed by the \<open>h3-js\<close> library: \<open>latLngToCell\<close> is a parameter.
\<close>

definition enforceH3CellCap ::
  "('p \<Rightarrow> string) \<Rightarrow> 'w counter_store \<Rightarrow> int option \<Rightarrow> 'p \<Rightarrow> ('w, string \<times> int \<times> int) prog" where
  "enforceH3CellCap abuseH3Cell counters limitOpt point =
     (let cell = abuseH3Cell point;
          limit = (case limitOpt of None \<Rightarrow> H3_CELL_LIMIT_PER_HOUR | Some l \<Rightarrow> l);
          key = H3_COUNTER_PREFIX @ cell
      in seq (cs_incr counters key H3_WINDOW_SECONDS) (\<lambda>count.
           if count > limit then raise h3_refusal else ret (cell, count, limit)))"

subsection \<open>Expansion of well-formed addresses\<close>

text \<open>A written hextet: non-empty, without a colon or white space, lower case.\<close>

definition hextet :: "string \<Rightarrow> bool" where
  "hextet h \<longleftrightarrow> h \<noteq> [] \<and> list_all (\<lambda>c. c \<noteq> CHR '':'' \<and> \<not> is_space c \<and> lower_char c = c) h"

lemma hextet_no_colon: "hextet h \<Longrightarrow> CHR '':'' \<notin> set h"
  by (auto simp: hextet_def list_all_iff)

abbreviation colons :: "string list \<Rightarrow> string" where
  "colons hs \<equiv> join_with '':'' hs"

lemma split_dcolon_not_Nil [simp]: "split_dcolon s \<noteq> []"
  by (induction s rule: split_dcolon.induct) (auto split: list.splits)

lemma split_dcolon_cons:
  "c \<noteq> CHR '':'' \<Longrightarrow>
   split_dcolon (c # s) = (case split_dcolon s of [] \<Rightarrow> [[c]] | p # ps \<Rightarrow> (c # p) # ps)"
  by (cases s) auto

lemma split_dcolon_append:
  "CHR '':'' \<notin> set p \<Longrightarrow>
   split_dcolon (p @ s) = (case split_dcolon s of [] \<Rightarrow> [p] | q # qs \<Rightarrow> (p @ q) # qs)"
  by (induction p) (auto simp: split_dcolon_cons split: list.splits)

lemma split_dcolon_colon:
  assumes "hextet h"
  shows "split_dcolon (CHR '':'' # h @ s) =
    (case split_dcolon (h @ s) of [] \<Rightarrow> [[CHR '':'']] | p # ps \<Rightarrow> (CHR '':'' # p) # ps)"
  using assms by (cases h) (auto simp: hextet_def)

text \<open>Hextets separated by single colons are one half, whatever follows them.\<close>

lemma split_dcolon_colons:
  assumes "\<forall>h \<in> set hs. hextet h" "hs \<noteq> []"
  shows "split_dcolon (colons hs @ s) =
    (case split_dcolon s of [] \<Rightarrow> [colons hs] | q # qs \<Rightarrow> (colons hs @ q) # qs)"
  using assms
proof (induction hs rule: induct_list012)
  case (2 x)
  then show ?case by (auto simp: split_dcolon_append hextet_no_colon split: list.splits)
next
  case (3 x y ys)
  have y: "\<exists>t. colons (y # ys) = y @ t" by (cases ys) auto
  then obtain t where t: "colons (y # ys) = y @ t" by blast
  from 3 have IH: "split_dcolon (y @ t @ s) =
      (case split_dcolon s of [] \<Rightarrow> [colons (y # ys)] | q # qs \<Rightarrow> (colons (y # ys) @ q) # qs)"
    by (simp add: t)
  have hy: "hextet y" and hx: "CHR '':'' \<notin> set x" using 3 by (auto simp: hextet_no_colon)
  obtain q qs where qs: "split_dcolon s = q # qs" by (cases "split_dcolon s") auto
  have "split_dcolon (CHR '':'' # y @ t @ s) = (CHR '':'' # colons (y # ys) @ q) # qs"
    using split_dcolon_colon [OF hy, of "t @ s"] IH qs by simp
  then show ?case
    by (simp add: t split_dcolon_append [OF hx] qs)
qed auto

lemma split_char_colons:
  assumes "\<forall>h \<in> set hs. hextet h" "hs \<noteq> []"
  shows "split_char (CHR '':'') (colons hs) = hs"
  using assms
proof (induction hs rule: induct_list012)
  case (2 x)
  then show ?case by (simp add: split_char_no_sep hextet_no_colon)
next
  case (3 x y ys)
  then show ?case by (simp add: split_char_append hextet_no_colon)
qed simp

lemma colons_not_Nil: "\<forall>h \<in> set hs. hextet h \<Longrightarrow> hs \<noteq> [] \<Longrightarrow> colons hs \<noteq> []"
  by (induction hs rule: induct_list012) (auto simp: hextet_def)

lemma pieces_colons: "\<forall>h \<in> set hs. hextet h \<Longrightarrow> pieces (colons hs) = hs"
  by (cases "hs = []") (auto simp: pieces_def split_char_colons dest: colons_not_Nil)

text \<open>A fully written address expands to its hextets, a compressed one is filled up to eight.\<close>

lemma expand_full:
  assumes "\<forall>h \<in> set hs. hextet h" "hs \<noteq> []"
  shows "hextets (expandIpv6Hextets (colons hs)) = hs"
proof -
  have "split_dcolon (colons hs) = [colons hs]"
    using split_dcolon_colons [OF assms, of "[]"] by simp
  then show ?thesis
    using assms by (simp add: expandIpv6Hextets_def pieces_colons)
qed

lemma expand_compressed:
  assumes "\<forall>h \<in> set hs. hextet h" "hs \<noteq> []" "\<forall>h \<in> set ts. hextet h"
    and "length hs + length ts \<le> 8"
  shows "hextets (expandIpv6Hextets (colons hs @ ''::'' @ colons ts)) =
    hs @ replicate (8 - length hs - length ts) ''0'' @ ts"
proof -
  have tail: "split_dcolon (colons ts) = [colons ts]"
    using assms(3) by (cases "ts = []") (use split_dcolon_colons [of ts "[]"] in auto)
  have "split_dcolon (''::'' @ colons ts) = [[], colons ts]"
    by (simp add: tail)
  then have halves: "split_dcolon (colons hs @ ''::'' @ colons ts) = [colons hs, colons ts]"
    using split_dcolon_colons [OF assms(1,2), of "''::'' @ colons ts"] by simp
  have "nat (max 0 (IPV6_HEXTET_COUNT - int (length hs) - int (length ts))) = 8 - length hs - length ts"
    using assms(4) by (simp add: IPV6_HEXTET_COUNT_def)
  then show ?thesis
    using assms unfolding expandIpv6Hextets_def halves by (simp add: pieces_colons Let_def)
qed

subsection \<open>Buckets of well-formed addresses\<close>

definition plain :: "string \<Rightarrow> bool" where
  "plain s \<longleftrightarrow> list_all (\<lambda>c. \<not> is_space c \<and> lower_char c = c) s"

lemma dropWhile_none: "list_all (\<lambda>c. \<not> P c) s \<Longrightarrow> dropWhile P s = s"
  by (cases s) auto

lemma plain_raw: "plain s \<Longrightarrow> toLowerCase (trim s) = s"
proof -
  assume p: "plain s"
  then have ns: "list_all (\<lambda>c. \<not> is_space c) s" by (auto simp: plain_def list_all_iff)
  then have "list_all (\<lambda>c. \<not> is_space c) (rev s)" by (simp add: list_all_iff)
  with ns have "trim s = s"
    by (simp add: trim_def trimStart_def trimEnd_def dropWhile_none)
  moreover have "map lower_char s = s"
    using p by (auto simp: plain_def list_all_iff intro: map_idI)
  ultimately show ?thesis by (simp add: toLowerCase_def)
qed

lemma plain_append [simp]: "plain (s @ t) \<longleftrightarrow> plain s \<and> plain t"
  by (auto simp: plain_def)

lemma plain_Cons: "plain (c # s) \<longleftrightarrow> (\<not> is_space c \<and> lower_char c = c) \<and> plain s"
  by (auto simp: plain_def)

lemma plain_colon [simp]: "plain (CHR '':'' # s) \<longleftrightarrow> plain s" "plain []"
  by (simp_all add: plain_def is_space_def lower_char_def)

lemma plain_hextet: "hextet h \<Longrightarrow> plain h"
  by (auto simp: hextet_def plain_def list_all_iff)

lemma plain_colons: "\<forall>h \<in> set hs. hextet h \<Longrightarrow> plain (colons hs)"
  by (induction hs rule: induct_list012) (auto simp: plain_hextet)

lemma set_split_char: "set s \<subseteq> insert c (\<Union> (set ` set (split_char c s)))"
proof (induction s)
  case (Cons x s)
  obtain p ps where "split_char c s = p # ps" by (cases "split_char c s") auto
  with Cons show ?case by auto
qed simp

lemma is_ipv4_chars: "is_ipv4 s \<Longrightarrow> x \<in> set s \<Longrightarrow> is_digit x \<or> x = CHR ''.''"
  using set_split_char [of s "CHR ''.''"] by (fastforce simp: is_ipv4_def Let_def list_all_iff)

lemma colon_not_ipv4: "CHR '':'' \<in> set s \<Longrightarrow> \<not> is_ipv4 s"
  by (auto dest: is_ipv4_chars simp: is_digit_def)

lemma is_digit_plain: "is_digit c \<or> c = CHR ''.'' \<Longrightarrow> \<not> is_space c \<and> lower_char c = c"
  by (auto simp: is_digit_def is_space_def lower_char_def Let_def)

lemma is_ipv4_plain: "is_ipv4 s \<Longrightarrow> plain s"
  by (auto simp: plain_def list_all_iff dest!: is_ipv4_chars is_digit_plain)

lemma is_ipv4_not_Nil: "is_ipv4 s \<Longrightarrow> s \<noteq> []"
  by (auto simp: is_ipv4_def)

text \<open>An address in colon notation that starts with a hextet goes to its /64 bucket.\<close>

lemma normalizeIp_ipv6:
  assumes "plain (h @ s)" "hextet h" "CHR '':'' \<in> set s"
  shows "normalizeIp (Some (h @ s)) = ipv6Prefix64 (h @ s)"
proof -
  have "\<not> startsWith (h @ s) ''::ffff:''"
    using assms(2) by (cases h) (auto simp: startsWith_def hextet_def)
  then have "mapped_ipv4 (h @ s) = None" by (simp add: mapped_ipv4_def)
  moreover have "h @ s \<noteq> []" using assms(2) by (simp add: hextet_def)
  moreover have "\<not> is_ipv4 (h @ s)" using assms(3) by (simp add: colon_not_ipv4)
  ultimately show ?thesis
    using assms plain_raw [OF assms(1)] unfolding normalizeIp_def Let_def option.case by auto
qed

lemma strip_zeros_not_Nil [simp]: "strip_zeros s = [] \<longleftrightarrow> s = []"
  by (induction s rule: strip_zeros.induct) auto

lemma map_prefix_upt: "length p = n \<Longrightarrow>
  map (\<lambda>i. f (if i < length (p @ q) then (p @ q) ! i else z)) [0..<n] = map f p"
  by (rule nth_equalityI) (auto simp: nth_append)

lemma ipv6Prefix64_prefix:
  assumes "hextets (expandIpv6Hextets addr) = p @ q" "length p = 4" "\<forall>h \<in> set p. hextet h"
  shows "ipv6Prefix64 addr = colons (map strip_zeros p) @ ''::/64''"
proof -
  let ?f = "\<lambda>h. let trimmed = strip_zeros h in if trimmed = [] then ''0'' else trimmed"
  have "map ?f p = map strip_zeros p"
    using assms(3) by (auto simp: hextet_def Let_def)
  then show ?thesis
    using map_prefix_upt [OF assms(2), of ?f q "''0''"]
    unfolding ipv6Prefix64_def assms(1) IPV6_PREFIX_HEXTETS_def Let_def
    by (simp only: if_distrib [of strip_zeros])
qed

lemma colons_split_hd:
  assumes "hs = h # g # rest"
  shows "\<exists>s. colons hs = h @ s \<and> CHR '':'' \<in> set s"
  using assms by auto

text \<open>
  rotating the low 64 bits of an IPv6 address does not change the rate-limit bucket.  An address
  written with eight hextets, and any compressed writing that spells out the first four, is bucketed by
  its first four hextets alone, with their leading zeros dropped.
\<close>

theorem ipv6_bucket_is_prefix:
  assumes "length p = 4" "\<forall>h \<in> set p. hextet h"
    and "length q = 4" "\<forall>h \<in> set q. hextet h"
    and "length ts \<le> 4" "\<forall>h \<in> set ts. hextet h"
  shows "normalizeIp (Some (colons (p @ q))) = colons (map strip_zeros p) @ ''::/64'' \<and>
    normalizeIp (Some (colons p @ ''::'' @ colons ts)) = colons (map strip_zeros p) @ ''::/64''"
proof -
  obtain h g rest where p: "p = h # g # rest"
    using assms(1) by (auto simp: eval_nat_numeral length_Suc_conv)
  have hx: "hextet h" using assms(2) p by simp
  obtain s where s: "colons (p @ q) = h @ s" "CHR '':'' \<in> set s"
    using colons_split_hd [of "p @ q" h g "rest @ q"] p by auto
  obtain t where t: "colons p = h @ t" "CHR '':'' \<in> set t"
    using colons_split_hd [of p h g rest] p by auto
  have "normalizeIp (Some (colons (p @ q))) = ipv6Prefix64 (colons (p @ q))"
    using normalizeIp_ipv6 [OF _ hx s(2)] plain_colons [of "p @ q"] assms(2,4) s(1) by auto
  also have "\<dots> = colons (map strip_zeros p) @ ''::/64''"
    using assms by (intro ipv6Prefix64_prefix [where q = q] expand_full) auto
  finally have full: "normalizeIp (Some (colons (p @ q))) = colons (map strip_zeros p) @ ''::/64''" .
  let ?a = "colons p @ ''::'' @ colons ts"
  have "normalizeIp (Some ?a) = ipv6Prefix64 ?a"
    using normalizeIp_ipv6 [OF _ hx, of "t @ ''::'' @ colons ts"] plain_colons [of p]
      plain_colons [of ts] assms(2,6) t by auto
  also have "\<dots> = colons (map strip_zeros p) @ ''::/64''"
    using assms p by (intro ipv6Prefix64_prefix [OF expand_compressed]) auto
  finally show ?thesis using full by blast
qed

theorem ipv6_bucket_is_prefix_witness:
  "normalizeIp (Some ''2001:0db8:0:1:9:a:b:c'') = ''2001:db8:0:1::/64'' \<and>
   normalizeIp (Some ''2001:0db8:0:1::7'') = ''2001:db8:0:1::/64''"
proof -
  have "normalizeIp (Some (colons ([''2001'', ''0db8'', ''0'', ''1''] @ [''9'', ''a'', ''b'', ''c'']))) =
      colons (map strip_zeros [''2001'', ''0db8'', ''0'', ''1'']) @ ''::/64'' \<and>
    normalizeIp (Some (colons [''2001'', ''0db8'', ''0'', ''1''] @ ''::'' @ colons [''7''])) =
      colons (map strip_zeros [''2001'', ''0db8'', ''0'', ''1'']) @ ''::/64''"
    by (rule ipv6_bucket_is_prefix [where q = "[''9'', ''a'', ''b'', ''c'']" and ts = "[''7'']"]) code_simp+
  moreover have "colons (map strip_zeros [''2001'', ''0db8'', ''0'', ''1'']) @ ''::/64'' = ''2001:db8:0:1::/64''"
    by code_simp
  ultimately show ?thesis by simp
qed

text \<open>The dotted and the IPv6-mapped writing of an IPv4 address share a bucket.\<close>

lemma normalizeIp_ipv4:
  assumes "is_ipv4 a"
  shows "normalizeIp (Some a) = a" "normalizeIp (Some (''::ffff:'' @ a)) = a"
proof -
  have "mapped_ipv4 a = None"
    using is_ipv4_chars [OF assms, of "hd a"] is_ipv4_not_Nil [OF assms]
    by (cases a) (auto simp: mapped_ipv4_def startsWith_def is_digit_def)
  then show "normalizeIp (Some a) = a"
    using assms by (simp add: normalizeIp_def plain_raw is_ipv4_plain is_ipv4_not_Nil Let_def)
  have "plain ''::ffff:''" by code_simp
  then have "plain (''::ffff:'' @ a)"
    using is_ipv4_plain [OF assms] unfolding plain_append by blast
  moreover have "mapped_ipv4 (''::ffff:'' @ a) = Some a"
    using assms by (simp add: mapped_ipv4_def startsWith_def)
  ultimately show "normalizeIp (Some (''::ffff:'' @ a)) = a"
    by (simp only: normalizeIp_def option.case plain_raw) simp
qed

text \<open>Every input has a bucket: no address, however malformed, escapes the counters.\<close>

lemma normalizeIp_not_Nil: "normalizeIp ip \<noteq> []"
  by (auto simp: normalizeIp_def UNKNOWN_IP_BUCKET_def ipv6Prefix64_def mapped_ipv4_def Let_def
      dest: is_ipv4_not_Nil split: option.splits if_splits)

subsection \<open>The quotas are exact\<close>

lemma enforceIpRateLimit_limited:
  "enforceIpRateLimit S None ip =
     seq (limited S (IP_COUNTER_PREFIX @ normalizeIp ip) IP_WINDOW_SECONDS IP_HARD_LIMIT_PER_HOUR ip_refusal)
       (\<lambda>count. ret (normalizeIp ip, count, IP_HARD_LIMIT_PER_HOUR))"
  by (rule ext) (simp add: enforceIpRateLimit_def classifyIpAllowance_def limited_def prog_simps
      Let_def split: sum.split)

lemma enforceH3CellCap_limited:
  "enforceH3CellCap cellOf S None p =
     seq (limited S (H3_COUNTER_PREFIX @ cellOf p) H3_WINDOW_SECONDS H3_CELL_LIMIT_PER_HOUR h3_refusal)
       (\<lambda>count. ret (cellOf p, count, H3_CELL_LIMIT_PER_HOUR))"
  by (rule ext) (simp add: enforceH3CellCap_def limited_def prog_simps Let_def split: sum.split)

lemma seq_ret_outcome:
  "isl (fst (seq m (\<lambda>x. ret (f x)) w)) = isl (fst (m w))" "snd (seq m (\<lambda>x. ret (f x)) w) = snd (m w)"
  by (simp_all add: prog_simps split: sum.split)

lemma spaced_runs_outcome:
  "spaced_runs adv (map (\<lambda>d. (d, seq m (\<lambda>x. ret (f x)))) ds) w = spaced_runs adv (map (\<lambda>d. (d, m)) ds) w"
  by (induction ds arbitrary: w) (auto simp: split_beta seq_ret_outcome)

text \<open>
  the anonymous submission quota per network is exact.  Take any addresses of one bucket and any
  spacing of their requests over less than an hour after the first, on a counter store with no live
  window for that bucket: the first ten are accepted and every later one is refused.
\<close>

theorem ip_quota_exact:
  assumes "\<forall>(d, ip) \<in> set (r0 # rs). 0 \<le> d \<and> normalizeIp ip = bucket"
    and "mem_count w (IP_COUNTER_PREFIX @ bucket) = None"
    and "sum_list (map fst rs) < 60 * 60 * 1000"
  shows "spaced_runs tick
      (map (\<lambda>r. (fst r, enforceIpRateLimit in_memory_counters None (snd r))) (r0 # rs)) w =
    map (\<lambda>i. i < 10) [0..<Suc (length rs)]"
proof -
  let ?limit = "limited in_memory_counters (IP_COUNTER_PREFIX @ bucket) IP_WINDOW_SECONDS
    IP_HARD_LIMIT_PER_HOUR ip_refusal"
  let ?charge = "\<lambda>_. seq ?limit (\<lambda>c. ret (bucket, c, IP_HARD_LIMIT_PER_HOUR))"
  have "spaced_runs tick
      (map (\<lambda>r. (fst r, enforceIpRateLimit in_memory_counters None (snd r))) (r0 # rs)) w =
    spaced_runs tick (map (\<lambda>r. (fst r, ?charge r)) (r0 # rs)) w"
    using assms(1) by (intro spaced_runs_cong) (auto simp: enforceIpRateLimit_limited split_beta)
  also have "\<dots> = spaced_runs tick (map (\<lambda>d. (d, ?limit)) (fst r0 # map fst rs)) w"
    using spaced_runs_outcome [of tick ?limit _ "map fst (r0 # rs)" w] by (simp add: comp_def)
  also have "\<dots> = map (\<lambda>i. int i < IP_HARD_LIMIT_PER_HOUR) [0..<Suc (length (map fst rs))]"
    using assms by (intro mem_counters.burst_from_fresh) (auto simp: IP_WINDOW_SECONDS_def)
  finally show ?thesis by (simp add: IP_HARD_LIMIT_PER_HOUR_def)
qed

theorem ip_quota_exact_witness:
  "spaced_runs tick
     (map (\<lambda>r. (fst r, enforceIpRateLimit in_memory_counters None (snd r)))
       [(0, Some ''2001:db8:0:1::7''), (5, Some ''2001:db8:0:1::8'')]) \<lparr>clock = 0, counter_entries = []\<rparr> =
   [True, True]"
proof -
  have "spaced_runs tick
      (map (\<lambda>r. (fst r, enforceIpRateLimit in_memory_counters None (snd r)))
        ((0, Some ''2001:db8:0:1::7'') # [(5, Some ''2001:db8:0:1::8'')])) \<lparr>clock = 0, counter_entries = []\<rparr> =
    map (\<lambda>i. i < 10) [0..<Suc (length [(5::int, Some ''2001:db8:0:1::8'')])]"
  proof (rule ip_quota_exact [where bucket = "''2001:db8:0:1::/64''"])
    show "\<forall>(d, ip) \<in> set ((0, Some ''2001:db8:0:1::7'') # [(5::int, Some ''2001:db8:0:1::8'')]).
        0 \<le> d \<and> normalizeIp ip = ''2001:db8:0:1::/64''"
      by code_simp
  qed (simp_all add: mem_count_def)
  then show ?thesis by (simp add: upt_rec)
qed

end
