(* ===== verification/Anon_Token.thy ===== *)
theory Anon_Token
  imports Counter_Store
begin

section \<open>Anonymous reporting tokens (\<open>abuse/anon-token.ts\<close>, \<open>abuse/honeypot.ts\<close>, \<open>abuse/gps-sanity.ts\<close>)\<close>

text \<open>
  The wire form of a token is its id, a dot and the HMAC of the id.  HMAC-SHA256 is node's, so
  \<open>hmac tokenId signingKey\<close> is a parameter of the model; the table of token rows is reached through the
  operations \<open>ats_insert\<close> and \<open>ats_findById\<close> of \<open>AnonTokenStore\<close>, whose contract is the locale
  \<open>anon_token_store\<close>.
\<close>

subsection \<open>Constant-time comparison (\<open>auth/crypto.ts\<close>)\<close>

definition constantTimeStringEqual :: "string \<Rightarrow> string \<Rightarrow> bool" where
  "constantTimeStringEqual a b = (if length a \<noteq> length b then False else list_all2 (=) a b)"

lemma constantTimeStringEqual_iff [simp]: "constantTimeStringEqual a b \<longleftrightarrow> a = b"
  by (auto simp: constantTimeStringEqual_def list.rel_eq)

subsection \<open>Signing and verifying\<close>

definition ANON_TOKEN_TTL_SECONDS :: int where
  "ANON_TOKEN_TTL_SECONDS = 24 * 60 * 60"

definition ANON_TOKEN_REPORT_CAP :: int where
  "ANON_TOKEN_REPORT_CAP = 5"

definition ANON_REPORT_CAP_MESSAGE :: string where
  "ANON_REPORT_CAP_MESSAGE = ''This anonymous session has reached its report limit. Sign in to continue.''"

abbreviation TOKEN_SEP :: char where
  "TOKEN_SEP \<equiv> CHR ''.''"

definition signAnonToken :: "(string \<Rightarrow> string \<Rightarrow> string) \<Rightarrow> string \<Rightarrow> string \<Rightarrow> string" where
  "signAnonToken hmac tokenId signingKey = tokenId @ [TOKEN_SEP] @ hmac tokenId signingKey"

definition verifyAnonTokenSignature ::
  "(string \<Rightarrow> string \<Rightarrow> string) \<Rightarrow> string \<Rightarrow> string \<Rightarrow> string option" where
  "verifyAnonTokenSignature hmac token signingKey =
     (case indexOf TOKEN_SEP token of
        None \<Rightarrow> None
      | Some idx \<Rightarrow>
          if idx = 0 \<or> idx = length token - 1 then None
          else let tokenId = take idx token;
                   sig = drop (idx + 1) token;
                   expected = hmac tokenId signingKey
               in if constantTimeStringEqual sig expected then Some tokenId else None)"

subsection \<open>Rows, issuing, resolving\<close>

record anon_token_record =
  at_id :: string
  at_createdAt :: int
  at_expiresAt :: int
  at_reportCount :: int
  at_flagged :: bool
  at_claimCode :: "string option"

record 'w anon_token_store_ops =
  ats_insert :: "anon_token_record \<Rightarrow> ('w, unit) prog"
  ats_findById :: "string \<Rightarrow> ('w, anon_token_record option) prog"

record 'w anon_token_deps =
  atd_store :: "'w anon_token_store_ops"
  atd_signingKey :: string
  atd_newId :: "('w, string) prog"
  atd_now :: "('w, int) prog"

definition issueAnonToken ::
  "(string \<Rightarrow> string \<Rightarrow> string) \<Rightarrow> 'w anon_token_deps \<Rightarrow> ('w, string \<times> anon_token_record) prog" where
  "issueAnonToken hmac deps =
     seq (atd_now deps) (\<lambda>at.
     seq (atd_newId deps) (\<lambda>newId.
     (let record = \<lparr>at_id = newId, at_createdAt = at,
                    at_expiresAt = at + ANON_TOKEN_TTL_SECONDS * 1000,
                    at_reportCount = 0, at_flagged = False, at_claimCode = None\<rparr>
      in seq (ats_insert (atd_store deps) record) (\<lambda>_.
         ret (signAnonToken hmac (at_id record) (atd_signingKey deps), record)))))"

definition resolveAnonToken ::
  "(string \<Rightarrow> string \<Rightarrow> string) \<Rightarrow> string option \<Rightarrow> 'w anon_token_deps \<Rightarrow>
   ('w, anon_token_record option) prog" where
  "resolveAnonToken hmac token deps =
     (case token of
        None \<Rightarrow> ret None
      | Some t \<Rightarrow>
          if t = [] then ret None
          else case verifyAnonTokenSignature hmac t (atd_signingKey deps) of
                 None \<Rightarrow> ret None
               | Some tokenId \<Rightarrow>
                   seq (ats_findById (atd_store deps) tokenId) (\<lambda>row.
                   case row of
                     None \<Rightarrow> ret None
                   | Some r \<Rightarrow> seq (atd_now deps) (\<lambda>now.
                       ret (if at_expiresAt r \<le> now then None else Some r))))"

definition assertUnderReportCap :: "anon_token_record \<Rightarrow> int \<Rightarrow> app_error + int" where
  "assertUnderReportCap row cap =
     (if at_reportCount row \<ge> cap then Inl (RateLimited (Some ANON_REPORT_CAP_MESSAGE))
      else Inr (cap - at_reportCount row))"

definition ensureAnonToken ::
  "(string \<Rightarrow> string \<Rightarrow> string) \<Rightarrow> anon_token_record option \<Rightarrow> 'w anon_token_deps \<Rightarrow>
   ('w, anon_token_record \<times> string option) prog" where
  "ensureAnonToken hmac existing deps =
     (case existing of
        Some row \<Rightarrow>
          (case assertUnderReportCap row ANON_TOKEN_REPORT_CAP of
             Inl e \<Rightarrow> raise e
           | Inr _ \<Rightarrow> ret (row, None))
      | None \<Rightarrow> seq (issueAnonToken hmac deps) (\<lambda>(token, row). ret (row, Some token)))"

definition resolveOrIssueAnonToken ::
  "(string \<Rightarrow> string \<Rightarrow> string) \<Rightarrow> string option \<Rightarrow> 'w anon_token_deps \<Rightarrow>
   ('w, anon_token_record \<times> string option) prog" where
  "resolveOrIssueAnonToken hmac presented deps =
     seq (resolveAnonToken hmac presented deps) (\<lambda>row. ensureAnonToken hmac row deps)"

definition honeypotTripped :: "string option \<Rightarrow> bool" where
  "honeypotTripped honeypot = (case honeypot of None \<Rightarrow> False | Some h \<Rightarrow> trim h \<noteq> [])"

text \<open>
  The coarse location check: \<open>gpsPlausible\<close> is the \<open>AbuseChecks\<close> seam.
\<close>

datatype gps_reason = NoSignal | Plausible | Implausible

definition gpsSanityCheck ::
  "('p \<Rightarrow> 'p \<Rightarrow> ('w, bool) prog) \<Rightarrow> 'p \<Rightarrow> 'p option \<Rightarrow> ('w, bool \<times> gps_reason) prog" where
  "gpsSanityCheck gpsPlausible point ipGeo =
     (case ipGeo of
        None \<Rightarrow> ret (True, NoSignal)
      | Some geo \<Rightarrow> seq (gpsPlausible point geo) (\<lambda>plausible.
          ret (plausible, if plausible then Plausible else Implausible)))"

subsection \<open>What verification accepts\<close>

lemma verify_iff:
  "verifyAnonTokenSignature hmac token key = Some tokenId \<longleftrightarrow>
     token = signAnonToken hmac tokenId key \<and>
     tokenId \<noteq> [] \<and> TOKEN_SEP \<notin> set tokenId \<and> hmac tokenId key \<noteq> []"
  (is "?l \<longleftrightarrow> ?r")
proof
  assume ?l
  then obtain idx where idx: "indexOf TOKEN_SEP token = Some idx" and ne: "idx \<noteq> 0" "idx \<noteq> length token - 1"
    and id: "tokenId = take idx token" and sig: "drop (idx + 1) token = hmac tokenId key"
    by (auto simp: verifyAnonTokenSignature_def Let_def split: option.splits if_splits)
  from indexOf_Some [OF idx] have b: "idx < length token" "token ! idx = TOKEN_SEP" "TOKEN_SEP \<notin> set (take idx token)"
    by auto
  have "token = take idx token @ token ! idx # drop (Suc idx) token"
    using b(1) by (rule id_take_nth_drop)
  then have "token = signAnonToken hmac tokenId key"
    using b(2) id sig by (simp add: signAnonToken_def)
  moreover have "tokenId \<noteq> []" using id ne b(1) by auto
  moreover have "hmac tokenId key \<noteq> []" using sig ne b(1) by (auto simp flip: sig)
  moreover have "TOKEN_SEP \<notin> set tokenId" using b(3) id by simp
  ultimately show ?r by blast
next
  assume ?r
  then show ?l
    by (simp add: verifyAnonTokenSignature_def signAnonToken_def indexOf_append Let_def)
qed

text \<open>
  a presented anonymous token verifies exactly when it is the wire form this service signs for that
  id: the id is not empty and has no separator, and what follows the separator is the HMAC of the id.  So
  a signed token is accepted back with its id, and nothing else is.
\<close>

theorem anon_token_verifies_iff:
  "verifyAnonTokenSignature hmac token key = Some tokenId \<longleftrightarrow>
     token = signAnonToken hmac tokenId key \<and>
     tokenId \<noteq> [] \<and> TOKEN_SEP \<notin> set tokenId \<and> hmac tokenId key \<noteq> []"
  by (rule verify_iff)

subsection \<open>The token table (\<open>services/anon-repository.drizzle.ts\<close>)\<close>

text \<open>
  The rows of \<open>anon_tokens\<close>, with the primary key \<open>id\<close>: an insert of a present id is Postgres' unique
  violation.
\<close>

record anon_token_world = counter_world +
  anon_tokens :: "anon_token_record list"

definition anon_token_row :: "'w anon_token_world_scheme \<Rightarrow> string \<Rightarrow> anon_token_record option" where
  "anon_token_row w i = find (\<lambda>r. at_id r = i) (anon_tokens w)"

definition anon_token_insert :: "anon_token_record \<Rightarrow> ('w anon_token_world_scheme, unit) prog" where
  "anon_token_insert row = (\<lambda>w.
     if anon_token_row w (at_id row) \<noteq> None then (Inl UniqueViolation, w)
     else (Inr (), w\<lparr>anon_tokens := anon_tokens w @ [row]\<rparr>))"

definition anon_token_findById :: "string \<Rightarrow> ('w anon_token_world_scheme, anon_token_record option) prog" where
  "anon_token_findById i = reads (\<lambda>w. anon_token_row w i)"

definition anonTokenStore :: "'w anon_token_world_scheme anon_token_store_ops" where
  "anonTokenStore = \<lparr>ats_insert = anon_token_insert, ats_findById = anon_token_findById\<rparr>"

definition anon_token_table_deps ::
  "string \<Rightarrow> ('w anon_token_world_scheme, string) prog \<Rightarrow> 'w anon_token_world_scheme anon_token_deps" where
  "anon_token_table_deps key newId =
     \<lparr>atd_store = anonTokenStore, atd_signingKey = key, atd_newId = newId, atd_now = reads clock\<rparr>"

subsection \<open>The contract of the store\<close>

locale anon_token_store =
  fixes deps :: "'w anon_token_deps"
    and rows :: "'w \<Rightarrow> string \<Rightarrow> anon_token_record option"
    and now :: "'w \<Rightarrow> int"
    and hmac :: "string \<Rightarrow> string \<Rightarrow> string"
  assumes find_law: "ats_findById (atd_store deps) i w = (Inr (rows w i), w)"
    and insert_result: "rows w (at_id r) = None \<Longrightarrow> fst (ats_insert (atd_store deps) r w) = Inr ()"
    and insert_rows: "rows w (at_id r) = None \<Longrightarrow>
      rows (snd (ats_insert (atd_store deps) r w)) = (rows w)(at_id r \<mapsto> r)"
    and insert_now: "now (snd (ats_insert (atd_store deps) r w)) = now w"
    and now_law: "atd_now deps w = (Inr (now w), w)"
    and rows_id: "rows w i = Some r \<Longrightarrow> at_id r = i"
begin

text \<open>Only a live row of an authentic token is resolved, and resolving changes nothing.\<close>

lemma resolve_result:
  "resolveAnonToken hmac (Some t) deps w = (Inr (case verifyAnonTokenSignature hmac t (atd_signingKey deps) of
      None \<Rightarrow> None
    | Some i \<Rightarrow> (case rows w i of None \<Rightarrow> None | Some r \<Rightarrow> if at_expiresAt r \<le> now w then None else Some r)), w)"
proof (cases "t = []")
  case True
  then show ?thesis
    by (simp add: resolveAnonToken_def verifyAnonTokenSignature_def prog_simps)
next
  case False
  then show ?thesis
    by (simp add: resolveAnonToken_def prog_simps find_law now_law split: option.split)
qed

lemma resolve_authentic:
  assumes "fst (resolveAnonToken hmac (Some t) deps w) = Inr (Some r)"
  shows "t = signAnonToken hmac (at_id r) (atd_signingKey deps) \<and> rows w (at_id r) = Some r \<and> now w < at_expiresAt r"
  using assms
  by (auto simp: resolve_result verify_iff rows_id split: option.splits if_splits)

text \<open>A freshly issued token resolves to its own row until it expires.\<close>

lemma issue_then_resolve:
  assumes newId: "atd_newId deps w = (Inr i, w)" and fresh: "rows w i = None"
    and "i \<noteq> []" "TOKEN_SEP \<notin> set i" "hmac i (atd_signingKey deps) \<noteq> []"
  shows "\<exists>t r w'. issueAnonToken hmac deps w = (Inr (t, r), w') \<and> at_id r = i \<and> at_reportCount r = 0 \<and>
    fst (resolveAnonToken hmac (Some t) deps w') = Inr (Some r)"
proof -
  let ?r = "\<lparr>at_id = i, at_createdAt = now w, at_expiresAt = now w + ANON_TOKEN_TTL_SECONDS * 1000,
    at_reportCount = 0, at_flagged = False, at_claimCode = None\<rparr>"
  let ?t = "signAnonToken hmac i (atd_signingKey deps)"
  let ?w = "snd (ats_insert (atd_store deps) ?r w)"
  have issued: "issueAnonToken hmac deps w = (Inr (?t, ?r), ?w)"
    using newId fresh by (simp add: issueAnonToken_def prog_simps now_law insert_result Let_def)
  have "verifyAnonTokenSignature hmac ?t (atd_signingKey deps) = Some i"
    using assms(3-5) by (simp add: verify_iff)
  moreover have "rows ?w i = Some ?r" using fresh by (simp add: insert_rows)
  ultimately have "fst (resolveAnonToken hmac (Some ?t) deps ?w) = Inr (Some ?r)"
    by (simp add: resolve_result insert_now ANON_TOKEN_TTL_SECONDS_def)
  with issued show ?thesis by auto
qed

end

interpretation token_table: anon_token_store "anon_token_table_deps key newId" anon_token_row clock hmac
  for key newId hmac
proof (unfold_locales, goal_cases)
  case (3 w r)
  then show ?case
    by (auto simp: anon_token_table_deps_def anonTokenStore_def anon_token_insert_def
        anon_token_row_def find_snoc fun_eq_iff split: option.splits)
next
  case (6 w i r)
  then show ?case by (auto simp: anon_token_row_def dest: find_SomeD)
qed (auto simp: anon_token_table_deps_def anonTokenStore_def anon_token_insert_def
       anon_token_findById_def prog_simps)

text \<open>
  The cap: a presented row is used while it has filed fewer reports than the cap, with the rest of the
  budget reported, and refused from then on.
\<close>

lemma assertUnderReportCap_iff:
  "assertUnderReportCap row cap = Inr remaining \<longleftrightarrow>
     at_reportCount row < cap \<and> remaining = cap - at_reportCount row"
  by (auto simp: assertUnderReportCap_def)

lemma ensureAnonToken_capped:
  "fst (ensureAnonToken hmac (Some row) deps w) =
     (if at_reportCount row < ANON_TOKEN_REPORT_CAP then Inr (row, None)
      else Inl (RateLimited (Some ANON_REPORT_CAP_MESSAGE)))"
  by (simp add: ensureAnonToken_def assertUnderReportCap_def prog_simps)

end
