(* ===== verification/Otp_Service.thy ===== *)
theory Otp_Service
  imports Auth_Stores Ip_Buckets Anon_Token
begin

section \<open>One-time codes (\<open>auth/otp.ts\<close>)\<close>

text \<open>
  Issuing and verifying the e-mailed sign-in codes, with the per-network and per-address throttles, the
  attempt caps, the reviewer and test accounts, and the rule that an inbox owner is never signed into an
  account another identity may hold.  Argon2 (\<open>od_hashOtpCode\<close>, \<open>od_verifyOtpCode\<close>), the mailer, the
  random digits and the audit sink are parameters; log lines are left out.
\<close>

subsection \<open>Constants and dependencies\<close>

definition OTP_CODE_LENGTH :: nat where "OTP_CODE_LENGTH = 6"
definition OTP_TTL_SECONDS :: int where "OTP_TTL_SECONDS = 5 * 60"
definition OTP_MAX_ATTEMPTS :: int where "OTP_MAX_ATTEMPTS = 3"
definition OTP_EMAIL_WINDOW_SECONDS :: int where "OTP_EMAIL_WINDOW_SECONDS = 60"
definition OTP_IP_WINDOW_SECONDS :: int where "OTP_IP_WINDOW_SECONDS = 60 * 60"
definition OTP_IP_MAX_PER_WINDOW :: int where "OTP_IP_MAX_PER_WINDOW = 10"
definition OTP_VERIFY_FAIL_WINDOW_SECONDS :: int where "OTP_VERIFY_FAIL_WINDOW_SECONDS = 15 * 60"
definition OTP_VERIFY_CODE_FAIL_MAX :: int where "OTP_VERIFY_CODE_FAIL_MAX = 5"
definition OTP_VERIFY_IP_FAIL_MAX :: int where "OTP_VERIFY_IP_FAIL_MAX = 30"

definition UNNAMED_CITIZEN_DISPLAY_NAME :: string where "UNNAMED_CITIZEN_DISPLAY_NAME = ''citizen''"
definition INVALID_CODE_MESSAGE :: string where "INVALID_CODE_MESSAGE = ''Invalid or expired code.''"
definition TOO_MANY_INCORRECT_MESSAGE :: string where
  "TOO_MANY_INCORRECT_MESSAGE = ''Too many incorrect attempts. Request a new code.''"
definition OTP_REFUSED_UNVERIFIED_ACCOUNT_ACTION :: string where
  "OTP_REFUSED_UNVERIFIED_ACCOUNT_ACTION = ''auth.otp_refused_unverified_account''"
definition OTP_REFUSED_UNVERIFIED_ACCOUNT_REASON :: string where
  "OTP_REFUSED_UNVERIFIED_ACCOUNT_REASON = ''email_unverified_with_provider_identity''"
definition REVIEWER_HANDLE :: string where "REVIEWER_HANDLE = ''reviewer''"
definition REVIEWER_DISPLAY_NAME :: string where "REVIEWER_DISPLAY_NAME = ''Reviewer Reviewer''"

definition unverifiedAccountNeedsReviewMessage :: "string option \<Rightarrow> string" where
  "unverifiedAccountNeedsReviewMessage supportEmail =
     ''This email address is linked to an account that needs a quick check before you can sign in. '' @
     (case supportEmail of None \<Rightarrow> ''Contact support'' | Some e \<Rightarrow> ''Contact support at '' @ e) @
     '' and we'll sort it out.''"

datatype inbox_proof = Reviewer | TestAccount | Code

record audit_input =
  au_actorId :: "string option"
  au_action :: string
  au_target :: string
  au_meta :: "(string \<times> string) list"

record 'w otp_deps =
  od_store :: "'w otp_store"
  od_users :: "'w user_store"
  od_hasIdentityForUser :: "string \<Rightarrow> ('w, bool) prog"
  od_cache :: "'w cache_client"
  od_sendOtp :: "string \<Rightarrow> string \<Rightarrow> string option \<Rightarrow> ('w, unit) prog"
  od_now :: "'w \<Rightarrow> int"
  od_reviewer :: "(string \<times> string) option"
  od_testAccounts :: "(string list \<times> string) option"
  od_supportEmail :: "string option"
  od_audit :: "(audit_input \<Rightarrow> ('w, unit) prog) option"
  od_randomIntBelow :: "nat \<Rightarrow> ('w, nat) prog"
  od_hashOtpCode :: "string \<Rightarrow> ('w, string) prog"
  od_verifyOtpCode :: "string \<Rightarrow> string \<Rightarrow> bool"
  od_handle_ok :: "string \<Rightarrow> bool"
  od_handle_max :: nat
  od_loop_bound :: nat

fun generateNumericCode :: "(nat \<Rightarrow> ('w, nat) prog) \<Rightarrow> nat \<Rightarrow> ('w, string) prog" where
  "generateNumericCode rnd 0 = ret []"
| "generateNumericCode rnd (Suc n) =
     seq (generateNumericCode rnd n) (\<lambda>out. seq (rnd 10) (\<lambda>d. ret (out @ string_of_nat d)))"

definition normalizeEmail :: "string \<Rightarrow> string" where
  "normalizeEmail email = toLowerCase (trim email)"

definition emailCooldownKey :: "string \<Rightarrow> string" where
  "emailCooldownKey e = ''otp:rl:email:'' @ e"

definition issueIpKey :: "string \<Rightarrow> string" where
  "issueIpKey ip = ''otp:rl:ip:'' @ ip"

definition codeFailKey :: "string \<Rightarrow> string" where
  "codeFailKey codeId = ''otp:vf:code:'' @ codeId"

definition ipFailKey :: "string \<Rightarrow> string" where
  "ipFailKey ip = ''otp:vf:ip:'' @ ip"

definition defaultDisplayName :: "string \<Rightarrow> string" where
  "defaultDisplayName email =
     (let local = (case indexOf (CHR ''@'') email of
                     Some at \<Rightarrow> if at > 0 then take at email else email
                   | None \<Rightarrow> email)
      in if local \<noteq> [] then local else UNNAMED_CITIZEN_DISPLAY_NAME)"

text \<open>\<open>x > k\<close> on a counter that may be \<open>NaN\<close>.\<close>

definition exceeds :: "int option \<Rightarrow> int \<Rightarrow> bool" where
  "exceeds x k \<longleftrightarrow> (case x of None \<Rightarrow> False | Some n \<Rightarrow> n > k)"

definition isReviewerEmail :: "'w otp_deps \<Rightarrow> string \<Rightarrow> bool" where
  "isReviewerEmail D e \<longleftrightarrow> (case od_reviewer D of None \<Rightarrow> False | Some (r, _) \<Rightarrow> e = normalizeEmail r)"

definition isTestAccountEmail :: "'w otp_deps \<Rightarrow> string \<Rightarrow> bool" where
  "isTestAccountEmail D e \<longleftrightarrow>
     (case od_testAccounts D of None \<Rightarrow> False | Some (es, _) \<Rightarrow> e \<in> set (map normalizeEmail es))"

subsection \<open>Issuing\<close>

definition issueOtp :: "'w otp_deps \<Rightarrow> string \<Rightarrow> string option \<Rightarrow> ('w, int) prog" where
  "issueOtp D email ip =
     (let normalized = normalizeEmail email in
      if isReviewerEmail D normalized \<or> isTestAccountEmail D normalized
      then ret OTP_EMAIL_WINDOW_SECONDS
      else
        seq (case ip of
               None \<Rightarrow> ret ()
             | Some raw \<Rightarrow>
                 seq (cc_incr (od_cache D) (issueIpKey (normalizeIp (Some raw))) OTP_IP_WINDOW_SECONDS) (\<lambda>ipHits.
                 guard (\<not> exceeds ipHits OTP_IP_MAX_PER_WINDOW)
                   (RateLimited (Some ''Too many code requests from this network.'')))) (\<lambda>_.
        seq (cc_incr (od_cache D) (emailCooldownKey normalized) OTP_EMAIL_WINDOW_SECONDS) (\<lambda>emailHits.
        if exceeds emailHits 1 then raise (RateLimited (Some ''Please wait before requesting another code.''))
        else
          seq (recover
                (seq (os_invalidateActiveForEmail (od_store D) normalized) (\<lambda>_.
                 seq (generateNumericCode (od_randomIntBelow D) OTP_CODE_LENGTH) (\<lambda>code.
                 seq (od_hashOtpCode D code) (\<lambda>codeHash.
                 seq (reads (od_now D)) (\<lambda>now.
                 seq (os_insert (od_store D) normalized codeHash (now + OTP_TTL_SECONDS * 1000)) (\<lambda>_.
                 seq (us_findByEmail (od_users D) normalized) (\<lambda>account.
                 od_sendOtp D normalized code (map_option u_locale account))))))))
                (\<lambda>err.
                 seq (if emailHits = Some 1
                      then recover (cc_del (od_cache D) (emailCooldownKey normalized)) (\<lambda>_. ret ())
                      else ret ()) (\<lambda>_.
                 raise err))) (\<lambda>_.
          ret OTP_EMAIL_WINDOW_SECONDS))))"

subsection \<open>Proving the inbox\<close>

definition readCounter :: "'w otp_deps \<Rightarrow> string \<Rightarrow> ('w, int) prog" where
  "readCounter D key =
     seq (cc_get (od_cache D) key) (\<lambda>raw.
     ret (case raw of None \<Rightarrow> 0 | Some v \<Rightarrow> or_else (value_int v) 0))"

definition ipThrottleTripped :: "'w otp_deps \<Rightarrow> string option \<Rightarrow> ('w, bool) prog" where
  "ipThrottleTripped D ip =
     (case ip of
        None \<Rightarrow> ret False
      | Some bucket \<Rightarrow>
          if bucket = [] then ret False
          else seq (readCounter D (ipFailKey bucket)) (\<lambda>n. ret (n \<ge> OTP_VERIFY_IP_FAIL_MAX)))"

definition bumpVerifyFailure :: "'w otp_deps \<Rightarrow> string option \<Rightarrow> string option \<Rightarrow> ('w, unit) prog" where
  "bumpVerifyFailure D codeId ip =
     seq (case codeId of
            None \<Rightarrow> ret ()
          | Some i \<Rightarrow> seq (cc_incr (od_cache D) (codeFailKey i) OTP_VERIFY_FAIL_WINDOW_SECONDS) (\<lambda>_. ret ())) (\<lambda>_.
     case ip of
       None \<Rightarrow> ret ()
     | Some bucket \<Rightarrow>
         if bucket = [] then ret ()
         else seq (cc_incr (od_cache D) (ipFailKey bucket) OTP_VERIFY_FAIL_WINDOW_SECONDS) (\<lambda>_. ret ()))"

definition consumeCode :: "'w otp_deps \<Rightarrow> string \<Rightarrow> string \<Rightarrow> string option \<Rightarrow> int \<Rightarrow> ('w, unit) prog" where
  "consumeCode D normalized code ipBucket now =
     seq (os_findLatestActive (od_store D) normalized now) (\<lambda>found.
     case found of
       None \<Rightarrow>
         seq (bumpVerifyFailure D None ipBucket) (\<lambda>_. raise (Unauthorized (Some INVALID_CODE_MESSAGE)))
     | Some record \<Rightarrow>
         seq (readCounter D (codeFailKey (otp_id record))) (\<lambda>fails.
         if fails \<ge> OTP_VERIFY_CODE_FAIL_MAX
         then
           seq (os_markConsumed (od_store D) (otp_id record) now) (\<lambda>_.
           raise (Unauthorized (Some TOO_MANY_INCORRECT_MESSAGE)))
         else
           seq (os_incrementAttempts (od_store D) (otp_id record)) (\<lambda>attempts.
           if attempts > OTP_MAX_ATTEMPTS
           then
             seq (os_markConsumed (od_store D) (otp_id record) now) (\<lambda>_.
             seq (bumpVerifyFailure D (Some (otp_id record)) ipBucket) (\<lambda>_.
             raise (Unauthorized (Some TOO_MANY_INCORRECT_MESSAGE))))
           else if \<not> od_verifyOtpCode D (otp_codeHash record) code
           then
             seq (if attempts \<ge> OTP_MAX_ATTEMPTS
                  then seq (os_markConsumed (od_store D) (otp_id record) now) (\<lambda>_. ret ())
                  else ret ()) (\<lambda>_.
             seq (bumpVerifyFailure D (Some (otp_id record)) ipBucket) (\<lambda>_.
             raise (Unauthorized (Some INVALID_CODE_MESSAGE))))
           else
             seq (os_markConsumed (od_store D) (otp_id record) now) (\<lambda>claimed.
             if \<not> claimed then raise (Unauthorized (Some INVALID_CODE_MESSAGE))
             else recover (cc_del (od_cache D) (emailCooldownKey normalized)) (\<lambda>_. ret ())))))"

definition proveInbox :: "'w otp_deps \<Rightarrow> string \<Rightarrow> string \<Rightarrow> string option \<Rightarrow> ('w, inbox_proof) prog" where
  "proveInbox D normalized code ip =
     seq (reads (od_now D)) (\<lambda>now.
     (let ipBucket = map_option (\<lambda>i. normalizeIp (Some i)) ip;
          refused = seq (bumpVerifyFailure D None ipBucket) (\<lambda>_. raise (Unauthorized (Some INVALID_CODE_MESSAGE)))
      in
     seq (ipThrottleTripped D ipBucket) (\<lambda>tripped.
     if tripped then raise (Unauthorized (Some ''Too many attempts. Try again later.''))
     else if isReviewerEmail D normalized
     then
       (if (case od_reviewer D of None \<Rightarrow> False | Some (_, secret) \<Rightarrow> constantTimeStringEqual code secret)
        then ret Reviewer else refused)
     else if isTestAccountEmail D normalized
     then
       (if (case od_testAccounts D of None \<Rightarrow> False | Some (_, secret) \<Rightarrow> constantTimeStringEqual code secret)
        then
          seq (us_findByEmail (od_users D) normalized) (\<lambda>account.
          if (case account of None \<Rightarrow> True | Some a \<Rightarrow> u_role a = ''citizen'') then ret TestAccount else refused)
        else refused)
     else seq (consumeCode D normalized code ipBucket now) (\<lambda>_. ret Code))))"

subsection \<open>Accounts\<close>

definition refuseUnverifiedIdentityHolder :: "'w otp_deps \<Rightarrow> user_record \<Rightarrow> ('w, unit) prog" where
  "refuseUnverifiedIdentityHolder D account =
     (if u_emailVerified account then ret ()
      else
        seq (od_hasIdentityForUser D (u_id account)) (\<lambda>has.
        if \<not> has then ret ()
        else
          seq (case od_audit D of
                 None \<Rightarrow> ret ()
               | Some audit \<Rightarrow>
                   recover (audit
                     \<lparr>au_actorId = None, au_action = OTP_REFUSED_UNVERIFIED_ACCOUNT_ACTION,
                      au_target = ''user:'' @ u_id account,
                      au_meta = [(''reason'', OTP_REFUSED_UNVERIFIED_ACCOUNT_REASON)]\<rparr>) (\<lambda>_. ret ())) (\<lambda>_.
          raise (ConflictErr (Some (unverifiedAccountNeedsReviewMessage (od_supportEmail D)))))))"

definition citizen_input :: "string \<Rightarrow> string option \<Rightarrow> bool option \<Rightarrow> create_user_input" where
  "citizen_input displayName handle profileComplete =
     \<lparr>cu_displayName = displayName, cu_role = Some ''citizen'', cu_emailVerified = Some True,
      cu_avatarUrl = None, cu_handle = handle, cu_profileComplete = profileComplete,
      cu_onEmailConflict = None\<rparr>"

definition ensureReviewerUser :: "'w otp_deps \<Rightarrow> string \<Rightarrow> ('w, string) prog" where
  "ensureReviewerUser D normalizedEmail =
     seq (us_findByEmail (od_users D) normalizedEmail) (\<lambda>existing.
     case existing of
       Some u \<Rightarrow> ret (u_id u)
     | None \<Rightarrow>
         seq (us_create (od_users D) (Some normalizedEmail)
                (citizen_input REVIEWER_DISPLAY_NAME (Some REVIEWER_HANDLE) (Some True))) (\<lambda>created.
         ret (u_id created)))"

definition is_lower :: "char \<Rightarrow> bool" where
  "is_lower c \<longleftrightarrow> 97 \<le> (of_char c :: nat) \<and> (of_char c :: nat) \<le> 122"

text \<open>
  The candidate handles of a test account: the base, then the base with a numbered suffix.  A negative end
  of \<open>slice\<close> counts from the end of the string.  The search has no bound in the source; \<open>od_loop_bound\<close> is
  fuel, and running out of it is the value \<^const>\<open>None\<close> of the loop.
\<close>

definition handle_base :: "'w otp_deps \<Rightarrow> string \<Rightarrow> string" where
  "handle_base D normalizedEmail =
     take (od_handle_max D)
       (map (\<lambda>c. if is_lower c \<or> is_digit c \<or> c = CHR ''_'' then c else CHR ''_'')
         (toLowerCase (defaultDisplayName normalizedEmail)))"

definition handle_candidate :: "nat \<Rightarrow> string \<Rightarrow> nat \<Rightarrow> string" where
  "handle_candidate maxLength base n =
     (let suffix = (if n = 1 then [] else CHR ''_'' # string_of_nat n)
      in (if length suffix \<le> maxLength then take (maxLength - length suffix) base
          else take (length base - (length suffix - maxLength)) base) @ suffix)"

fun free_handle_loop :: "'w otp_deps \<Rightarrow> string \<Rightarrow> nat \<Rightarrow> nat \<Rightarrow> ('w, string option) prog" where
  "free_handle_loop D base n 0 = ret None"
| "free_handle_loop D base n (Suc fuel) =
     (let handle = handle_candidate (od_handle_max D) base n in
      if \<not> od_handle_ok D handle \<or> isReservedHandle handle then free_handle_loop D base (Suc n) fuel
      else
        seq (us_findByHandle (od_users D) handle) (\<lambda>taken.
        case taken of
          None \<Rightarrow> ret (Some handle)
        | Some _ \<Rightarrow> free_handle_loop D base (Suc n) fuel))"

definition freeTestAccountHandle :: "'w otp_deps \<Rightarrow> string \<Rightarrow> ('w, string option) prog" where
  "freeTestAccountHandle D normalizedEmail =
     free_handle_loop D (handle_base D normalizedEmail) 1 (od_loop_bound D)"

definition ensureTestAccountUser :: "'w otp_deps \<Rightarrow> string \<Rightarrow> ('w, string) prog" where
  "ensureTestAccountUser D normalizedEmail =
     seq (us_findByEmail (od_users D) normalizedEmail) (\<lambda>existing.
     case existing of
       Some u \<Rightarrow> ret (u_id u)
     | None \<Rightarrow>
         seq (freeTestAccountHandle D normalizedEmail) (\<lambda>handle.
         case handle of
           None \<Rightarrow> raise (PlainError ''freeTestAccountHandle: out of fuel'')
         | Some h \<Rightarrow>
             seq (us_create (od_users D) (Some normalizedEmail)
                    (citizen_input (newAccountDisplayName (defaultDisplayName normalizedEmail)
                       UNNAMED_CITIZEN_DISPLAY_NAME) (Some h) (Some False))) (\<lambda>created.
             ret (u_id created))))"

definition verifyOtp :: "'w otp_deps \<Rightarrow> string \<Rightarrow> string \<Rightarrow> string option \<Rightarrow> ('w, string) prog" where
  "verifyOtp D email code ip =
     (let normalized = normalizeEmail email in
      seq (proveInbox D normalized code ip) (\<lambda>proof.
      case proof of
        Reviewer \<Rightarrow> ensureReviewerUser D normalized
      | TestAccount \<Rightarrow> ensureTestAccountUser D normalized
      | Code \<Rightarrow>
          seq (us_findByEmail (od_users D) normalized) (\<lambda>existing.
          case existing of
            Some u \<Rightarrow> seq (refuseUnverifiedIdentityHolder D u) (\<lambda>_. ret (u_id u))
          | None \<Rightarrow>
              seq (us_create (od_users D) (Some normalized)
                     (citizen_input (newAccountDisplayName (defaultDisplayName normalized)
                        UNNAMED_CITIZEN_DISPLAY_NAME) None None)) (\<lambda>created.
              ret (u_id created)))))"

definition verifyOtpForExistingAccount ::
  "'w otp_deps \<Rightarrow> string \<Rightarrow> string \<Rightarrow> string option \<Rightarrow> ('w, string option) prog" where
  "verifyOtpForExistingAccount D email code ip =
     (let normalized = normalizeEmail email in
      seq (proveInbox D normalized code ip) (\<lambda>proof.
      if proof = Reviewer then seq (ensureReviewerUser D normalized) (\<lambda>i. ret (Some i))
      else seq (us_findByEmail (od_users D) normalized) (\<lambda>u. ret (map_option u_id u))))"

end
