(* ===== verification/Otp_Laws.thy ===== *)
theory Otp_Laws
  imports Otp_Service
begin

section \<open>What the one-time codes guarantee\<close>

text \<open>
  The contract of the code store (a table of rows) and of the cache, the verdict of a verification computed
  from them, and the properties: the limit on guesses, single use, the issue/verify round trip and the
  release of the cooldown when the mail fails.
\<close>

subsection \<open>Tables of codes\<close>

lemma latest_active_None:
  "latest_active e t best rows = None \<longleftrightarrow> best = None \<and> (\<forall>r \<in> set rows. \<not> otp_active e t r)"
  by (induction rows arbitrary: best) (auto split: option.split)

lemma latest_active_Some:
  "latest_active e t best rows = Some r \<Longrightarrow> best = Some r \<or> r \<in> set rows \<and> otp_active e t r"
  by (induction rows arbitrary: best) (auto split: if_splits)

lemma latest_active_sole:
  assumes "otp_active e t r" "r \<in> set rows" "\<forall>r' \<in> set rows. same_email e r' \<and> otp_consumedAt r' = None \<longrightarrow> r' = r"
  shows "latest_active e t None rows = Some r"
proof (cases "latest_active e t None rows")
  case None
  with assms(1,2) show ?thesis by (auto simp: latest_active_None)
next
  case (Some r')
  with latest_active_Some [OF Some] assms(3) show ?thesis by (auto simp: otp_active_def)
qed

lemma set_update_first:
  "set (update_first P f rows) \<subseteq> set rows \<union> f ` set rows"
  by (induction rows) auto

lemma map_update_first: "(\<And>r. g (f r) = g r) \<Longrightarrow> map g (update_first P f rows) = map g rows"
  by (induction rows) auto

lemma find_update_first:
  assumes "\<And>r. P (f r) = P r" "distinct (map g rows)" "\<And>r. P r \<longleftrightarrow> g r = i"
  shows "find P (update_first P f rows) = map_option f (find P rows)"
  using assms by (induction rows) auto

text \<open>With distinct ids, an update by id changes exactly the row with that id.\<close>

lemma mem_update_first:
  assumes "distinct (map otp_id rows)" "r \<in> set (update_first (\<lambda>r. otp_id r = i) f rows)" "\<And>r. otp_id (f r) = otp_id r"
  shows "(r \<in> set rows \<and> otp_id r \<noteq> i) \<or> (\<exists>r' \<in> set rows. otp_id r' = i \<and> r = f r')"
  using assms by (induction rows) (auto split: if_splits intro: rev_image_eqI)

definition otp_row_in :: "otp_record list \<Rightarrow> string \<Rightarrow> otp_record option" where
  "otp_row_in rows i = find (\<lambda>r. otp_id r = i) rows"

lemma otp_row_in_mem: "distinct (map otp_id rows) \<Longrightarrow> r \<in> set rows \<Longrightarrow> otp_row_in rows (otp_id r) = Some r"
  unfolding otp_row_in_def by (induction rows) (auto simp: rev_image_eqI)

definition count_attempt :: "string \<Rightarrow> otp_record list \<Rightarrow> otp_record list" where
  "count_attempt i = update_first (\<lambda>r. otp_id r = i) (\<lambda>r. r\<lparr>otp_attempts := otp_attempts r + 1\<rparr>)"

definition consume :: "string \<Rightarrow> int \<Rightarrow> otp_record list \<Rightarrow> otp_record list" where
  "consume i t = update_first (\<lambda>r. otp_id r = i) (\<lambda>r. r\<lparr>otp_consumedAt := Some t\<rparr>)"

lemma ids_updates [simp]:
  "map otp_id (count_attempt i rows) = map otp_id rows" "map otp_id (consume i t rows) = map otp_id rows"
  by (simp_all add: count_attempt_def consume_def map_update_first)

text \<open>All the live codes of an address are one code, tried at least \<open>a\<close> times.\<close>

definition tried :: "string \<Rightarrow> int \<Rightarrow> string \<Rightarrow> int \<Rightarrow> otp_record list \<Rightarrow> bool" where
  "tried e t i a rows \<longleftrightarrow> (\<forall>r \<in> set rows. otp_active e t r \<longrightarrow> otp_id r = i \<and> a \<le> otp_attempts r)"

definition spent :: "string \<Rightarrow> int \<Rightarrow> otp_record list \<Rightarrow> bool" where
  "spent e t rows \<longleftrightarrow> (\<forall>r \<in> set rows. \<not> otp_active e t r)"

lemma otp_active_mono: "otp_active e t' r \<Longrightarrow> t \<le> t' \<Longrightarrow> otp_active e t r"
  by (auto simp: otp_active_def)

lemma tried_mono: "tried e t i a rows \<Longrightarrow> t \<le> t' \<Longrightarrow> tried e t' i a rows"
  by (auto simp: tried_def dest: otp_active_mono)

lemma spent_mono: "spent e t rows \<Longrightarrow> t \<le> t' \<Longrightarrow> spent e t' rows"
  by (auto simp: spent_def dest: otp_active_mono)

lemma spent_tried: "spent e t rows \<Longrightarrow> tried e t i a rows"
  by (simp add: spent_def tried_def)

lemma otp_active_update [simp]:
  "otp_active e t (r\<lparr>otp_attempts := a\<rparr>) = otp_active e t r" "\<not> otp_active e t (r\<lparr>otp_consumedAt := Some x\<rparr>)"
  by (simp_all add: otp_active_def same_email_def)

lemma tried_count:
  "distinct (map otp_id rows) \<Longrightarrow> tried e t i a rows \<Longrightarrow> tried e t i (a + 1) (count_attempt i rows)"
  unfolding tried_def count_attempt_def
  by (auto dest!: mem_update_first [where f = "\<lambda>r. r\<lparr>otp_attempts := otp_attempts r + 1\<rparr>"])

lemma spent_consume:
  "distinct (map otp_id rows) \<Longrightarrow> tried e t i a rows \<Longrightarrow> spent e t (consume i x rows)"
  unfolding tried_def spent_def consume_def
  by (auto dest!: mem_update_first [where f = "\<lambda>r. r\<lparr>otp_consumedAt := Some x\<rparr>"])

definition THROTTLED_MESSAGE :: string where
  "THROTTLED_MESSAGE = ''Too many attempts. Try again later.''"

text \<open>The results of a sequence of guesses, each made some time after the one before.\<close>

fun guess_results ::
  "'w otp_deps \<Rightarrow> (int \<Rightarrow> 'w \<Rightarrow> 'w) \<Rightarrow> string \<Rightarrow> (int \<times> string \<times> string option) list \<Rightarrow> 'w \<Rightarrow> (app_error + inbox_proof) list" where
  "guess_results D advance e [] w = []"
| "guess_results D advance e ((d, code, ip) # gs) w =
     (case proveInbox D e code ip (advance d w) of (r, w') \<Rightarrow> r # guess_results D advance e gs w')"

definition compared :: "(app_error + 'a) list \<Rightarrow> (app_error + 'a) list" where
  "compared = filter (\<lambda>r. r \<noteq> Inl (Unauthorized (Some THROTTLED_MESSAGE)))"

definition accepted_early :: "int \<Rightarrow> (app_error + 'a) list \<Rightarrow> bool" where
  "accepted_early n rs \<longleftrightarrow>
     (\<forall>k < length rs. \<forall>x. rs ! k = Inr x \<longrightarrow>
        int k < n \<and> (\<forall>j < length rs. \<forall>y. rs ! j = Inr y \<longrightarrow> j = k))"

lemma accepted_early_Nil [simp]: "accepted_early n []"
  by (simp add: accepted_early_def)

lemma accepted_early_refused:
  assumes "accepted_early n rs"
  shows "accepted_early (n + 1) (Inl err # rs)"
  unfolding accepted_early_def
proof (intro allI impI)
  fix k x assume "k < length (Inl err # rs)" "(Inl err # rs) ! k = Inr x"
  then obtain m where m: "m < length rs" "k = Suc m" "rs ! m = Inr x" by (cases k) auto
  have first: "int m < n \<and> (\<forall>j<length rs. \<forall>y. rs ! j = Inr y \<longrightarrow> j = m)"
    using assms m(1,3) unfolding accepted_early_def by blast
  have "j = k" if "j < length (Inl err # rs)" "(Inl err # rs) ! j = Inr y" for j y
    using that first m(2) by (cases j) auto
  with first show "int k < n + 1 \<and> (\<forall>j<length (Inl err # rs). \<forall>y. (Inl err # rs) ! j = Inr y \<longrightarrow> j = k)"
    using m(2) by simp
qed

lemma refused_nth: "(\<And>r. r \<in> set rs \<Longrightarrow> isl r) \<Longrightarrow> k < length rs \<Longrightarrow> rs ! k \<noteq> Inr x"
  by (metis isl_def nth_mem sum.distinct(1))

lemma accepted_early_accepted: "0 < n \<Longrightarrow> (\<And>r. r \<in> set rs \<Longrightarrow> isl r) \<Longrightarrow> accepted_early n (Inr x # rs)"
  by (auto simp: accepted_early_def nth_Cons refused_nth split: nat.splits)

subsection \<open>The contracts\<close>

locale otp_store_laws =
  fixes S :: "'w otp_store"
    and codes :: "'w \<Rightarrow> otp_record list"
    and ok :: "'w \<Rightarrow> bool"
    and time :: "'w \<Rightarrow> int"
  assumes ok_ids: "ok w \<Longrightarrow> distinct (map otp_id (codes w))"
    and find_run: "os_findLatestActive S e t w = (Inr (latest_active e t None (codes w)), w)"
    and incr_result: "fst (os_incrementAttempts S i w) =
      Inr (case otp_row_in (codes w) i of None \<Rightarrow> 0 | Some r \<Rightarrow> otp_attempts r + 1)"
    and incr_codes: "codes (snd (os_incrementAttempts S i w)) = count_attempt i (codes w)"
    and mark_result: "fst (os_markConsumed S i t w) =
      Inr (case otp_row_in (codes w) i of None \<Rightarrow> False | Some r \<Rightarrow> otp_consumedAt r = None)"
    and mark_codes: "codes (snd (os_markConsumed S i t w)) =
      (case otp_row_in (codes w) i of None \<Rightarrow> codes w
       | Some r \<Rightarrow> if otp_consumedAt r = None then consume i t (codes w) else codes w)"
    and invalidate_result: "fst (os_invalidateActiveForEmail S e w) = Inr ()"
    and invalidate_codes: "codes (snd (os_invalidateActiveForEmail S e w)) =
      map (\<lambda>r. if same_email e r \<and> otp_consumedAt r = None then r\<lparr>otp_consumedAt := Some (time w)\<rparr> else r) (codes w)"
    and insert_run: "ok w \<Longrightarrow> \<exists>i. fst (os_insert S e h x w) =
        Inr \<lparr>otp_id = i, otp_email = e, otp_codeHash = h, otp_expiresAt = x, otp_attempts = 0,
             otp_consumedAt = None, otp_createdAt = time w\<rparr> \<and>
      codes (snd (os_insert S e h x w)) = codes w @
        [\<lparr>otp_id = i, otp_email = e, otp_codeHash = h, otp_expiresAt = x, otp_attempts = 0,
          otp_consumedAt = None, otp_createdAt = time w\<rparr>] \<and> i \<notin> set (map otp_id (codes w))"
    and incr_ok: "ok w \<Longrightarrow> ok (snd (os_incrementAttempts S i w))"
    and mark_ok: "ok w \<Longrightarrow> ok (snd (os_markConsumed S i t w))"
    and invalidate_ok: "ok w \<Longrightarrow> ok (snd (os_invalidateActiveForEmail S e w))"
    and insert_ok: "ok w \<Longrightarrow> ok (snd (os_insert S e h x w))"
    and store_time: "time (snd (os_incrementAttempts S i w)) = time w"
      "time (snd (os_markConsumed S i t w)) = time w"
      "time (snd (os_invalidateActiveForEmail S e w)) = time w" "time (snd (os_insert S e h x w)) = time w"

locale otp_env =
  cache: cache_laws "od_cache D" entry "od_now D" advance +
  store: otp_store_laws "od_store D" codes ok "od_now D"
  for D :: "'w otp_deps" and entry :: "'w \<Rightarrow> cache_view" and advance :: "int \<Rightarrow> 'w \<Rightarrow> 'w"
    and codes :: "'w \<Rightarrow> otp_record list" and ok :: "'w \<Rightarrow> bool" +
  fixes accounts :: "'w \<Rightarrow> string \<Rightarrow> user_record option"
  assumes cache_codes: "codes (snd (cc_get (od_cache D) k w)) = codes w"
      "codes (snd (cc_set (od_cache D) k v ttl w)) = codes w"
      "codes (snd (cc_del (od_cache D) k w)) = codes w"
      "codes (snd (cc_incr (od_cache D) k ttl w)) = codes w"
    and cache_ok: "ok (snd (cc_get (od_cache D) k w)) = ok w"
      "ok (snd (cc_set (od_cache D) k v ttl w)) = ok w"
      "ok (snd (cc_del (od_cache D) k w)) = ok w"
      "ok (snd (cc_incr (od_cache D) k ttl w)) = ok w"
    and advance_codes: "codes (advance d w) = codes w" "ok (advance d w) = ok w"
    and store_entry: "entry (snd (os_incrementAttempts (od_store D) i w)) = entry w"
      "entry (snd (os_markConsumed (od_store D) i t w)) = entry w"
      "entry (snd (os_invalidateActiveForEmail (od_store D) e w)) = entry w"
      "entry (snd (os_insert (od_store D) e h x w)) = entry w"
    and account_run: "us_findByEmail (od_users D) e w = (Inr (accounts w e), w)"
begin

lemmas otp_frames [simp] =
  cache.now_laws cache_codes cache_ok advance_codes store_entry store.store_time cache.get_view cache.del_view

lemma readCounter_run [simp]:
  "fst (readCounter D k w) = Inr (case entry w k of None \<Rightarrow> 0 | Some (v, _) \<Rightarrow> or_else (value_int v) 0)"
  "codes (snd (readCounter D k w)) = codes w" "ok (snd (readCounter D k w)) = ok w"
  "od_now D (snd (readCounter D k w)) = od_now D w" "entry (snd (readCounter D k w)) = entry w"
  by (auto simp: readCounter_def prog_simps cache.get_result split: option.split)

lemma incr_total: "\<exists>n. fst (cc_incr (od_cache D) k ttl w) = Inr n"
  using cache.incr_fresh [of w k ttl] cache.incr_present [of w k _ _ ttl] by (cases "entry w k") auto

lemma bumpVerifyFailure_run [simp]:
  "fst (bumpVerifyFailure D i ip w) = Inr ()" "codes (snd (bumpVerifyFailure D i ip w)) = codes w"
  "ok (snd (bumpVerifyFailure D i ip w)) = ok w" "od_now D (snd (bumpVerifyFailure D i ip w)) = od_now D w"
  using incr_total by (auto simp: bumpVerifyFailure_def prog_simps split: option.split sum.split; metis Inr_not_Inl)+

definition code_fails :: "'w \<Rightarrow> string \<Rightarrow> int" where
  "code_fails w i = (case entry w (codeFailKey i) of None \<Rightarrow> 0 | Some (v, _) \<Rightarrow> or_else (value_int v) 0)"

text \<open>The verdict on a code, and what becomes of its row.\<close>

definition code_verdict :: "'w \<Rightarrow> string \<Rightarrow> string \<Rightarrow> app_error + unit" where
  "code_verdict w e code =
     (case latest_active e (od_now D w) None (codes w) of
        None \<Rightarrow> Inl (Unauthorized (Some INVALID_CODE_MESSAGE))
      | Some r \<Rightarrow>
          if code_fails w (otp_id r) \<ge> OTP_VERIFY_CODE_FAIL_MAX \<or> otp_attempts r \<ge> OTP_MAX_ATTEMPTS
          then Inl (Unauthorized (Some TOO_MANY_INCORRECT_MESSAGE))
          else if od_verifyOtpCode D (otp_codeHash r) code then Inr ()
          else Inl (Unauthorized (Some INVALID_CODE_MESSAGE)))"

definition code_effect :: "'w \<Rightarrow> string \<Rightarrow> string \<Rightarrow> otp_record list" where
  "code_effect w e code =
     (case latest_active e (od_now D w) None (codes w) of
        None \<Rightarrow> codes w
      | Some r \<Rightarrow>
          if code_fails w (otp_id r) \<ge> OTP_VERIFY_CODE_FAIL_MAX then consume (otp_id r) (od_now D w) (codes w)
          else if otp_attempts r + 1 \<ge> OTP_MAX_ATTEMPTS \<or> od_verifyOtpCode D (otp_codeHash r) code
          then consume (otp_id r) (od_now D w) (count_attempt (otp_id r) (codes w))
          else count_attempt (otp_id r) (codes w))"

lemma found_row:
  assumes "ok w" "latest_active e t None (codes w) = Some r"
  shows "otp_row_in (codes w) (otp_id r) = Some r" "otp_consumedAt r = None" "r \<in> set (codes w)"
  using latest_active_Some [OF assms(2)] store.ok_ids [OF assms(1)]
  by (auto simp: otp_row_in_mem otp_active_def)

lemma counted_row:
  assumes "ok w" "latest_active e t None (codes w) = Some r"
  shows "otp_row_in (count_attempt (otp_id r) (codes w)) (otp_id r) =
    Some (r\<lparr>otp_attempts := otp_attempts r + 1\<rparr>)"
  using found_row [OF assms] store.ok_ids [OF assms(1)]
  by (simp add: otp_row_in_def count_attempt_def find_update_first [where g = otp_id])

lemma consumeCode_run:
  assumes "ok w"
  shows "fst (consumeCode D e code ip (od_now D w) w) = code_verdict w e code \<and>
    codes (snd (consumeCode D e code ip (od_now D w) w)) = code_effect w e code \<and>
    ok (snd (consumeCode D e code ip (od_now D w) w)) \<and>
    od_now D (snd (consumeCode D e code ip (od_now D w) w)) = od_now D w"
proof (cases "latest_active e (od_now D w) None (codes w)")
  case None
  with assms show ?thesis
    by (simp add: consumeCode_def prog_simps store.find_run code_verdict_def code_effect_def)
next
  case (Some r)
  note row = found_row [OF assms Some] counted_row [OF assms Some]
  show ?thesis
    using Some row assms
    by (auto simp: consumeCode_def prog_simps store.find_run store.incr_result store.incr_codes store.mark_result
        store.mark_codes store.mark_ok store.incr_ok cache.del_result code_verdict_def code_effect_def
        code_fails_def OTP_MAX_ATTEMPTS_def)
qed

subsection \<open>Guessing\<close>

abbreviation ordinary :: "string \<Rightarrow> bool" where
  "ordinary e \<equiv> \<not> isReviewerEmail D e \<and> \<not> isTestAccountEmail D e"

definition throttled :: "'w \<Rightarrow> string option \<Rightarrow> bool" where
  "throttled w ip \<longleftrightarrow>
     (case ip of None \<Rightarrow> False
      | Some a \<Rightarrow> (case entry w (ipFailKey (normalizeIp (Some a))) of None \<Rightarrow> 0 | Some (v, _) \<Rightarrow> or_else (value_int v) 0)
                \<ge> OTP_VERIFY_IP_FAIL_MAX)"

lemma ipThrottleTripped_run [simp]:
  "fst (ipThrottleTripped D (map_option (\<lambda>i. normalizeIp (Some i)) ip) w) = Inr (throttled w ip)"
  "codes (snd (ipThrottleTripped D b w)) = codes w" "ok (snd (ipThrottleTripped D b w)) = ok w"
  "od_now D (snd (ipThrottleTripped D b w)) = od_now D w" "entry (snd (ipThrottleTripped D b w)) = entry w"
  by (auto simp: ipThrottleTripped_def prog_simps throttled_def normalizeIp_not_Nil split: option.split)

lemma proveInbox_run:
  assumes "ordinary e" "ok w"
  shows "fst (proveInbox D e code ip w) =
      (if throttled w ip then Inl (Unauthorized (Some THROTTLED_MESSAGE))
       else case code_verdict w e code of Inl err \<Rightarrow> Inl err | Inr _ \<Rightarrow> Inr Code) \<and>
    codes (snd (proveInbox D e code ip w)) = (if throttled w ip then codes w else code_effect w e code) \<and>
    ok (snd (proveInbox D e code ip w)) \<and> od_now D (snd (proveInbox D e code ip w)) = od_now D w"
proof -
  let ?b = "map_option (\<lambda>i. normalizeIp (Some i)) ip"
  let ?w = "snd (ipThrottleTripped D ?b w)"
  have same: "code_verdict ?w e code = code_verdict w e code" "code_effect ?w e code = code_effect w e code"
    by (simp_all add: code_verdict_def code_effect_def code_fails_def split: option.split)
  show ?thesis
    using assms consumeCode_run [of ?w e code ?b] same
    by (auto simp: proveInbox_def prog_simps Let_def THROTTLED_MESSAGE_def split: sum.split)
qed

lemma spent_refuses:
  assumes "spent e (od_now D w) (codes w)"
  shows "code_verdict w e code = Inl (Unauthorized (Some INVALID_CODE_MESSAGE))" "code_effect w e code = codes w"
  using assms latest_active_None [of e "od_now D w" None "codes w"]
  by (simp_all add: code_verdict_def code_effect_def spent_def)

lemma tried_effect:
  assumes "ok w" "tried e (od_now D w) i a (codes w)"
  shows "tried e (od_now D w) i (a + 1) (code_effect w e code)"
    "code_verdict w e code = Inr () \<Longrightarrow> a < OTP_MAX_ATTEMPTS \<and> spent e (od_now D w) (code_effect w e code)"
proof -
  note ids = store.ok_ids [OF assms(1)]
  have "tried e (od_now D w) i (a + 1) (code_effect w e code) \<and>
    (code_verdict w e code = Inr () \<longrightarrow> a < OTP_MAX_ATTEMPTS \<and> spent e (od_now D w) (code_effect w e code))"
  proof (cases "latest_active e (od_now D w) None (codes w)")
    case None
    then have "spent e (od_now D w) (codes w)" by (simp add: latest_active_None spent_def)
    then show ?thesis by (simp add: spent_refuses spent_tried)
  next
    case (Some r)
    then have r: "otp_id r = i" "a \<le> otp_attempts r"
      using latest_active_Some [OF Some] assms(2) by (auto simp: tried_def)
    have c: "tried e (od_now D w) i (a + 1) (count_attempt i (codes w))"
      using ids assms(2) by (rule tried_count)
    then have s: "spent e (od_now D w) (consume i x (count_attempt i (codes w)))"
      "spent e (od_now D w) (consume i x (codes w))" for x
      using ids assms(2) by (auto intro: spent_consume)
    show ?thesis using Some r c s by (auto simp: code_effect_def code_verdict_def spent_tried)
  qed
  then show "tried e (od_now D w) i (a + 1) (code_effect w e code)"
    "code_verdict w e code = Inr () \<Longrightarrow> a < OTP_MAX_ATTEMPTS \<and> spent e (od_now D w) (code_effect w e code)"
    by auto
qed

lemma spent_guesses:
  assumes "ordinary e" "\<forall>(d, _) \<in> set gs. 0 \<le> d" "ok w" "spent e (od_now D w) (codes w)" "r \<in> set (guess_results D advance e gs w)"
  shows "isl r"
  using assms(2-5)
proof (induction gs arbitrary: w)
  case (Cons g gs)
  obtain d code ip where g: "g = (d, code, ip)" by (cases g)
  let ?v = "advance d w" let ?w = "snd (proveInbox D e code ip ?v)"
  have sp: "spent e (od_now D ?v) (codes ?v)"
    using Cons.prems g by (auto simp: cache.advance_now intro: spent_mono)
  have run: "isl (fst (proveInbox D e code ip ?v))" "codes ?w = codes ?v" "ok ?w" "od_now D ?w = od_now D ?v"
    using proveInbox_run [OF assms(1), of ?v code ip] Cons.prems spent_refuses [OF sp, of code] by auto
  have "isl r" if "r \<in> set (guess_results D advance e gs ?w)"
    using that Cons.prems sp run by (intro Cons.IH [of ?w]) auto
  then show ?case using Cons.prems(4) run(1) g by (auto simp: split_beta)
qed simp

lemma guess_limit:
  assumes "ordinary e" "\<forall>(d, _) \<in> set gs. 0 \<le> d" "ok w" "tried e (od_now D w) i a (codes w)"
  shows "accepted_early (OTP_MAX_ATTEMPTS - a) (compared (guess_results D advance e gs w))"
  using assms(2-4)
proof (induction gs arbitrary: w a)
  case Nil
  then show ?case by (simp add: compared_def)
next
  case (Cons g gs)
  obtain d code ip where g: "g = (d, code, ip)" by (cases g)
  let ?v = "advance d w" let ?w = "snd (proveInbox D e code ip ?v)"
  have tr: "tried e (od_now D ?v) i a (codes ?v)" and okv: "ok ?v"
    using Cons.prems g by (auto simp: cache.advance_now intro: tried_mono)
  note run = proveInbox_run [OF assms(1) okv, of code ip]
  have pos: "\<forall>(d, _) \<in> set gs. 0 \<le> d" using Cons.prems by simp
  show ?case
  proof (cases "throttled ?v ip")
    case True
    have "accepted_early (OTP_MAX_ATTEMPTS - a) (compared (guess_results D advance e gs ?w))"
      using run True tr pos by (intro Cons.IH) auto
    with run True g show ?thesis by (simp add: compared_def split_beta)
  next
    case False
    note eff = tried_effect [OF okv tr, of code]
    have next_ok: "ok ?w" "od_now D ?w = od_now D ?v" "codes ?w = code_effect ?v e code" using run False by auto
    show ?thesis
    proof (cases "code_verdict ?v e code")
      case (Inl err)
      have "accepted_early (OTP_MAX_ATTEMPTS - (a + 1)) (compared (guess_results D advance e gs ?w))"
        using eff(1) next_ok pos by (intro Cons.IH) auto
      then have "accepted_early (OTP_MAX_ATTEMPTS - a) (Inl err # compared (guess_results D advance e gs ?w))"
        using accepted_early_refused [of "OTP_MAX_ATTEMPTS - (a + 1)"] by simp
      moreover have "err \<noteq> Unauthorized (Some THROTTLED_MESSAGE)"
        using Inl by (auto simp: code_verdict_def THROTTLED_MESSAGE_def INVALID_CODE_MESSAGE_def
            TOO_MANY_INCORRECT_MESSAGE_def split: option.splits if_splits)
      ultimately show ?thesis using run False Inl g by (simp add: compared_def split_beta)
    next
      case (Inr u)
      have "isl r" if "r \<in> set (guess_results D advance e gs ?w)" for r
        using that eff(2) Inr next_ok pos by (intro spent_guesses [OF assms(1), of gs ?w]) auto
      then have "accepted_early (OTP_MAX_ATTEMPTS - a) (Inr Code # compared (guess_results D advance e gs ?w))"
        using eff(2) Inr by (intro accepted_early_accepted) (auto simp: compared_def)
      then show ?thesis using run False Inr g by (simp add: compared_def split_beta)
    qed
  qed
qed

subsection \<open>Issuing\<close>

text \<open>An external call that leaves the stores and the clock alone.\<close>

definition quiet :: "('w, 'a) prog \<Rightarrow> bool" where
  "quiet m \<longleftrightarrow> (\<forall>w. codes (snd (m w)) = codes w \<and> ok (snd (m w)) = ok w \<and> entry (snd (m w)) = entry w \<and>
     od_now D (snd (m w)) = od_now D w)"

lemma quietD:
  "quiet m \<Longrightarrow> codes (snd (m w)) = codes w" "quiet m \<Longrightarrow> ok (snd (m w)) = ok w"
  "quiet m \<Longrightarrow> entry (snd (m w)) = entry w" "quiet m \<Longrightarrow> od_now D (snd (m w)) = od_now D w"
  by (simp_all add: quiet_def)

lemma quiet_ret: "quiet (ret x)"
  by (simp add: quiet_def prog_simps)

lemma quiet_seq:
  assumes "quiet m" "\<And>x. quiet (f x)"
  shows "quiet (seq m f)"
  unfolding quiet_def
proof
  fix w
  show "codes (snd (seq m f w)) = codes w \<and> ok (snd (seq m f w)) = ok w \<and> entry (snd (seq m f w)) = entry w \<and>
     od_now D (snd (seq m f w)) = od_now D w"
    using quietD [OF assms(1), of w] quietD [OF assms(2), of _ "snd (m w)"]
    by (simp add: seq_run split: sum.split)
qed

lemma quiet_code: "quiet (rnd 10) \<Longrightarrow> quiet (generateNumericCode rnd n)"
  by (induction n) (auto intro: quiet_ret quiet_seq)

abbreviation externals_quiet :: bool where
  "externals_quiet \<equiv> quiet (od_randomIntBelow D 10) \<and> (\<forall>c. quiet (od_hashOtpCode D c)) \<and>
     (\<forall>e c l. quiet (od_sendOtp D e c l))"

text \<open>The part of \<open>issueOtp\<close> after the throttles: it replaces the codes of the address by one new code.\<close>

definition issue_body :: "string \<Rightarrow> ('w, unit) prog" where
  "issue_body e =
     seq (os_invalidateActiveForEmail (od_store D) e) (\<lambda>_.
     seq (generateNumericCode (od_randomIntBelow D) OTP_CODE_LENGTH) (\<lambda>code.
     seq (od_hashOtpCode D code) (\<lambda>codeHash.
     seq (reads (od_now D)) (\<lambda>now.
     seq (os_insert (od_store D) e codeHash (now + OTP_TTL_SECONDS * 1000)) (\<lambda>_.
     seq (us_findByEmail (od_users D) e) (\<lambda>account.
     od_sendOtp D e code (map_option u_locale account)))))))"

definition sole_code :: "'w \<Rightarrow> string \<Rightarrow> otp_record \<Rightarrow> bool" where
  "sole_code w e r \<longleftrightarrow> r \<in> set (codes w) \<and> same_email e r \<and>
     (\<forall>r' \<in> set (codes w). same_email e r' \<and> otp_consumedAt r' = None \<longrightarrow> r' = r)"

lemma issue_body_ok:
  assumes "externals_quiet" "ok w" "fst (issue_body e w) = Inr ()"
  obtains w1 code w2 h w3 i l where
    "generateNumericCode (od_randomIntBelow D) OTP_CODE_LENGTH w1 = (Inr code, w2)"
    "fst (od_hashOtpCode D code w2) = Inr h"
    "snd (issue_body e w) = snd (od_sendOtp D e code l w3)"
    "fst (od_sendOtp D e code l w3) = Inr ()"
    "sole_code (snd (issue_body e w)) e
       \<lparr>otp_id = i, otp_email = e, otp_codeHash = h, otp_expiresAt = od_now D w + OTP_TTL_SECONDS * 1000,
        otp_attempts = 0, otp_consumedAt = None, otp_createdAt = od_now D w\<rparr>"
    "i \<notin> otp_id ` set (codes w)" "ok (snd (issue_body e w))"
    "entry (snd (issue_body e w)) = entry w" "od_now D (snd (issue_body e w)) = od_now D w"
proof -
  let ?w1 = "snd (os_invalidateActiveForEmail (od_store D) e w)"
  let ?g = "generateNumericCode (od_randomIntBelow D) OTP_CODE_LENGTH"
  have qg: "quiet ?g" using assms(1) by (simp add: quiet_code)
  obtain code w2 where g: "?g ?w1 = (Inr code, w2)"
    using assms(3) by (cases "?g ?w1"; cases "fst (?g ?w1)") (auto simp: issue_body_def prog_simps store.invalidate_result)
  have w2: "codes w2 = codes ?w1" "ok w2 = ok ?w1" "entry w2 = entry ?w1" "od_now D w2 = od_now D ?w1"
    using qg g quietD [of ?g ?w1] by simp_all
  let ?w3 = "snd (od_hashOtpCode D code w2)"
  obtain h where h: "fst (od_hashOtpCode D code w2) = Inr h"
    using assms(3) g by (cases "fst (od_hashOtpCode D code w2)") (auto simp: issue_body_def prog_simps store.invalidate_result)
  have w3: "codes ?w3 = codes ?w1" "ok ?w3 = ok ?w1" "entry ?w3 = entry ?w1" "od_now D ?w3 = od_now D ?w1"
    using assms(1) w2 quietD [of "od_hashOtpCode D code" w2] by simp_all
  let ?x = "od_now D w + OTP_TTL_SECONDS * 1000"
  have okw: "ok ?w3" using assms(2) by (simp add: w3 store.invalidate_ok)
  obtain i where i: "fst (os_insert (od_store D) e h ?x ?w3) = Inr
      \<lparr>otp_id = i, otp_email = e, otp_codeHash = h, otp_expiresAt = ?x, otp_attempts = 0,
       otp_consumedAt = None, otp_createdAt = od_now D ?w3\<rparr>"
    "codes (snd (os_insert (od_store D) e h ?x ?w3)) = codes ?w3 @
      [\<lparr>otp_id = i, otp_email = e, otp_codeHash = h, otp_expiresAt = ?x, otp_attempts = 0,
        otp_consumedAt = None, otp_createdAt = od_now D ?w3\<rparr>]"
    "i \<notin> set (map otp_id (codes ?w3))"
    using store.insert_run [OF okw, of e h ?x] by blast
  let ?w4 = "snd (os_insert (od_store D) e h ?x ?w3)"
  let ?l = "map_option u_locale (accounts ?w4 e)"
  have run: "issue_body e w = od_sendOtp D e code ?l ?w4"
    using g h i(1) by (simp add: issue_body_def prog_simps store.invalidate_result account_run w3)
  let ?r = "\<lparr>otp_id = i, otp_email = e, otp_codeHash = h, otp_expiresAt = ?x, otp_attempts = 0,
     otp_consumedAt = None, otp_createdAt = od_now D w\<rparr>"
  have now: "od_now D ?w3 = od_now D w" by (simp add: w3)
  note mail = quietD [of "od_sendOtp D e code ?l" ?w4]
  have cs: "codes (snd (issue_body e w)) = map (\<lambda>r. if same_email e r \<and> otp_consumedAt r = None
      then r\<lparr>otp_consumedAt := Some (od_now D w)\<rparr> else r) (codes w) @ [?r]"
    using assms(1) mail by (simp add: run i(2) w3 store.invalidate_codes)
  have "sole_code (snd (issue_body e w)) e ?r"
    unfolding sole_code_def cs by (auto simp: same_email_def split: if_splits)
  moreover have "i \<notin> otp_id ` set (codes w)"
    using i(3) by (auto simp: w3 store.invalidate_codes image_iff split: if_splits)
  ultimately show ?thesis
    using assms(1,3) okw mail by (intro that [OF g h]) (auto simp: run store.insert_ok w3)
qed

lemma otp_keys [simp]:
  "codeFailKey i \<noteq> issueIpKey a" "codeFailKey i \<noteq> emailCooldownKey e" "ipFailKey a \<noteq> issueIpKey b"
  "ipFailKey a \<noteq> emailCooldownKey e" "emailCooldownKey e \<noteq> issueIpKey a" "issueIpKey a \<noteq> emailCooldownKey e"
  by (simp_all add: codeFailKey_def issueIpKey_def emailCooldownKey_def ipFailKey_def)

text \<open>The first part of \<open>issueOtp\<close>: the network throttle.\<close>

definition network_throttle :: "string option \<Rightarrow> ('w, unit) prog" where
  "network_throttle ip =
     (case ip of
        None \<Rightarrow> ret ()
      | Some raw \<Rightarrow>
          seq (cc_incr (od_cache D) (issueIpKey (normalizeIp (Some raw))) OTP_IP_WINDOW_SECONDS) (\<lambda>ipHits.
          guard (\<not> exceeds ipHits OTP_IP_MAX_PER_WINDOW)
            (RateLimited (Some ''Too many code requests from this network.''))))"

definition issue_guarded :: "string \<Rightarrow> int option \<Rightarrow> ('w, int) prog" where
  "issue_guarded e hits =
     (if exceeds hits 1 then raise (RateLimited (Some ''Please wait before requesting another code.''))
      else
        seq (recover (issue_body e)
               (\<lambda>err.
                seq (if hits = Some 1
                     then recover (cc_del (od_cache D) (emailCooldownKey e)) (\<lambda>_. ret ())
                     else ret ()) (\<lambda>_.
                raise err))) (\<lambda>_.
        ret OTP_EMAIL_WINDOW_SECONDS))"

lemma issueOtp_unfold:
  "ordinary (normalizeEmail email) \<Longrightarrow> issueOtp D email ip =
     seq (network_throttle ip) (\<lambda>_.
     seq (cc_incr (od_cache D) (emailCooldownKey (normalizeEmail email)) OTP_EMAIL_WINDOW_SECONDS)
       (issue_guarded (normalizeEmail email)))"
  unfolding issueOtp_def Let_def network_throttle_def issue_guarded_def [abs_def] issue_body_def by simp

lemma network_throttle_run:
  "codes (snd (network_throttle ip w)) = codes w" "ok (snd (network_throttle ip w)) = ok w"
  "od_now D (snd (network_throttle ip w)) = od_now D w"
  "(\<And>a. k \<noteq> issueIpKey a) \<Longrightarrow> entry (snd (network_throttle ip w)) k = entry w k"
  by (auto simp: network_throttle_def prog_simps cache.incr_entry_other OTP_IP_WINDOW_SECONDS_def
      split: option.split sum.split)

lemma issueOtp_state:
  assumes "ordinary (normalizeEmail email)" "fst (issueOtp D email ip w) = r" "\<forall>x. r \<noteq> Inl (RateLimited x)"
  obtains w1 where "codes w1 = codes w" "ok w1 = ok w" "od_now D w1 = od_now D w"
    "\<And>k. (\<And>a. k \<noteq> issueIpKey a) \<Longrightarrow> k \<noteq> emailCooldownKey (normalizeEmail email) \<Longrightarrow> entry w1 k = entry w k"
    "\<exists>hits. \<not> exceeds hits 1 \<and> fst (cc_incr (od_cache D) (emailCooldownKey (normalizeEmail email)) OTP_EMAIL_WINDOW_SECONDS
        (snd (network_throttle ip w))) = Inr hits \<and>
      issueOtp D email ip w = issue_guarded (normalizeEmail email) hits w1"
proof -
  let ?e = "normalizeEmail email"
  let ?t = "snd (network_throttle ip w)"
  let ?i = "cc_incr (od_cache D) (emailCooldownKey ?e) OTP_EMAIL_WINDOW_SECONDS ?t"
  obtain hits where hits: "fst ?i = Inr hits" using incr_total by blast
  have thr: "fst (network_throttle ip w) = Inr ()"
  proof (cases ip)
    case (Some a)
    obtain n where "fst (cc_incr (od_cache D) (issueIpKey (normalizeIp (Some a))) OTP_IP_WINDOW_SECONDS w) = Inr n"
      using incr_total by blast
    with Some assms(2,3) show ?thesis
      by (auto simp: issueOtp_unfold [OF assms(1)] network_throttle_def prog_simps split: if_splits)
  qed (simp add: network_throttle_def prog_simps)
  have run: "issueOtp D email ip w = issue_guarded ?e hits (snd ?i)"
    using thr hits by (simp add: issueOtp_unfold [OF assms(1)] seq_run)
  then have "\<not> exceeds hits 1" using assms(2,3) by (auto simp: issue_guarded_def raise_run)
  with run hits show ?thesis
    by (intro that [of "snd ?i"])
      (auto simp: network_throttle_run cache.incr_entry_other OTP_EMAIL_WINDOW_SECONDS_def)
qed

text \<open>The mailed code proves the inbox until it lapses.\<close>

lemma mailed_code_works:
  assumes "ordinary (normalizeEmail email)" "fst (issueOtp D email ip w) = Inr s" "externals_quiet" "ok w"
    "\<And>i. i \<notin> otp_id ` set (codes w) \<Longrightarrow> entry w (codeFailKey i) = None"
    "\<And>c w h. fst (od_hashOtpCode D c w) = Inr h \<Longrightarrow> od_verifyOtpCode D h c"
    "0 \<le> d" "d < OTP_TTL_SECONDS * 1000"
    "\<not> throttled (advance d (snd (issueOtp D email ip w))) ip'"
  obtains code l w3 where "od_sendOtp D (normalizeEmail email) code l w3 = (Inr (), snd (issueOtp D email ip w))"
    "fst (proveInbox D (normalizeEmail email) code ip' (advance d (snd (issueOtp D email ip w)))) = Inr Code"
proof -
  let ?e = "normalizeEmail email"
  obtain w1 hits where w1: "codes w1 = codes w" "ok w1 = ok w" "od_now D w1 = od_now D w"
    "\<And>k. (\<And>a. k \<noteq> issueIpKey a) \<Longrightarrow> k \<noteq> emailCooldownKey ?e \<Longrightarrow> entry w1 k = entry w k"
    and run: "\<not> exceeds hits 1" "issueOtp D email ip w = issue_guarded ?e hits w1"
    by (rule issueOtp_state [OF assms(1) refl]) (auto simp: assms(2))
  have b: "fst (issue_body ?e w1) = Inr ()"
    using assms(2) run by (cases "fst (issue_body ?e w1)") (auto simp: issue_guarded_def prog_simps split: if_splits sum.splits)
  have st: "snd (issueOtp D email ip w) = snd (issue_body ?e w1)"
    using run b by (simp add: issue_guarded_def prog_simps)
  obtain w' code w2 h w3 i l where
    h: "fst (od_hashOtpCode D code w2) = Inr h"
    and m: "snd (issue_body ?e w1) = snd (od_sendOtp D ?e code l w3)" "fst (od_sendOtp D ?e code l w3) = Inr ()"
    and sole: "sole_code (snd (issue_body ?e w1)) ?e
       \<lparr>otp_id = i, otp_email = ?e, otp_codeHash = h, otp_expiresAt = od_now D w1 + OTP_TTL_SECONDS * 1000,
        otp_attempts = 0, otp_consumedAt = None, otp_createdAt = od_now D w1\<rparr>"
    and fresh: "i \<notin> otp_id ` set (codes w1)" and ok': "ok (snd (issue_body ?e w1))"
    and en: "entry (snd (issue_body ?e w1)) = entry w1" and now: "od_now D (snd (issue_body ?e w1)) = od_now D w1"
    by (rule issue_body_ok [OF assms(3) _ b]) (use assms(4) w1(2) in auto)
  let ?v = "advance d (snd (issueOtp D email ip w))"
  let ?r = "\<lparr>otp_id = i, otp_email = ?e, otp_codeHash = h, otp_expiresAt = od_now D w1 + OTP_TTL_SECONDS * 1000,
        otp_attempts = 0, otp_consumedAt = None, otp_createdAt = od_now D w1\<rparr>"
  have nowv: "od_now D ?v = od_now D w1 + d" by (simp add: cache.advance_now st now)
  have "otp_active ?e (od_now D ?v) ?r"
    using assms(8) by (simp add: otp_active_def same_email_def nowv)
  then have "latest_active ?e (od_now D ?v) None (codes ?v) = Some ?r"
    using sole by (intro latest_active_sole) (simp_all add: sole_code_def st)
  moreover have "code_fails ?v i = 0"
    using assms(5) fresh w1(4) [of "codeFailKey i"] cache.advance_view [OF assms(7), of "snd (issueOtp D email ip w)" "codeFailKey i"]
    by (simp add: code_fails_def st en w1(1))
  ultimately have "code_verdict ?v ?e code = Inr ()"
    using assms(6) [OF h] by (simp add: code_verdict_def OTP_VERIFY_CODE_FAIL_MAX_def OTP_MAX_ATTEMPTS_def)
  then have "fst (proveInbox D ?e code ip' ?v) = Inr Code"
    using proveInbox_run [OF assms(1), of ?v code ip'] ok' assms(9) by (simp add: st)
  moreover have "od_sendOtp D ?e code l w3 = (Inr (), snd (issueOtp D email ip w))"
    using m by (simp add: st prod_eq_iff)
  ultimately show ?thesis by (intro that)
qed

text \<open>An issue that fails after the throttles releases the cooldown it took, and reports the error.\<close>

lemma failed_issue_releases:
  assumes "ordinary (normalizeEmail email)" "fst (issueOtp D email ip w) = Inl err" "\<forall>m. err \<noteq> RateLimited m"
    "externals_quiet" "ok w" "entry w (emailCooldownKey (normalizeEmail email)) = None"
  shows "entry (snd (issueOtp D email ip w)) (emailCooldownKey (normalizeEmail email)) = None"
proof -
  let ?e = "normalizeEmail email" and ?t = "snd (network_throttle ip w)"
  obtain w1 hits where run: "\<not> exceeds hits 1" "issueOtp D email ip w = issue_guarded ?e hits w1"
    and hits: "fst (cc_incr (od_cache D) (emailCooldownKey ?e) OTP_EMAIL_WINDOW_SECONDS ?t) = Inr hits"
    by (rule issueOtp_state [OF assms(1) refl]) (use assms(2,3) in auto)
  have "entry ?t (emailCooldownKey ?e) = None" using assms(6) by (simp add: network_throttle_run)
  from cache.incr_fresh [OF this] hits have "hits = Some 1" by simp
  then show ?thesis
    using assms(2) run
    by (cases "fst (issue_body ?e w1)") (auto simp: issue_guarded_def exceeds_def prog_simps cache.del_result)
qed

end

end
