(* ===== verification/Otp_Runs.thy ===== *)
theory Otp_Runs
  imports Otp_Laws Session_Runs
begin

section \<open>One-time codes on the in-memory stores\<close>

text \<open>
  The service wired to the in-memory stores (the constructor of \<open>OtpService\<close>), the interpretation of its
  environment, and its properties.  The configuration and the external calls stay parameters.
\<close>

definition otp_service ::
  "(nat \<Rightarrow> string) \<Rightarrow> (string \<Rightarrow> bool) \<Rightarrow> (int \<Rightarrow> string) \<Rightarrow> string \<Rightarrow> 'w auth_world_scheme otp_deps \<Rightarrow>
   'w auth_world_scheme otp_deps" where
  "otp_service uuid_of handle_ok isoDate label X =
     X\<lparr>od_store := in_memory_otps uuid_of, od_users := in_memory_users uuid_of handle_ok isoDate label,
       od_hasIdentityForUser := identity_hasIdentityForUser, od_cache := in_memory_cache, od_now := clock\<rparr>"

definition mem_otps_ok :: "(nat \<Rightarrow> string) \<Rightarrow> 'w auth_world_scheme \<Rightarrow> bool" where
  "mem_otps_ok uuid_of w \<longleftrightarrow> inj uuid_of \<and> distinct (map otp_id (otp_rows w)) \<and>
     set (map otp_id (otp_rows w)) \<subseteq> uuid_of ` {..<entropy w}"

lemma mem_otps_fresh: "mem_otps_ok uuid_of w \<Longrightarrow> uuid_of (entropy w) \<notin> set (map otp_id (otp_rows w))"
  unfolding mem_otps_ok_def by (metis image_iff injD lessThan_iff less_irrefl subsetD)

lemma otp_service_fields [simp]:
  "od_store (otp_service u k i l X) = in_memory_otps u"
  "od_users (otp_service u k i l X) = in_memory_users u k i l"
  "od_cache (otp_service u k i l X) = in_memory_cache" "od_now (otp_service u k i l X) = clock"
  "od_hasIdentityForUser (otp_service u k i l X) = identity_hasIdentityForUser"
  "od_hashOtpCode (otp_service u k i l X) = od_hashOtpCode X"
  "od_verifyOtpCode (otp_service u k i l X) = od_verifyOtpCode X"
  "od_sendOtp (otp_service u k i l X) = od_sendOtp X"
  "od_randomIntBelow (otp_service u k i l X) = od_randomIntBelow X"
  "od_reviewer (otp_service u k i l X) = od_reviewer X" "od_testAccounts (otp_service u k i l X) = od_testAccounts X"
  "od_audit (otp_service u k i l X) = od_audit X" "od_supportEmail (otp_service u k i l X) = od_supportEmail X"
  by (simp_all add: otp_service_def)

lemmas otp_store_defs =
  in_memory_otps_def otp_invalidateActiveForEmail_def otp_insert_def otp_findLatestActive_def
  otp_incrementAttempts_def otp_markConsumed_def otp_row_def

lemma update_first_none: "find P rows = None \<Longrightarrow> update_first P f rows = rows"
  by (induction rows) (auto split: if_splits)

lemma otp_row_in_alt: "otp_row_in (otp_rows w) i = otp_row w i"
  by (simp add: otp_row_in_def otp_row_def)

lemma mem_otps_ok_update:
  assumes "mem_otps_ok u w" "otp_rows w' = update_first P f (otp_rows w)" "entropy w' = entropy w" "\<And>r. otp_id (f r) = otp_id r"
  shows "mem_otps_ok u w'"
proof -
  have "map otp_id (otp_rows w') = map otp_id (otp_rows w)" by (simp add: assms(2) map_update_first assms(4))
  then show ?thesis using assms(1,3) by (metis mem_otps_ok_def)
qed

interpretation mem_otps: otp_store_laws "in_memory_otps uuid_of" otp_rows "mem_otps_ok uuid_of" clock
  for uuid_of
proof (unfold_locales, goal_cases)
  case (1 w)
  then show ?case by (simp add: mem_otps_ok_def)
next
  case (3 i w)
  then show ?case by (auto simp: otp_store_defs otp_row_in_def split: option.split)
next
  case (4 i w)
  then show ?case by (auto simp: otp_store_defs count_attempt_def update_first_none split: option.split)
next
  case (5 i t w)
  then show ?case by (auto simp: otp_store_defs otp_row_in_def split: option.split)
next
  case (6 i t w)
  then show ?case by (auto simp: otp_store_defs otp_row_in_def consume_def split: option.split)
next
  case (9 w e h x)
  then show ?case
    using mem_otps_fresh [OF 9] by (simp add: otp_store_defs randomUUID_def prog_simps Let_def)
next
  case (10 w i)
  then show ?case
    by (cases "otp_row w i")
      (auto simp: in_memory_otps_def otp_incrementAttempts_def elim!: mem_otps_ok_update)
next
  case (11 w i t)
  then show ?case
    by (cases "otp_row w i")
      (auto simp: in_memory_otps_def otp_markConsumed_def elim!: mem_otps_ok_update)
next
  case (12 w e)
  then show ?case
    by (auto simp: in_memory_otps_def otp_invalidateActiveForEmail_def prog_simps mem_otps_ok_def comp_def if_distrib
        cong: if_cong)
next
  case (13 w e h x)
  then show ?case
    using mem_otps_fresh [OF 13]
    by (auto simp: otp_store_defs randomUUID_def prog_simps Let_def mem_otps_ok_def lessThan_Suc)
qed (auto simp: otp_store_defs randomUUID_def prog_simps Let_def split: option.split)

lemma otp_store_frames [simp]:
  "mem_entry (snd (os_incrementAttempts (in_memory_otps u) i w)) = mem_entry w"
  "mem_entry (snd (os_markConsumed (in_memory_otps u) i t w)) = mem_entry w"
  "mem_entry (snd (os_invalidateActiveForEmail (in_memory_otps u) e w)) = mem_entry w"
  "mem_entry (snd (os_insert (in_memory_otps u) e h x w)) = mem_entry w"
  by (auto simp: otp_store_defs randomUUID_def prog_simps Let_def split: option.split)

lemma rest_otps_ok: "auth_rest w' = auth_rest w \<Longrightarrow> mem_otps_ok u w' = mem_otps_ok u w"
  by (simp add: auth_rest_def mem_otps_ok_def)

lemma otps_ok_tick [simp]: "mem_otps_ok u (tick d w) = mem_otps_ok u w" "otp_rows (tick d w) = otp_rows w"
  by (simp_all add: tick_def mem_otps_ok_def)

interpretation otp: otp_env "otp_service uuid_of handle_ok isoDate label X" mem_entry tick otp_rows
  "mem_otps_ok uuid_of" "\<lambda>w e. rowByEmail e w"
  for uuid_of handle_ok isoDate label X
proof (intro otp_env.intro, goal_cases)
  case 1
  then show ?case by (simp add: mem_cache.cache_laws_axioms)
next
  case 2
  then show ?case by (simp add: mem_otps.otp_store_laws_axioms)
next
  case 3
  show ?case
    by unfold_locales
      (auto simp: in_memory_cache_def rest_otps_ok [OF auth_rest_cache(1)] rest_otps_ok [OF auth_rest_cache(2)]
        rest_otps_ok [OF auth_rest_cache(3)] rest_otps_ok [OF auth_rest_cache(4)]
        in_memory_users_def user_findByEmail_def prog_simps)
qed

text \<open>The count a cache key holds, and an external call that leaves the stores, the cache and the clock alone.\<close>

definition mem_counter :: "'w cache_world_scheme \<Rightarrow> string \<Rightarrow> int" where
  "mem_counter w k = (case mem_entry w k of None \<Rightarrow> 0 | Some (v, _) \<Rightarrow> or_else (value_int v) 0)"

definition leaves_stores :: "('w auth_world_scheme, 'a) prog \<Rightarrow> bool" where
  "leaves_stores m \<longleftrightarrow> (\<forall>w. auth_rest (snd (m w)) = auth_rest w \<and> mem_entry (snd (m w)) = mem_entry w \<and>
     clock (snd (m w)) = clock w)"

lemma leaves_stores_quiet: "leaves_stores m \<Longrightarrow> otp.quiet uuid_of handle_ok isoDate label X m"
  by (simp add: otp.quiet_def leaves_stores_def auth_rest_def mem_otps_ok_def)

subsection \<open>Properties\<close>

text \<open>
  C6: when the live codes of an address are one freshly issued code, a guess of it can succeed only among the
  first three guesses that are compared with it, and at most one guess succeeds; the guesses may come at any
  time, from any network and with any code.  Guesses refused by the network throttle are not compared.
\<close>

theorem otp_guess_limit:
  assumes "\<not> isReviewerEmail (otp_service uuid_of handle_ok isoDate label X) e"
    "\<not> isTestAccountEmail (otp_service uuid_of handle_ok isoDate label X) e"
    "mem_otps_ok uuid_of w" "\<forall>(d, _) \<in> set guesses. 0 \<le> d"
    "\<forall>r \<in> set (otp_rows w). otp_active e (clock w) r \<longrightarrow> otp_id r = i \<and> 0 \<le> otp_attempts r"
    "rs = compared (guess_results (otp_service uuid_of handle_ok isoDate label X) tick e guesses w)"
    "k < length rs" "rs ! k = Inr p"
  shows "k < 3 \<and> (\<forall>j < length rs. \<forall>q. rs ! j = Inr q \<longrightarrow> j = k)"
proof -
  have "tried e (clock w) i 0 (otp_rows w)" using assms(5) by (simp add: tried_def)
  then have "accepted_early (OTP_MAX_ATTEMPTS - 0) rs"
    using otp.guess_limit [of uuid_of handle_ok isoDate label X e guesses w i 0] assms(1-4,6) by simp
  with assms(7,8) show ?thesis by (auto simp: accepted_early_def OTP_MAX_ATTEMPTS_def)
qed

text \<open>
  the code check accepts exactly an unconsumed, unexpired code of the address, the most recently issued
  one, that was tried fewer than three times, has fewer than five recorded failures and verifies; accepting it
  consumes it.
\<close>

theorem otp_accepts_iff:
  assumes "mem_otps_ok uuid_of w"
  shows "fst (consumeCode (otp_service uuid_of handle_ok isoDate label X) e code ip (clock w) w) = Inr () \<longleftrightarrow>
    (\<exists>r. latest_active e (clock w) None (otp_rows w) = Some r \<and> otp_attempts r < 3 \<and>
       mem_counter w (codeFailKey (otp_id r)) < 5 \<and>
       od_verifyOtpCode X (otp_codeHash r) code)"
  using otp.consumeCode_run [OF assms, of handle_ok isoDate label X e code ip]
  by (auto simp: otp.code_verdict_def otp.code_fails_def mem_counter_def OTP_MAX_ATTEMPTS_def OTP_VERIFY_CODE_FAIL_MAX_def
      split: option.splits if_splits)

text \<open>
  C28: the code that an issue mails proves the inbox at any moment of the next five minutes, unless the network
  is throttled.  The Argon2 hash of a code verifies it; the external calls leave the stores alone.
\<close>

theorem mailed_code_proves_inbox:
  assumes "\<not> isReviewerEmail (otp_service uuid_of handle_ok isoDate label X) (normalizeEmail email)"
    "\<not> isTestAccountEmail (otp_service uuid_of handle_ok isoDate label X) (normalizeEmail email)"
    "fst (issueOtp (otp_service uuid_of handle_ok isoDate label X) email ip w) = Inr s" "mem_otps_ok uuid_of w"
    "\<forall>i. i \<notin> otp_id ` set (otp_rows w) \<longrightarrow> mem_entry w (codeFailKey i) = None"
    "leaves_stores (od_randomIntBelow X 10)" "\<forall>c. leaves_stores (od_hashOtpCode X c)"
    "\<forall>to c l. leaves_stores (od_sendOtp X to c l)"
    "\<forall>c v h. fst (od_hashOtpCode X c v) = Inr h \<longrightarrow> od_verifyOtpCode X h c"
    "0 \<le> d" "d < 300000"
    "\<forall>a. ip' = Some a \<longrightarrow> mem_counter (tick d (snd (issueOtp (otp_service uuid_of handle_ok isoDate label X) email ip w)))
       (ipFailKey (normalizeIp (Some a))) < 30"
  shows "\<exists>code l v. od_sendOtp X (normalizeEmail email) code l v =
       (Inr (), snd (issueOtp (otp_service uuid_of handle_ok isoDate label X) email ip w)) \<and>
     fst (proveInbox (otp_service uuid_of handle_ok isoDate label X) (normalizeEmail email) code ip'
       (tick d (snd (issueOtp (otp_service uuid_of handle_ok isoDate label X) email ip w)))) = Inr Code"
proof (rule otp.mailed_code_works [of uuid_of handle_ok isoDate label X email ip w s d ip'], goal_cases)
  case 9
  then show ?case
    using assms(12) by (auto simp: otp.throttled_def mem_counter_def OTP_VERIFY_IP_FAIL_MAX_def split: option.split)
next
  case (10 code l w3)
  then show ?case by auto
qed (use assms in \<open>auto simp: OTP_TTL_SECONDS_def leaves_stores_quiet\<close>)

text \<open>
  an issue that fails after the throttles (the mailer refuses, say) reports that error and releases the
  cooldown it took, so the next request is not refused for it.
\<close>

theorem failed_issue_releases_cooldown:
  assumes "\<not> isReviewerEmail (otp_service uuid_of handle_ok isoDate label X) (normalizeEmail email)"
    "\<not> isTestAccountEmail (otp_service uuid_of handle_ok isoDate label X) (normalizeEmail email)"
    "fst (issueOtp (otp_service uuid_of handle_ok isoDate label X) email ip w) = Inl err"
    "\<forall>m. err \<noteq> RateLimited m" "mem_otps_ok uuid_of w"
    "mem_entry w (emailCooldownKey (normalizeEmail email)) = None"
    "leaves_stores (od_randomIntBelow X 10)" "\<forall>c. leaves_stores (od_hashOtpCode X c)"
    "\<forall>to c l. leaves_stores (od_sendOtp X to c l)"
  shows "mem_entry (snd (issueOtp (otp_service uuid_of handle_ok isoDate label X) email ip w))
    (emailCooldownKey (normalizeEmail email)) = None"
  using assms by (intro otp.failed_issue_releases) (auto simp: leaves_stores_quiet)

subsubsection \<open>Accounts are untouched by the proof of the inbox\<close>

definition accounts_are ::
  "(string, user_record) js_map \<Rightarrow> (string, oauth_identity) js_map \<Rightarrow> 'w auth_world_scheme \<Rightarrow> bool" where
  "accounts_are us is w \<longleftrightarrow> user_rows w = us \<and> identity_rows w = is"

lemma keeps_accounts_cache:
  "keeps (accounts_are us is) (cc_get in_memory_cache k)" "keeps (accounts_are us is) (cc_del in_memory_cache k)"
  "keeps (accounts_are us is) (cc_incr in_memory_cache k ttl)"
  by (auto simp: keeps_def accounts_are_def in_memory_cache_def cache_get_def cache_del_def cache_incr_def cache_live_def
      put_entry_def prog_simps Let_def split: option.split)

lemma keeps_accounts_otp:
  "keeps (accounts_are us is) (os_findLatestActive (in_memory_otps u) e t)"
  "keeps (accounts_are us is) (os_incrementAttempts (in_memory_otps u) i)"
  "keeps (accounts_are us is) (os_markConsumed (in_memory_otps u) i t)"
  "keeps (accounts_are us is) (us_findByEmail (in_memory_users u k d l) e)"
  by (auto simp: keeps_def accounts_are_def otp_store_defs in_memory_users_def user_findByEmail_def prog_simps
      split: option.split)

lemmas keeps_accounts = keeps_accounts_cache keeps_accounts_otp keeps_seq keeps_recover keeps_if
  keeps_case_option keeps_ret keeps_raise keeps_reads

lemma keeps_accounts_consume:
  "keeps (accounts_are us is) (consumeCode (otp_service uuid_of handle_ok isoDate label X) e code ip t)"
  unfolding consumeCode_def readCounter_def bumpVerifyFailure_def otp_service_fields
  by (intro keeps_accounts)

lemma keeps_accounts_prove:
  "keeps (accounts_are us is) (proveInbox (otp_service uuid_of handle_ok isoDate label X) e code ip)"
  unfolding proveInbox_def Let_def ipThrottleTripped_def readCounter_def bumpVerifyFailure_def otp_service_fields
  by (intro keeps_accounts keeps_accounts_consume [unfolded otp_service_fields])

text \<open>
  C23: a verified code never signs its owner into an account that never verified its address and carries a
  provider identity; when the address has an account, it is that account.
\<close>

theorem code_never_enters_planted_account:
  assumes "\<not> isReviewerEmail (otp_service uuid_of handle_ok isoDate label X) (normalizeEmail email)"
    "\<not> isTestAccountEmail (otp_service uuid_of handle_ok isoDate label X) (normalizeEmail email)"
    "mem_otps_ok uuid_of w" "rowByEmail (normalizeEmail email) w = Some u"
    "fst (verifyOtp (otp_service uuid_of handle_ok isoDate label X) email code ip w) = Inr userId"
  shows "userId = u_id u \<and> (u_emailVerified u \<or> \<not> list_ex (\<lambda>(_, row). oi_userId row = u_id u) (identity_rows w))"
proof -
  let ?D = "otp_service uuid_of handle_ok isoDate label X" and ?e = "normalizeEmail email"
  let ?w = "snd (proveInbox ?D ?e code ip w)"
  have same: "user_rows ?w = user_rows w" "identity_rows ?w = identity_rows w"
    using keepsD [OF keeps_accounts_prove, of "user_rows w" "identity_rows w" w] by (simp_all add: accounts_are_def)
  have p: "fst (proveInbox ?D ?e code ip w) = Inr Code"
    using assms(5) otp.proveInbox_run [of uuid_of handle_ok isoDate label X ?e w code ip] assms(1-3)
    by (auto simp: verifyOtp_def Let_def seq_run split: sum.splits if_splits)
  have row: "rowByEmail ?e ?w = Some u" using assms(4) same by (simp add: rowByEmail_def)
  show ?thesis
    using assms(5) p row same(2)
    by (auto simp: verifyOtp_def Let_def prog_simps in_memory_users_def user_findByEmail_def
        refuseUnverifiedIdentityHolder_def identity_hasIdentityForUser_def split: if_splits option.splits sum.splits)
qed

subsubsection \<open>The search for a free handle ends\<close>

definition after_underscore :: "string \<Rightarrow> string" where
  "after_underscore s = rev (takeWhile (\<lambda>c. c \<noteq> CHR ''_'') (rev s))"

lemma digit_fixed: "is_digit c \<Longrightarrow> lower_char c = c \<and> c \<noteq> CHR ''_''"
  by (auto simp: is_digit_def lower_char_def Let_def)

lemma after_underscore_digits: "after_underscore (toLowerCase (p @ CHR ''_'' # string_of_nat n)) = string_of_nat n"
proof -
  have d: "\<forall>c \<in> set (string_of_nat n). lower_char c = c \<and> c \<noteq> CHR ''_''"
    using string_of_nat_digits digit_fixed by blast
  then have "map lower_char (string_of_nat n) = string_of_nat n" by (simp add: map_idI)
  moreover have "lower_char (CHR ''_'') = CHR ''_''" by (simp add: lower_char_def)
  ultimately show ?thesis
    using d by (simp add: after_underscore_def toLowerCase_def takeWhile_append)
qed

lemma candidates_distinct:
  assumes "2 \<le> m" "2 \<le> n" "toLowerCase (handle_candidate k base m) = toLowerCase (handle_candidate k base n)"
  shows "m = n"
proof -
  have c: "\<exists>p. handle_candidate k base j = p @ CHR ''_'' # string_of_nat j" if "2 \<le> j" for j
    using that by (auto simp: handle_candidate_def Let_def)
  obtain p q where "handle_candidate k base m = p @ CHR ''_'' # string_of_nat m"
    "handle_candidate k base n = q @ CHR ''_'' # string_of_nat n"
    using c [OF assms(1)] c [OF assms(2)] by blast
  then have "string_of_nat m = string_of_nat n"
    using assms(3) after_underscore_digits by metis
  then show ?thesis using digits_val_string_of_nat by metis
qed

definition taken_handles :: "'w auth_world_scheme \<Rightarrow> string set" where
  "taken_handles w = {x. \<exists>row \<in> set (map snd (user_rows w)).
     case u_handle row of None \<Rightarrow> False | Some h \<Rightarrow> toLowerCase h = x}"

lemma finite_taken: "finite (taken_handles w) \<and> card (taken_handles w) \<le> length (user_rows w)"
proof -
  have sub: "taken_handles w \<subseteq> (\<lambda>row. toLowerCase (the (u_handle row))) ` set (map snd (user_rows w))"
    by (auto simp: taken_handles_def split: option.splits) force
  have "card (taken_handles w) \<le> card (set (map snd (user_rows w)))"
    using card_mono [OF _ sub] card_image_le [of "set (map snd (user_rows w))"] by (meson List.finite_set finite_imageI le_trans)
  also have "\<dots> \<le> length (user_rows w)" using card_length [of "map snd (user_rows w)"] by simp
  finally show ?thesis using sub by (meson List.finite_set finite_imageI finite_subset)
qed

lemma rowByHandle_None: "rowByHandle h w = None \<longleftrightarrow> toLowerCase h \<notin> taken_handles w"
  by (simp add: rowByHandle_def find_None_iff taken_handles_def)

lemma free_handle_step:
  assumes "D = otp_service uuid_of handle_ok isoDate label X"
  shows "free_handle_loop D base n (Suc fuel) w =
    (let h = handle_candidate (od_handle_max D) base n in
     if od_handle_ok D h \<and> \<not> isReservedHandle h \<and> toLowerCase h \<notin> taken_handles w then (Inr (Some h), w)
     else free_handle_loop D base (Suc n) fuel w)"
  using rowByHandle_None [of "handle_candidate (od_handle_max D) base n" w]
  by (auto simp: Let_def assms in_memory_users_def user_findByHandle_def prog_simps split: option.split)

lemma free_handle_found:
  assumes "D = otp_service uuid_of handle_ok isoDate label X" "n \<le> m" "m < n + fuel"
    "od_handle_ok D (handle_candidate (od_handle_max D) base m)"
    "\<not> isReservedHandle (handle_candidate (od_handle_max D) base m)"
    "toLowerCase (handle_candidate (od_handle_max D) base m) \<notin> taken_handles w"
  shows "\<exists>h. free_handle_loop D base n fuel w = (Inr (Some h), w) \<and> od_handle_ok D h \<and> \<not> isReservedHandle h \<and>
    toLowerCase h \<notin> taken_handles w"
  using assms(2,3)
proof (induction fuel arbitrary: n)
  case (Suc fuel)
  show ?case
  proof (cases "n = m")
    case True
    then show ?thesis using assms(4-6) by (simp add: free_handle_step [OF assms(1)] Let_def del: free_handle_loop.simps)
  next
    case False
    then show ?thesis using Suc by (auto simp: free_handle_step [OF assms(1)] Let_def simp del: free_handle_loop.simps)
  qed
qed simp

text \<open>
  C29: the search for a free test-account handle ends.  If the suffixed candidates of one more consecutive
  numbers than there are accounts are well-formed and unreserved, then enough rounds to reach them all find a
  handle that is well-formed, unreserved and held by no account.
\<close>

theorem free_handle_search_ends:
  assumes "D = otp_service uuid_of handle_ok isoDate label X" "2 \<le> n0" "n0 + length (user_rows w) < od_loop_bound D"
    "\<forall>n \<in> {n0..n0 + length (user_rows w)}. od_handle_ok D (handle_candidate (od_handle_max D) (handle_base D e) n) \<and>
       \<not> isReservedHandle (handle_candidate (od_handle_max D) (handle_base D e) n)"
  shows "\<exists>h. freeTestAccountHandle D e w = (Inr (Some h), w) \<and> od_handle_ok D h \<and> \<not> isReservedHandle h \<and>
    rowByHandle h w = None"
proof -
  let ?c = "\<lambda>n. toLowerCase (handle_candidate (od_handle_max D) (handle_base D e) n)"
  let ?N = "{n0..n0 + length (user_rows w)}"
  have "inj_on ?c ?N" using assms(2) by (intro inj_onI) (auto intro: candidates_distinct)
  then have "card (?c ` ?N) = Suc (length (user_rows w))" by (simp add: card_image)
  then have "\<not> ?c ` ?N \<subseteq> taken_handles w" using finite_taken [of w] card_mono [of "taken_handles w" "?c ` ?N"] by auto
  then obtain m where "m \<in> ?N" "?c m \<notin> taken_handles w" by blast
  with assms(3,4) free_handle_found [OF assms(1), of 1 m "od_loop_bound D" "handle_base D e" w] assms(2)
  show ?thesis by (auto simp: freeTestAccountHandle_def rowByHandle_None)
qed

subsection \<open>The properties at work\<close>

definition sample_externals :: "auth_world otp_deps" where
  "sample_externals =
     \<lparr>od_store = in_memory_otps sample_token, od_users = in_memory_users sample_token (\<lambda>_. True) string_of_int ''deleted'',
      od_hasIdentityForUser = identity_hasIdentityForUser, od_cache = in_memory_cache,
      od_sendOtp = (\<lambda>_ _ _. ret ()), od_now = clock, od_reviewer = None, od_testAccounts = None,
      od_supportEmail = None, od_audit = None, od_randomIntBelow = (\<lambda>_. ret 7),
      od_hashOtpCode = (\<lambda>c. ret (''H'' @ c)), od_verifyOtpCode = (\<lambda>h c. h = ''H'' @ c),
      od_handle_ok = (\<lambda>h. h \<noteq> []), od_handle_max = 20, od_loop_bound = 10\<rparr>"

definition sample_otp :: "auth_world otp_deps" where
  "sample_otp = otp_service sample_token (\<lambda>_. True) string_of_int ''deleted'' sample_externals"

definition issued_world :: auth_world where
  "issued_world = snd (issueOtp sample_otp ''A@b.org'' (Some ''10.0.0.1'') empty_auth_world)"

lemma inj_sample_token: "inj sample_token"
  by (rule injI) (metis append_same_eq digits_val_string_of_nat sample_token_def same_append_eq)

lemma sample_quiet: "leaves_stores (od_randomIntBelow sample_externals 10)"
  "\<forall>c. leaves_stores (od_hashOtpCode sample_externals c)"
  "\<forall>to c l. leaves_stores (od_sendOtp sample_externals to c l)"
  by (simp_all add: sample_externals_def leaves_stores_def ret_def)

lemma sample_ordinary: "\<not> isReviewerEmail (otp_service u k i l sample_externals) e"
  "\<not> isTestAccountEmail (otp_service u k i l sample_externals) e"
  by (simp_all add: isReviewerEmail_def isTestAccountEmail_def sample_externals_def)

lemma empty_otps_ok: "mem_otps_ok sample_token empty_auth_world"
  by (simp add: mem_otps_ok_def inj_sample_token empty_auth_world_def)

lemma issued_rows: "otp_rows issued_world =
  [\<lparr>otp_id = ''t0'', otp_email = ''a@b.org'', otp_codeHash = ''H777777'', otp_expiresAt = 300000, otp_attempts = 0,
    otp_consumedAt = None, otp_createdAt = 0\<rparr>] \<and> entropy issued_world = 1 \<and> clock issued_world = 0"
  by code_simp

lemma issued_ok: "mem_otps_ok sample_token issued_world"
proof -
  have "sample_token 0 = ''t0''" by code_simp
  with issued_rows show ?thesis by (simp add: mem_otps_ok_def inj_sample_token lessThan_Suc)
qed

theorem otp_guess_limit_witness:
  "\<exists>rs. rs = compared (guess_results sample_otp tick ''a@b.org''
      [(1000, ''123456'', None), (1000, ''777777'', None), (1000, ''777777'', None)] issued_world) \<and>
    rs ! 1 = Inr Code \<and> (1::nat) < 3 \<and> (\<forall>j < length rs. \<forall>q. rs ! j = Inr q \<longrightarrow> j = 1)"
proof -
  let ?rs = "compared (guess_results sample_otp tick ''a@b.org''
      [(1000, ''123456'', None), (1000, ''777777'', None), (1000, ''777777'', None)] issued_world)"
  have "length ?rs = 3" "?rs ! 1 = Inr Code" by code_simp+
  moreover have "(1::nat) < 3 \<and> (\<forall>j < length ?rs. \<forall>q. ?rs ! j = Inr q \<longrightarrow> j = 1)"
    unfolding sample_otp_def
    by (rule otp_guess_limit [OF sample_ordinary issued_ok _ _ refl, where i = "''t0''" and p = Code])
      (use issued_rows calculation in \<open>simp_all add: sample_otp_def\<close>)
  ultimately show ?thesis by blast
qed

theorem otp_accepts_iff_witness:
  "fst (consumeCode sample_otp ''a@b.org'' ''777777'' None (clock issued_world) issued_world) = Inr () \<longleftrightarrow>
    (\<exists>r. latest_active ''a@b.org'' (clock issued_world) None (otp_rows issued_world) = Some r \<and> otp_attempts r < 3 \<and>
       mem_counter issued_world (codeFailKey (otp_id r)) < 5 \<and>
       od_verifyOtpCode sample_externals (otp_codeHash r) ''777777'')"
  unfolding sample_otp_def by (rule otp_accepts_iff [OF issued_ok])

theorem mailed_code_proves_inbox_witness:
  "\<exists>code l v. od_sendOtp sample_externals ''a@b.org'' code l v = (Inr (), issued_world) \<and>
     fst (proveInbox sample_otp ''a@b.org'' code (Some ''10.0.0.1'') (tick 299999 issued_world)) = Inr Code"
proof -
  have e: "normalizeEmail ''A@b.org'' = ''a@b.org''" by code_simp
  have issue: "fst (issueOtp sample_otp ''A@b.org'' (Some ''10.0.0.1'') empty_auth_world) = Inr 60"
    and free: "mem_counter (tick 299999 issued_world) (ipFailKey (normalizeIp (Some ''10.0.0.1''))) < 30"
    by code_simp+
  have "mem_entry empty_auth_world k = None" for k by (simp add: empty_auth_world_def mem_entry_def)
  with mailed_code_proves_inbox [OF sample_ordinary issue [unfolded sample_otp_def] empty_otps_ok _ sample_quiet,
      where d = 299999 and ip' = "Some ''10.0.0.1''"] free
  show ?thesis
    by (simp add: sample_otp_def [symmetric] issued_world_def [symmetric] e)
      (simp add: sample_externals_def ret_def)
qed

text \<open>A mailer that is down.\<close>

definition broken_externals :: "auth_world otp_deps" where
  "broken_externals = sample_externals\<lparr>od_sendOtp := (\<lambda>_ _ _. raise (PlainError ''smtp''))\<rparr>"

theorem failed_issue_releases_cooldown_witness:
  "mem_entry (snd (issueOtp (otp_service sample_token (\<lambda>_. True) string_of_int ''deleted'' broken_externals)
     ''a@b.org'' None empty_auth_world)) (emailCooldownKey (normalizeEmail ''a@b.org'')) = None"
proof (rule failed_issue_releases_cooldown)
  show "fst (issueOtp (otp_service sample_token (\<lambda>_. True) string_of_int ''deleted'' broken_externals)
     ''a@b.org'' None empty_auth_world) = Inl (PlainError ''smtp'')"
    by code_simp
qed (simp_all add: broken_externals_def sample_externals_def isReviewerEmail_def isTestAccountEmail_def leaves_stores_def
      ret_def raise_def empty_otps_ok, simp add: empty_auth_world_def mem_entry_def)

definition owner_row :: user_record where
  "owner_row = new_user_row ''u1'' (Some ''a@b.org'')
     \<lparr>cu_displayName = ''Ann'', cu_role = None, cu_emailVerified = Some True, cu_avatarUrl = None, cu_handle = None,
      cu_profileComplete = None, cu_onEmailConflict = None\<rparr> 0"

theorem code_never_enters_planted_account_witness:
  "\<exists>u. rowByEmail ''a@b.org'' (put_user ''u1'' owner_row issued_world) = Some u \<and> ''u1'' = u_id u \<and>
     (u_emailVerified u \<or>
      \<not> list_ex (\<lambda>(_, row). oi_userId row = u_id u) (identity_rows (put_user ''u1'' owner_row issued_world)))"
proof -
  have row: "rowByEmail (normalizeEmail ''A@b.org'') (put_user ''u1'' owner_row issued_world) = Some owner_row"
    by code_simp
  have row': "rowByEmail ''a@b.org'' (put_user ''u1'' owner_row issued_world) = Some owner_row"
    by code_simp
  have ok: "mem_otps_ok sample_token (put_user ''u1'' owner_row issued_world)"
    using issued_ok by (simp add: mem_otps_ok_def put_user_def)
  have run: "fst (verifyOtp (otp_service sample_token (\<lambda>_. True) string_of_int ''deleted'' sample_externals) ''A@b.org''
      ''777777'' None (put_user ''u1'' owner_row issued_world)) = Inr ''u1''"
    by code_simp
  show ?thesis
    using code_never_enters_planted_account [OF sample_ordinary ok row run] row' by blast
qed

theorem free_handle_search_ends_witness:
  "\<exists>h. freeTestAccountHandle sample_otp ''a@b.org'' empty_auth_world = (Inr (Some h), empty_auth_world) \<and>
    od_handle_ok sample_otp h \<and> \<not> isReservedHandle h \<and> rowByHandle h empty_auth_world = None"
proof (rule free_handle_search_ends [OF sample_otp_def, where ?n0.0 = 2])
  have none: "user_rows empty_auth_world = []" by (simp add: empty_auth_world_def)
  show "2 + length (user_rows empty_auth_world) < od_loop_bound sample_otp" by code_simp
  have "od_handle_ok sample_otp (handle_candidate (od_handle_max sample_otp) (handle_base sample_otp ''a@b.org'') 2) \<and>
    \<not> isReservedHandle (handle_candidate (od_handle_max sample_otp) (handle_base sample_otp ''a@b.org'') 2)"
    by code_simp
  then show "\<forall>n \<in> {2..2 + length (user_rows empty_auth_world)}.
     od_handle_ok sample_otp (handle_candidate (od_handle_max sample_otp) (handle_base sample_otp ''a@b.org'') n) \<and>
     \<not> isReservedHandle (handle_candidate (od_handle_max sample_otp) (handle_base sample_otp ''a@b.org'') n)"
    by (simp add: none)
qed simp

end
