(* ===== verification/Jwks.thy ===== *)
theory Jwks
  imports Anon_Token
begin

section \<open>Identity tokens of the sign-in providers (\<open>auth/jwks.ts\<close>)\<close>

text \<open>
  Verifying a provider's identity token: the key set fetched from the provider, cached and refetched under
  a floor, the RS256 signature and the claims.  Parsed JSON is the datatype \<open>json\<close> (with whole numbers), so
  that a claim of an unexpected type takes the branch the source takes.  Decoding a base64url segment with
  \<open>JSON.parse\<close>, WebCrypto's verification, SHA-256 and the fetch are parameters (\<open>jwks_deps\<close>); the
  timeout of the default fetch, which turns every failure into an answer that is not ok, is part of the
  last.
\<close>

subsection \<open>JSON values\<close>

datatype json = JNull | JBool bool | JNum int | JStr string | JArr "json list" | JObj "(string \<times> json) list"

fun truthy :: "json option \<Rightarrow> bool" where
  "truthy None = False"
| "truthy (Some JNull) = False"
| "truthy (Some (JBool b)) = b"
| "truthy (Some (JNum n)) = (n \<noteq> 0)"
| "truthy (Some (JStr s)) = (s \<noteq> [])"
| "truthy (Some (JArr _)) = True"
| "truthy (Some (JObj _)) = True"

text \<open>\<open>value.name\<close> on a value other than \<open>null\<close>; \<^const>\<open>None\<close> is \<open>undefined\<close>.\<close>

fun field :: "string \<Rightarrow> json \<Rightarrow> json option" where
  "field name (JObj fs) = map_of fs name"
| "field name _ = None"

text \<open>\<open>===\<close>: two objects parsed apart are never identical.\<close>

fun strict_eq :: "json \<Rightarrow> json \<Rightarrow> bool" where
  "strict_eq (JArr _) _ = False"
| "strict_eq (JObj _) _ = False"
| "strict_eq x y = (x = y)"

text \<open>\<open>String(value)\<close>.\<close>

fun js_string :: "json \<Rightarrow> string" where
  "js_string JNull = ''null''"
| "js_string (JBool b) = (if b then ''true'' else ''false'')"
| "js_string (JNum n) = string_of_int n"
| "js_string (JStr s) = s"
| "js_string (JArr xs) = join_with '','' (map (\<lambda>x. if x = JNull then [] else js_string x) xs)"
| "js_string (JObj _) = ''[object Object]''"

fun string_field :: "json option \<Rightarrow> string option" where
  "string_field (Some (JStr s)) = Some s"
| "string_field _ = None"

subsection \<open>Parameters and state\<close>

definition JWKS_CACHE_TTL_MS :: int where "JWKS_CACHE_TTL_MS = 60 * 60 * 1000"
definition JWKS_FORCE_REFRESH_FLOOR_MS :: int where "JWKS_FORCE_REFRESH_FLOOR_MS = 60 * 1000"
definition ID_TOKEN_ALG :: string where "ID_TOKEN_ALG = ''RS256''"
definition JWT_SEGMENT_COUNT :: nat where "JWT_SEGMENT_COUNT = 3"
definition NOT_YET_VALID_TOLERANCE_SECONDS :: int where "NOT_YET_VALID_TOLERANCE_SECONDS = 30"

record verified_id_token =
  vt_sub :: string
  vt_email :: "string option"
  vt_emailVerified :: bool
  vt_name :: "string option"
  vt_picture :: "string option"

record verify_params =
  vp_jwksUrl :: string
  vp_issuers :: "string list"
  vp_audiences :: "string list"
  vp_expectedNonce :: "string option"
  vp_nowSeconds :: "int option"

record cached_jwks =
  cj_keys :: "json list"
  cj_fetchedAtMs :: int

record jwks_world = clock_world +
  jwks_cache :: "(string, cached_jwks) js_map"
  lastForceRefreshAtMs :: "(string, int) js_map"

text \<open>The answer of a fetch: the body of an ok response, \<^const>\<open>None\<close> for any other.\<close>

record 'w jwks_deps =
  jd_fetch :: "string \<Rightarrow> ('w, json option) prog"
  jd_cacheTtlMs :: int
  jd_decodeJson :: "string \<Rightarrow> json option"
  jd_rsaVerify :: "string \<Rightarrow> string \<Rightarrow> string \<Rightarrow> string \<Rightarrow> ('w, bool) prog"
  jd_sha256 :: "string \<Rightarrow> string"

subsection \<open>Keys\<close>

definition fetchKeys :: "'w jwks_world_scheme jwks_deps \<Rightarrow> string \<Rightarrow> ('w jwks_world_scheme, json list) prog" where
  "fetchKeys D jwksUrl =
     seq (jd_fetch D jwksUrl) (\<lambda>res.
     case res of
       None \<Rightarrow> raise (Unavailable ''Could not reach the identity provider.'')
     | Some body \<Rightarrow>
         if body = JNull then raise (PlainError ''TypeError'')
         else
           (let keys = (case field ''keys'' body of Some (JArr ks) \<Rightarrow> ks | _ \<Rightarrow> [])
            in seq (writes (\<lambda>w. w\<lparr>jwks_cache := jm_set jwksUrl \<lparr>cj_keys = keys, cj_fetchedAtMs = clock w\<rparr> (jwks_cache w)\<rparr>))
                 (\<lambda>_. ret keys)))"

text \<open>
  The map of fetches in flight only merges callers that overlap: a call of the model starts with no fetch
  in flight and ends after its own.
\<close>

definition getKeys :: "'w jwks_world_scheme jwks_deps \<Rightarrow> string \<Rightarrow> bool \<Rightarrow> ('w jwks_world_scheme, json list) prog" where
  "getKeys D jwksUrl forceRefresh =
     seq (reads (\<lambda>w. (jm_get (jwks_cache w) jwksUrl, clock w))) (\<lambda>(cached, now).
     case cached of
       Some c \<Rightarrow>
         if \<not> forceRefresh \<and> now - cj_fetchedAtMs c < jd_cacheTtlMs D then ret (cj_keys c)
         else fetchKeys D jwksUrl
     | None \<Rightarrow> fetchKeys D jwksUrl)"

text \<open>\<open>keys.find((k) => k.kid === kid)\<close>; reading a field of \<open>null\<close> throws.\<close>

fun find_key :: "json \<Rightarrow> json list \<Rightarrow> ('w, json option) prog" where
  "find_key kid [] = ret None"
| "find_key kid (k # ks) =
     (if k = JNull then raise (PlainError ''TypeError'')
      else if (case field ''kid'' k of None \<Rightarrow> False | Some v \<Rightarrow> strict_eq v kid) then ret (Some k)
      else find_key kid ks)"

text \<open>The refetch for an unknown key id, at most once in the floor.\<close>

definition refetched_key :: "'w jwks_world_scheme jwks_deps \<Rightarrow> string \<Rightarrow> json \<Rightarrow> ('w jwks_world_scheme, json option) prog" where
  "refetched_key D jwksUrl kid =
     seq (reads (\<lambda>w. (jm_get (lastForceRefreshAtMs w) jwksUrl, clock w))) (\<lambda>(last, now).
     if (case last of None \<Rightarrow> True | Some t \<Rightarrow> now - t \<ge> JWKS_FORCE_REFRESH_FLOOR_MS)
     then seq (writes (\<lambda>w. w\<lparr>lastForceRefreshAtMs := jm_set jwksUrl (clock w) (lastForceRefreshAtMs w)\<rparr>)) (\<lambda>_.
          seq (getKeys D jwksUrl True) (find_key kid))
     else ret None)"

definition resolveKey :: "'w jwks_world_scheme jwks_deps \<Rightarrow> string \<Rightarrow> json \<Rightarrow> ('w jwks_world_scheme, json) prog" where
  "resolveKey D jwksUrl kid =
     seq (getKeys D jwksUrl False) (\<lambda>keys.
     seq (find_key kid keys) (\<lambda>found.
     seq (case found of Some k \<Rightarrow> ret (Some k) | None \<Rightarrow> refetched_key D jwksUrl kid) (\<lambda>match.
     case match of
       None \<Rightarrow> raise (Unauthorized (Some ''Identity token key not found.''))
     | Some k \<Rightarrow> ret k)))"

subsection \<open>Signature and claims\<close>

definition verifyRs256 :: "'w jwks_world_scheme jwks_deps \<Rightarrow> json \<Rightarrow> string \<Rightarrow> string \<Rightarrow> ('w jwks_world_scheme, bool) prog" where
  "verifyRs256 D jwk signingInput signatureB64 =
     (if field ''kty'' jwk \<noteq> Some (JStr ''RSA'') \<or> \<not> truthy (field ''n'' jwk) \<or> \<not> truthy (field ''e'' jwk)
      then ret False
      else jd_rsaVerify D (js_string (the (field ''n'' jwk))) (js_string (the (field ''e'' jwk))) signingInput signatureB64)"

definition nonceMatches :: "(string \<Rightarrow> string) \<Rightarrow> json option \<Rightarrow> string \<Rightarrow> bool" where
  "nonceMatches sha claimNonce expected =
     (case claimNonce of
        Some (JStr n) \<Rightarrow> n \<noteq> [] \<and> (constantTimeStringEqual n expected \<or> constantTimeStringEqual n (sha expected))
      | _ \<Rightarrow> False)"

definition token_audiences :: "json option \<Rightarrow> json list" where
  "token_audiences aud =
     (case aud of Some (JArr xs) \<Rightarrow> xs | Some a \<Rightarrow> if truthy (Some a) then [a] else [] | None \<Rightarrow> [])"

definition validateClaims ::
  "(string \<Rightarrow> string) \<Rightarrow> json \<Rightarrow> verify_params \<Rightarrow> int \<Rightarrow> app_error + verified_id_token" where
  "validateClaims sha claims params now =
     (let nowSec = (case vp_nowSeconds params of None \<Rightarrow> now div 1000 | Some n \<Rightarrow> n);
          refuse = (\<lambda>m. Inl (Unauthorized (Some m)))
      in if \<not> (truthy (field ''iss'' claims) \<and> the (field ''iss'' claims) \<in> set (map JStr (vp_issuers params)))
         then refuse ''Identity token issuer mismatch.''
         else if \<not> list_ex (\<lambda>a. a \<in> set (map JStr (vp_audiences params))) (token_audiences (field ''aud'' claims))
         then refuse ''Identity token audience mismatch.''
         else if (case field ''exp'' claims of Some (JNum t) \<Rightarrow> t \<le> nowSec | _ \<Rightarrow> True)
         then refuse ''Identity token has expired.''
         else if (case field ''nbf'' claims of Some (JNum t) \<Rightarrow> t > nowSec + NOT_YET_VALID_TOLERANCE_SECONDS | _ \<Rightarrow> False)
         then refuse ''Identity token is not yet valid.''
         else if \<not> truthy (field ''sub'' claims)
         then refuse ''Identity token is missing a subject.''
         else if (case vp_expectedNonce params of None \<Rightarrow> False | Some e \<Rightarrow> \<not> nonceMatches sha (field ''nonce'' claims) e)
         then refuse ''Identity token nonce mismatch.''
         else Inr \<lparr>vt_sub = js_string (the (field ''sub'' claims)),
                   vt_email = string_field (field ''email'' claims),
                   vt_emailVerified = (field ''email_verified'' claims \<in> {Some (JBool True), Some (JStr ''true'')}),
                   vt_name = string_field (field ''name'' claims),
                   vt_picture = string_field (field ''picture'' claims)\<rparr>)"

definition verify ::
  "'w jwks_world_scheme jwks_deps \<Rightarrow> string \<Rightarrow> verify_params \<Rightarrow> ('w jwks_world_scheme, verified_id_token) prog" where
  "verify D idToken params =
     (case split_char (CHR ''.'') idToken of
        [headerB64, payloadB64, signatureB64] \<Rightarrow>
          (case jd_decodeJson D headerB64 of
             Some header \<Rightarrow>
               if truthy (Some header) \<and> field ''alg'' header = Some (JStr ID_TOKEN_ALG) \<and> truthy (field ''kid'' header)
               then
                 seq (resolveKey D (vp_jwksUrl params) (the (field ''kid'' header))) (\<lambda>jwk.
                 seq (verifyRs256 D jwk (headerB64 @ ''.'' @ payloadB64) signatureB64) (\<lambda>valid.
                 if \<not> valid then raise (Unauthorized (Some ''Identity token signature is invalid.''))
                 else
                   (case jd_decodeJson D payloadB64 of
                      Some claims \<Rightarrow>
                        if truthy (Some claims)
                        then seq (reads clock) (\<lambda>now.
                             case validateClaims (jd_sha256 D) claims params now of Inl e \<Rightarrow> raise e | Inr t \<Rightarrow> ret t)
                        else raise (Unauthorized (Some ''Malformed identity token payload.''))
                    | None \<Rightarrow> raise (Unauthorized (Some ''Malformed identity token payload.'')))))
               else raise (Unauthorized (Some ''Unsupported identity token algorithm.''))
           | None \<Rightarrow> raise (Unauthorized (Some ''Unsupported identity token algorithm.'')))
      | _ \<Rightarrow> raise (Unauthorized (Some ''Malformed identity token.'')))"

subsection \<open>An accepted token\<close>

lemma find_key_Some:
  assumes "find_key kid ks w = (Inr (Some k), w')"
  shows "k \<in> set ks \<and> k \<noteq> JNull \<and> (\<exists>v. field ''kid'' k = Some v \<and> strict_eq v kid) \<and> w' = w"
  using assms by (induction ks) (auto simp: prog_simps split: if_splits option.splits)

lemma find_key_state [simp]: "snd (find_key kid ks w) = w"
  by (induction ks) (auto simp: prog_simps)

text \<open>The keys a lookup works on are the ones the cache holds for the address when it ends.\<close>

lemma getKeys_cached:
  assumes "getKeys D url force w = (Inr keys, w')"
  shows "\<exists>c. jm_get (jwks_cache w') url = Some c \<and> cj_keys c = keys"
  using assms
  by (auto simp: getKeys_def fetchKeys_def prog_simps Let_def split: option.splits if_splits sum.splits)

lemma find_in_cached:
  assumes "getKeys D url force w = (Inr keys, w1)" "find_key kid keys w1 = (Inr (Some k), w')"
  shows "\<exists>c v. jm_get (jwks_cache w') url = Some c \<and> k \<in> set (cj_keys c) \<and> field ''kid'' k = Some v \<and> strict_eq v kid"
  using getKeys_cached [OF assms(1)] find_key_Some [OF assms(2)] by auto

lemma resolveKey_cached:
  assumes "resolveKey D url kid w = (Inr k, w')"
  shows "\<exists>c v. jm_get (jwks_cache w') url = Some c \<and> k \<in> set (cj_keys c) \<and> field ''kid'' k = Some v \<and> strict_eq v kid"
proof -
  from assms obtain keys w1 found w2 where 1: "getKeys D url False w = (Inr keys, w1)" "find_key kid keys w1 = (Inr found, w2)"
    and rest: "(case found of Some k \<Rightarrow> ret (Some k) | None \<Rightarrow> refetched_key D url kid) w2 = (Inr (Some k), w')"
    unfolding resolveKey_def by (elim seq_InrE) (auto simp: prog_simps split: option.splits)
  show ?thesis
  proof (cases found)
    case (Some k')
    with rest have "k' = k" "w' = w2" by (simp_all add: prog_simps)
    then show ?thesis using find_in_cached [OF 1(1)] 1(2) Some by simp
  next
    case None
    with rest obtain ks w3 v where "getKeys D url True v = (Inr ks, w3)" "find_key kid ks w3 = (Inr (Some k), w')"
      by (auto simp: refetched_key_def prog_simps prod_eq_iff split: if_splits sum.splits)
    then show ?thesis by (rule find_in_cached)
  qed
qed

lemma validateClaims_sound:
  assumes "validateClaims sha claims params now = Inr t" "vp_nowSeconds params = None"
  shows "(\<exists>iss \<in> set (vp_issuers params). field ''iss'' claims = Some (JStr iss)) \<and>
    (\<exists>aud \<in> set (vp_audiences params). JStr aud \<in> set (token_audiences (field ''aud'' claims))) \<and>
    (\<exists>x. field ''exp'' claims = Some (JNum x) \<and> now div 1000 < x) \<and>
    (\<forall>e. vp_expectedNonce params = Some e \<longrightarrow> field ''nonce'' claims \<in> {Some (JStr e), Some (JStr (sha e))}) \<and>
    (vt_emailVerified t \<longrightarrow> field ''email_verified'' claims \<in> {Some (JBool True), Some (JStr ''true'')}) \<and>
    truthy (field ''sub'' claims) \<and> vt_sub t = js_string (the (field ''sub'' claims))"
  using assms
  by (auto simp: validateClaims_def Let_def nonceMatches_def list_ex_iff
      split: if_splits option.splits json.splits elim: truthy.elims)

text \<open>
  C14: a token is accepted only when its header names RS256 and a key id, a key with that id is among the
  cached keys of the provider's address and verifies the signature over header and payload, and the payload
  names a trusted issuer, one of the audiences, an expiry in the future and, where one is expected, the
  nonce or its hash.
\<close>

theorem accepted_token_is_genuine:
  assumes "fst (verify D idToken params w) = Inr t" "vp_nowSeconds params = None"
    "\<And>n e i s w. clock (snd (jd_rsaVerify D n e i s w)) = clock w"
  shows "\<exists>h p s header claims kid jwk w1 c. idToken = h @ ''.'' @ p @ ''.'' @ s \<and>
    jd_decodeJson D h = Some header \<and> field ''alg'' header = Some (JStr ''RS256'') \<and> field ''kid'' header = Some kid \<and>
    resolveKey D (vp_jwksUrl params) kid w = (Inr jwk, w1) \<and>
    jm_get (jwks_cache w1) (vp_jwksUrl params) = Some c \<and> jwk \<in> set (cj_keys c) \<and>
    fst (verifyRs256 D jwk (h @ ''.'' @ p) s w1) = Inr True \<and>
    jd_decodeJson D p = Some claims \<and>
    (\<exists>iss \<in> set (vp_issuers params). field ''iss'' claims = Some (JStr iss)) \<and>
    (\<exists>aud \<in> set (vp_audiences params). JStr aud \<in> set (token_audiences (field ''aud'' claims))) \<and>
    (\<exists>x. field ''exp'' claims = Some (JNum x) \<and> clock w1 div 1000 < x) \<and>
    (\<forall>e. vp_expectedNonce params = Some e \<longrightarrow> field ''nonce'' claims \<in> {Some (JStr e), Some (JStr (jd_sha256 D e))}) \<and>
    vt_sub t = js_string (the (field ''sub'' claims))"
proof -
  obtain h p s where seg: "split_char (CHR ''.'') idToken = [h, p, s]"
    using assms(1) by (auto simp: verify_def prog_simps split: list.splits)
  then have tok: "idToken = h @ ''.'' @ p @ ''.'' @ s" using join_split_char [of "CHR ''.''" idToken] by simp
  obtain header where header: "jd_decodeJson D h = Some header" "field ''alg'' header = Some (JStr ''RS256'')"
    and kid: "truthy (field ''kid'' header)"
    using assms(1) seg by (auto simp: verify_def ID_TOKEN_ALG_def prog_simps split: option.splits if_splits)
  then obtain kid where kid: "field ''kid'' header = Some kid" by (cases "field ''kid'' header") auto
  obtain jwk w1 where jwk: "resolveKey D (vp_jwksUrl params) kid w = (Inr jwk, w1)"
    using assms(1) seg header kid
    by (auto simp: verify_def ID_TOKEN_ALG_def prog_simps prod_eq_iff split: option.splits if_splits sum.splits)
  obtain w2 where ver: "verifyRs256 D jwk (h @ ''.'' @ p) s w1 = (Inr True, w2)"
    using assms(1) seg header kid jwk
    by (auto simp: verify_def ID_TOKEN_ALG_def prog_simps prod_eq_iff split: option.splits if_splits sum.splits)
  have "clock w2 = clock w1"
    using ver assms(3) by (auto simp: verifyRs256_def prog_simps split: if_splits) (metis snd_conv)
  then obtain claims where claims: "jd_decodeJson D p = Some claims"
    "validateClaims (jd_sha256 D) claims params (clock w1) = Inr t"
    using assms(1) seg header kid jwk ver
    by (auto simp: verify_def ID_TOKEN_ALG_def prog_simps split: option.splits if_splits sum.splits)
  obtain c where c: "jm_get (jwks_cache w1) (vp_jwksUrl params) = Some c" "jwk \<in> set (cj_keys c)"
    using resolveKey_cached [OF jwk] by blast
  have ver1: "fst (verifyRs256 D jwk (h @ ''.'' @ p) s w1) = Inr True" using ver by simp
  show ?thesis
    using tok header kid jwk c ver1 claims(1) validateClaims_sound [OF claims(2) assms(2)] by blast
qed

subsection \<open>Forged key ids do not become a fetch storm\<close>

text \<open>A provider that answers, with the fetches it has answered.\<close>

record fetch_world = jwks_world +
  fetched :: "string list"

definition answering :: "(string \<Rightarrow> json) \<Rightarrow> string \<Rightarrow> ('w fetch_world_scheme, json option) prog" where
  "answering body url = (\<lambda>w. (Inr (Some (body url)), w\<lparr>fetched := url # fetched w\<rparr>))"

definition fetches :: "string \<Rightarrow> 'w fetch_world_scheme \<Rightarrow> nat" where
  "fetches url w = length (filter (\<lambda>u. u = url) (fetched w))"

fun run_lookups ::
  "'w fetch_world_scheme jwks_deps \<Rightarrow> (int \<times> string \<times> json) list \<Rightarrow> 'w fetch_world_scheme \<Rightarrow> 'w fetch_world_scheme" where
  "run_lookups D [] w = w"
| "run_lookups D ((d, url, kid) # ls) w = run_lookups D ls (snd (resolveKey D url kid (tick d w)))"

text \<open>What may still be fetched in the window that opened at \<open>t\<close>: one reload and one forced reload.\<close>

definition reload_due :: "int \<Rightarrow> string \<Rightarrow> 'w jwks_world_scheme \<Rightarrow> nat" where
  "reload_due t url w = (case jm_get (jwks_cache w) url of Some c \<Rightarrow> if t \<le> cj_fetchedAtMs c then 0 else 1 | None \<Rightarrow> 1)"

definition force_due :: "int \<Rightarrow> string \<Rightarrow> 'w jwks_world_scheme \<Rightarrow> nat" where
  "force_due t url w = (case jm_get (lastForceRefreshAtMs w) url of Some f \<Rightarrow> if t \<le> f then 0 else 1 | None \<Rightarrow> 1)"

lemmas due_defs = reload_due_def force_due_def fetches_def

lemma getKeys_budget:
  fixes w :: "'w fetch_world_scheme" and u url :: string and force :: bool
  assumes "jd_fetch D = answering body" "\<And>u. body u \<noteq> JNull" "t \<le> clock w" "clock w - t < jd_cacheTtlMs D"
  defines "w' \<equiv> snd (getKeys D u force w)"
  shows "fetches url w' + reload_due t url w' \<le> fetches url w + reload_due t url w + (if force \<and> u = url then 1 else 0)"
    "force_due t url w' = force_due t url w" "clock w' = clock w"
proof -
  have r: "\<not> isl (fst (getKeys D u force w))"
    using assms(2) by (auto simp: getKeys_def fetchKeys_def prog_simps assms(1) answering_def Let_def split: option.splits)
  show "fetches url w' + reload_due t url w' \<le> fetches url w + reload_due t url w + (if force \<and> u = url then 1 else 0)"
    using assms(2-4)
    by (auto simp: w'_def getKeys_def fetchKeys_def prog_simps assms(1) answering_def due_defs Let_def split: option.splits)
  show "force_due t url w' = force_due t url w" "clock w' = clock w"
    using assms(2)
    by (auto simp: w'_def getKeys_def fetchKeys_def prog_simps assms(1) answering_def due_defs Let_def split: option.splits)
qed

lemma refetched_budget:
  fixes w :: "'w fetch_world_scheme" and u url :: string and kid :: json
  assumes "jd_fetch D = answering body" "\<And>u. body u \<noteq> JNull" "t \<le> clock w" "clock w - t < jd_cacheTtlMs D"
    "clock w - t < JWKS_FORCE_REFRESH_FLOOR_MS"
  defines "w' \<equiv> snd (refetched_key D u kid w)"
  shows "fetches url w' + reload_due t url w' + force_due t url w' \<le> fetches url w + reload_due t url w + force_due t url w"
    "clock w' = clock w"
proof -
  let ?v = "w\<lparr>lastForceRefreshAtMs := jm_set u (clock w) (lastForceRefreshAtMs w)\<rparr>"
  let ?refetch = "case jm_get (lastForceRefreshAtMs w) u of None \<Rightarrow> True | Some f \<Rightarrow> clock w - f \<ge> JWKS_FORCE_REFRESH_FLOOR_MS"
  have w': "w' = (if ?refetch then snd (getKeys D u True ?v) else w)"
    by (auto simp: w'_def refetched_key_def prog_simps split: sum.splits option.splits)
  note budget = getKeys_budget(1,2) [OF assms(1,2), of t ?v url u True] getKeys_budget(3) [OF assms(1,2), of t ?v u True]
  have same: "fetches url ?v = fetches url w" "reload_due t url ?v = reload_due t url w" by (simp_all add: due_defs)
  have force: "force_due t url ?v + (if u = url then 1 else 0) = force_due t url w" if ?refetch
    using that assms(3,5) by (auto simp: force_due_def split: option.splits)
  show "fetches url w' + reload_due t url w' + force_due t url w' \<le> fetches url w + reload_due t url w + force_due t url w"
    using budget assms(3,4) same force unfolding w' by (cases ?refetch) auto
  show "clock w' = clock w" using budget(3) assms(3,4) unfolding w' by (cases ?refetch) auto
qed

lemma resolve_budget:
  fixes w :: "'w fetch_world_scheme" and u url :: string and kid :: json
  assumes "jd_fetch D = answering body" "\<And>u. body u \<noteq> JNull" "t \<le> clock w" "clock w - t < jd_cacheTtlMs D"
    "clock w - t < JWKS_FORCE_REFRESH_FLOOR_MS"
  defines "w' \<equiv> snd (resolveKey D u kid w)"
  shows "fetches url w' + reload_due t url w' + force_due t url w' \<le> fetches url w + reload_due t url w + force_due t url w \<and>
    clock w' = clock w"
proof -
  let ?w1 = "snd (getKeys D u False w)"
  note one = getKeys_budget(1,2) [OF assms(1-4), of url u False] getKeys_budget(3) [OF assms(1-4), of u False]
  have "w' = ?w1 \<or> w' = snd (refetched_key D u kid ?w1)"
    by (auto simp: w'_def resolveKey_def prog_simps split: sum.splits option.splits)
  then show ?thesis
    using one refetched_budget(1) [OF assms(1,2), of t ?w1 url u kid] refetched_budget(2) [OF assms(1,2), of t ?w1 u kid] assms(3-5) by auto
qed

lemma lookups_budget:
  fixes w :: "'w fetch_world_scheme"
  assumes "jd_fetch D = answering body" "\<And>u. body u \<noteq> JNull" "JWKS_FORCE_REFRESH_FLOOR_MS \<le> jd_cacheTtlMs D"
    "t \<le> clock w" "list_all (\<lambda>l. 0 \<le> fst l) ls" "clock w + sum_list (map fst ls) < t + JWKS_FORCE_REFRESH_FLOOR_MS"
  shows "fetches url (run_lookups D ls w) \<le> fetches url w + reload_due t url w + force_due t url w"
  using assms(4-6)
proof (induction ls arbitrary: w)
  case (Cons l ls)
  obtain d u kid where l: "l = (d, u, kid)" by (cases l)
  let ?v = "tick d w" and ?w' = "snd (resolveKey D u kid (tick d w))"
  have nonneg: "0 \<le> sum_list (map fst ls)" using Cons.prems(2) by (auto simp: list_all_iff intro!: sum_list_nonneg)
  have time: "t \<le> clock ?v" "clock ?v - t < JWKS_FORCE_REFRESH_FLOOR_MS" "clock ?v - t < jd_cacheTtlMs D"
    using Cons.prems nonneg assms(3) by (auto simp: l)
  have same: "fetches url ?v = fetches url w" "reload_due t url ?v = reload_due t url w" "force_due t url ?v = force_due t url w"
    by (simp_all add: tick_def due_defs)
  note step = resolve_budget [OF assms(1,2) time(1,3,2), of url u kid]
  have "fetches url (run_lookups D ls ?w') \<le> fetches url ?w' + reload_due t url ?w' + force_due t url ?w'"
    using step Cons.prems time by (intro Cons.IH) (auto simp: l)
  then show ?case using step same by (simp add: l)
qed simp

text \<open>
  C32: any number of key lookups within one minute, for whatever key ids and addresses, fetches the key set
  of an address at most twice when the provider answers: one reload and one forced reload.
\<close>

theorem key_lookups_fetch_twice:
  fixes w :: "'w fetch_world_scheme"
  assumes "jd_fetch D = answering body" "\<forall>u. body u \<noteq> JNull" "JWKS_FORCE_REFRESH_FLOOR_MS \<le> jd_cacheTtlMs D"
    "list_all (\<lambda>l. 0 \<le> fst l) ls" "sum_list (map fst ls) < JWKS_FORCE_REFRESH_FLOOR_MS"
  shows "fetches url (run_lookups D ls w) \<le> fetches url w + 2"
proof -
  have "fetches url (run_lookups D ls w) \<le> fetches url w + reload_due (clock w) url w + force_due (clock w) url w"
    using assms by (intro lookups_budget [where body = body]) auto
  moreover have "reload_due (clock w) url w \<le> 1" "force_due (clock w) url w \<le> 1"
    by (auto simp: due_defs split: option.splits)
  ultimately show ?thesis by linarith
qed

subsection \<open>Witnesses\<close>

definition sample_jwks :: "unit fetch_world_scheme jwks_deps" where
  "sample_jwks = \<lparr>jd_fetch = answering (\<lambda>_. JObj [(''keys'', JArr [JObj [(''kid'', JStr ''k1''), (''kty'', JStr ''RSA''), (''n'', JStr ''n''), (''e'', JStr ''e'')]])]),
     jd_cacheTtlMs = JWKS_CACHE_TTL_MS,
     jd_decodeJson = (\<lambda>s. if s = ''h'' then Some (JObj [(''alg'', JStr ''RS256''), (''kid'', JStr ''k1'')])
        else if s = ''p'' then Some (JObj [(''iss'', JStr ''i''), (''aud'', JArr [JStr ''a'']), (''exp'', JNum 60), (''sub'', JStr ''s1'')])
        else None),
     jd_rsaVerify = (\<lambda>n e input sig. ret (sig = ''sig'')), jd_sha256 = (\<lambda>s. s)\<rparr>"

definition sample_jwks_world :: fetch_world where
  "sample_jwks_world = \<lparr>clock = 0, jwks_cache = [], lastForceRefreshAtMs = [], fetched = []\<rparr>"

definition sample_params :: verify_params where
  "sample_params = \<lparr>vp_jwksUrl = ''u'', vp_issuers = [''i''], vp_audiences = [''a''], vp_expectedNonce = None, vp_nowSeconds = None\<rparr>"

theorem key_lookups_fetch_twice_witness:
  "fetches ''u'' (run_lookups sample_jwks [(0, ''u'', JStr ''x''), (5, ''u'', JStr ''y''), (9, ''u'', JStr ''z'')] sample_jwks_world) \<le>
     fetches ''u'' sample_jwks_world + 2"
  by (rule key_lookups_fetch_twice [where body = "\<lambda>_. JObj [(''keys'', JArr [JObj [(''kid'', JStr ''k1''), (''kty'', JStr ''RSA''), (''n'', JStr ''n''), (''e'', JStr ''e'')]])]"])
    (simp_all add: sample_jwks_def JWKS_FORCE_REFRESH_FLOOR_MS_def JWKS_CACHE_TTL_MS_def)

theorem accepted_token_is_genuine_witness:
  "\<exists>claims t. jd_decodeJson sample_jwks ''p'' = Some claims \<and> fst (verify sample_jwks ''h.p.sig'' sample_params sample_jwks_world) = Inr t \<and>
     vt_sub t = js_string (the (field ''sub'' claims))"
proof -
  let ?t = "\<lparr>vt_sub = ''s1'', vt_email = None, vt_emailVerified = False, vt_name = None, vt_picture = None\<rparr>"
  have run: "fst (verify sample_jwks ''h.p.sig'' sample_params sample_jwks_world) = Inr ?t" by code_simp
  have clock: "clock (snd (jd_rsaVerify sample_jwks n e i s w)) = clock w" for n e i s w
    by (simp add: sample_jwks_def prog_simps)
  from accepted_token_is_genuine [OF run _ clock] run show ?thesis
    by (fastforce simp: sample_params_def sample_jwks_def split: if_splits)
qed

end
