(* ===== verification/Slur_Filter.thy ===== *)
theory Slur_Filter
  imports Prelude "HOL-Library.Sublist"
begin

section \<open>The slur filter (\<open>abuse/slur-filter.ts\<close>)\<close>

text \<open>
  The word patterns, the two deobfuscation passes and the check built on them.  A regular expression is
  modelled by the positions a match can end at, a position being the suffix of the text still to be read.
  Unicode's decomposition and its mark and format classes are the tables of the record \<open>unicode\<close>;
  letter case is ASCII, as everywhere in the development.
\<close>

record unicode =
  nfkd :: "string \<Rightarrow> string"
  is_mark :: "char \<Rightarrow> bool"
  is_format :: "char \<Rightarrow> bool"

subsection \<open>Word patterns\<close>

definition SLUR_BASES :: "string list" where
  "SLUR_BASES =
     [''nigger'', ''nigga'', ''chink'', ''gook'', ''spic'', ''wetback'', ''kike'', ''coon'', ''beaner'', ''wop'',
      ''paki'', ''kyke'', ''faggot'', ''fag'', ''dyke'', ''tranny'', ''shemale'', ''retard'', ''retarded'']"

definition is_letter :: "char \<Rightarrow> bool" where
  "is_letter c \<longleftrightarrow> (let n = (of_char (lower_char c) :: nat) in 97 \<le> n \<and> n \<le> 122)"

definition is_alnum :: "char \<Rightarrow> bool" where
  "is_alnum c \<longleftrightarrow> is_letter c \<or> is_digit c"

definition is_word :: "char \<Rightarrow> bool" where
  "is_word c \<longleftrightarrow> is_alnum c \<or> c = CHR ''_''"

text \<open>The maximal runs of equal letters: the matches of \<open>/(.)\1*/g\<close>.\<close>

function letter_runs :: "string \<Rightarrow> (char \<times> nat) list" where
  "letter_runs [] = []"
| "letter_runs (c # cs) =
     (c, Suc (length (takeWhile (\<lambda>x. x = c) cs))) # letter_runs (dropWhile (\<lambda>x. x = c) cs)"
  by pat_completeness auto
termination
  by (relation "measure length") (auto simp: le_imp_less_Suc length_dropWhile_le)

text \<open>\<open>x{k,}\<close>: the positions after \<open>k\<close> or more copies of \<open>x\<close>; \<open>x+\<close> is \<open>k = 1\<close>.\<close>

definition eat :: "char \<Rightarrow> nat \<Rightarrow> string \<Rightarrow> string list" where
  "eat c k s = map (\<lambda>j. drop j s) [k ..< Suc (length (takeWhile (\<lambda>x. x = c) s))]"

fun match_runs :: "(char \<times> nat) list \<Rightarrow> string \<Rightarrow> string list" where
  "match_runs [] s = [s]"
| "match_runs ((c, k) # rs) s = concat (map (match_runs rs) (eat c k s))"

text \<open>\<open>(?:e?s)?\<close>\<close>

definition match_plural :: "string \<Rightarrow> string list" where
  "match_plural s =
     (case s of
        [] \<Rightarrow> []
      | c # t \<Rightarrow>
          (if c = CHR ''s'' then [t] else []) @
          (case t of [] \<Rightarrow> [] | d # u \<Rightarrow> if c = CHR ''e'' \<and> d = CHR ''s'' then [u] else [])) @ [s]"

text \<open>\<open>\b\<close> at the position of \<open>text\<close> where the suffix \<open>s\<close> starts.\<close>

definition boundary :: "string \<Rightarrow> string \<Rightarrow> bool" where
  "boundary text s \<longleftrightarrow>
     (let i = length text - length s
      in (0 < i \<and> is_word (text ! (i - 1))) \<noteq> (s \<noteq> [] \<and> is_word (hd s)))"

definition test_pattern :: "(char \<times> nat) list \<Rightarrow> string \<Rightarrow> bool" where
  "test_pattern pattern raw =
     (let text = toLowerCase raw
      in list_ex (\<lambda>s. boundary text s \<and>
           list_ex (\<lambda>r. list_ex (boundary text) (match_plural r)) (match_runs pattern s)) (suffixes text))"

definition buildPatterns :: "string list \<Rightarrow> (char \<times> nat) list list" where
  "buildPatterns bases = map letter_runs bases"

definition RAW_PATTERNS :: "(char \<times> nat) list list" where
  "RAW_PATTERNS = buildPatterns SLUR_BASES"

subsection \<open>Deobfuscation\<close>

definition DIGIT_LEET :: "char \<Rightarrow> char option" where
  "DIGIT_LEET = map_of [(CHR ''0'', CHR ''o''), (CHR ''1'', CHR ''i''), (CHR ''3'', CHR ''e''),
                        (CHR ''4'', CHR ''a''), (CHR ''5'', CHR ''s'')]"

definition SYMBOL_LEET :: "char \<Rightarrow> char option" where
  "SYMBOL_LEET = map_of [(CHR ''!'', CHR ''i''), (CHR ''|'', CHR ''i''), (CHR ''@'', CHR ''a'')]"

text \<open>The loop over the characters; \<open>prev\<close> is the character before the current one.\<close>

fun deLeet_from :: "char option \<Rightarrow> string \<Rightarrow> string" where
  "deLeet_from prev [] = []"
| "deLeet_from prev (ch # s) =
     (case SYMBOL_LEET ch of
        Some symbol \<Rightarrow> symbol
      | None \<Rightarrow>
          (case DIGIT_LEET ch of
             Some digit \<Rightarrow>
               if (case prev of None \<Rightarrow> False | Some p \<Rightarrow> is_letter p) \<or> (s \<noteq> [] \<and> is_letter (hd s)) then digit else ch
           | None \<Rightarrow> ch)) # deLeet_from (Some ch) s"

definition deLeet :: "string \<Rightarrow> string" where
  "deLeet s = deLeet_from None s"

definition is_separator :: "char \<Rightarrow> bool" where
  "is_separator c \<longleftrightarrow> c \<in> {CHR ''.'', CHR ''_'', CHR ''-'', CHR ''*''}"

definition starts_alnum :: "string \<Rightarrow> bool" where
  "starts_alnum s \<longleftrightarrow> s \<noteq> [] \<and> is_alnum (hd s)"

text \<open>One \<open>replace(SEPARATOR_BETWEEN_CHARS_RE, "$1$2")\<close>: matches are leftmost and do not overlap.\<close>

function collapse_once :: "string \<Rightarrow> string" where
  "collapse_once [] = []"
| "collapse_once (c # cs) =
     (let rest = dropWhile is_separator cs
      in if is_alnum c \<and> cs \<noteq> [] \<and> is_separator (hd cs) \<and> starts_alnum rest
         then c # hd rest # collapse_once (tl rest)
         else c # collapse_once cs)"
  by pat_completeness auto
termination
  by (relation "measure length")
    (auto simp: le_imp_less_Suc length_dropWhile_le less_imp_diff_less intro!: le_imp_less_Suc le_trans [OF diff_le_self])

lemma collapse_once_length: "length (collapse_once s) \<le> length s \<and> (length (collapse_once s) = length s \<longrightarrow> collapse_once s = s)"
proof (induction s rule: collapse_once.induct)
  case (2 c cs)
  let ?rest = "dropWhile is_separator cs"
  show ?case
  proof (cases "is_alnum c \<and> cs \<noteq> [] \<and> is_separator (hd cs) \<and> starts_alnum ?rest")
    case True
    then have "length ?rest < length cs" "?rest \<noteq> []"
      by (cases cs; auto simp: le_imp_less_Suc length_dropWhile_le starts_alnum_def)+
    then have "length ?rest = Suc (length (tl ?rest))" by (cases ?rest) auto
    then have "length (collapse_once (c # cs)) < length (c # cs)"
      using 2(1) [OF refl True] True \<open>length ?rest < length cs\<close> by (simp add: Let_def del: length_tl)
    then show ?thesis by simp
  next
    case False
    then show ?thesis using 2(2) [OF refl False] by (auto simp: Let_def)
  qed
qed simp

text \<open>The \<open>do \<dots> while (collapsed !== prev)\<close> loop; each round but the last shortens the text.\<close>

function collapse_separators :: "string \<Rightarrow> string" where
  "collapse_separators prev =
     (let collapsed = collapse_once prev in if collapsed = prev then collapsed else collapse_separators collapsed)"
  by pat_completeness auto
termination
proof (relation "measure length")
  fix prev collapsed :: string
  assume "collapsed = collapse_once prev" "collapsed \<noteq> prev"
  then show "(collapsed, prev) \<in> measure length"
    using collapse_once_length [of prev] by (auto simp: le_less)
qed simp

declare collapse_separators.simps [simp del]

text \<open>\<open>(?: [a-z0-9])+\<close> read greedily: the characters and the rest.\<close>

fun spaced_tail :: "string \<Rightarrow> string \<times> string" where
  "spaced_tail (b # c # s) =
     (if b = CHR '' '' \<and> is_alnum c
      then (case spaced_tail s of (cs, rest) \<Rightarrow> (c # cs, rest))
      else ([], b # c # s))"
| "spaced_tail s = ([], s)"

text \<open>The final \<open>\b\<close>: when a word character follows, the last repetition is given back.\<close>

definition spaced_run :: "string \<Rightarrow> string \<times> string" where
  "spaced_run s =
     (case spaced_tail s of (cs, rest) \<Rightarrow>
        if rest \<noteq> [] \<and> is_word (hd rest) \<and> cs \<noteq> [] then (butlast cs, CHR '' '' # last cs # rest) else (cs, rest))"

lemma spaced_tail_length: "2 * length (fst (spaced_tail s)) + length (snd (spaced_tail s)) = length s"
  by (induction s rule: spaced_tail.induct) (auto split: prod.splits)

lemma spaced_run_length: "length (snd (spaced_run s)) \<le> length s"
proof -
  obtain cs rest where "spaced_tail s = (cs, rest)" by fastforce
  with spaced_tail_length [of s] show ?thesis by (cases cs) (auto simp: spaced_run_def)
qed

function collapse_spaced :: "char option \<Rightarrow> string \<Rightarrow> string" where
  "collapse_spaced prev [] = []"
| "collapse_spaced prev (c # s) =
     (case spaced_run s of (cs, rest) \<Rightarrow>
        if is_alnum c \<and> (case prev of None \<Rightarrow> True | Some p \<Rightarrow> \<not> is_word p) \<and> cs \<noteq> []
        then c # cs @ collapse_spaced (Some (last cs)) rest
        else c # collapse_spaced (Some c) s)"
  by pat_completeness auto
termination
  apply (relation "measure (\<lambda>(_, s). length s)")
  apply simp
  subgoal for prev c s cs rest
    using spaced_run_length [of s] by (auto simp: le_imp_less_Suc dest: sym)
  by simp

definition deobfuscate :: "string \<Rightarrow> string" where
  "deobfuscate text = collapse_spaced None (collapse_separators (deLeet text))"

subsection \<open>The check\<close>

definition SLUR_MESSAGE :: string where
  "SLUR_MESSAGE = ''This contains language that isn't allowed.''"

definition slur_with :: "(char \<times> nat) list list \<Rightarrow> unicode \<Rightarrow> string option \<Rightarrow> bool" where
  "slur_with patterns U text =
     (case text of
        None \<Rightarrow> False
      | Some t \<Rightarrow>
          (let normalized = toLowerCase (nfkd U t)
           in if trim normalized = [] then False
              else (let stripped = filter (\<lambda>c. \<not> is_format U c) (filter (\<lambda>c. \<not> is_mark U c) normalized);
                        variants = [normalized, deobfuscate normalized, stripped, deobfuscate stripped]
                    in list_ex (\<lambda>variant. list_ex (\<lambda>pattern. test_pattern pattern variant) patterns) variants)))"

definition containsSlur :: "unicode \<Rightarrow> string option \<Rightarrow> bool" where
  "containsSlur U text = slur_with RAW_PATTERNS U text"

definition assertNoSlur :: "unicode \<Rightarrow> string option \<Rightarrow> string \<Rightarrow> ('w, unit) prog" where
  "assertNoSlur U text field =
     (if containsSlur U text then raise (ValidationErr [(field, SLUR_MESSAGE)] None) else ret ())"

subsection \<open>The two pattern forms accept the same strings\<close>

lemma eat_Suc: "set (eat c (Suc k) s) = (\<Union>t \<in> set (eat c 1 s). set (eat c k t))"
proof -
  have *: "takeWhile (\<lambda>x. x = c) (drop j s) = drop j (takeWhile (\<lambda>x. x = c) s)"
    if "j \<le> length (takeWhile (\<lambda>x. x = c) s)" for j
    using that by (induction s arbitrary: j) (auto simp: drop_Cons' split: if_splits)
  show ?thesis
  proof (intro set_eqI iffI, goal_cases)
    case (1 t)
    then obtain j where j: "Suc k \<le> j" "j \<le> length (takeWhile (\<lambda>x. x = c) s)" "t = drop j s"
      by (auto simp: eat_def less_Suc_eq_le simp del: upt_Suc)
    with * [of 1] have "t \<in> set (eat c k (drop 1 s))"
      by (auto simp: eat_def less_Suc_eq_le image_iff simp del: upt_Suc intro!: bexI [of _ "j - 1"])
    moreover have "drop 1 s \<in> set (eat c 1 s)"
      using j by (auto simp: eat_def less_Suc_eq_le simp del: upt_Suc)
    ultimately show ?case by blast
  next
    case (2 t)
    then obtain i j where "1 \<le> i" "i \<le> length (takeWhile (\<lambda>x. x = c) s)" "k \<le> j"
      "j \<le> length (takeWhile (\<lambda>x. x = c) (drop i s))" "t = drop j (drop i s)"
      by (auto simp: eat_def less_Suc_eq_le simp del: upt_Suc)
    then show ?case using * [of i]
      by (auto simp: eat_def less_Suc_eq_le image_iff simp del: upt_Suc intro!: bexI [of _ "j + i"])
  qed
qed

lemma match_runs_split:
  "set (match_runs ((c, Suc k) # rs) s) = (\<Union>t \<in> set (eat c 1 s). set (match_runs ((c, k) # rs) t))"
  using eat_Suc [of c k s] by auto

lemma match_plus_run:
  "set (match_runs (map (\<lambda>x. (x, 1)) (replicate (Suc n) c) @ rs) s) = set (match_runs ((c, Suc n) # rs) s)"
proof (induction n arbitrary: s)
  case (Suc n)
  have "set (match_runs (map (\<lambda>x. (x, 1)) (replicate (Suc (Suc n)) c) @ rs) s) =
    (\<Union>t \<in> set (eat c 1 s). set (match_runs (map (\<lambda>x. (x, 1)) (replicate (Suc n) c) @ rs) t))"
    by simp
  also have "\<dots> = set (match_runs ((c, Suc (Suc n)) # rs) s)"
    by (simp only: Suc match_runs_split [of c "Suc n"])
  finally show ?case .
qed simp

lemma letter_runs_plus: "set (match_runs (letter_runs base) s) = set (match_runs (map (\<lambda>c. (c, 1)) base) s)"
proof (induction base arbitrary: s rule: letter_runs.induct)
  case (2 c cs)
  let ?n = "length (takeWhile (\<lambda>x. x = c) cs)" and ?rest = "dropWhile (\<lambda>x. x = c) cs"
  have rep: "takeWhile (\<lambda>x. x = c) cs = replicate ?n c"
    by (induction cs) auto
  have "c # cs = replicate (Suc ?n) c @ ?rest"
    by (metis rep append_Cons replicate_Suc takeWhile_dropWhile_id)
  then have "set (match_runs (map (\<lambda>x. (x, 1)) (c # cs)) s) =
      set (match_runs ((c, Suc ?n) # map (\<lambda>x. (x, 1)) ?rest) s)"
    using match_plus_run [of ?n c "map (\<lambda>x. (x, 1)) ?rest" s] by (metis map_append)
  also have "\<dots> = set (match_runs ((c, Suc ?n) # letter_runs ?rest) s)"
    by (simp add: 2)
  finally show ?case by simp
qed simp

lemma list_ex_cong_set: "set xs = set ys \<Longrightarrow> list_ex P xs = list_ex P ys"
  by (simp add: list_ex_iff)

lemma test_pattern_plus: "test_pattern (letter_runs base) text = test_pattern (map (\<lambda>c. (c, 1)) base) text"
  unfolding test_pattern_def Let_def
  by (intro list_ex_cong refl conj_cong list_ex_cong_set letter_runs_plus)

text \<open>
  C33: the patterns with one counted term \<open>x{k,}\<close> for a run of equal letters decide every text as the plain
  patterns do that have one term \<open>x+\<close> for each letter.
\<close>

theorem counted_patterns_equiv:
  "containsSlur U text = slur_with (map (map (\<lambda>c. (c, 1))) SLUR_BASES) U text"
  by (simp add: containsSlur_def slur_with_def RAW_PATTERNS_def buildPatterns_def list_ex_iff test_pattern_plus
      split: option.split)

subsection \<open>Separators\<close>

text \<open>What the repeated replacement amounts to: every run of separators between two characters goes.\<close>

function strip_separators :: "string \<Rightarrow> string" where
  "strip_separators [] = []"
| "strip_separators (c # cs) =
     (if is_alnum c \<and> starts_alnum (dropWhile is_separator cs)
      then c # strip_separators (dropWhile is_separator cs) else c # strip_separators cs)"
  by pat_completeness auto
termination
  by (relation "measure length") (auto simp: le_imp_less_Suc length_dropWhile_le)

lemma alnum_not_separator: "is_alnum c \<Longrightarrow> \<not> is_separator c"
  by (auto simp: is_alnum_def is_separator_def is_letter_def is_digit_def lower_char_def Let_def)

lemma starts_alnum_collapse: "starts_alnum (collapse_once s) = starts_alnum s"
  by (cases s) (auto simp: starts_alnum_def Let_def)

lemma dropWhile_collapse: "dropWhile is_separator (collapse_once s) = collapse_once (dropWhile is_separator s)"
  by (induction s) (auto simp: Let_def dest: alnum_not_separator)

lemma strip_collapse_once: "strip_separators (collapse_once s) = strip_separators s"
proof (induction s rule: length_induct)
  case (1 s)
  have IH: "strip_separators (collapse_once t) = strip_separators t" if "length t < length s" for t
    using 1 that by blast
  have step: "strip_separators (d # collapse_once t) = strip_separators (d # t)" if "length t < length s" for d t
    using IH [OF that] IH [of "dropWhile is_separator t"] that length_dropWhile_le [of is_separator t]
    by (simp add: dropWhile_collapse starts_alnum_collapse)
  show ?case
  proof (cases s)
    case (Cons c cs)
    let ?rest = "dropWhile is_separator cs"
    show ?thesis
    proof (cases "is_alnum c \<and> cs \<noteq> [] \<and> is_separator (hd cs) \<and> starts_alnum ?rest")
      case True
      then obtain d t where rest: "?rest = d # t" and d: "is_alnum d" by (cases ?rest) (auto simp: starts_alnum_def)
      have "length t < length s" using rest length_dropWhile_le [of is_separator cs] Cons by simp
      then show ?thesis
        using True Cons step [of t d] rest d alnum_not_separator [OF d] by (simp add: Let_def starts_alnum_def)
    next
      case False
      then have "collapse_once s = c # collapse_once cs" using Cons by (auto simp: Let_def)
      then show ?thesis using step [of cs c] Cons by simp
    qed
  qed simp
qed

lemma strip_fixpoint: "collapse_once s = s \<Longrightarrow> strip_separators s = s"
proof (induction s)
  case (Cons c cs)
  let ?rest = "dropWhile is_separator cs"
  have not: "\<not> (is_alnum c \<and> cs \<noteq> [] \<and> is_separator (hd cs) \<and> starts_alnum ?rest)"
  proof
    assume a: "is_alnum c \<and> cs \<noteq> [] \<and> is_separator (hd cs) \<and> starts_alnum ?rest"
    then have "hd ?rest = hd cs" using Cons.prems by (cases cs) (auto simp: Let_def)
    with a show False using alnum_not_separator [of "hd cs"] by (auto simp: starts_alnum_def)
  qed
  then have cs: "collapse_once cs = cs" using Cons.prems by (auto simp: Let_def)
  have "?rest = cs" if "is_alnum c" "starts_alnum ?rest"
    using not that by (cases cs) auto
  then show ?case using Cons.IH [OF cs] by auto
qed simp

lemma collapse_is_strip: "collapse_separators s = strip_separators s"
proof (induction s rule: collapse_separators.induct)
  case (1 s)
  show ?case
    by (subst collapse_separators.simps) (use 1 strip_collapse_once [of s] strip_fixpoint [of s] in \<open>auto simp: Let_def\<close>)
qed

text \<open>
  the loop that repeats the replacement until nothing changes ends, and its result is the text with
  every run of separators between two letters or digits removed.
\<close>

theorem collapse_separators_equiv: "collapse_separators s = strip_separators s"
  by (rule collapse_is_strip)

subsection \<open>Separators do not hide a word\<close>

fun spread :: "string \<Rightarrow> string list \<Rightarrow> string" where
  "spread (c # d # cs) (g # gs) = c # g @ spread (d # cs) gs"
| "spread cs gs = cs"

definition base_ok :: "string \<Rightarrow> bool" where
  "base_ok base \<longleftrightarrow> base \<noteq> [] \<and> list_all (\<lambda>c. is_letter c \<and> lower_char c = c) base"

lemma slur_bases_ok: "list_all base_ok SLUR_BASES"
  unfolding SLUR_BASES_def by (simp add: base_ok_def is_letter_def lower_char_def)

lemma letter_not_leet: "SYMBOL_LEET c \<noteq> None \<or> DIGIT_LEET c \<noteq> None \<or> c = CHR '' '' \<Longrightarrow> \<not> is_letter c"
proof -
  assume a: "SYMBOL_LEET c \<noteq> None \<or> DIGIT_LEET c \<noteq> None \<or> c = CHR '' ''"
  have "list_all (\<lambda>c. \<not> is_letter c) ''!|@01345 ''" by code_simp
  moreover have "c \<in> set ''!|@01345 ''" using a by (auto simp: SYMBOL_LEET_def DIGIT_LEET_def split: if_splits)
  ultimately show ?thesis unfolding list_all_iff by blast
qed

lemma letter_not_space: "is_letter c \<Longrightarrow> \<not> is_space c"
proof
  assume "is_letter c" "is_space c"
  then have "(of_char c :: nat) \<le> 32" "lower_char c = c" by (auto simp: is_space_def lower_char_def Let_def)
  with \<open>is_letter c\<close> show False by (simp add: is_letter_def Let_def)
qed

lemma letter_props:
  assumes "is_letter c"
  shows "SYMBOL_LEET c = None" "DIGIT_LEET c = None" "c \<noteq> CHR '' ''" "\<not> is_space c" "is_alnum c" "\<not> is_separator c"
  using assms letter_not_leet letter_not_space alnum_not_separator unfolding is_alnum_def by blast+

lemma separator_props: "is_separator c \<Longrightarrow> SYMBOL_LEET c = None \<and> DIGIT_LEET c = None"
  by (auto simp: is_separator_def) code_simp+

lemma deLeet_plain:
  "list_all (\<lambda>c. SYMBOL_LEET c = None \<and> DIGIT_LEET c = None) s \<Longrightarrow> deLeet_from p s = s"
  by (induction s arbitrary: p) auto

lemma set_spread: "set (spread cs gs) \<subseteq> set cs \<union> \<Union> (set ` set gs)"
  by (induction cs gs rule: spread.induct) auto

lemma strip_letters: "list_all is_letter cs \<Longrightarrow> strip_separators cs = cs"
proof (induction cs)
  case (Cons c cs)
  have "dropWhile is_separator cs = cs"
    using Cons.prems letter_props alnum_not_separator by (cases cs) auto
  then show ?case using Cons by auto
qed simp

lemma strip_spread:
  assumes "list_all is_letter cs" "list_all (list_all is_separator) gs"
  shows "strip_separators (spread cs gs) = cs"
  using assms
proof (induction cs gs rule: spread.induct [case_names step nil one rest])
  case (step c d cs g gs)
  have hd: "\<exists>t. spread (d # cs) gs = d # t" by (cases cs; cases gs) auto
  have "dropWhile is_separator (g @ spread (d # cs) gs) = spread (d # cs) gs"
    using step(3) hd step(2) alnum_not_separator [of d] letter_props [of d]
    by (auto simp: list_all_iff dropWhile_append)
  then show ?case using step hd letter_props [of c] letter_props [of d] by (auto simp: starts_alnum_def)
next
  case (rest cs)
  then show ?case by (simp add: strip_letters del: strip_separators.simps)
qed (simp_all add: starts_alnum_def)

lemma collapse_spaced_plain: "CHR '' '' \<notin> set s \<Longrightarrow> collapse_spaced p s = s"
proof (induction s arbitrary: p)
  case (Cons c s)
  have "spaced_tail s = ([], s)" using Cons.prems by (cases s rule: spaced_tail.cases) auto
  then show ?case using Cons by (auto simp: spaced_run_def)
qed simp

lemma match_self: "[] \<in> set (match_runs (map (\<lambda>c. (c, 1)) base) base)"
  by (induction base) (auto simp: eat_def less_Suc_eq_le image_iff simp del: upt_Suc intro!: bexI [of _ 1])

lemma test_self:
  assumes "base_ok base"
  shows "test_pattern (letter_runs base) base"
proof -
  have low: "toLowerCase base = base" using assms by (auto simp: base_ok_def toLowerCase_def list_all_iff intro!: map_idI)
  have word: "\<forall>c \<in> set base. is_word c" using assms letter_props by (auto simp: base_ok_def is_word_def list_all_iff)
  have ends: "boundary base base" "boundary base []" using assms word by (auto simp: boundary_def base_ok_def)
  have m: "[] \<in> set (match_runs (letter_runs base) base)" using match_self by (simp add: letter_runs_plus)
  have "list_ex (boundary base) (match_plural [])" using ends(2) by (simp add: match_plural_def)
  then have "list_ex (\<lambda>r. list_ex (boundary base) (match_plural r)) (match_runs (letter_runs base) base)"
    using m unfolding list_ex_iff by blast
  moreover have "base \<in> set (suffixes base)" by simp
  ultimately show ?thesis using ends(1) low unfolding test_pattern_def Let_def list_ex_iff by metis
qed

lemma deobfuscate_spread:
  assumes "base_ok base" "list_all (list_all is_separator) gaps"
  shows "deobfuscate (spread base gaps) = base"
proof -
  have letters: "list_all is_letter base" using assms(1) by (auto simp: base_ok_def list_all_iff)
  have "list_all (\<lambda>c. SYMBOL_LEET c = None \<and> DIGIT_LEET c = None) (spread base gaps)"
    using set_spread [of base gaps] letters assms(2) letter_props separator_props by (fastforce simp: list_all_iff)
  then have "deLeet (spread base gaps) = spread base gaps" unfolding deLeet_def by (rule deLeet_plain)
  moreover have "collapse_spaced None base = base"
    using letters letter_props by (intro collapse_spaced_plain) (auto simp: list_all_iff)
  ultimately show ?thesis
    using strip_spread [OF letters assms(2)] by (simp add: deobfuscate_def collapse_is_strip)
qed

lemma trim_Nil: "trim s = [] \<Longrightarrow> \<forall>c \<in> set s. is_space c"
  by (auto simp: trim_def trimStart_def trimEnd_def dropWhile_eq_Nil_conv) (metis Un_iff set_append takeWhile_dropWhile_id set_takeWhileD)

text \<open>
  a listed word is found whatever separators stand between its letters and whatever the case, when
  Unicode decomposition leaves the text as it is.
\<close>

theorem spread_slur_detected:
  assumes "base \<in> set SLUR_BASES" "list_all (list_all is_separator) gaps"
    "toLowerCase (nfkd U text) = spread base gaps"
  shows "containsSlur U (Some text)"
proof -
  have ok: "base_ok base" using assms(1) slur_bases_ok by (simp add: list_all_iff)
  obtain c t where c: "spread base gaps = c # t" "is_letter c"
    using ok by (cases base; cases gaps; cases "tl base") (auto simp: base_ok_def)
  then have "trim (spread base gaps) \<noteq> []" using trim_Nil letter_props by fastforce
  moreover have "letter_runs base \<in> set RAW_PATTERNS"
    using assms(1) by (simp add: RAW_PATTERNS_def buildPatterns_def)
  ultimately show ?thesis
    using test_self [OF ok] deobfuscate_spread [OF ok assms(2)] assms(3)
    by (auto simp: containsSlur_def slur_with_def Let_def list_ex_iff)
qed

theorem spread_slur_detected_witness:
  "containsSlur \<lparr>nfkd = (\<lambda>s. s), is_mark = (\<lambda>_. False), is_format = (\<lambda>_. False)\<rparr> (Some ''W.o--P'')"
  by (rule spread_slur_detected [of "''wop''" "[''.'', ''--'']"]) code_simp+

end
