(* ===== verification/OAuth_Service.thy ===== *)
theory OAuth_Service
  imports Auth_Stores Jwks Slur_Filter
begin

section \<open>Provider sign-in (\<open>auth/oauth.ts\<close>)\<close>

text \<open>
  Signing in with Google and Apple: the web redirect flows, the identity-token flows, and the rule that
  decides which account an identity belongs to.  The OAuth client library (authorization URLs, the code
  exchange, random state), the URL parser, base64, the contract's white-space folding and the token verifier are
  fields of \<open>oauth_deps\<close>; \<open>Jwks.verify\<close> is the verifier the constructor defaults to.
\<close>

subsection \<open>Configuration\<close>

definition GOOGLE_ISSUERS :: "string list" where
  "GOOGLE_ISSUERS = [''https://accounts.google.com'', ''accounts.google.com'']"
definition GOOGLE_JWKS_URL :: string where "GOOGLE_JWKS_URL = ''https://www.googleapis.com/oauth2/v3/certs''"
definition APPLE_ISSUER :: string where "APPLE_ISSUER = ''https://appleid.apple.com''"
definition APPLE_JWKS_URL :: string where "APPLE_JWKS_URL = ''https://appleid.apple.com/auth/keys''"
definition GOOGLE_WEB_SCOPES :: "string list" where "GOOGLE_WEB_SCOPES = [''openid'', ''email'', ''profile'']"
definition APPLE_WEB_SCOPES :: "string list" where "APPLE_WEB_SCOPES = [''name'', ''email'']"
definition APPLE_RESPONSE_MODE :: string where "APPLE_RESPONSE_MODE = ''form_post''"
definition APPLE_FALLBACK_DISPLAY_NAME :: string where "APPLE_FALLBACK_DISPLAY_NAME = ''Apple user''"
definition GOOGLE_FALLBACK_DISPLAY_NAME :: string where "GOOGLE_FALLBACK_DISPLAY_NAME = ''Google user''"
definition PROVIDER_GOOGLE :: string where "PROVIDER_GOOGLE = ''google''"
definition PROVIDER_APPLE :: string where "PROVIDER_APPLE = ''apple''"
definition MAX_PROVIDER_DISPLAY_NAME_LENGTH :: nat where "MAX_PROVIDER_DISPLAY_NAME_LENGTH = 80"
definition UNVERIFIED_ACCOUNT_EXISTS_MESSAGE :: string where
  "UNVERIFIED_ACCOUNT_EXISTS_MESSAGE =
     ''An account already uses this email address. Sign in the way you did before, or contact support.''"

record google_config =
  gc_clientId :: string
  gc_clientSecret :: string
  gc_redirectUri :: string
  gc_extraAudiences :: "string list option"

record apple_config =
  ac_clientId :: string
  ac_teamId :: string
  ac_keyId :: string
  ac_privateKey :: string
  ac_redirectUri :: string
  ac_webClientId :: "string option"
  ac_extraAudiences :: "string list option"

text \<open>What the client library is constructed from; for Apple the web client id and the decoded key.\<close>

record apple_client =
  al_clientId :: string
  al_teamId :: string
  al_keyId :: string
  al_key :: string
  al_redirectUri :: string

record 'w oauth_deps =
  oa_google :: "google_config option"
  oa_apple :: "apple_config option"
  oa_store :: "'w identity_store"
  oa_users :: "'w user_store"
  oa_verify :: "string \<Rightarrow> verify_params \<Rightarrow> ('w, verified_id_token) prog"
  oa_generateState :: "('w, string) prog"
  oa_generateCodeVerifier :: "('w, string) prog"
  oa_googleUrl :: "google_config \<Rightarrow> string \<Rightarrow> string \<Rightarrow> string list \<Rightarrow> string"
  oa_appleUrl :: "apple_client \<Rightarrow> string \<Rightarrow> string list \<Rightarrow> (string \<times> string) list \<Rightarrow> string"
  oa_googleExchange :: "google_config \<Rightarrow> string \<Rightarrow> string \<Rightarrow> ('w, string option) prog"
  oa_appleExchange :: "apple_client \<Rightarrow> string \<Rightarrow> ('w, string option) prog"
  oa_base64 :: "string \<Rightarrow> string"
  oa_urlProtocol :: "string \<Rightarrow> string option"
  oa_collapseWhitespace :: "string \<Rightarrow> string"
  oa_unicode :: unicode

definition googleEnabled :: "'w oauth_deps \<Rightarrow> bool" where
  "googleEnabled D \<longleftrightarrow> oa_google D \<noteq> None"

definition appleEnabled :: "'w oauth_deps \<Rightarrow> bool" where
  "appleEnabled D \<longleftrightarrow> oa_apple D \<noteq> None"

definition appleWebEnabled :: "'w oauth_deps \<Rightarrow> bool" where
  "appleWebEnabled D \<longleftrightarrow> (case oa_apple D of None \<Rightarrow> False | Some a \<Rightarrow> ac_webClientId a \<noteq> None)"

definition requireGoogleConfig :: "'w oauth_deps \<Rightarrow> ('w, google_config) prog" where
  "requireGoogleConfig D =
     (case oa_google D of
        None \<Rightarrow> raise (ValidationErr [] (Some ''Google sign-in is not configured.''))
      | Some g \<Rightarrow> ret g)"

definition requireAppleConfig :: "'w oauth_deps \<Rightarrow> ('w, apple_config) prog" where
  "requireAppleConfig D =
     (case oa_apple D of
        None \<Rightarrow> raise (ValidationErr [] (Some ''Apple sign-in is not configured.''))
      | Some a \<Rightarrow> ret a)"

text \<open>\<open>!apple?.webClientId\<close> also refuses an empty client id.\<close>

definition requireAppleWebConfig :: "'w oauth_deps \<Rightarrow> ('w, apple_config \<times> string) prog" where
  "requireAppleWebConfig D =
     (case oa_apple D of
        Some a \<Rightarrow>
          (case ac_webClientId a of
             Some i \<Rightarrow> if i \<noteq> [] then ret (a, i)
                       else raise (ValidationErr [] (Some ''Apple web sign-in is not configured.''))
           | None \<Rightarrow> raise (ValidationErr [] (Some ''Apple web sign-in is not configured.'')))
      | None \<Rightarrow> raise (ValidationErr [] (Some ''Apple web sign-in is not configured.'')))"

definition requireGoogle :: "'w oauth_deps \<Rightarrow> ('w, google_config) prog" where
  "requireGoogle D = requireGoogleConfig D"

text \<open>
  The key of the configuration is PEM text with line breaks written \<open>\n\<close>: they are turned into line
  breaks, the \<open>BEGIN\<close> and \<open>END\<close> lines and all white space are dropped, and the rest is base64.
\<close>

definition BACKSLASH :: char where "BACKSLASH = char_of (92 :: nat)"
definition NEWLINE :: char where "NEWLINE = char_of (10 :: nat)"

fun unescape_newlines :: "string \<Rightarrow> string" where
  "unescape_newlines (a # b # s) =
     (if a = BACKSLASH \<and> b = CHR ''n'' then NEWLINE # unescape_newlines s else a # unescape_newlines (b # s))"
| "unescape_newlines s = s"

text \<open>One match of \<open>/-----BEGIN [^-]+-----/\<close> (or \<open>END\<close>) at the head: the rest after it.\<close>

definition pem_marker :: "string \<Rightarrow> string \<Rightarrow> string option" where
  "pem_marker word s =
     (let start = ''-----'' @ word @ '' '';
          body = drop (length start) s;
          rest = dropWhile (\<lambda>c. c \<noteq> CHR ''-'') body
      in if startsWith s start \<and> body \<noteq> [] \<and> hd body \<noteq> CHR ''-'' \<and> startsWith rest ''-----''
         then Some (drop 5 rest) else None)"

lemma pem_marker_shorter:
  assumes "pem_marker word s = Some r"
  shows "length r < length s"
proof -
  let ?start = "''-----'' @ word @ '' ''"
  let ?body = "drop (length ?start) s"
  let ?rest = "dropWhile (\<lambda>c. c \<noteq> CHR ''-'') ?body"
  have r: "r = drop 5 ?rest" "?body \<noteq> []"
    using assms unfolding pem_marker_def Let_def by (auto split: if_splits)
  have "length r \<le> length ?body" using length_dropWhile_le [of "\<lambda>c. c \<noteq> CHR ''-''" ?body] unfolding r(1) length_drop by linarith
  also have "\<dots> < length s" using r(2) by simp
  finally show ?thesis .
qed

function drop_markers :: "string \<Rightarrow> string \<Rightarrow> string" where
  "drop_markers word [] = []"
| "drop_markers word (c # s) =
     (case pem_marker word (c # s) of Some rest \<Rightarrow> drop_markers word rest | None \<Rightarrow> c # drop_markers word s)"
  by pat_completeness auto
termination
  by (relation "measure (\<lambda>(_, s). length s)") (auto dest: pem_marker_shorter)

definition decodeApplePrivateKey :: "'w oauth_deps \<Rightarrow> string \<Rightarrow> string" where
  "decodeApplePrivateKey D pem =
     oa_base64 D (filter (\<lambda>c. \<not> is_space c) (drop_markers ''END'' (drop_markers ''BEGIN'' (unescape_newlines pem))))"

definition requireAppleWeb :: "'w oauth_deps \<Rightarrow> ('w, apple_client) prog" where
  "requireAppleWeb D =
     seq (requireAppleWebConfig D) (\<lambda>(cfg, webClientId).
     ret \<lparr>al_clientId = webClientId, al_teamId = ac_teamId cfg, al_keyId = ac_keyId cfg,
          al_key = decodeApplePrivateKey D (ac_privateKey cfg), al_redirectUri = ac_redirectUri cfg\<rparr>)"

subsection \<open>Names and avatars of new accounts\<close>

definition emailLocalPart :: "string option \<Rightarrow> string option" where
  "emailLocalPart email =
     (case email of
        None \<Rightarrow> None
      | Some e \<Rightarrow>
          (case indexOf (CHR ''@'') e of Some at \<Rightarrow> if at > 0 then Some (take at e) else None | None \<Rightarrow> None))"

fun truncate_loop :: "nat \<Rightarrow> string \<Rightarrow> string \<Rightarrow> string" where
  "truncate_loop maxLength out [] = out"
| "truncate_loop maxLength out (codePoint # value) =
     (if length out + 1 > maxLength then out else truncate_loop maxLength (out @ [codePoint]) value)"

definition truncateCodePoints :: "string \<Rightarrow> nat \<Rightarrow> string" where
  "truncateCodePoints value maxLength = truncate_loop maxLength [] value"

definition sanitizeDisplayName :: "'w oauth_deps \<Rightarrow> string option \<Rightarrow> string option" where
  "sanitizeDisplayName D raw =
     (case raw of
        None \<Rightarrow> None
      | Some r \<Rightarrow>
          (let name = trimEnd (truncateCodePoints (oa_collapseWhitespace D r) MAX_PROVIDER_DISPLAY_NAME_LENGTH)
           in if name = [] \<or> containsSlur (oa_unicode D) (Some name) then None else Some name))"

definition providerFallbackName :: "string \<Rightarrow> string" where
  "providerFallbackName provider =
     (if provider = PROVIDER_APPLE then APPLE_FALLBACK_DISPLAY_NAME else GOOGLE_FALLBACK_DISPLAY_NAME)"

fun first_name :: "'w oauth_deps \<Rightarrow> string option list \<Rightarrow> string option" where
  "first_name D [] = None"
| "first_name D (candidate # cs) =
     (case sanitizeDisplayName D candidate of Some name \<Rightarrow> Some name | None \<Rightarrow> first_name D cs)"

definition providerDisplayName :: "'w oauth_deps \<Rightarrow> string option \<Rightarrow> verified_id_token \<Rightarrow> string \<Rightarrow> string" where
  "providerDisplayName D fullName claims provider =
     or_else (first_name D [fullName, vt_name claims, emailLocalPart (vt_email claims)]) (providerFallbackName provider)"

definition safeAvatarUrl :: "'w oauth_deps \<Rightarrow> string option \<Rightarrow> string option" where
  "safeAvatarUrl D picture =
     (case picture of
        None \<Rightarrow> None
      | Some p \<Rightarrow> if p \<noteq> [] \<and> oa_urlProtocol D p = Some ''https:'' then Some p else None)"

subsection \<open>Which account an identity belongs to\<close>

definition linkExistingByEmail :: "'w oauth_deps \<Rightarrow> string \<Rightarrow> string \<Rightarrow> string \<Rightarrow> ('w, user_record option) prog" where
  "linkExistingByEmail D verifiedEmail provider providerUserId =
     seq (us_findByEmail (oa_users D) verifiedEmail) (\<lambda>byEmail.
     case byEmail of
       None \<Rightarrow> ret None
     | Some row \<Rightarrow>
         if u_deletedAt row \<noteq> None then ret None
         else if \<not> u_emailVerified row then raise (ConflictErr (Some UNVERIFIED_ACCOUNT_EXISTS_MESSAGE))
         else seq (is_linkIdentity (oa_store D) (u_id row) provider providerUserId) (\<lambda>_. ret (Some row)))"

definition verified_email :: "verified_id_token \<Rightarrow> string option" where
  "verified_email claims = (if vt_email claims \<noteq> None \<and> vt_emailVerified claims then vt_email claims else None)"

definition new_account :: "'w oauth_deps \<Rightarrow> string \<Rightarrow> verified_id_token \<Rightarrow> string option \<Rightarrow> create_user_input" where
  "new_account D provider claims fullName =
     \<lparr>cu_displayName = newAccountDisplayName (providerDisplayName D fullName claims provider) (providerFallbackName provider),
      cu_role = Some ''citizen'', cu_emailVerified = Some (verified_email claims \<noteq> None),
      cu_avatarUrl = safeAvatarUrl D (vt_picture claims), cu_handle = None, cu_profileComplete = None,
      cu_onEmailConflict = Some Reject\<rparr>"

text \<open>The \<open>try\<close> block: \<^const>\<open>Inl\<close> the account it created, \<^const>\<open>Inr\<close> the one it returns linked.\<close>

definition create_or_link ::
  "'w oauth_deps \<Rightarrow> string \<Rightarrow> verified_id_token \<Rightarrow> string option \<Rightarrow> ('w, user_record + user_record) prog" where
  "create_or_link D provider claims fullName =
     recover
       (seq (us_create (oa_users D) (verified_email claims) (new_account D provider claims fullName)) (\<lambda>created. ret (Inl created)))
       (\<lambda>err.
         case verified_email claims of
           Some e \<Rightarrow>
             if err \<noteq> EmailTakenErr then raise err
             else seq (linkExistingByEmail D e provider (vt_sub claims)) (\<lambda>linked.
                  case linked of None \<Rightarrow> raise err | Some u \<Rightarrow> ret (Inr u))
         | None \<Rightarrow> raise err)"

text \<open>The part of the method below the lookup by identity.\<close>

definition link_or_create ::
  "'w oauth_deps \<Rightarrow> string \<Rightarrow> verified_id_token \<Rightarrow> string option \<Rightarrow> ('w, user_record) prog" where
  "link_or_create D provider claims fullName =
     seq (case verified_email claims of
            None \<Rightarrow> ret None
          | Some e \<Rightarrow> linkExistingByEmail D e provider (vt_sub claims)) (\<lambda>linked.
     case linked of
       Some u \<Rightarrow> ret u
     | None \<Rightarrow>
         seq (create_or_link D provider claims fullName) (\<lambda>r.
         case r of
           Inr u \<Rightarrow> ret u
         | Inl created \<Rightarrow>
             seq (is_linkIdentity (oa_store D) (u_id created) provider (vt_sub claims)) (\<lambda>_. ret created)))"

definition upsertFromClaims ::
  "'w oauth_deps \<Rightarrow> string \<Rightarrow> verified_id_token \<Rightarrow> string option \<Rightarrow> ('w, user_record) prog" where
  "upsertFromClaims D provider claims fullName =
     seq (is_findByProvider (oa_store D) provider (vt_sub claims)) (\<lambda>identity.
     seq (case identity of None \<Rightarrow> ret None | Some i \<Rightarrow> us_findById (oa_users D) (oi_userId i)) (\<lambda>user.
     case (case user of Some u \<Rightarrow> if u_deletedAt u = None then Some u else None | None \<Rightarrow> None) of
       Some u \<Rightarrow> ret u
     | None \<Rightarrow> link_or_create D provider claims fullName))"

subsection \<open>The sign-in flows\<close>

definition refusalAware :: "('w, 'a) prog \<Rightarrow> ('w, 'a) prog" where
  "refusalAware exchange =
     recover exchange (\<lambda>err. case err of OAuth2RequestErr code \<Rightarrow> raise (OAuthCodeRefused code) | _ \<Rightarrow> raise err)"

text \<open>\<open>tokens.idToken()\<close> throws when the provider sent none.\<close>

definition idToken :: "string option \<Rightarrow> ('w, string) prog" where
  "idToken tokens = (case tokens of None \<Rightarrow> raise (PlainError ''Missing or invalid id_token field'') | Some t \<Rightarrow> ret t)"

definition verifyGoogleIdToken :: "'w oauth_deps \<Rightarrow> string \<Rightarrow> string option \<Rightarrow> ('w, verified_id_token) prog" where
  "verifyGoogleIdToken D token expectedNonce =
     seq (requireGoogleConfig D) (\<lambda>google.
     oa_verify D token \<lparr>vp_jwksUrl = GOOGLE_JWKS_URL, vp_issuers = GOOGLE_ISSUERS,
       vp_audiences = gc_clientId google # or_else (gc_extraAudiences google) [],
       vp_expectedNonce = expectedNonce, vp_nowSeconds = None\<rparr>)"

definition verifyAppleIdToken :: "'w oauth_deps \<Rightarrow> string \<Rightarrow> string option \<Rightarrow> ('w, verified_id_token) prog" where
  "verifyAppleIdToken D identityToken expectedNonce =
     seq (requireAppleConfig D) (\<lambda>apple.
     oa_verify D identityToken \<lparr>vp_jwksUrl = APPLE_JWKS_URL, vp_issuers = [APPLE_ISSUER],
       vp_audiences = ac_clientId apple # or_else (ac_extraAudiences apple) [],
       vp_expectedNonce = expectedNonce, vp_nowSeconds = None\<rparr>)"

definition verifyAppleWebIdToken :: "'w oauth_deps \<Rightarrow> string \<Rightarrow> ('w, verified_id_token) prog" where
  "verifyAppleWebIdToken D token =
     seq (requireAppleWebConfig D) (\<lambda>(apple, webClientId).
     oa_verify D token \<lparr>vp_jwksUrl = APPLE_JWKS_URL, vp_issuers = [APPLE_ISSUER], vp_audiences = [webClientId],
       vp_expectedNonce = None, vp_nowSeconds = None\<rparr>)"

record google_auth_request =
  ga_url :: string
  ga_state :: string
  ga_codeVerifier :: string

definition createGoogleAuthUrl :: "'w oauth_deps \<Rightarrow> ('w, google_auth_request) prog" where
  "createGoogleAuthUrl D =
     seq (requireGoogle D) (\<lambda>client.
     seq (oa_generateState D) (\<lambda>state.
     seq (oa_generateCodeVerifier D) (\<lambda>codeVerifier.
     ret \<lparr>ga_url = oa_googleUrl D client state codeVerifier GOOGLE_WEB_SCOPES, ga_state = state,
          ga_codeVerifier = codeVerifier\<rparr>)))"

definition createAppleAuthUrl :: "'w oauth_deps \<Rightarrow> ('w, string \<times> string) prog" where
  "createAppleAuthUrl D =
     seq (requireAppleWeb D) (\<lambda>client.
     seq (oa_generateState D) (\<lambda>state.
     ret (oa_appleUrl D client state APPLE_WEB_SCOPES [(''response_mode'', APPLE_RESPONSE_MODE)], state)))"

definition completeGoogleCallback :: "'w oauth_deps \<Rightarrow> string \<Rightarrow> string \<Rightarrow> ('w, user_record) prog" where
  "completeGoogleCallback D code codeVerifier =
     seq (requireGoogle D) (\<lambda>client.
     seq (refusalAware (oa_googleExchange D client code codeVerifier)) (\<lambda>tokens.
     seq (idToken tokens) (\<lambda>token.
     seq (verifyGoogleIdToken D token None) (\<lambda>claims.
     upsertFromClaims D PROVIDER_GOOGLE claims None))))"

definition completeAppleCallback :: "'w oauth_deps \<Rightarrow> string \<Rightarrow> string option \<Rightarrow> ('w, user_record) prog" where
  "completeAppleCallback D code fullName =
     seq (requireAppleWeb D) (\<lambda>client.
     seq (refusalAware (oa_appleExchange D client code)) (\<lambda>tokens.
     seq (idToken tokens) (\<lambda>token.
     seq (verifyAppleWebIdToken D token) (\<lambda>claims.
     upsertFromClaims D PROVIDER_APPLE claims fullName))))"

definition signInWithGoogleIdToken :: "'w oauth_deps \<Rightarrow> string \<Rightarrow> string option \<Rightarrow> ('w, user_record) prog" where
  "signInWithGoogleIdToken D token expectedNonce =
     seq (verifyGoogleIdToken D token expectedNonce) (\<lambda>claims. upsertFromClaims D PROVIDER_GOOGLE claims None)"

definition signInWithAppleIdToken ::
  "'w oauth_deps \<Rightarrow> string \<Rightarrow> string option \<Rightarrow> string option \<Rightarrow> ('w, user_record) prog" where
  "signInWithAppleIdToken D identityToken fullName expectedNonce =
     seq (verifyAppleIdToken D identityToken expectedNonce) (\<lambda>claims. upsertFromClaims D PROVIDER_APPLE claims fullName)"

definition unlinkAllForUser :: "'w oauth_deps \<Rightarrow> string \<Rightarrow> ('w, unit) prog" where
  "unlinkAllForUser D userId = is_deleteAllForUser (oa_store D) userId"

end
