(* ===== verification/OAuth_Runs.thy ===== *)
theory OAuth_Runs
  imports OAuth_Service Session_Runs
begin

section \<open>Provider sign-in on the in-memory stores\<close>

text \<open>
  The service wired to the in-memory stores, the invariant of the account rows that every store operation
  keeps, and what a sign-in can reach.
\<close>

definition oauth_service ::
  "(nat \<Rightarrow> string) \<Rightarrow> (string \<Rightarrow> bool) \<Rightarrow> (int \<Rightarrow> string) \<Rightarrow> string \<Rightarrow> 'w auth_world_scheme oauth_deps \<Rightarrow>
   'w auth_world_scheme oauth_deps" where
  "oauth_service uuid_of handle_ok isoDate label X =
     X\<lparr>oa_store := in_memory_identities uuid_of, oa_users := in_memory_users uuid_of handle_ok isoDate label\<rparr>"

lemma oauth_service_fields [simp]:
  "oa_store (oauth_service u k i l X) = in_memory_identities u"
  "oa_users (oauth_service u k i l X) = in_memory_users u k i l"
  "oa_verify (oauth_service u k i l X) = oa_verify X"
  by (simp_all add: oauth_service_def)

subsection \<open>Account rows\<close>

definition email_key :: "user_record \<Rightarrow> string option" where
  "email_key row = map_option toLowerCase (u_email row)"

text \<open>
  The account rows: one row for each id, filed under it; ids still to be drawn are unused; no two rows share
  an address; a row with a verified address has one, and an erased row has none.
\<close>

definition accounts_ok :: "(nat \<Rightarrow> string) \<Rightarrow> 'w auth_world_scheme \<Rightarrow> bool" where
  "accounts_ok uuid_of w \<longleftrightarrow> inj uuid_of \<and> jm_ok (user_rows w) \<and>
     (\<forall>(k, row) \<in> set (user_rows w). u_id row = k \<and> (u_emailVerified row \<longrightarrow> u_email row \<noteq> None) \<and>
        (u_deletedAt row \<noteq> None \<longrightarrow> u_email row = None)) \<and>
     (\<forall>n \<ge> entropy w. uuid_of n \<notin> set (jm_keys (user_rows w))) \<and>
     (\<forall>(k, row) \<in> set (user_rows w). \<forall>(k', row') \<in> set (user_rows w).
        email_key row = email_key row' \<and> email_key row \<noteq> None \<longrightarrow> k = k')"

definition row_ok :: "string \<Rightarrow> user_record \<Rightarrow> bool" where
  "row_ok k row \<longleftrightarrow> u_id row = k \<and> (u_emailVerified row \<longrightarrow> u_email row \<noteq> None) \<and> (u_deletedAt row \<noteq> None \<longrightarrow> u_email row = None)"

lemma accounts_ok_get:
  "accounts_ok uuid_of w \<longleftrightarrow> inj uuid_of \<and> jm_ok (user_rows w) \<and>
     (\<forall>k row. jm_get (user_rows w) k = Some row \<longrightarrow> row_ok k row) \<and>
     (\<forall>n \<ge> entropy w. jm_get (user_rows w) (uuid_of n) = None) \<and>
     (\<forall>k row k' row'. jm_get (user_rows w) k = Some row \<and> jm_get (user_rows w) k' = Some row' \<and>
        email_key row = email_key row' \<and> email_key row \<noteq> None \<longrightarrow> k = k')"
proof (cases "jm_ok (user_rows w)")
  case True
  have m: "(k, row) \<in> set (user_rows w) \<longleftrightarrow> jm_get (user_rows w) k = Some row" for k row using True by simp
  have n: "jm_get (user_rows w) k = None \<longleftrightarrow> k \<notin> set (jm_keys (user_rows w))" for k by (simp add: map_of_eq_None_iff)
  show ?thesis unfolding accounts_ok_def n row_ok_def Ball_def split_paired_All prod.case m by blast
qed (simp add: accounts_ok_def)

lemma accounts_okD:
  assumes "accounts_ok uuid_of w"
  shows "inj uuid_of" "jm_ok (user_rows w)" "jm_get (user_rows w) k = Some row \<Longrightarrow> row_ok k row"
    "entropy w \<le> n \<Longrightarrow> jm_get (user_rows w) (uuid_of n) = None"
    "jm_get (user_rows w) k = Some row \<Longrightarrow> jm_get (user_rows w) k' = Some row' \<Longrightarrow>
       email_key row = email_key row' \<Longrightarrow> email_key row \<noteq> None \<Longrightarrow> k = k'"
  using assms unfolding accounts_ok_get by blast+

text \<open>A replaced row keeps the invariant when its address does not move to another account.\<close>

lemma accounts_ok_put:
  assumes "accounts_ok uuid_of w" "row_ok k row" "\<forall>n \<ge> entropy w. uuid_of n \<noteq> k"
    "\<And>k' row'. jm_get (user_rows w) k' = Some row' \<Longrightarrow> email_key row' = email_key row \<Longrightarrow> email_key row \<noteq> None \<Longrightarrow> k' = k"
  shows "accounts_ok uuid_of (put_user k row w)"
  using assms unfolding accounts_ok_get put_user_def
  by (auto split: if_splits) (metis not_None_eq)+

lemma accounts_ok_update:
  assumes "accounts_ok uuid_of w" "jm_get (user_rows w) k = Some old" "row_ok k row"
    "email_key row = email_key old \<or> email_key row = None"
  shows "accounts_ok uuid_of (put_user k row w)"
  using assms(1,3)
proof (rule accounts_ok_put)
  show "\<forall>n \<ge> entropy w. uuid_of n \<noteq> k" using accounts_okD(4) [OF assms(1)] assms(2) by fastforce
  show "k' = k" if "jm_get (user_rows w) k' = Some row'" "email_key row' = email_key row" "email_key row \<noteq> None" for k' row'
    using accounts_okD(5) [OF assms(1) that(1) assms(2)] that assms(4) by auto
qed

lemma rowByEmail_get:
  assumes "jm_ok (user_rows w)"
  shows "rowByEmail e w = Some row \<Longrightarrow> \<exists>k. jm_get (user_rows w) k = Some row \<and> email_key row = Some (toLowerCase e)"
    "rowByEmail e w = None \<Longrightarrow> jm_get (user_rows w) k = Some row' \<Longrightarrow> email_key row' \<noteq> Some (toLowerCase e)"
proof -
  show "\<exists>k. jm_get (user_rows w) k = Some row \<and> email_key row = Some (toLowerCase e)" if "rowByEmail e w = Some row"
    using find_SomeD [OF that [unfolded rowByEmail_def]] assms
    by (auto simp: email_key_def split: option.splits)
  show "email_key row' \<noteq> Some (toLowerCase e)" if "rowByEmail e w = None" "jm_get (user_rows w) k = Some row'"
    using find_NoneD [OF that(1) [unfolded rowByEmail_def], of row'] map_of_SomeD [OF that(2)]
    by (force simp: email_key_def image_iff split: option.splits)
qed

lemma accounts_ok_frame:
  "accounts_ok uuid_of w \<Longrightarrow> user_rows w' = user_rows w \<Longrightarrow> entropy w \<le> entropy w' \<Longrightarrow> accounts_ok uuid_of w'"
  unfolding accounts_ok_def by auto

lemma row_ok_new: "row_ok i (new_user_row i email input at)"
  by (simp add: row_ok_def new_user_row_def)

lemma create_ok: "keeps (accounts_ok uuid_of) (user_create uuid_of email input)"
  unfolding keeps_def
proof (intro allI impI)
  fix w :: "'w auth_world_scheme"
  assume ok: "accounts_ok uuid_of w"
  let ?i = "uuid_of (entropy w)" and ?w = "w\<lparr>entropy := Suc (entropy w)\<rparr>"
  let ?row = "new_user_row ?i email input (clock w)"
  have "accounts_ok uuid_of (put_user ?i ?row ?w)" if none: "\<forall>e. email = Some e \<longrightarrow> rowByEmail e w = None"
  proof (rule accounts_ok_put [OF _ row_ok_new])
    show "accounts_ok uuid_of ?w" using ok by (rule accounts_ok_frame) simp_all
    show "\<forall>n \<ge> entropy ?w. uuid_of n \<noteq> ?i" using accounts_okD(1) [OF ok] by (auto dest: injD)
    show "k' = ?i" if a: "jm_get (user_rows ?w) k' = Some row'" "email_key row' = email_key ?row" "email_key ?row \<noteq> None" for k' row'
    proof -
      obtain e where e: "email = Some e" using a(3) by (auto simp: email_key_def new_user_row_def)
      then show ?thesis
        using a(1,2) rowByEmail_get(2) [OF accounts_okD(2) [OF ok], of e k' row'] none by (auto simp: email_key_def new_user_row_def)
    qed
  qed
  then show "accounts_ok uuid_of (snd (user_create uuid_of email input w))"
    using ok by (auto simp: user_create_def randomUUID_def prog_simps Let_def split: option.splits)
qed

lemma put_row_ok:
  assumes "accounts_ok uuid_of w" "jm_get (user_rows w) i = Some row" "u_id next = u_id row" "u_email next = u_email row"
    "u_emailVerified next = u_emailVerified row" "u_deletedAt next = u_deletedAt row"
  shows "accounts_ok uuid_of (put_user i next w)"
  using accounts_okD(3) [OF assms(1,2)] assms
  by (intro accounts_ok_update [OF assms(1,2)]) (auto simp: row_ok_def email_key_def)

lemma profile_ok: "keeps (accounts_ok uuid_of) (user_updateProfile handle_ok isoDate i input)"
  unfolding keeps_def user_updateProfile_def user_findById_def user_findByHandle_def
  by (auto simp: prog_simps Let_def intro: put_row_ok split: option.splits sum.splits)

lemma role_ok: "keeps (accounts_ok uuid_of) (user_setRole i role)"
  unfolding keeps_def user_setRole_def user_findById_def
  by (auto simp: prog_simps Let_def intro: put_row_ok split: option.splits)

lemma settings_ok: "keeps (accounts_ok uuid_of) (user_updateSettings i input)"
  unfolding keeps_def user_updateSettings_def user_findById_def
  by (auto simp: prog_simps Let_def intro: put_row_ok split: option.splits)

lemma erase_ok: "keeps (accounts_ok uuid_of) (user_softDeleteAndAnonymize uuid_of label [\<lambda>i. seq (session_deleteAllForUser i) (\<lambda>_. ret ())] i)"
  unfolding keeps_def
proof (intro allI impI)
  fix w :: "'w auth_world_scheme"
  assume ok: "accounts_ok uuid_of w"
  let ?v = "w\<lparr>session_rows := filter (\<lambda>(_, row). row_userId row \<noteq> i) (session_rows w), entropy := Suc (entropy w)\<rparr>"
  have v: "accounts_ok uuid_of ?v" using ok by (rule accounts_ok_frame) simp_all
  show "accounts_ok uuid_of (snd (user_softDeleteAndAnonymize uuid_of label [\<lambda>i. seq (session_deleteAllForUser i) (\<lambda>_. ret ())] i w))"
  proof (cases "jm_get (user_rows w) i")
    case None
    then show ?thesis using ok by (simp add: user_softDeleteAndAnonymize_def user_findById_def prog_simps)
  next
    case (Some row)
    show ?thesis
      using accounts_okD(3) [OF ok Some] Some v
      by (auto simp: user_softDeleteAndAnonymize_def user_findById_def session_deleteAllForUser_def randomUUID_def prog_simps Let_def
          email_key_def row_ok_def intro!: accounts_ok_update [where old = row])
  qed
qed

text \<open>
  C31: every operation of the user store keeps the account rows well formed: one row for each id and filed
  under it, addresses unique up to case, verified addresses present, erased rows without an address.
\<close>

theorem accounts_stay_well_formed:
  assumes "accounts_ok uuid_of w" "U = in_memory_users uuid_of handle_ok isoDate label"
  shows "accounts_ok uuid_of (snd (us_create U email input w)) \<and>
    accounts_ok uuid_of (snd (us_updateProfile U i profile w)) \<and>
    accounts_ok uuid_of (snd (us_setRole U i role w)) \<and>
    accounts_ok uuid_of (snd (us_updateSettings U i settings w)) \<and>
    accounts_ok uuid_of (snd (us_softDeleteAndAnonymize U i w))"
  using assms(1)
  by (simp add: assms(2) in_memory_users_def keepsD [OF create_ok] keepsD [OF profile_ok] keepsD [OF role_ok]
      keepsD [OF settings_ok] keepsD [OF erase_ok])


subsection \<open>What a sign-in reaches\<close>

lemmas oauth_run_defs =
  in_memory_users_def in_memory_identities_def user_findById_def user_findByEmail_def identity_findByProvider_def
  identity_linkIdentity_def randomUUID_def prog_simps Let_def

text \<open>The three outcomes of a sign-in: through the identity, through a proved address, a new account.\<close>

definition through_identity :: "string \<Rightarrow> verified_id_token \<Rightarrow> 'w auth_world_scheme \<Rightarrow> user_record option" where
  "through_identity provider claims w =
     (case jm_get (identity_rows w) (identity_key provider (vt_sub claims)) of
        None \<Rightarrow> None
      | Some i \<Rightarrow> (case jm_get (user_rows w) (oi_userId i) of
                    Some u \<Rightarrow> if u_deletedAt u = None then Some u else None | None \<Rightarrow> None))"

definition through_email :: "verified_id_token \<Rightarrow> 'w auth_world_scheme \<Rightarrow> user_record option" where
  "through_email claims w =
     (case verified_email claims of
        None \<Rightarrow> None
      | Some e \<Rightarrow> (case rowByEmail e w of Some u \<Rightarrow> if u_deletedAt u = None then Some u else None | None \<Rightarrow> None))"

definition link_identity :: "(nat \<Rightarrow> string) \<Rightarrow> string \<Rightarrow> string \<Rightarrow> string \<Rightarrow> 'w auth_world_scheme \<Rightarrow> 'w auth_world_scheme" where
  "link_identity uuid_of userId provider sub w = snd (identity_linkIdentity uuid_of userId provider sub w)"

lemma upsert_identity:
  assumes "through_identity provider claims w = Some u"
  shows "upsertFromClaims (oauth_service uuid_of handle_ok isoDate label X) provider claims name w = (Inr u, w)"
  using assms by (auto simp: upsertFromClaims_def through_identity_def oauth_run_defs split: option.splits if_splits)

lemma upsert_after_identity:
  assumes "through_identity provider claims w = None"
  shows "upsertFromClaims (oauth_service uuid_of handle_ok isoDate label X) provider claims name w =
    link_or_create (oauth_service uuid_of handle_ok isoDate label X) provider claims name w"
  using assms by (auto simp: upsertFromClaims_def through_identity_def oauth_run_defs split: option.splits if_splits)

lemma link_by_email_run:
  "linkExistingByEmail (oauth_service uuid_of handle_ok isoDate label X) e provider sub w =
     (case rowByEmail e w of
        None \<Rightarrow> (Inr None, w)
      | Some row \<Rightarrow>
          if u_deletedAt row \<noteq> None then (Inr None, w)
          else if \<not> u_emailVerified row then (Inl (ConflictErr (Some UNVERIFIED_ACCOUNT_EXISTS_MESSAGE)), w)
          else (Inr (Some row), link_identity uuid_of (u_id row) provider sub w))"
  by (auto simp: linkExistingByEmail_def link_identity_def oauth_run_defs split: option.splits)

lemma upsert_email:
  assumes "through_identity provider claims w = None" "through_email claims w = Some u"
  shows "upsertFromClaims (oauth_service uuid_of handle_ok isoDate label X) provider claims name w =
    (if u_emailVerified u then (Inr u, link_identity uuid_of (u_id u) provider (vt_sub claims) w)
     else (Inl (ConflictErr (Some UNVERIFIED_ACCOUNT_EXISTS_MESSAGE)), w))"
  using assms(2) upsert_after_identity [OF assms(1)]
  by (auto simp: link_or_create_def through_email_def seq_run link_by_email_run ret_run split: option.splits if_splits)

text \<open>Under the row invariant an address that finds no live row finds none, so the creation goes through.\<close>

lemma upsert_new:
  fixes w :: "'w auth_world_scheme" and X :: "'w auth_world_scheme oauth_deps"
    and uuid_of :: "nat \<Rightarrow> string" and handle_ok :: "string \<Rightarrow> bool" and isoDate :: "int \<Rightarrow> string"
    and label provider :: string and claims :: verified_id_token and name :: "string option"
  assumes "accounts_ok uuid_of w" "through_identity provider claims w = None" "through_email claims w = None"
  defines "row \<equiv> new_user_row (uuid_of (entropy w)) (verified_email claims)
      (new_account (oauth_service uuid_of handle_ok isoDate label X) provider claims name) (clock w)"
  shows "upsertFromClaims (oauth_service uuid_of handle_ok isoDate label X) provider claims name w =
    (Inr row, link_identity uuid_of (u_id row) provider (vt_sub claims) (put_user (u_id row) row (w\<lparr>entropy := Suc (entropy w)\<rparr>)))"
proof -
  have free: "rowByEmail e w = None" if "verified_email claims = Some e" for e
  proof (rule ccontr)
    assume "rowByEmail e w \<noteq> None"
    then obtain r where r: "rowByEmail e w = Some r" by blast
    then obtain i where "jm_get (user_rows w) i = Some r" "email_key r = Some (toLowerCase e)"
      using rowByEmail_get(1) [OF accounts_okD(2) [OF assms(1)]] by blast
    then have "u_deletedAt r = None" using accounts_okD(3) [OF assms(1)] by (fastforce simp: row_ok_def email_key_def)
    with r that assms(3) show False by (simp add: through_email_def)
  qed
  have i: "u_id row = uuid_of (entropy w)" by (simp add: row_def new_user_row_def)
  have "create_or_link (oauth_service uuid_of handle_ok isoDate label X) provider claims name w =
      (Inr (Inl row), put_user (u_id row) row (w\<lparr>entropy := Suc (entropy w)\<rparr>))"
    using free unfolding i
    by (cases "verified_email claims")
      (auto simp: create_or_link_def in_memory_users_def user_create_def randomUUID_def prog_simps Let_def row_def split: option.splits)
  moreover have "(case verified_email claims of None \<Rightarrow> ret None
      | Some e \<Rightarrow> linkExistingByEmail (oauth_service uuid_of handle_ok isoDate label X) e provider (vt_sub claims)) w = (Inr None, w)"
    using free by (auto simp: link_by_email_run prog_simps split: option.splits)
  ultimately show ?thesis
    unfolding upsert_after_identity [OF assms(2)] link_or_create_def
    by (simp add: seq_run ret_run link_identity_def in_memory_identities_def identity_linkIdentity_def randomUUID_def writes_run)
qed

lemma sign_in_cases:
  assumes "accounts_ok uuid_of w"
    "upsertFromClaims (oauth_service uuid_of handle_ok isoDate label X) provider claims name w = (Inr u, w')"
  obtains (identity) "through_identity provider claims w = Some u" "w' = w"
  | (email) "through_email claims w = Some u" "u_emailVerified u"
      "w' = link_identity uuid_of (u_id u) provider (vt_sub claims) w"
  | (created) "u = new_user_row (uuid_of (entropy w)) (verified_email claims)
        (new_account (oauth_service uuid_of handle_ok isoDate label X) provider claims name) (clock w)"
      "w' = link_identity uuid_of (u_id u) provider (vt_sub claims) (put_user (u_id u) u (w\<lparr>entropy := Suc (entropy w)\<rparr>))"
proof (cases "through_identity provider claims w")
  case (Some v)
  with upsert_identity [OF Some, of uuid_of handle_ok isoDate label X name] assms(2) identity show ?thesis by simp
next
  case none: None
  show ?thesis
  proof (cases "through_email claims w")
    case (Some v)
    show ?thesis
      using upsert_email [OF none Some, of uuid_of handle_ok isoDate label X name] assms(2) Some email
      by (cases "u_emailVerified v") simp_all
  next
    case None
    show ?thesis
      using upsert_new [OF assms(1) none None, of handle_ok isoDate label X name] assms(2) by (intro created) simp_all
  qed
qed

lemma through_identity_Some:
  "through_identity provider claims w = Some u \<longleftrightarrow> u_deletedAt u = None \<and>
     (\<exists>i. jm_get (identity_rows w) (identity_key provider (vt_sub claims)) = Some i \<and> jm_get (user_rows w) (oi_userId i) = Some u)"
  unfolding through_identity_def by (auto split: option.split)

lemma through_email_Some:
  "through_email claims w = Some u \<longleftrightarrow> u_deletedAt u = None \<and>
     (\<exists>e. vt_email claims = Some e \<and> vt_emailVerified claims \<and> rowByEmail e w = Some u)"
  unfolding through_email_def verified_email_def by (auto split: option.split)

lemma new_account_row:
  "u_id (new_user_row i (verified_email claims) (new_account D provider claims name) at) = i"
  "u_deletedAt (new_user_row i (verified_email claims) (new_account D provider claims name) at) = None"
  "u_role (new_user_row i (verified_email claims) (new_account D provider claims name) at) = ''citizen''"
  "u_email (new_user_row i (verified_email claims) (new_account D provider claims name) at) =
     (if vt_emailVerified claims then map_option toLowerCase (vt_email claims) else None)"
  by (simp_all add: new_user_row_def new_account_def verified_email_def)

text \<open>The account of a sign-in is a live row, or its id was not in use.\<close>

lemma sign_in_row:
  assumes "accounts_ok uuid_of w"
    "upsertFromClaims (oauth_service uuid_of handle_ok isoDate label X) provider claims name w = (Inr u, w')"
  shows "u_deletedAt u = None \<and> (jm_get (user_rows w) (u_id u) = Some u \<or> jm_get (user_rows w) (u_id u) = None)"
  using assms
proof (cases rule: sign_in_cases)
  case identity
  then obtain k where "jm_get (user_rows w) k = Some u" "u_deletedAt u = None" by (auto simp: through_identity_Some)
  then show ?thesis using accounts_okD(3) [OF assms(1)] by (auto simp: row_ok_def)
next
  case email
  then obtain k where "jm_get (user_rows w) k = Some u" "u_deletedAt u = None"
    using rowByEmail_get(1) [OF accounts_okD(2) [OF assms(1)]] by (auto simp: through_email_Some)
  then show ?thesis using accounts_okD(3) [OF assms(1)] by (auto simp: row_ok_def)
next
  case created
  then show ?thesis using accounts_okD(4) [OF assms(1) order_refl] by (simp add: new_account_row)
qed

text \<open>
  C13: a sign-in that succeeds yields a live account, and it is one of three: the account the provider
  identity is linked to; the account that holds the address, when both the provider and the account have it
  verified; or an account that did not exist before, which stores the address only if the provider verified
  it.
\<close>

theorem sign_in_reaches:
  assumes "accounts_ok uuid_of w"
    "fst (upsertFromClaims (oauth_service uuid_of handle_ok isoDate label X) provider claims name w) = Inr u"
  shows "u_deletedAt u = None \<and>
    ((\<exists>i. jm_get (identity_rows w) (identity_key provider (vt_sub claims)) = Some i \<and> jm_get (user_rows w) (oi_userId i) = Some u) \<or>
     (\<exists>e. vt_email claims = Some e \<and> vt_emailVerified claims \<and> rowByEmail e w = Some u \<and> u_emailVerified u) \<or>
     (jm_get (user_rows w) (u_id u) = None \<and> u_role u = ''citizen'' \<and>
      u_email u = (if vt_emailVerified claims then map_option toLowerCase (vt_email claims) else None)))"
proof -
  obtain w' where run: "upsertFromClaims (oauth_service uuid_of handle_ok isoDate label X) provider claims name w = (Inr u, w')"
    using assms(2) by (metis prod.collapse)
  from assms(1) run show ?thesis
  proof (cases rule: sign_in_cases)
    case identity
    then show ?thesis by (simp add: through_identity_Some)
  next
    case email
    then show ?thesis by (simp add: through_email_Some)
  next
    case created
    then show ?thesis using accounts_okD(4) [OF assms(1) order_refl] by (simp add: new_account_row)
  qed
qed

text \<open>
  an address the provider verified, held by a live account that has not verified it, refuses the sign-in
  and changes nothing.
\<close>

theorem unverified_holder_is_left_alone:
  assumes "through_identity provider claims w = None" "verified_email claims = Some e" "rowByEmail e w = Some u"
    "u_deletedAt u = None" "\<not> u_emailVerified u"
  shows "upsertFromClaims (oauth_service uuid_of handle_ok isoDate label X) provider claims name w =
    (Inl (ConflictErr (Some UNVERIFIED_ACCOUNT_EXISTS_MESSAGE)), w)"
proof -
  have "through_email claims w = Some u" using assms by (simp add: through_email_def)
  then show ?thesis using upsert_email [OF assms(1)] assms(5) by simp
qed

subsection \<open>Signing in again, and after an erasure\<close>

lemma link_identity_rows:
  "user_rows (link_identity uuid_of i provider sub w) = user_rows w"
  "jm_get (identity_rows (link_identity uuid_of i provider sub w)) (identity_key provider sub) =
     Some \<lparr>oi_id = uuid_of (entropy w), oi_userId = i, oi_provider = provider, oi_providerUserId = sub\<rparr>"
  by (simp_all add: link_identity_def identity_linkIdentity_def randomUUID_def prog_simps)

lemma through_linked:
  assumes "jm_get (user_rows w) (u_id u) = Some u" "u_deletedAt u = None" "vt_sub claims' = sub"
  shows "through_identity provider claims' (link_identity uuid_of (u_id u) provider sub w) = Some u"
  using assms by (simp add: through_identity_def link_identity_rows)

text \<open>
  after a sign-in that succeeds, a sign-in with the same provider identity returns the same account,
  whatever name, address or verification the later token carries.
\<close>

theorem same_identity_same_account:
  assumes "accounts_ok uuid_of w"
    "upsertFromClaims (oauth_service uuid_of handle_ok isoDate label X) provider claims name w = (Inr u, w')"
    "vt_sub claims' = vt_sub claims"
  shows "upsertFromClaims (oauth_service uuid_of handle_ok isoDate label X) provider claims' name' w' = (Inr u, w')"
proof -
  have live: "u_deletedAt u = None \<and> (jm_get (user_rows w) (u_id u) = Some u \<or> jm_get (user_rows w) (u_id u) = None)"
    using assms(1,2) by (rule sign_in_row)
  from assms(1,2) have "through_identity provider claims' w' = Some u"
  proof (cases rule: sign_in_cases)
    case identity
    then show ?thesis using assms(3) by (simp add: through_identity_Some)
  next
    case email
    then have "jm_get (user_rows w) (u_id u) = Some u"
      using live rowByEmail_get(1) [OF accounts_okD(2) [OF assms(1)]] accounts_okD(3) [OF assms(1)]
      by (fastforce simp: through_email_Some row_ok_def)
    with live email(3) show ?thesis by (simp add: through_linked assms(3))
  next
    case created
    show ?thesis unfolding created(2) by (rule through_linked) (use live assms(3) in \<open>simp_all add: put_user_def\<close>)
  qed
  then show ?thesis by (rule upsert_identity)
qed

text \<open>
  C30: once an account is erased and its identities are unlinked, no provider sign-in returns it.
\<close>

theorem erased_account_stays_out:
  fixes w :: "'w auth_world_scheme"
  assumes "accounts_ok uuid_of w" "D = oauth_service uuid_of handle_ok isoDate label X"
    "us_softDeleteAndAnonymize (oa_users D) i w = (Inr gone, w1)"
    "unlinkAllForUser D i w1 = (Inr (), w2)"
    "fst (upsertFromClaims D provider claims name w2) = Inr u"
  shows "u_id u \<noteq> i"
proof -
  have ok1: "accounts_ok uuid_of w1" using keepsD [OF erase_ok assms(1), of label i] assms(2,3) by (simp add: in_memory_users_def)
  have w2: "w2 = snd (identity_deleteAllForUser i w1)"
    using assms(2,4) by (simp add: unlinkAllForUser_def in_memory_identities_def prod_eq_iff)
  then have ok2: "accounts_ok uuid_of w2" using ok1 by (intro accounts_ok_frame [OF ok1]) (simp_all add: identity_deleteAllForUser_def prog_simps)
  obtain row where row: "jm_get (user_rows w2) i = Some row" "u_deletedAt row \<noteq> None"
    using assms(2,3) w2
    by (auto simp: in_memory_users_def user_softDeleteAndAnonymize_def user_findById_def session_deleteAllForUser_def randomUUID_def
        prog_simps Let_def put_user_def identity_deleteAllForUser_def split: option.splits)
  obtain w3 where "upsertFromClaims D provider claims name w2 = (Inr u, w3)" using assms(5) by (metis prod.collapse)
  then have "u_deletedAt u = None \<and> (jm_get (user_rows w2) (u_id u) = Some u \<or> jm_get (user_rows w2) (u_id u) = None)"
    unfolding assms(2) by (rule sign_in_row [OF ok2])
  then show ?thesis using row by auto
qed

subsection \<open>Witnesses\<close>

definition sample_oauth :: "auth_world oauth_deps" where
  "sample_oauth = oauth_service sample_token (\<lambda>_. True) string_of_int ''deleted''
     \<lparr>oa_google = Some \<lparr>gc_clientId = ''g'', gc_clientSecret = ''s'', gc_redirectUri = ''r'', gc_extraAudiences = None\<rparr>,
      oa_apple = None, oa_store = in_memory_identities sample_token,
      oa_users = in_memory_users sample_token (\<lambda>_. True) string_of_int ''deleted'',
      oa_verify = (\<lambda>_ _. raise (Unauthorized None)), oa_generateState = ret ''st'', oa_generateCodeVerifier = ret ''cv'',
      oa_googleUrl = (\<lambda>_ _ _ _. ''u''), oa_appleUrl = (\<lambda>_ _ _ _. ''u''),
      oa_googleExchange = (\<lambda>_ _ _. ret None), oa_appleExchange = (\<lambda>_ _. ret None), oa_base64 = (\<lambda>s. s),
      oa_urlProtocol = (\<lambda>_. None), oa_collapseWhitespace = (\<lambda>s. s),
      oa_unicode = \<lparr>nfkd = (\<lambda>s. s), is_mark = (\<lambda>_. False), is_format = (\<lambda>_. False)\<rparr>\<rparr>"

definition sample_claims :: "string \<Rightarrow> verified_id_token" where
  "sample_claims sub = \<lparr>vt_sub = sub, vt_email = Some ''A@b.org'', vt_emailVerified = True, vt_name = Some ''Ann'', vt_picture = None\<rparr>"

definition planted_row :: "bool \<Rightarrow> user_record" where
  "planted_row verified = new_user_row ''u1'' (Some ''a@b.org'')
     \<lparr>cu_displayName = ''Ann'', cu_role = None, cu_emailVerified = Some verified, cu_avatarUrl = None, cu_handle = None,
      cu_profileComplete = None, cu_onEmailConflict = None\<rparr> 0"

definition planted_world :: "bool \<Rightarrow> auth_world" where
  "planted_world verified = put_user ''u1'' (planted_row verified) empty_auth_world"

lemma sample_token_ids: "inj sample_token" "sample_token n \<noteq> ''u1''"
  by (auto simp: sample_token_def intro!: injI) (metis digits_val_string_of_nat)

lemma planted_ok: "accounts_ok sample_token (planted_world b)"
  using sample_token_ids
  by (auto simp: accounts_ok_get planted_world_def planted_row_def put_user_def empty_auth_world_def row_ok_def new_user_row_def
      split: if_splits)

lemma sample_email_sign_in:
  "upsertFromClaims sample_oauth ''google'' (sample_claims ''s1'') None (planted_world True) =
     (Inr (planted_row True), link_identity sample_token ''u1'' ''google'' ''s1'' (planted_world True))"
proof -
  have 1: "through_identity ''google'' (sample_claims ''s1'') (planted_world True) = None" by code_simp
  have 2: "through_email (sample_claims ''s1'') (planted_world True) = Some (planted_row True)" by code_simp
  show ?thesis
    unfolding sample_oauth_def upsert_email [OF 1 2] by (simp add: sample_claims_def planted_row_def new_user_row_def)
qed

theorem accounts_stay_well_formed_witness:
  "accounts_ok sample_token (snd (us_setRole (in_memory_users sample_token (\<lambda>_. True) string_of_int ''deleted'') ''u1'' ''operator'' (planted_world True)))"
  using accounts_stay_well_formed [OF planted_ok refl] by blast

theorem sign_in_reaches_witness:
  "u_deletedAt (planted_row True) = None \<and> (\<exists>e. vt_email (sample_claims ''s1'') = Some e \<and> rowByEmail e (planted_world True) = Some (planted_row True))"
proof -
  have id: "jm_get (identity_rows (planted_world True)) k = None" for k
    by (simp add: planted_world_def put_user_def empty_auth_world_def)
  have row: "jm_get (user_rows (planted_world True)) (u_id (planted_row True)) \<noteq> None" by code_simp
  have "fst (upsertFromClaims sample_oauth ''google'' (sample_claims ''s1'') None (planted_world True)) = Inr (planted_row True)"
    by (simp add: sample_email_sign_in)
  from sign_in_reaches [OF planted_ok this [unfolded sample_oauth_def]] id row show ?thesis by auto
qed

theorem unverified_holder_is_left_alone_witness:
  "upsertFromClaims sample_oauth ''google'' (sample_claims ''s1'') None (planted_world False) =
     (Inl (ConflictErr (Some UNVERIFIED_ACCOUNT_EXISTS_MESSAGE)), planted_world False)"
  unfolding sample_oauth_def
  by (rule unverified_holder_is_left_alone [where e = "''A@b.org''" and u = "planted_row False"]) code_simp+

theorem same_identity_same_account_witness:
  "\<exists>w'. upsertFromClaims sample_oauth ''google'' ((sample_claims ''s1'')\<lparr>vt_email := None\<rparr>) None w' = (Inr (planted_row True), w')"
  unfolding sample_oauth_def
  by (rule exI, rule same_identity_same_account [OF planted_ok sample_email_sign_in [unfolded sample_oauth_def]]) simp

definition erased_world :: auth_world where
  "erased_world = snd (unlinkAllForUser sample_oauth ''u1'' (snd (us_softDeleteAndAnonymize (oa_users sample_oauth) ''u1'' (planted_world True))))"

theorem erased_account_stays_out_witness:
  "\<exists>u. fst (upsertFromClaims sample_oauth ''google'' (sample_claims ''s1'') None erased_world) = Inr u \<and> u_id u \<noteq> ''u1''"
proof -
  have 0: "isl (fst (us_softDeleteAndAnonymize (oa_users sample_oauth) ''u1'' (planted_world True))) = False" by code_simp
  then obtain gone w1 where 1: "us_softDeleteAndAnonymize (oa_users sample_oauth) ''u1'' (planted_world True) = (Inr gone, w1)"
    by (metis isl_def old.sum.exhaust prod.collapse)
  have 2: "unlinkAllForUser sample_oauth ''u1'' w1 = (Inr (), erased_world)"
    unfolding erased_world_def 1 snd_conv
    by (simp add: unlinkAllForUser_def sample_oauth_def in_memory_identities_def identity_deleteAllForUser_def prog_simps)
  have ok1: "accounts_ok sample_token w1"
    using keepsD [OF erase_ok planted_ok, of "''deleted''" "''u1''" True] 1 by (simp add: sample_oauth_def in_memory_users_def)
  have w2: "erased_world = snd (identity_deleteAllForUser ''u1'' w1)"
    using 2 by (simp add: unlinkAllForUser_def sample_oauth_def in_memory_identities_def prod_eq_iff)
  have ok: "accounts_ok sample_token erased_world"
    unfolding w2 by (rule accounts_ok_frame [OF ok1]) (simp_all add: identity_deleteAllForUser_def prog_simps)
  have "through_identity ''google'' (sample_claims ''s1'') erased_world = None" "through_email (sample_claims ''s1'') erased_world = None"
    by code_simp+
  obtain u where u: "fst (upsertFromClaims sample_oauth ''google'' (sample_claims ''s1'') None erased_world) = Inr u"
    unfolding sample_oauth_def upsert_new [OF ok \<open>through_identity _ _ _ = None\<close> \<open>through_email _ _ = None\<close>] by simp
  from erased_account_stays_out [OF planted_ok sample_oauth_def 1 2 u] u show ?thesis by blast
qed

end
