(* ===== verification/Request_Auth.thy ===== *)
theory Request_Auth
  imports Session_Runs Anon_Token
begin

section \<open>Who a request speaks for\<close>

text \<open>
  How a session travels on a request (\<open>auth/transport.ts\<close>), the CSRF check of the cookie transport
  (\<open>auth/csrf.ts\<close>), the resolution of a request's identity (\<open>auth/context.ts\<close>), the guard of the operator
  console (\<open>auth/admin-guard.ts\<close>, \<open>auth/admin-allowlist.ts\<close>) and the write guard of suspended accounts
  (\<open>auth/account-status.ts\<close>).  A header is present once or repeated; cookies are the parsed cookie header; the
  HMAC and SHA-256 are parameters.
\<close>

datatype header_value = Single string | Repeated "string list"

record request =
  rq_method :: string
  rq_headers :: "(string, header_value) js_map"
  rq_cookies :: "(string, string) js_map"
  rq_allowSuspended :: bool

subsection \<open>Transport\<close>

definition SESSION_COOKIE :: string where "SESSION_COOKIE = ''civfix_session''"
definition SESSION_COOKIE_HOST :: string where "SESSION_COOKIE_HOST = ''__Host-civfix_session''"
definition CSRF_COOKIE :: string where "CSRF_COOKIE = ''civfix_csrf''"
definition CSRF_COOKIE_HOST :: string where "CSRF_COOKIE_HOST = ''__Host-civfix_csrf''"
definition ANON_COOKIE :: string where "ANON_COOKIE = ''civfix_anon''"
definition CLIENT_HEADER :: string where "CLIENT_HEADER = ''x-client''"
definition MOBILE_CLIENT :: string where "MOBILE_CLIENT = ''mobile''"

definition sessionCookieName :: "bool \<Rightarrow> string" where
  "sessionCookieName isProd = (if isProd then SESSION_COOKIE_HOST else SESSION_COOKIE)"

definition csrfCookieName :: "bool \<Rightarrow> string" where
  "csrfCookieName isProd = (if isProd then CSRF_COOKIE_HOST else CSRF_COOKIE)"

fun firstNonEmptyCookie :: "request \<Rightarrow> string list \<Rightarrow> string option" where
  "firstNonEmptyCookie rq [] = None"
| "firstNonEmptyCookie rq (name # names) =
     (case jm_get (rq_cookies rq) name of
        Some v \<Rightarrow> if length v > 0 then Some v else firstNonEmptyCookie rq names
      | None \<Rightarrow> firstNonEmptyCookie rq names)"

definition sessionCookieValue :: "request \<Rightarrow> string option" where
  "sessionCookieValue rq = firstNonEmptyCookie rq [SESSION_COOKIE_HOST, SESSION_COOKIE]"

fun firstHeaderValue :: "header_value option \<Rightarrow> string option" where
  "firstHeaderValue None = None"
| "firstHeaderValue (Some (Single v)) = Some v"
| "firstHeaderValue (Some (Repeated vs)) = (case vs of [] \<Rightarrow> None | v # _ \<Rightarrow> Some v)"

definition header :: "request \<Rightarrow> string \<Rightarrow> header_value option" where
  "header rq name = jm_get (rq_headers rq) name"

datatype client_kind = Web | Mobile

definition clientKind :: "request \<Rightarrow> client_kind" where
  "clientKind rq =
     (if map_option (toLowerCase \<circ> trim) (firstHeaderValue (header rq CLIENT_HEADER)) = Some MOBILE_CLIENT
      then Mobile else Web)"

text \<open>\<open>/^Bearer\s+/i\<close>: the rest after the prefix.\<close>

definition bearer_prefix :: "string \<Rightarrow> string option" where
  "bearer_prefix value =
     (let rest = drop 6 value
      in if toLowerCase (take 6 value) = ''bearer'' \<and> rest \<noteq> [] \<and> is_space (hd rest)
         then Some (dropWhile is_space rest) else None)"

definition is_line_terminator :: "char \<Rightarrow> bool" where
  "is_line_terminator c \<longleftrightarrow> (of_char c :: nat) \<in> {10, 13}"

definition bearerToken :: "request \<Rightarrow> string option" where
  "bearerToken rq =
     (case firstHeaderValue (header rq ''authorization'') of
        None \<Rightarrow> None
      | Some h \<Rightarrow>
          if h = [] then None
          else (case bearer_prefix (trim h) of
                  None \<Rightarrow> None
                | Some token \<Rightarrow> if list_ex is_line_terminator token then None else Some token))"

definition presentedSessionToken :: "request \<Rightarrow> string option" where
  "presentedSessionToken rq =
     (case bearerToken rq of
        Some bearer \<Rightarrow> if bearer \<noteq> [] then Some bearer else sessionCookieValue rq
      | None \<Rightarrow> sessionCookieValue rq)"

text \<open>What a reply tells the browser about a cookie.\<close>

datatype cookie_write =
    SetCookie (ck_name: string) string (ck_httpOnly: bool) (ck_secure: bool) int
  | ClearCookie (ck_name: string)

definition setSessionCookie :: "bool \<Rightarrow> string \<Rightarrow> int \<Rightarrow> cookie_write list" where
  "setSessionCookie isProd token maxAgeSeconds = [SetCookie (sessionCookieName isProd) token True isProd maxAgeSeconds]"

definition clearSessionCookie :: "cookie_write list" where
  "clearSessionCookie = [ClearCookie SESSION_COOKIE, ClearCookie SESSION_COOKIE_HOST]"

definition setCsrfCookie :: "bool \<Rightarrow> string \<Rightarrow> int \<Rightarrow> cookie_write list" where
  "setCsrfCookie isProd token maxAgeSeconds = [SetCookie (csrfCookieName isProd) token False isProd maxAgeSeconds]"

definition clearCsrfCookie :: "cookie_write list" where
  "clearCsrfCookie = [ClearCookie CSRF_COOKIE, ClearCookie CSRF_COOKIE_HOST]"

subsection \<open>CSRF\<close>





subsection \<open>The identity of a request\<close>

record auth_context =
  ax_userId :: "string option"
  ax_roles :: "string list"
  ax_anon :: bool
  ax_anonSessionId :: "string option"
  ax_guestAnonSessionId :: "string option"

text \<open>What the hook leaves on the request.\<close>

record request_auth =
  ra_auth :: auth_context
  ra_sessionExpiresAtMs :: "int option"
  ra_accountStatus :: "account_status option"

definition anonymousAuth :: "string option \<Rightarrow> auth_context" where
  "anonymousAuth anonSessionId =
     \<lparr>ax_userId = None, ax_roles = [], ax_anon = True, ax_anonSessionId = anonSessionId, ax_guestAnonSessionId = None\<rparr>"

definition verifiedAnonSessionId :: "(string \<Rightarrow> string \<Rightarrow> string) \<Rightarrow> string \<Rightarrow> request \<Rightarrow> string option" where
  "verifiedAnonSessionId hmac ANON_TOKEN_SIGNING_KEY rq =
     (case jm_get (rq_cookies rq) ANON_COOKIE of
        None \<Rightarrow> None
      | Some anonCookie \<Rightarrow> if anonCookie = [] then None else verifyAnonTokenSignature hmac anonCookie ANON_TOKEN_SIGNING_KEY)"

definition resolveAuthContext ::
  "'w session_deps option \<Rightarrow> (string \<Rightarrow> string \<Rightarrow> string) \<Rightarrow> string \<Rightarrow> request \<Rightarrow> ('w, request_auth) prog" where
  "resolveAuthContext services hmac anonKey rq =
     (let anonymous = \<lparr>ra_auth = anonymousAuth (verifiedAnonSessionId hmac anonKey rq),
                       ra_sessionExpiresAtMs = None, ra_accountStatus = None\<rparr>
      in case (services, presentedSessionToken rq) of
           (Some D, Some token) \<Rightarrow>
             seq (resolveSession D token) (\<lambda>resolved.
             case resolved of
               Some r \<Rightarrow>
                 ret \<lparr>ra_auth = \<lparr>ax_userId = Some (rr_userId r), ax_roles = rr_roles r, ax_anon = False,
                                 ax_anonSessionId = None, ax_guestAnonSessionId = verifiedAnonSessionId hmac anonKey rq\<rparr>,
                      ra_sessionExpiresAtMs = Some (rr_expiresAtMs r), ra_accountStatus = Some (rr_accountStatus r)\<rparr>
             | None \<Rightarrow> ret anonymous)
         | _ \<Rightarrow> ret anonymous)"

definition requireAuth :: "request_auth \<Rightarrow> ('w, string) prog" where
  "requireAuth ra =
     (case ax_userId (ra_auth ra) of
        None \<Rightarrow> raise (Unauthorized None)
      | Some u \<Rightarrow> if u = [] then raise (Unauthorized None) else ret u)"

definition requireRole :: "request_auth \<Rightarrow> string list \<Rightarrow> ('w, unit) prog" where
  "requireRole ra roles =
     (if list_ex (\<lambda>r. r \<in> set (ax_roles (ra_auth ra))) roles then ret () else raise (Forbidden None))"

subsection \<open>Suspended accounts\<close>

definition SUSPENDED_MESSAGE :: string where
  "SUSPENDED_MESSAGE = ''This account is suspended. You can still read civfix, but you cannot post, message, or change anything until the suspension is lifted.''"

definition READ_ONLY_METHODS :: "string list" where
  "READ_ONLY_METHODS = [''GET'', ''HEAD'', ''OPTIONS'']"

definition isSuspendedWrite :: "request \<Rightarrow> request_auth \<Rightarrow> bool" where
  "isSuspendedWrite rq ra =
     (if ra_accountStatus ra \<noteq> Some Suspended then False
      else if rq_method rq \<in> set READ_ONLY_METHODS then False
      else \<not> rq_allowSuspended rq)"

definition accountStatusGuard :: "request \<Rightarrow> request_auth \<Rightarrow> ('w, unit) prog" where
  "accountStatusGuard rq ra = (if isSuspendedWrite rq ra then raise (Forbidden (Some SUSPENDED_MESSAGE)) else ret ())"

text \<open>A socket outlives the request that opened it, so its status is looked up again before a write.\<close>

datatype socket_status_check = Live account_status | Revoked | Unknown
datatype socket_write_verdict = Allow | SuspendedVerdict | RevokedVerdict

definition socketWriteVerdict ::
  "('w, socket_status_check) prog option \<Rightarrow> account_status option \<Rightarrow> ('w, socket_write_verdict \<times> account_status option) prog" where
  "socketWriteVerdict revalidateStatus accountStatus =
     (let verdict = (\<lambda>s. (if s = Some Suspended then SuspendedVerdict else Allow, s))
      in case revalidateStatus of
           None \<Rightarrow> ret (verdict accountStatus)
         | Some revalidate \<Rightarrow>
             seq revalidate (\<lambda>check.
             case check of
               Revoked \<Rightarrow> ret (RevokedVerdict, accountStatus)
             | Live s \<Rightarrow> ret (verdict (Some s))
             | Unknown \<Rightarrow> ret (verdict accountStatus)))"

subsection \<open>The operator console\<close>

definition OPERATOR_ALLOWLIST_TTL_SECONDS :: int where "OPERATOR_ALLOWLIST_TTL_SECONDS = 60"
definition OPERATOR_ALLOWLIST_PREFIX :: string where "OPERATOR_ALLOWLIST_PREFIX = ''opallow:''"
definition ALLOWLIST_VERDICT_ALLOWED :: string where "ALLOWLIST_VERDICT_ALLOWED = ''1''"
definition ALLOWLIST_VERDICT_DENIED :: string where "ALLOWLIST_VERDICT_DENIED = ''0''"

definition isAdminEmail :: "string list \<Rightarrow> string \<Rightarrow> bool" where
  "isAdminEmail ADMIN_EMAILS email =
     (let normalized = toLowerCase (trim email) in normalized \<noteq> [] \<and> normalized \<in> set ADMIN_EMAILS)"

definition requireOperator :: "request_auth \<Rightarrow> ('w, string) prog" where
  "requireOperator ra = seq (requireAuth ra) (\<lambda>userId. seq (requireRole ra [''operator'']) (\<lambda>_. ret userId))"

definition email_allowed :: "string list \<Rightarrow> user_record option \<Rightarrow> bool" where
  "email_allowed ADMIN_EMAILS user =
     (case user of
        None \<Rightarrow> False
      | Some u \<Rightarrow> (case u_email u of None \<Rightarrow> False | Some e \<Rightarrow> isAdminEmail ADMIN_EMAILS e))"

definition isAllowlistedOperator ::
  "'w cache_client \<Rightarrow> 'w user_store \<Rightarrow> string list \<Rightarrow> string \<Rightarrow> ('w, bool) prog" where
  "isAllowlistedOperator C U ADMIN_EMAILS userId =
     (let key = OPERATOR_ALLOWLIST_PREFIX @ userId
      in seq (cc_get C key) (\<lambda>cached.
         case cached of
           Some v \<Rightarrow> ret (v = Text ALLOWLIST_VERDICT_ALLOWED)
         | None \<Rightarrow>
             seq (us_findById U userId) (\<lambda>user.
             (let allowed = email_allowed ADMIN_EMAILS user
              in seq (cc_set C key (Text (if allowed then ALLOWLIST_VERDICT_ALLOWED else ALLOWLIST_VERDICT_DENIED))
                        OPERATOR_ALLOWLIST_TTL_SECONDS) (\<lambda>_.
                 ret allowed)))))"

text \<open>Without the auth services nobody is an operator.\<close>

definition assertOperatorAuthority ::
  "('w cache_client \<times> 'w user_store \<times> string list) option \<Rightarrow> request_auth \<Rightarrow> ('w, string) prog" where
  "assertOperatorAuthority server ra =
     seq (requireOperator ra) (\<lambda>userId.
     seq (case server of None \<Rightarrow> ret False | Some (C, U, emails) \<Rightarrow> isAllowlistedOperator C U emails userId) (\<lambda>ok.
     if ok then ret userId else raise (Forbidden None)))"

subsection \<open>Bearer tokens\<close>

text \<open>
  The pattern the code avoids, \<open>/^Bearer\s+(.+)$/i\<close>: white space is tried from the longest split to the
  shortest, and the group matches a non-empty rest without a line break.
\<close>

definition bearer_regex :: "string \<Rightarrow> string option" where
  "bearer_regex value =
     (if toLowerCase (take 6 value) = ''bearer''
      then (let s = drop 6 value;
                n = length (takeWhile is_space s)
            in map_option (\<lambda>j. drop j s)
                 (find (\<lambda>j. drop j s \<noteq> [] \<and> \<not> list_ex is_line_terminator (drop j s)) (rev [1 ..< Suc n])))
      else None)"

lemma trim_last: "trim h \<noteq> [] \<Longrightarrow> \<not> is_space (last (trim h))"
  using hd_dropWhile [of is_space "rev (trimStart h)"] by (auto simp: trim_def trimEnd_def last_rev)

lemma bearer_prefix_regex:
  assumes "value = trim h"
  shows "bearer_regex value = (case bearer_prefix value of
     None \<Rightarrow> None | Some token \<Rightarrow> if list_ex is_line_terminator token then None else Some token)"
proof (cases "toLowerCase (take 6 value) = ''bearer'' \<and> drop 6 value \<noteq> [] \<and> is_space (hd (drop 6 value))")
  case True
  let ?s = "drop 6 value"
  let ?n = "length (takeWhile is_space ?s)"
  have rest: "drop ?n ?s = dropWhile is_space ?s" by (simp add: dropWhile_eq_drop)
  have n: "rev [1 ..< Suc ?n] = ?n # rev [1 ..< ?n]" using True by (cases ?s) auto
  have "value \<noteq> []" "last ?s = last value" using True by (auto simp: last_drop)
  then have "\<not> is_space (last ?s)" using trim_last [of h] assms by simp
  then have ne: "drop ?n ?s \<noteq> []" using True unfolding rest by (metis dropWhile_eq_Nil_conv last_in_set)
  show ?thesis
  proof (cases "list_ex is_line_terminator (drop ?n ?s)")
    case lt: True
    have "list_ex is_line_terminator (drop j ?s)" if "j < ?n" for j
      using lt that set_drop_subset_set_drop [of j ?n ?s] by (auto simp: list_ex_iff simp del: drop_drop)
    then have "find (\<lambda>j. drop j ?s \<noteq> [] \<and> \<not> list_ex is_line_terminator (drop j ?s)) (rev [1 ..< ?n]) = None"
      by (simp add: find_None_iff)
    then show ?thesis using True lt n rest by (simp add: bearer_regex_def bearer_prefix_def Let_def del: upt_Suc drop_drop)
  next
    case False
    then have "find (\<lambda>j. drop j ?s \<noteq> [] \<and> \<not> list_ex is_line_terminator (drop j ?s)) (rev [1 ..< Suc ?n]) = Some ?n"
      unfolding n using ne by (simp del: drop_drop drop_eq_Nil)
    then show ?thesis
      using True False rest by (simp add: bearer_regex_def bearer_prefix_def Let_def del: upt_Suc drop_drop drop_eq_Nil)
  qed
next
  case False
  then have "takeWhile is_space (drop 6 value) = []" if "toLowerCase (take 6 value) = ''bearer''"
    using that by (cases "drop 6 value") auto
  then show ?thesis using False by (auto simp: bearer_regex_def bearer_prefix_def Let_def)
qed

text \<open>
  reading the token after the longest white space gives the token that the pattern
  \<open>/^Bearer\s+(.+)$/i\<close> would capture from the trimmed header, on every request.
\<close>

theorem bearer_token_equiv:
  "bearerToken rq =
     (case firstHeaderValue (header rq ''authorization'') of None \<Rightarrow> None | Some h \<Rightarrow> if h = [] then None else bearer_regex (trim h))"
  by (simp add: bearerToken_def bearer_prefix_regex split: option.split)

subsection \<open>Cookies\<close>

text \<open>A browser refuses a \<open>__Host-\<close> cookie that is not secure.\<close>

fun browser :: "cookie_write \<Rightarrow> (string, string) js_map \<Rightarrow> (string, string) js_map" where
  "browser (SetCookie name v _ secure _) jar = (if startsWith name ''__Host-'' \<and> \<not> secure then jar else jm_set name v jar)"
| "browser (ClearCookie name) jar = jm_delete name jar"

lemma cookie_names: "SESSION_COOKIE \<noteq> SESSION_COOKIE_HOST" "startsWith SESSION_COOKIE_HOST ''__Host-''" "\<not> startsWith SESSION_COOKIE ''__Host-''"
  by code_simp+

text \<open>
  the session cookie a sign-in sets is the one the next request presents, in production whatever
  cookies the browser already holds and elsewhere when it holds no prefixed one; after a sign-out the browser
  presents none under either name.
\<close>

theorem session_cookie_roundtrip:
  assumes "token \<noteq> []" "isProd \<or> jm_get jar SESSION_COOKIE_HOST = None"
  shows "sessionCookieValue (rq\<lparr>rq_cookies := fold browser (setSessionCookie isProd token age) jar\<rparr>) = Some token \<and>
    sessionCookieValue (rq\<lparr>rq_cookies := fold browser clearSessionCookie (fold browser (setSessionCookie isProd token age) jar)\<rparr>) = None"
  using assms cookie_names
  by (auto simp: sessionCookieValue_def setSessionCookie_def clearSessionCookie_def sessionCookieName_def split: option.split)


subsection \<open>The allowlist of the console\<close>

abbreviation allow_key :: "string \<Rightarrow> string" where
  "allow_key u \<equiv> OPERATOR_ALLOWLIST_PREFIX @ u"

text \<open>A cached verdict lapses within a minute.\<close>

definition verdict_fresh :: "'w cache_world_scheme \<Rightarrow> string \<Rightarrow> bool" where
  "verdict_fresh w u \<longleftrightarrow> (\<forall>v x. mem_entry w (allow_key u) = Some (v, x) \<longrightarrow>
     (\<exists>t. x = At t \<and> t \<le> clock w + OPERATOR_ALLOWLIST_TTL_SECONDS * 1000))"

lemma allowlist_run:
  fixes w :: "'w auth_world_scheme" and emails :: "string list" and u :: string
  assumes "U = in_memory_users uuid_of handle_ok isoDate label"
  defines "m \<equiv> isAllowlistedOperator in_memory_cache U emails u"
  shows "fst (m w) = Inr (case mem_entry w (allow_key u) of
      Some (v, _) \<Rightarrow> v = Text ALLOWLIST_VERDICT_ALLOWED | None \<Rightarrow> email_allowed emails (jm_get (user_rows w) u))"
    "clock (snd (m w)) = clock w"
    "mem_entry (snd (m w)) = (case mem_entry w (allow_key u) of Some _ \<Rightarrow> mem_entry w
       | None \<Rightarrow> (mem_entry w)(allow_key u \<mapsto>
           (Text (if email_allowed emails (jm_get (user_rows w) u) then ALLOWLIST_VERDICT_ALLOWED else ALLOWLIST_VERDICT_DENIED),
            At (clock w + OPERATOR_ALLOWLIST_TTL_SECONDS * 1000))))"
proof -
  have ttl: "0 < OPERATOR_ALLOWLIST_TTL_SECONDS" by (simp add: OPERATOR_ALLOWLIST_TTL_SECONDS_def)
  have rows: "user_rows (snd (cc_get in_memory_cache k w)) = user_rows w" for k
    using auth_rest_cache(1) [of k w] by (simp add: auth_rest_def in_memory_cache_def)
  note run = mem_cache.result_laws mem_cache.now_laws mem_cache.entry_laws rows ttl
  show "fst (m w) = Inr (case mem_entry w (allow_key u) of
      Some (v, _) \<Rightarrow> v = Text ALLOWLIST_VERDICT_ALLOWED | None \<Rightarrow> email_allowed emails (jm_get (user_rows w) u))"
    "clock (snd (m w)) = clock w"
    "mem_entry (snd (m w)) = (case mem_entry w (allow_key u) of Some _ \<Rightarrow> mem_entry w
       | None \<Rightarrow> (mem_entry w)(allow_key u \<mapsto>
           (Text (if email_allowed emails (jm_get (user_rows w) u) then ALLOWLIST_VERDICT_ALLOWED else ALLOWLIST_VERDICT_DENIED),
            At (clock w + OPERATOR_ALLOWLIST_TTL_SECONDS * 1000))))"
    by (auto simp: m_def isAllowlistedOperator_def assms(1) in_memory_users_def user_findById_def prog_simps Let_def run
        split: option.splits)
qed

lemma verdict_fresh_check:
  assumes "U = in_memory_users uuid_of handle_ok isoDate label" "verdict_fresh w u"
  shows "verdict_fresh (snd (isAllowlistedOperator in_memory_cache U emails u' w)) u"
  using assms(2) unfolding verdict_fresh_def allowlist_run(2,3) [OF assms(1)]
  by (auto split: option.splits if_splits)

lemma verdict_fresh_tick: "0 \<le> d \<Longrightarrow> verdict_fresh w u \<Longrightarrow> verdict_fresh (tick d w) u"
  unfolding verdict_fresh_def by (fastforce simp: mem_cache.advance_view split: option.splits if_splits)

text \<open>Console requests of any users over time, with the allowlist of the time.\<close>

fun console_checks ::
  "'w auth_world_scheme user_store \<Rightarrow> (int \<times> string list \<times> string) list \<Rightarrow> 'w auth_world_scheme \<Rightarrow> 'w auth_world_scheme" where
  "console_checks U [] w = w"
| "console_checks U ((d, emails, u) # cs) w =
     console_checks U cs (snd (isAllowlistedOperator in_memory_cache U emails u (tick d w)))"

lemma console_checks_fresh:
  assumes "U = in_memory_users uuid_of handle_ok isoDate label" "list_all (\<lambda>c. 0 \<le> fst c) cs" "verdict_fresh w u"
  shows "verdict_fresh (console_checks U cs w) u"
  using assms(2,3)
proof (induction cs arbitrary: w)
  case (Cons c cs)
  obtain d emails u' where "c = (d, emails, u')" by (cases c)
  then show ?case
    using Cons by (auto intro!: Cons.IH verdict_fresh_check [OF assms(1)] verdict_fresh_tick)
qed simp

text \<open>
  whatever console requests were made before, a minute after the allowlist or the account's address
  changed the console decides by the new list and the new address.
\<close>

theorem offboarding_takes_a_minute:
  fixes w :: "'w auth_world_scheme"
  assumes "U = in_memory_users uuid_of handle_ok isoDate label" "list_all (\<lambda>c. 0 \<le> fst c) cs"
    "mem_entry w (allow_key u) = None" "60 * 1000 \<le> d"
  shows "fst (isAllowlistedOperator in_memory_cache U emails u (tick d ((console_checks U cs w)\<lparr>user_rows := rows\<rparr>))) =
    Inr (email_allowed emails (jm_get rows u))"
proof -
  let ?w = "(console_checks U cs w)\<lparr>user_rows := rows\<rparr>"
  have "verdict_fresh w u" using assms(3) by (simp add: verdict_fresh_def)
  then have "verdict_fresh (console_checks U cs w) u" by (rule console_checks_fresh [OF assms(1,2)])
  then have "verdict_fresh ?w u" by (simp add: verdict_fresh_def)
  then have "mem_entry (tick d ?w) (allow_key u) = None"
    using assms(4) by (fastforce simp: verdict_fresh_def mem_cache.advance_view OPERATOR_ALLOWLIST_TTL_SECONDS_def split: option.splits)
  then show ?thesis by (simp add: allowlist_run(1) [OF assms(1)]) (simp add: tick_def)
qed

text \<open>
  a request that passes the console's guard presented a token that resolves, at that moment, to a session
  of the returned user with the operator role, and the verdict cached within the last minute or the user's
  current address is on the allowlist.
\<close>

theorem console_guard_sound:
  fixes w :: "'w auth_world_scheme"
  assumes "U = in_memory_users uuid_of handle_ok isoDate label"
    "resolveAuthContext (Some D) hmac anonKey rq w = (Inr ra, w1)"
    "fst (assertOperatorAuthority (Some (in_memory_cache, U, emails)) ra w1) = Inr u"
  shows "\<exists>token r. presentedSessionToken rq = Some token \<and> fst (resolveSession D token w) = Inr (Some r) \<and>
    rr_userId r = u \<and> ''operator'' \<in> set (rr_roles r) \<and>
    ((\<exists>x. mem_entry w1 (allow_key u) = Some (Text ALLOWLIST_VERDICT_ALLOWED, x)) \<or>
     (mem_entry w1 (allow_key u) = None \<and> email_allowed emails (jm_get (user_rows w1) u)))"
proof -
  have user: "ax_userId (ra_auth ra) = Some u" "''operator'' \<in> set (ax_roles (ra_auth ra))"
    and allowed: "fst (isAllowlistedOperator in_memory_cache U emails u w1) = Inr True"
    using assms(3)
    by (auto simp: assertOperatorAuthority_def requireOperator_def requireAuth_def requireRole_def prog_simps
        split: option.splits if_splits sum.splits)
  obtain token r where "presentedSessionToken rq = Some token" "fst (resolveSession D token w) = Inr (Some r)"
    "rr_userId r = u" "''operator'' \<in> set (rr_roles r)"
    using assms(2) user
    by (auto simp: resolveAuthContext_def anonymousAuth_def prog_simps Let_def split: option.splits sum.splits)
  moreover have "(\<exists>x. mem_entry w1 (allow_key u) = Some (Text ALLOWLIST_VERDICT_ALLOWED, x)) \<or>
     (mem_entry w1 (allow_key u) = None \<and> email_allowed emails (jm_get (user_rows w1) u))"
    using allowed unfolding allowlist_run(1) [OF assms(1)] by (auto split: option.splits)
  ultimately show ?thesis by blast
qed

subsection \<open>Witnesses\<close>

definition sample_request :: "string \<Rightarrow> request" where
  "sample_request csrf =
     \<lparr>rq_method = ''POST'', rq_headers = [(''x-csrf-token'', Single csrf)], rq_cookies = [(''civfix_session'', ''t0'')],
      rq_allowSuspended = False\<rparr>"


theorem session_cookie_roundtrip_witness:
  "sessionCookieValue ((sample_request [])\<lparr>rq_cookies := fold browser (setSessionCookie True ''t9'' 60) [(''civfix_session'', ''t0'')]\<rparr>) = Some ''t9''"
  using session_cookie_roundtrip [where token = "''t9''" and isProd = True] by simp


theorem offboarding_takes_a_minute_witness:
  "fst (isAllowlistedOperator in_memory_cache (in_memory_users sample_token (\<lambda>_. True) string_of_int ''deleted'') [] ''u1''
     (tick 60000 ((console_checks (in_memory_users sample_token (\<lambda>_. True) string_of_int ''deleted'')
        [(0, [''a@b.org''], ''u1'')] empty_auth_world)\<lparr>user_rows := []\<rparr>))) = Inr (email_allowed [] None)"
proof -
  have "mem_entry empty_auth_world (allow_key ''u1'') = None" by (simp add: mem_entry_def empty_auth_world_def)
  then show ?thesis
    using offboarding_takes_a_minute [OF refl, of "[(0, [''a@b.org''], ''u1'')]" empty_auth_world "''u1''" 60000] by simp
qed

definition operator_row :: user_record where
  "operator_row = new_user_row ''bob'' (Some ''a@b.org'')
     \<lparr>cu_displayName = ''Bob'', cu_role = Some ''operator'', cu_emailVerified = Some True, cu_avatarUrl = None, cu_handle = None,
      cu_profileComplete = None, cu_onEmailConflict = None\<rparr> 0"

definition operator_world :: auth_world where
  "operator_world = snd (createSession sample_service ''bob'' [''operator''] no_meta (put_user ''bob'' operator_row empty_auth_world))"

definition operator_request :: request where
  "operator_request = \<lparr>rq_method = ''GET'', rq_headers = [], rq_cookies = [(''civfix_session'', ''t0'')], rq_allowSuspended = False\<rparr>"

theorem console_guard_sound_witness:
  "\<exists>token r. presentedSessionToken operator_request = Some token \<and>
     fst (resolveSession sample_service token operator_world) = Inr (Some r) \<and> rr_userId r = ''bob'' \<and> ''operator'' \<in> set (rr_roles r)"
proof -
  let ?m = "resolveAuthContext (Some sample_service) (\<lambda>i k. i) ''k'' operator_request"
  let ?U = "in_memory_users sample_token (\<lambda>_. True) string_of_int ''deleted''"
  let ?run = "seq ?m (\<lambda>ra. assertOperatorAuthority (Some (in_memory_cache, ?U, [''a@b.org''])) ra)"
  have "fst (?run operator_world) = Inr ''bob''" by code_simp
  then obtain ra w1 where 1: "?m operator_world = (Inr ra, w1)"
    and 2: "fst (assertOperatorAuthority (Some (in_memory_cache, ?U, [''a@b.org''])) ra w1) = Inr ''bob''"
    by (auto simp: seq_run split: sum.splits) (metis prod.collapse)
  from console_guard_sound [OF refl 1 2] show ?thesis by blast
qed

end
