(* ===== verification/Send_Resilience.thy ===== *)
theory Send_Resilience
  imports Prelude
begin

section \<open>Chat sends that are retried (\<open>ws/send-resilience.ts\<close>)\<close>

definition BROADCAST_ATTEMPTS :: nat where "BROADCAST_ATTEMPTS = 3"
definition BROADCAST_BACKOFF_MS :: "int list" where "BROADCAST_BACKOFF_MS = [100, 250]"
definition DEDUPE_WARN_INTERVAL_MS :: int where "DEDUPE_WARN_INTERVAL_MS = 60000"
definition SEND_DEDUPE_KEY_PREFIX :: string where "SEND_DEDUPE_KEY_PREFIX = ''chat:send:''"

datatype send_reservation = Reserved | Duplicate string | Open

record 'w dedupe_store =
  ds_reserve :: "string \<Rightarrow> ('w, send_reservation) prog"
  ds_commit :: "string \<Rightarrow> string \<Rightarrow> ('w, unit) prog"
  ds_release :: "string \<Rightarrow> ('w, unit) prog"

definition sendDedupeKey :: "string \<Rightarrow> string \<Rightarrow> string \<Rightarrow> string" where
  "sendDedupeKey userId roomKey clientId = SEND_DEDUPE_KEY_PREFIX @ userId @ '':'' @ roomKey @ '':'' @ clientId"

subsection \<open>The in-memory store\<close>

record dedupe_entry =
  de_value :: string
  de_expiresAtMs :: int

record dedupe_world = clock_world +
  dedupe_rows :: "(string, dedupe_entry) js_map"






definition dedupe_size :: "('w dedupe_world_scheme, nat) prog" where
  "dedupe_size = reads (\<lambda>w. length (dedupe_rows w))"


subsection \<open>Warnings\<close>

text \<open>The closure of \<open>makeRateLimitedWarn\<close>: when a message was last logged, and how many were held back.\<close>

record warn_state =
  ws_lastAt :: "(string, int) js_map"
  ws_suppressed :: nat

definition rate_limited_warn ::
  "((string \<times> nat option) \<Rightarrow> ('w, unit) prog) option \<Rightarrow> int \<Rightarrow> int \<Rightarrow> string \<Rightarrow> warn_state \<Rightarrow> ('w, warn_state) prog" where
  "rate_limited_warn logger intervalMs at message st =
     (case logger of
        None \<Rightarrow> ret st
      | Some warn \<Rightarrow>
          if (case jm_get (ws_lastAt st) message of None \<Rightarrow> False | Some previous \<Rightarrow> at - previous < intervalMs)
          then ret (st\<lparr>ws_suppressed := ws_suppressed st + 1\<rparr>)
          else seq (warn (message, if ws_suppressed st > 0 then Some (ws_suppressed st) else None)) (\<lambda>_.
               ret (st\<lparr>ws_lastAt := jm_set message at (ws_lastAt st), ws_suppressed := 0\<rparr>)))"

subsection \<open>The wrapper\<close>

text \<open>
  The counters of the closure (\<open>dedupeFailures\<close>, \<open>failures\<close>) and of its warnings travel through the
  program; \<open>'m\<close> is the message.
\<close>

record resilience_state =
  rs_dedupeFailures :: nat
  rs_failures :: nat
  rs_warn :: warn_state

record broadcast_failure =
  bf_roomKey :: string
  bf_messageId :: string
  bf_attempts :: nat
  bf_failures :: nat
  bf_localRecipients :: nat

record ('w, 'm) send_deps =
  sr_dedupe :: "'w dedupe_store option"
  sr_findRoomMessage :: "(string \<Rightarrow> string \<Rightarrow> string \<Rightarrow> string \<Rightarrow> ('w, 'm option) prog) option"
  sr_deliverLocally :: "(string \<Rightarrow> 'm \<Rightarrow> string \<Rightarrow> ('w, nat) prog) option"
  sr_onBroadcastFailure :: "(broadcast_failure \<Rightarrow> ('w, unit) prog) option"
  sr_sleep :: "int \<Rightarrow> ('w, unit) prog"
  sr_jitterOf :: "int \<Rightarrow> ('w, int) prog"
  sr_logger :: "((string \<times> nat option) \<Rightarrow> ('w, unit) prog) option"
  sr_now :: "'w \<Rightarrow> int"
  sr_messageId :: "'m \<Rightarrow> string"
  sr_broadcast :: "string \<Rightarrow> 'm \<Rightarrow> string \<Rightarrow> ('w, unit) prog"

definition count_dedupe_failure :: "('w, 'm) send_deps \<Rightarrow> string \<Rightarrow> resilience_state \<Rightarrow> ('w, resilience_state) prog" where
  "count_dedupe_failure D message st =
     seq (reads (sr_now D)) (\<lambda>at.
     seq (rate_limited_warn (sr_logger D) DEDUPE_WARN_INTERVAL_MS at message (rs_warn st)) (\<lambda>ws.
     ret (st\<lparr>rs_dedupeFailures := rs_dedupeFailures st + 1, rs_warn := ws\<rparr>)))"

definition resilient_reserve ::
  "('w, 'm) send_deps \<Rightarrow> string \<Rightarrow> resilience_state \<Rightarrow> ('w, send_reservation \<times> resilience_state) prog" where
  "resilient_reserve D key st =
     (case sr_dedupe D of
        None \<Rightarrow> ret (Open, st)
      | Some store \<Rightarrow>
          recover (seq (ds_reserve store key) (\<lambda>r. ret (r, st)))
            (\<lambda>_. seq (count_dedupe_failure D
                        ''chat: send dedupe unavailable; the send will insert without an idempotency reservation'' st)
                    (\<lambda>st'. ret (Open, st'))))"

definition resilient_commit ::
  "('w, 'm) send_deps \<Rightarrow> string \<Rightarrow> string \<Rightarrow> resilience_state \<Rightarrow> ('w, resilience_state) prog" where
  "resilient_commit D key messageId st =
     (case sr_dedupe D of
        None \<Rightarrow> ret st
      | Some store \<Rightarrow>
          recover (seq (ds_commit store key messageId) (\<lambda>_. ret st))
            (\<lambda>_. count_dedupe_failure D ''chat: send dedupe commit failed; a retry of this clientId may duplicate'' st))"

definition resilient_release :: "('w, 'm) send_deps \<Rightarrow> string \<Rightarrow> resilience_state \<Rightarrow> ('w, resilience_state) prog" where
  "resilient_release D key st =
     (case sr_dedupe D of
        None \<Rightarrow> ret st
      | Some store \<Rightarrow>
          recover (seq (ds_release store key) (\<lambda>_. ret st))
            (\<lambda>_. count_dedupe_failure D ''chat: send dedupe release failed; the reservation will expire on its own'' st))"

definition resilient_findRoomMessage ::
  "('w, 'm) send_deps \<Rightarrow> string \<Rightarrow> string \<Rightarrow> string \<Rightarrow> string \<Rightarrow> ('w, 'm option) prog" where
  "resilient_findRoomMessage D kind roomId messageId viewerUserId =
     (case sr_findRoomMessage D of
        None \<Rightarrow> ret None
      | Some find_message \<Rightarrow>
          recover (find_message kind roomId messageId viewerUserId)
            (\<lambda>_. seq (case sr_logger D of
                        None \<Rightarrow> ret ()
                      | Some warn \<Rightarrow> warn (''chat: idempotent re-ack lookup failed; the resend will insert a new message'', None))
                    (\<lambda>_. ret None)))"

fun nth_backoff :: "nat \<Rightarrow> int list \<Rightarrow> int option" where
  "nth_backoff n [] = None"
| "nth_backoff 0 (b # bs) = Some b"
| "nth_backoff (Suc n) (b # bs) = nth_backoff n bs"

text \<open>The \<open>for\<close> loop over the attempts still to make; the result says whether one got through.\<close>

fun broadcast_attempts ::
  "('w, 'm) send_deps \<Rightarrow> string \<Rightarrow> 'm \<Rightarrow> string \<Rightarrow> nat list \<Rightarrow> ('w, bool) prog" where
  "broadcast_attempts D roomKey message excludeConnId [] = ret False"
| "broadcast_attempts D roomKey message excludeConnId (attempt # rest) =
     recover (seq (sr_broadcast D roomKey message excludeConnId) (\<lambda>_. ret True))
       (\<lambda>_. seq (case nth_backoff attempt BROADCAST_BACKOFF_MS of
                   None \<Rightarrow> ret ()
                 | Some backoff \<Rightarrow> seq (sr_jitterOf D backoff) (\<lambda>j. sr_sleep D (backoff + j)))
               (\<lambda>_. broadcast_attempts D roomKey message excludeConnId rest))"

definition broadcastMessage ::
  "('w, 'm) send_deps \<Rightarrow> string \<Rightarrow> 'm \<Rightarrow> string \<Rightarrow> resilience_state \<Rightarrow> ('w, resilience_state) prog" where
  "broadcastMessage D roomKey message excludeConnId st =
     seq (broadcast_attempts D roomKey message excludeConnId [0 ..< BROADCAST_ATTEMPTS]) (\<lambda>sent.
     if sent then ret st
     else
       seq (case sr_deliverLocally D of
              None \<Rightarrow> ret 0
            | Some deliver \<Rightarrow> recover (deliver roomKey message excludeConnId) (\<lambda>_. ret 0)) (\<lambda>localRecipients.
       seq (case sr_onBroadcastFailure D of
              None \<Rightarrow> ret ()
            | Some report \<Rightarrow>
                report \<lparr>bf_roomKey = roomKey, bf_messageId = sr_messageId D message, bf_attempts = BROADCAST_ATTEMPTS,
                        bf_failures = rs_failures st + 1, bf_localRecipients = localRecipients\<rparr>) (\<lambda>_.
       ret (st\<lparr>rs_failures := rs_failures st + 1\<rparr>))))"

subsection \<open>The contract of a reservation store\<close>







text \<open>
  an unavailable reservation store never fails a send: whatever the store does, reserving, committing and
  releasing resolve, and a rejected reservation counts one failure and answers \<open>open\<close>.
\<close>

theorem dedupe_outage_is_absorbed:
  assumes "sr_logger D = None" "sr_dedupe D = Some store"
  shows "fst (resilient_reserve D key st w) = Inr (case fst (ds_reserve store key w) of
      Inr r \<Rightarrow> (r, st) | Inl _ \<Rightarrow> (Open, st\<lparr>rs_dedupeFailures := rs_dedupeFailures st + 1\<rparr>)) \<and>
    fst (resilient_commit D key m st w) = Inr (case fst (ds_commit store key m w) of
      Inr _ \<Rightarrow> st | Inl _ \<Rightarrow> st\<lparr>rs_dedupeFailures := rs_dedupeFailures st + 1\<rparr>) \<and>
    fst (resilient_release D key st w) = Inr (case fst (ds_release store key w) of
      Inr _ \<Rightarrow> st | Inl _ \<Rightarrow> st\<lparr>rs_dedupeFailures := rs_dedupeFailures st + 1\<rparr>)"
  using assms
  by (auto simp: resilient_reserve_def resilient_commit_def resilient_release_def count_dedupe_failure_def
      rate_limited_warn_def prog_simps split: sum.splits)

subsection \<open>Broadcast attempts\<close>

text \<open>A broadcaster whose attempts succeed and fail by a script (and fail after its end), with what it did.\<close>

record script_world =
  script :: "bool list"
  attempted :: nat
  slept :: "int list"
  local_deliveries :: nat

definition scripted :: "string \<Rightarrow> 'm \<Rightarrow> string \<Rightarrow> (script_world, unit) prog" where
  "scripted roomKey message conn = (\<lambda>w.
     ((case script w of True # _ \<Rightarrow> Inr () | _ \<Rightarrow> Inl (PlainError ''timed out'')),
      w\<lparr>script := tl (script w), attempted := attempted w + 1\<rparr>))"

definition scripted_deps :: "('m \<Rightarrow> string) \<Rightarrow> (int \<Rightarrow> int) \<Rightarrow> (script_world, 'm) send_deps" where
  "scripted_deps mid jitter =
     \<lparr>sr_dedupe = None, sr_findRoomMessage = None,
      sr_deliverLocally = Some (\<lambda>_ _ _ w. (Inr 1, w\<lparr>local_deliveries := local_deliveries w + 1\<rparr>)),
      sr_onBroadcastFailure = None, sr_sleep = (\<lambda>ms w. (Inr (), w\<lparr>slept := slept w @ [ms]\<rparr>)),
      sr_jitterOf = (\<lambda>b. ret (jitter b)), sr_logger = None, sr_now = (\<lambda>_. 0), sr_messageId = mid, sr_broadcast = scripted\<rparr>"

definition broadcast_run ::
  "('m \<Rightarrow> string) \<Rightarrow> (int \<Rightarrow> int) \<Rightarrow> string \<Rightarrow> 'm \<Rightarrow> string \<Rightarrow> resilience_state \<Rightarrow> bool list \<Rightarrow> script_world" where
  "broadcast_run mid jitter room m conn st bs =
     snd (broadcastMessage (scripted_deps mid jitter) room m conn st \<lparr>script = bs, attempted = 0, slept = [], local_deliveries = 0\<rparr>)"

lemmas broadcast_run_defs =
  broadcast_run_def broadcastMessage_def scripted_deps_def scripted_def prog_simps BROADCAST_ATTEMPTS_def BROADCAST_BACKOFF_MS_def

text \<open>
  a broadcast is attempted until one attempt succeeds and at most three times, sleeping after the first
  and the second failure only; the connected sockets of this process get the message exactly when all three
  attempts failed.
\<close>

theorem broadcast_tries_three_times:
  "let run = broadcast_run mid jitter room m conn st outcomes; failed = length (takeWhile Not (outcomes @ [False, False, False])) in
   attempted run = min 3 (failed + 1) \<and>
   slept run = map (\<lambda>b. b + jitter b) (take failed BROADCAST_BACKOFF_MS) \<and>
   local_deliveries run = (if True \<in> set (take 3 outcomes) then 0 else 1)"
proof -
  consider "outcomes = []" | t where "outcomes = True # t" | "outcomes = [False]" | t where "outcomes = False # True # t"
    | "outcomes = [False, False]" | t where "outcomes = False # False # True # t" | t where "outcomes = False # False # False # t"
    by (metis (full_types) list.exhaust)
  then show ?thesis
    by cases (simp_all add: broadcast_run_defs upt_rec numeral_2_eq_2 Let_def)
qed


theorem dedupe_outage_is_absorbed_witness:
  "fst (resilient_reserve ((scripted_deps (\<lambda>m :: string. m) (\<lambda>b. b))\<lparr>sr_dedupe := Some
      \<lparr>ds_reserve = (\<lambda>_. raise (PlainError ''down'')), ds_commit = (\<lambda>_ _. ret ()), ds_release = (\<lambda>_. ret ())\<rparr>\<rparr>) ''k''
      \<lparr>rs_dedupeFailures = 0, rs_failures = 0, rs_warn = \<lparr>ws_lastAt = [], ws_suppressed = 0\<rparr>\<rparr>
      \<lparr>script = [], attempted = 0, slept = [], local_deliveries = 0\<rparr>) =
    Inr (Open, \<lparr>rs_dedupeFailures = 1, rs_failures = 0, rs_warn = \<lparr>ws_lastAt = [], ws_suppressed = 0\<rparr>\<rparr>)"
  by (subst dedupe_outage_is_absorbed [THEN conjunct1]) (auto simp: scripted_deps_def prog_simps)

end
