(* ===== verification/Token_Bucket.thy ===== *)
theory Token_Bucket
  imports Prelude Complex_Main
begin

section \<open>The token-bucket limiter (\<open>ws/report-rate-limit.ts\<close>)\<close>

text \<open>
  The limiter of socket frames and chat sends: one bucket for each key, refilled with time, and a cap on the
  number of buckets.  Token counts are rationals, where the program has floating-point numbers.
\<close>

record token_bucket_options =
  tb_capacity :: rat
  tb_refillPerSec :: rat
  tb_maxKeys :: "nat option"

record bucket =
  bk_tokens :: rat
  bk_last :: int

record bucket_world = clock_world +
  buckets :: "(string, bucket) js_map"

definition EVICT_PREFER_FULL_WINDOW :: nat where "EVICT_PREFER_FULL_WINDOW = 32"
definition DEFAULT_MAX_KEYS :: nat where "DEFAULT_MAX_KEYS = 50000"

definition refilledTokens :: "bucket \<Rightarrow> int \<Rightarrow> token_bucket_options \<Rightarrow> rat" where
  "refilledTokens b t opts =
     min (tb_capacity opts) (bk_tokens b + (of_int (t - bk_last b) / 1000) * tb_refillPerSec opts)"

definition maxKeys :: "token_bucket_options \<Rightarrow> nat" where
  "maxKeys opts = max 1 (case tb_maxKeys opts of None \<Rightarrow> DEFAULT_MAX_KEYS | Some n \<Rightarrow> n)"

text \<open>The victim: the first full bucket among the oldest 32, else the oldest.\<close>

definition evict_victim :: "token_bucket_options \<Rightarrow> int \<Rightarrow> (string, bucket) js_map \<Rightarrow> string option" where
  "evict_victim opts t bs =
     (case find (\<lambda>(k, b). refilledTokens b t opts \<ge> tb_capacity opts) (take EVICT_PREFER_FULL_WINDOW bs) of
        Some (k, _) \<Rightarrow> Some k
      | None \<Rightarrow> (case bs of [] \<Rightarrow> None | (k, _) # _ \<Rightarrow> Some k))"

lemma evict_victim_in: "evict_victim opts t bs = Some k \<Longrightarrow> k \<in> set (jm_keys bs)"
  by (auto simp: evict_victim_def split: option.splits list.splits dest!: find_SomeD in_set_takeD)
    (force dest: in_set_takeD)?

lemma delete_shorter: "k \<in> set (jm_keys m) \<Longrightarrow> length (jm_delete k m) < length m"
  by (induction m) (auto intro: le_imp_less_Suc AList.length_delete_le)

lemma evict_victim_some: "bs \<noteq> [] \<Longrightarrow> evict_victim opts t bs \<noteq> None"
  by (auto simp: evict_victim_def neq_Nil_conv split: option.split)

function evictToCap :: "token_bucket_options \<Rightarrow> int \<Rightarrow> (string, bucket) js_map \<Rightarrow> (string, bucket) js_map" where
  "evictToCap opts t bs =
     (if length bs > maxKeys opts
      then (case evict_victim opts t bs of None \<Rightarrow> bs | Some victim \<Rightarrow> evictToCap opts t (jm_delete victim bs))
      else bs)"
  by pat_completeness auto
termination
  by (relation "measure (\<lambda>(_, _, bs). length bs)") (auto intro: delete_shorter evict_victim_in)

declare evictToCap.simps [simp del]

definition tryConsume :: "token_bucket_options \<Rightarrow> string \<Rightarrow> ('w bucket_world_scheme, bool) prog" where
  "tryConsume opts key = (\<lambda>w.
     let t = clock w;
         existing = jm_get (buckets w) key;
         b = (case existing of None \<Rightarrow> \<lparr>bk_tokens = tb_capacity opts, bk_last = t\<rparr> | Some b \<Rightarrow> b);
         rest = (case existing of None \<Rightarrow> buckets w | Some _ \<Rightarrow> jm_delete key (buckets w));
         tokens = refilledTokens b t opts;
         allowed = (tokens \<ge> 1);
         b' = \<lparr>bk_tokens = (if allowed then tokens - 1 else tokens), bk_last = t\<rparr>
     in (Inr allowed, w\<lparr>buckets := evictToCap opts t (jm_set key b' rest)\<rparr>))"

subsection \<open>Size\<close>

lemma evictToCap_size: "length (evictToCap opts t bs) \<le> maxKeys opts"
proof (induction opts t bs rule: evictToCap.induct)
  case (1 opts t bs)
  show ?case
  proof (cases "length bs > maxKeys opts")
    case True
    then obtain k where "evict_victim opts t bs = Some k" using evict_victim_some [of bs opts t] by fastforce
    with 1 True show ?thesis by (simp add: evictToCap.simps [of opts t bs])
  qed (simp add: evictToCap.simps [of opts t bs])
qed


text \<open>the limiter never holds more buckets than its cap, whatever keys it is asked about.\<close>

theorem bucket_count_capped:
  "length (buckets (snd (tryConsume opts key w))) \<le> maxKeys opts"
  by (simp add: tryConsume_def Let_def evictToCap_size)

subsection \<open>Rate\<close>

















end
