(* ===== verification/Ref_Counted.thy ===== *)
theory Ref_Counted
  imports Prelude
begin

section \<open>Reference-counted subscriptions (\<open>adapters/ref-counted-subscriptions.ts\<close>)\<close>

text \<open>
  The table that shares one upstream subscription among the members of a key, as a state machine.  An
  awaited promise splits a method into events: an \<open>add\<close> that has to wait for the upstream becomes a waiter,
  the upstream settles as an event of its own, and each waiter resumes as a further event, in any order
  and with any other calls in between.  An entry is an object of the program: entries are numbered in the
  order of their creation, and the map of the table holds the number of the entry a key has now.
\<close>

datatype phase = Opening | Opened | Rejected

record 'm entry =
  en_key :: string
  en_members :: "'m list"
  en_phase :: phase

text \<open>A handle is the release closure an \<open>add\<close> returned, with its \<open>released\<close> flag.\<close>

record 'm handle =
  hd_key :: string
  hd_member :: 'm
  hd_entry :: nat
  hd_released :: bool

record 'm rc_state =
  rc_map :: "(string, nat) js_map"
  rc_heap :: "'m entry list"
  rc_waiters :: "(nat \<times> string \<times> 'm) list"
  rc_handles :: "'m handle list"
  rc_torn :: "nat list"
  rc_refused :: "(string \<times> 'm) list"

definition rc_empty :: "'m rc_state" where
  "rc_empty = \<lparr>rc_map = [], rc_heap = [], rc_waiters = [], rc_handles = [], rc_torn = [], rc_refused = []\<rparr>"

subsection \<open>The methods between two awaits\<close>

definition on_entry :: "nat \<Rightarrow> ('m entry \<Rightarrow> 'm entry) \<Rightarrow> 'm rc_state \<Rightarrow> 'm rc_state" where
  "on_entry e f s = s\<lparr>rc_heap := (rc_heap s)[e := f (rc_heap s ! e)]\<rparr>"

text \<open>\<open>openEntry\<close> inserts the entry and starts its one upstream subscribe.\<close>

definition openEntry :: "string \<Rightarrow> 'm rc_state \<Rightarrow> nat \<times> 'm rc_state" where
  "openEntry key s =
     (let e = length (rc_heap s)
      in (e, s\<lparr>rc_heap := rc_heap s @ [\<lparr>en_key = key, en_members = [], en_phase = Opening\<rparr>],
                rc_map := jm_set key e (rc_map s)\<rparr>))"

definition attach :: "string \<Rightarrow> 'm \<Rightarrow> nat \<Rightarrow> 'm rc_state \<Rightarrow> 'm rc_state" where
  "attach key member e s =
     (on_entry e (\<lambda>en. en\<lparr>en_members := (if member \<in> set (en_members en) then en_members en else en_members en @ [member])\<rparr>) s)
       \<lparr>rc_handles := rc_handles s @ [\<lparr>hd_key = key, hd_member = member, hd_entry = e, hd_released = False\<rparr>]\<rparr>"

text \<open>The head of the loop in \<open>add\<close>, up to the await or to the return.\<close>

definition rc_add :: "string \<Rightarrow> 'm \<Rightarrow> 'm rc_state \<Rightarrow> 'm rc_state" where
  "rc_add key member s =
     (case (case jm_get (rc_map s) key of Some e \<Rightarrow> (e, s) | None \<Rightarrow> openEntry key s) of (e, s') \<Rightarrow>
        if en_phase (rc_heap s' ! e) = Opened then attach key member e s'
        else s'\<lparr>rc_waiters := rc_waiters s' @ [(e, key, member)]\<rparr>)"

text \<open>The upstream subscribe of an entry resolves or rejects.\<close>

definition rc_settle :: "nat \<Rightarrow> bool \<Rightarrow> 'm rc_state \<Rightarrow> 'm rc_state" where
  "rc_settle e ok s =
     (if ok then on_entry e (\<lambda>en. en\<lparr>en_phase := Opened\<rparr>) s
      else
        (let s' = on_entry e (\<lambda>en. en\<lparr>en_phase := Rejected\<rparr>) s;
             key = en_key (rc_heap s ! e)
         in if jm_get (rc_map s') key = Some e then s'\<lparr>rc_map := jm_delete key (rc_map s')\<rparr> else s'))"

text \<open>The rest of \<open>add\<close> after its await: the rejection, the retry when the entry was replaced, or the end.\<close>

definition rc_resume :: "nat \<Rightarrow> 'm rc_state \<Rightarrow> 'm rc_state" where
  "rc_resume i s =
     (case rc_waiters s ! i of (e, key, member) \<Rightarrow>
        (let s' = s\<lparr>rc_waiters := take i (rc_waiters s) @ drop (Suc i) (rc_waiters s)\<rparr>
         in if en_phase (rc_heap s ! e) = Rejected then s'\<lparr>rc_refused := rc_refused s' @ [(key, member)]\<rparr>
            else if jm_get (rc_map s') key \<noteq> Some e then rc_add key member s'
            else attach key member e s'))"

text \<open>The teardown of an entry that is still opening is the empty function.\<close>

definition rc_teardown :: "nat \<Rightarrow> 'm rc_state \<Rightarrow> 'm rc_state" where
  "rc_teardown e s = (if en_phase (rc_heap s ! e) = Opened then s\<lparr>rc_torn := rc_torn s @ [e]\<rparr> else s)"

definition removeFrom :: "string \<Rightarrow> 'm \<Rightarrow> nat \<Rightarrow> 'm rc_state \<Rightarrow> 'm rc_state" where
  "removeFrom key member e s =
     (case jm_get (rc_map s) key of
        None \<Rightarrow> s
      | Some current \<Rightarrow>
          (let s' = on_entry current (\<lambda>en. en\<lparr>en_members := removeAll member (en_members en)\<rparr>) s
           in if en_members (rc_heap s' ! current) \<noteq> [] then s'
              else if current \<noteq> e then s'
              else rc_teardown current (s'\<lparr>rc_map := jm_delete key (rc_map s')\<rparr>)))"

definition rc_release :: "nat \<Rightarrow> 'm rc_state \<Rightarrow> 'm rc_state" where
  "rc_release h s =
     (let hd = rc_handles s ! h
      in if hd_released hd then s
         else removeFrom (hd_key hd) (hd_member hd) (hd_entry hd)
                (s\<lparr>rc_handles := (rc_handles s)[h := hd\<lparr>hd_released := True\<rparr>]\<rparr>))"

definition rc_remove :: "string \<Rightarrow> 'm \<Rightarrow> 'm rc_state \<Rightarrow> 'm rc_state" where
  "rc_remove key member s =
     (case jm_get (rc_map s) key of None \<Rightarrow> s | Some e \<Rightarrow> removeFrom key member e s)"

definition membersOf :: "string \<Rightarrow> 'm rc_state \<Rightarrow> 'm list option" where
  "membersOf key s = map_option (\<lambda>e. en_members (rc_heap s ! e)) (jm_get (rc_map s) key)"

definition rc_size :: "string \<Rightarrow> 'm rc_state \<Rightarrow> nat" where
  "rc_size key s = (case membersOf key s of None \<Rightarrow> 0 | Some ms \<Rightarrow> length ms)"

definition keyCount :: "'m rc_state \<Rightarrow> nat" where
  "keyCount s = length (rc_map s)"

definition closeAll :: "'m rc_state \<Rightarrow> 'm rc_state" where
  "closeAll s = (fold rc_teardown (map snd (rc_map s)) s)\<lparr>rc_map := []\<rparr>"

definition rc_clear :: "'m rc_state \<Rightarrow> 'm rc_state" where
  "rc_clear s = s\<lparr>rc_map := []\<rparr>"

subsection \<open>Runs\<close>

datatype 'm rc_event =
    Add string 'm
  | Settle nat bool
  | Resume nat
  | Release nat
  | Remove string 'm
  | CloseAll
  | Clear

text \<open>When an event can happen: an upstream settles once, and a waiter resumes after its entry settled.\<close>

fun rc_enabled :: "'m rc_event \<Rightarrow> 'm rc_state \<Rightarrow> bool" where
  "rc_enabled (Settle e ok) s = (e < length (rc_heap s) \<and> en_phase (rc_heap s ! e) = Opening)"
| "rc_enabled (Resume i) s = (i < length (rc_waiters s) \<and> en_phase (rc_heap s ! fst (rc_waiters s ! i)) \<noteq> Opening)"
| "rc_enabled (Release h) s = (h < length (rc_handles s))"
| "rc_enabled _ s = True"

fun rc_do :: "'m rc_event \<Rightarrow> 'm rc_state \<Rightarrow> 'm rc_state" where
  "rc_do (Add key member) s = rc_add key member s"
| "rc_do (Settle e ok) s = rc_settle e ok s"
| "rc_do (Resume i) s = rc_resume i s"
| "rc_do (Release h) s = rc_release h s"
| "rc_do (Remove key member) s = rc_remove key member s"
| "rc_do CloseAll s = closeAll s"
| "rc_do Clear s = rc_clear s"

inductive rc_step :: "'m rc_event \<Rightarrow> 'm rc_state \<Rightarrow> 'm rc_state \<Rightarrow> bool" where
  rc_stepI: "rc_enabled ev s \<Longrightarrow> rc_step ev s (rc_do ev s)"

inductive_cases rc_stepE: "rc_step ev s s'"

inductive rc_runs :: "'m rc_event list \<Rightarrow> 'm rc_state \<Rightarrow> bool" where
  rc_start: "rc_runs [] rc_empty"
| rc_next: "rc_runs evs s \<Longrightarrow> rc_step ev s s' \<Longrightarrow> rc_runs (evs @ [ev]) s'"

subsection \<open>The invariant\<close>

text \<open>The map never holds a rejected entry, and holds an entry under its own key.\<close>

definition map_ok :: "(string, nat) js_map \<Rightarrow> 'm entry list \<Rightarrow> bool" where
  "map_ok m h \<longleftrightarrow> jm_ok m \<and>
     (\<forall>k e. jm_get m k = Some e \<longrightarrow> e < length h \<and> en_key (h ! e) = k \<and> en_phase (h ! e) \<noteq> Rejected)"

text \<open>Only an opened entry has members or handles.\<close>

definition members_ok :: "'m entry list \<Rightarrow> bool" where
  "members_ok h \<longleftrightarrow> (\<forall>en \<in> set h. en_members en \<noteq> [] \<longrightarrow> en_phase en = Opened)"

definition waiters_ok :: "'m entry list \<Rightarrow> (nat \<times> string \<times> 'm) list \<Rightarrow> bool" where
  "waiters_ok h ws \<longleftrightarrow> (\<forall>(e, k, m) \<in> set ws. e < length h \<and> en_key (h ! e) = k)"

definition handles_ok :: "'m entry list \<Rightarrow> 'm handle list \<Rightarrow> bool" where
  "handles_ok h hs \<longleftrightarrow> (\<forall>hd \<in> set hs. hd_entry hd < length h \<and> en_key (h ! hd_entry hd) = hd_key hd \<and>
     en_phase (h ! hd_entry hd) = Opened)"

text \<open>An upstream is torn down at most once, when it is open and no longer in the map.\<close>

definition torn_ok :: "(string, nat) js_map \<Rightarrow> 'm entry list \<Rightarrow> nat list \<Rightarrow> bool" where
  "torn_ok m h ts \<longleftrightarrow> distinct ts \<and>
     (\<forall>e \<in> set ts. e < length h \<and> en_phase (h ! e) = Opened \<and> jm_get m (en_key (h ! e)) \<noteq> Some e)"

definition rc_ok :: "'m rc_state \<Rightarrow> bool" where
  "rc_ok s \<longleftrightarrow> map_ok (rc_map s) (rc_heap s) \<and> members_ok (rc_heap s) \<and> waiters_ok (rc_heap s) (rc_waiters s) \<and>
     handles_ok (rc_heap s) (rc_handles s) \<and> torn_ok (rc_map s) (rc_heap s) (rc_torn s)"

text \<open>Entries keep their key, and an opened entry stays open.\<close>

definition grows :: "'m entry list \<Rightarrow> 'm entry list \<Rightarrow> bool" where
  "grows h h' \<longleftrightarrow> length h \<le> length h' \<and>
     (\<forall>e < length h. en_key (h' ! e) = en_key (h ! e) \<and> (en_phase (h ! e) = Opened \<longrightarrow> en_phase (h' ! e) = Opened))"

lemma nth_updated: "j < length h \<Longrightarrow> h[e := x] ! j = (if j = e then x else h ! j)"
  by (cases "e = j") simp_all

lemma grows_append: "grows h (h @ [en])"
  by (simp add: grows_def nth_append)

lemma grows_update:
  assumes "en_key (f (h ! e)) = en_key (h ! e)" "en_phase (h ! e) = Opened \<Longrightarrow> en_phase (f (h ! e)) = Opened"
  shows "grows h (h[e := f (h ! e)])"
  using assms by (auto simp: grows_def nth_updated)

lemma waiters_grow: "waiters_ok h ws \<Longrightarrow> grows h h' \<Longrightarrow> waiters_ok h' ws"
  by (fastforce simp: waiters_ok_def grows_def)

lemma handles_grow: "handles_ok h hs \<Longrightarrow> grows h h' \<Longrightarrow> handles_ok h' hs"
  by (fastforce simp: handles_ok_def grows_def)

lemma torn_grow: "torn_ok m h ts \<Longrightarrow> grows h h' \<Longrightarrow> torn_ok m h' ts"
  by (fastforce simp: torn_ok_def grows_def)

lemma torn_shrink: "torn_ok m h ts \<Longrightarrow> (\<And>k e. jm_get m' k = Some e \<Longrightarrow> jm_get m k = Some e) \<Longrightarrow> torn_ok m' h ts"
  by (fastforce simp: torn_ok_def)

lemma map_delete: "map_ok m h \<Longrightarrow> map_ok (jm_delete k m) h"
  by (auto simp: map_ok_def split: if_splits)

lemma map_empty [simp]: "map_ok [] h"
  by (simp add: map_ok_def)

lemma map_update:
  assumes "map_ok m h" "en_key (f (h ! e)) = en_key (h ! e)"
    "en_phase (f (h ! e)) = Rejected \<Longrightarrow> en_phase (h ! e) \<noteq> Rejected \<Longrightarrow> jm_get m (en_key (h ! e)) \<noteq> Some e"
  shows "map_ok m (h[e := f (h ! e)])"
proof -
  have old: "e' < length h \<and> en_key (h ! e') = k \<and> en_phase (h ! e') \<noteq> Rejected" if "jm_get m k = Some e'" for k e'
    using assms(1) that unfolding map_ok_def by blast
  have "e' < length h \<and> en_key (h[e := f (h ! e)] ! e') = k \<and> en_phase (h[e := f (h ! e)] ! e') \<noteq> Rejected"
    if "jm_get m k = Some e'" for k e'
    using old [OF that] assms(2,3) that by (cases "e' = e") (auto simp: nth_updated)
  moreover have "jm_ok m" using assms(1) unfolding map_ok_def by blast
  ultimately show ?thesis unfolding map_ok_def length_list_update by blast
qed

lemma members_update:
  assumes "members_ok h" "en_members (f (h ! e)) \<noteq> [] \<Longrightarrow> e < length h \<Longrightarrow> en_phase (f (h ! e)) = Opened"
  shows "members_ok (h[e := f (h ! e)])"
  using assms by (auto simp: members_ok_def all_set_conv_all_nth nth_updated split: if_splits)

lemma rc_okD:
  assumes "rc_ok s"
  shows "map_ok (rc_map s) (rc_heap s)" "members_ok (rc_heap s)" "waiters_ok (rc_heap s) (rc_waiters s)"
    "handles_ok (rc_heap s) (rc_handles s)" "torn_ok (rc_map s) (rc_heap s) (rc_torn s)"
  using assms by (simp_all add: rc_ok_def)

lemma ok_map: "rc_ok s \<Longrightarrow> jm_get (rc_map s) k = Some e \<Longrightarrow>
    e < length (rc_heap s) \<and> en_key (rc_heap s ! e) = k \<and> en_phase (rc_heap s ! e) \<noteq> Rejected"
  by (simp add: rc_ok_def map_ok_def)

text \<open>An update of one entry that keeps its key and does not close or reject it.\<close>

lemma ok_on_entry:
  assumes "rc_ok s" "\<And>en. en_key (f en) = en_key en" "\<And>en. en_phase (f en) = en_phase en"
    "en_members (f (rc_heap s ! e)) \<noteq> [] \<Longrightarrow> e < length (rc_heap s) \<Longrightarrow> en_phase (rc_heap s ! e) = Opened"
  shows "rc_ok (on_entry e f s)"
proof -
  have g: "grows (rc_heap s) ((rc_heap s)[e := f (rc_heap s ! e)])" using assms(2,3) by (intro grows_update) auto
  show ?thesis
    using rc_okD [OF assms(1)] assms(2-4) g
    by (auto simp: rc_ok_def on_entry_def intro!: map_update members_update intro: waiters_grow handles_grow torn_grow)
qed

lemma ok_openEntry:
  assumes "rc_ok s"
  shows "rc_ok (snd (openEntry key s))"
proof -
  let ?e = "length (rc_heap s)" and ?en = "\<lparr>en_key = key, en_members = [], en_phase = Opening\<rparr>"
  note g = grows_append [of "rc_heap s" ?en]
  have "map_ok (jm_set key ?e (rc_map s)) (rc_heap s @ [?en])"
    using rc_okD(1) [OF assms] by (fastforce simp: map_ok_def nth_append split: if_splits)
  moreover have "torn_ok (jm_set key ?e (rc_map s)) (rc_heap s @ [?en]) (rc_torn s)"
    using rc_okD(5) [OF assms] by (auto simp: torn_ok_def nth_append)
  ultimately show ?thesis
    using rc_okD(2) [OF assms] waiters_grow [OF rc_okD(3) [OF assms] g] handles_grow [OF rc_okD(4) [OF assms] g]
    by (auto simp: rc_ok_def openEntry_def Let_def members_ok_def)
qed

lemma ok_attach:
  assumes "rc_ok s" "e < length (rc_heap s)" "en_key (rc_heap s ! e) = key" "en_phase (rc_heap s ! e) = Opened"
  shows "rc_ok (attach key member e s)"
proof -
  let ?f = "\<lambda>en :: 'a entry. en\<lparr>en_members := (if member \<in> set (en_members en) then en_members en else en_members en @ [member])\<rparr>"
  have "rc_ok (on_entry e ?f s)" using assms by (intro ok_on_entry) auto
  then show ?thesis using assms
    by (auto simp: rc_ok_def attach_def on_entry_def handles_ok_def)
qed

lemma ok_wait:
  assumes "rc_ok s" "e < length (rc_heap s)" "en_key (rc_heap s ! e) = key"
  shows "rc_ok (s\<lparr>rc_waiters := rc_waiters s @ [(e, key, member)]\<rparr>)"
  using assms by (auto simp: rc_ok_def waiters_ok_def)

lemma openEntry_entry:
  "fst (openEntry key s) < length (rc_heap (snd (openEntry key s)))"
  "rc_heap (snd (openEntry key s)) ! fst (openEntry key s) = \<lparr>en_key = key, en_members = [], en_phase = Opening\<rparr>"
  by (simp_all add: openEntry_def Let_def)

lemma ok_add: "rc_ok s \<Longrightarrow> rc_ok (rc_add key member s)"
proof (cases "jm_get (rc_map s) key")
  case None
  assume "rc_ok s"
  then show ?thesis
    using ok_wait [OF ok_openEntry, of s "fst (openEntry key s)" key key member] openEntry_entry [of key s]
    by (simp add: rc_add_def None split_beta)
next
  case (Some e)
  assume ok: "rc_ok s"
  show ?thesis
    using ok_map [OF ok Some] ok_attach [OF ok, of e key member] ok_wait [OF ok, of e key member]
    by (simp add: rc_add_def Some)
qed

lemma ok_settle:
  assumes "rc_ok s" "en_phase (rc_heap s ! e) = Opening" "e < length (rc_heap s)"
  shows "rc_ok (rc_settle e ok s)"
proof -
  let ?h = "\<lambda>p. (rc_heap s)[e := (rc_heap s ! e)\<lparr>en_phase := p\<rparr>]"
  have g: "grows (rc_heap s) (?h p)" for p
    using assms(2) grows_update [of "\<lambda>en. en\<lparr>en_phase := p\<rparr>" "rc_heap s" e] by simp
  have none: "en_members (rc_heap s ! e) = []" using rc_okD(2) [OF assms(1)] assms(2,3) by (force simp: members_ok_def)
  have mem: "members_ok (?h p)" for p
    using members_update [OF rc_okD(2) [OF assms(1)], of "\<lambda>en. en\<lparr>en_phase := p\<rparr>" e] none by simp
  note parts = mem waiters_grow [OF rc_okD(3) [OF assms(1)] g] handles_grow [OF rc_okD(4) [OF assms(1)] g]
    torn_grow [OF rc_okD(5) [OF assms(1)] g]
  have open_map: "map_ok (rc_map s) (?h Opened)"
    using map_update [OF rc_okD(1) [OF assms(1)], of "\<lambda>en. en\<lparr>en_phase := Opened\<rparr>" e] by simp
  have rejected_map: "map_ok m (?h Rejected)"
    if "map_ok m (rc_heap s)" "jm_get m (en_key (rc_heap s ! e)) \<noteq> Some e" for m
    using map_update [OF that(1), of "\<lambda>en. en\<lparr>en_phase := Rejected\<rparr>" e] that(2) by simp
  have "torn_ok (jm_delete k (rc_map s)) (?h p) (rc_torn s)" for k p
    by (rule torn_shrink [OF parts(4)]) (simp split: if_splits)
  then show ?thesis
    using parts open_map rejected_map [OF rc_okD(1) [OF assms(1)]] rejected_map [OF map_delete [OF rc_okD(1) [OF assms(1)]]]
    by (auto simp: rc_ok_def rc_settle_def on_entry_def Let_def)
qed

lemma ok_drop_waiter: "rc_ok s \<Longrightarrow> rc_ok (s\<lparr>rc_waiters := take i (rc_waiters s) @ drop (Suc i) (rc_waiters s)\<rparr>)"
  by (auto simp: rc_ok_def waiters_ok_def dest!: in_set_takeD in_set_dropD)

lemma ok_refused: "rc_ok s \<Longrightarrow> rc_ok (s\<lparr>rc_refused := r\<rparr>)"
  by (simp add: rc_ok_def)

lemma ok_resume:
  assumes "rc_ok s" "i < length (rc_waiters s)" "en_phase (rc_heap s ! fst (rc_waiters s ! i)) \<noteq> Opening"
  shows "rc_ok (rc_resume i s)"
proof -
  obtain e key member where w: "rc_waiters s ! i = (e, key, member)" by (cases "rc_waiters s ! i")
  let ?s = "s\<lparr>rc_waiters := take i (rc_waiters s) @ drop (Suc i) (rc_waiters s)\<rparr>"
  have e: "e < length (rc_heap s) \<and> en_key (rc_heap s ! e) = key"
    using rc_okD(3) [OF assms(1)] assms(2) w nth_mem [OF assms(2)] by (auto simp: waiters_ok_def)
  have ok: "rc_ok ?s" using assms(1) by (rule ok_drop_waiter)
  show ?thesis
    using ok_refused [OF ok] ok_add [OF ok, of key member] ok_attach [OF ok, of e key member] e assms(3) w
    by (cases "en_phase (rc_heap s ! e)") (auto simp: rc_resume_def Let_def)
qed

lemma ok_unmap: "rc_ok s \<Longrightarrow> rc_ok (s\<lparr>rc_map := jm_delete key (rc_map s)\<rparr>)"
  by (auto simp: rc_ok_def intro: map_delete elim!: torn_shrink split: if_splits)

lemma ok_teardown:
  assumes "rc_ok s" "e < length (rc_heap s)" "jm_get (rc_map s) (en_key (rc_heap s ! e)) \<noteq> Some e" "e \<notin> set (rc_torn s)"
  shows "rc_ok (rc_teardown e s)"
  using assms by (auto simp: rc_ok_def rc_teardown_def torn_ok_def)

lemma mapped_not_torn: "rc_ok s \<Longrightarrow> jm_get (rc_map s) key = Some e \<Longrightarrow> e \<notin> set (rc_torn s)"
  using ok_map [of s key e] rc_okD(5) [of s] by (auto simp: torn_ok_def)

lemma ok_removeFrom: "rc_ok s \<Longrightarrow> rc_ok (removeFrom key member e s)"
proof (cases "jm_get (rc_map s) key")
  case None
  assume "rc_ok s"
  then show ?thesis by (simp add: removeFrom_def None)
next
  case (Some current)
  assume ok: "rc_ok s"
  let ?f = "\<lambda>en :: 'a entry. en\<lparr>en_members := removeAll member (en_members en)\<rparr>"
  let ?s = "on_entry current ?f s"
  have cur: "current < length (rc_heap s)" "en_key (rc_heap s ! current) = key" using ok_map [OF ok Some] by auto
  have "en_phase (rc_heap s ! current) = Opened" if "en_members (?f (rc_heap s ! current)) \<noteq> []"
  proof -
    have "en_members (rc_heap s ! current) \<noteq> []" using that by auto
    then show ?thesis using rc_okD(2) [OF ok] nth_mem [OF cur(1)] unfolding members_ok_def by blast
  qed
  then have ok': "rc_ok ?s" by (intro ok_on_entry [OF ok]) auto
  have "rc_ok (rc_teardown current (?s\<lparr>rc_map := jm_delete key (rc_map ?s)\<rparr>))"
    using cur mapped_not_torn [OF ok Some] by (intro ok_teardown ok_unmap [OF ok']) (auto simp: on_entry_def nth_updated)
  then show ?thesis using ok' by (auto simp: removeFrom_def Some Let_def)
qed

lemma ok_release: "rc_ok s \<Longrightarrow> h < length (rc_handles s) \<Longrightarrow> rc_ok (rc_release h s)"
proof -
  assume ok: "rc_ok s" and h: "h < length (rc_handles s)"
  have "handles_ok (rc_heap s) ((rc_handles s)[h := (rc_handles s ! h)\<lparr>hd_released := True\<rparr>])"
    using rc_okD(4) [OF ok] h nth_mem [OF h] by (auto simp: handles_ok_def dest!: set_update_subset_insert [THEN subsetD])
  then have "rc_ok (s\<lparr>rc_handles := (rc_handles s)[h := (rc_handles s ! h)\<lparr>hd_released := True\<rparr>]\<rparr>)"
    using ok by (simp add: rc_ok_def)
  from ok_removeFrom [OF this] ok show ?thesis by (simp add: rc_release_def Let_def)
qed

lemma ok_remove: "rc_ok s \<Longrightarrow> rc_ok (rc_remove key member s)"
  by (auto simp: rc_remove_def intro: ok_removeFrom split: option.split)

lemma ok_clear: "rc_ok s \<Longrightarrow> rc_ok (rc_clear s)"
  by (auto simp: rc_ok_def rc_clear_def torn_ok_def)

text \<open>Closing takes the entries out of the map, then calls their teardowns.\<close>

lemma teardown_fields [simp]:
  "rc_map (rc_teardown e s) = rc_map s" "rc_heap (rc_teardown e s) = rc_heap s"
  "(rc_teardown e s)\<lparr>rc_map := m\<rparr> = rc_teardown e (s\<lparr>rc_map := m\<rparr>)"
  by (simp_all add: rc_teardown_def)

lemma fold_teardown_map: "(fold rc_teardown es s)\<lparr>rc_map := m\<rparr> = fold rc_teardown es (s\<lparr>rc_map := m\<rparr>)"
  by (induction es arbitrary: s) simp_all

lemma ok_teardowns:
  assumes "rc_ok s" "rc_map s = []" "distinct es" "\<forall>e \<in> set es. e < length (rc_heap s) \<and> e \<notin> set (rc_torn s)"
  shows "rc_ok (fold rc_teardown es s)"
  using assms
proof (induction es arbitrary: s)
  case (Cons e es)
  have "rc_ok (rc_teardown e s)" using Cons.prems by (intro ok_teardown) auto
  moreover have "\<forall>e' \<in> set es. e' \<notin> set (rc_torn (rc_teardown e s))" using Cons.prems(3,4) by (auto simp: rc_teardown_def)
  ultimately show ?case using Cons.prems Cons.IH [of "rc_teardown e s"] by simp
qed simp

lemma mapped_distinct:
  assumes "map_ok m h"
  shows "distinct (map snd m)"
proof -
  have "en_key (h ! e) = k" if "(k, e) \<in> set m" for k e using that assms by (simp add: map_ok_def)
  then have "inj_on snd (set m)" by (intro inj_onI) (metis prod.collapse)
  moreover have "distinct m" using assms by (auto simp: map_ok_def distinct_map)
  ultimately show ?thesis by (simp add: distinct_map)
qed

lemma ok_closeAll: "rc_ok s \<Longrightarrow> rc_ok (closeAll s)"
proof -
  assume ok: "rc_ok s"
  have in_map: "\<exists>k. jm_get (rc_map s) k = Some e" if "e \<in> set (map snd (rc_map s))" for e
    using that rc_okD(1) [OF ok] by (auto simp: map_ok_def)
  show ?thesis
    unfolding closeAll_def fold_teardown_map
    using ok_clear [OF ok] mapped_distinct [OF rc_okD(1) [OF ok]] in_map ok_map [OF ok] mapped_not_torn [OF ok]
    by (intro ok_teardowns) (fastforce simp: rc_clear_def)+
qed

lemma ok_step: "rc_step ev s s' \<Longrightarrow> rc_ok s \<Longrightarrow> rc_ok s'"
  by (erule rc_stepE; cases ev)
    (auto intro: ok_add ok_settle ok_resume ok_release ok_remove ok_closeAll ok_clear)

lemma rc_ok_empty: "rc_ok rc_empty"
  by (simp add: rc_ok_def rc_empty_def members_ok_def waiters_ok_def handles_ok_def torn_ok_def)

lemma ok_runs: "rc_runs evs s \<Longrightarrow> rc_ok s"
  by (induction rule: rc_runs.induct) (auto intro: rc_ok_empty ok_step)

subsection \<open>Properties\<close>

text \<open>
  C26: in every run the map never holds an entry whose subscribe was rejected, members hang only on
  entries whose upstream is open, and no upstream is torn down twice or while the map still holds its
  entry.
\<close>

theorem no_phantom_entries:
  assumes "rc_runs evs s"
  shows "(\<forall>k e. jm_get (rc_map s) k = Some e \<longrightarrow> e < length (rc_heap s) \<and> en_key (rc_heap s ! e) = k \<and> en_phase (rc_heap s ! e) \<noteq> Rejected) \<and>
    (\<forall>en \<in> set (rc_heap s). en_members en \<noteq> [] \<longrightarrow> en_phase en = Opened) \<and>
    distinct (rc_torn s) \<and> (\<forall>k e. jm_get (rc_map s) k = Some e \<longrightarrow> e \<notin> set (rc_torn s))"
  using ok_runs [OF assms] mapped_not_torn [of s]
  unfolding rc_ok_def map_ok_def members_ok_def torn_ok_def by blast

text \<open>
  a rejected subscribe refuses every \<open>add\<close> that waits for it, and the next \<open>add\<close> on the key starts a new
  upstream subscribe.
\<close>

theorem rejected_subscribe_retries:
  assumes "rc_ok s" "jm_get (rc_map s) key = Some e" "en_phase (rc_heap s ! e) = Opening"
  shows "(\<forall>i. i < length (rc_waiters s) \<and> fst (rc_waiters s ! i) = e \<longrightarrow>
      rc_refused (rc_resume i (rc_settle e False s)) = rc_refused s @ [snd (rc_waiters s ! i)]) \<and>
    rc_heap (rc_add key member (rc_settle e False s)) =
      rc_heap (rc_settle e False s) @ [\<lparr>en_key = key, en_members = [], en_phase = Opening\<rparr>] \<and>
    jm_get (rc_map (rc_add key member (rc_settle e False s))) key = Some (length (rc_heap s))"
proof -
  have e: "e < length (rc_heap s)" "en_key (rc_heap s ! e) = key" using ok_map [OF assms(1,2)] by auto
  have settled: "rc_settle e False s = s\<lparr>rc_heap := (rc_heap s)[e := (rc_heap s ! e)\<lparr>en_phase := Rejected\<rparr>], rc_map := jm_delete key (rc_map s)\<rparr>"
    using assms(2) e(2) by (simp add: rc_settle_def on_entry_def Let_def)
  show ?thesis
    unfolding settled
    using e by (auto simp: rc_resume_def rc_add_def openEntry_def Let_def nth_append split: prod.split)
qed




subsection \<open>Members stay subscribed\<close>

text \<open>The members that wait for a key or hold it with a handle not yet released.\<close>

definition live_handles :: "'m rc_state \<Rightarrow> 'm handle list" where
  "live_handles s = filter (\<lambda>h. \<not> hd_released h) (rc_handles s)"

definition holders :: "'m rc_state \<Rightarrow> (string \<times> 'm) list" where
  "holders s = map snd (rc_waiters s) @ map (\<lambda>h. (hd_key h, hd_member h)) (live_handles s)"

text \<open>
  Runs in which members leave by the handle they got and no member is added to a key it already holds or
  waits for.
\<close>

fun orderly :: "'m rc_event \<Rightarrow> 'm rc_state \<Rightarrow> bool" where
  "orderly (Add k m) s = ((k, m) \<notin> set (holders s))"
| "orderly (Remove k m) s = False"
| "orderly CloseAll s = False"
| "orderly Clear s = False"
| "orderly _ s = True"

inductive orderly_runs :: "'m rc_event list \<Rightarrow> 'm rc_state \<Rightarrow> bool" where
  orderly_start: "orderly_runs [] rc_empty"
| orderly_next: "orderly_runs evs s \<Longrightarrow> rc_step ev s s' \<Longrightarrow> orderly ev s \<Longrightarrow> orderly_runs (evs @ [ev]) s'"

lemma orderly_is_run: "orderly_runs evs s \<Longrightarrow> rc_runs evs s"
  by (induction rule: orderly_runs.induct) (auto intro: rc_runs.intros)

definition subscribed :: "'m rc_state \<Rightarrow> bool" where
  "subscribed s \<longleftrightarrow> (\<forall>h \<in> set (live_handles s). jm_get (rc_map s) (hd_key h) = Some (hd_entry h) \<and>
     hd_member h \<in> set (en_members (rc_heap s ! hd_entry h)))"

definition held_ok :: "'m rc_state \<Rightarrow> bool" where
  "held_ok s \<longleftrightarrow> rc_ok s \<and> subscribed s \<and> distinct (holders s)"

lemma held_attach:
  assumes "held_ok s" "jm_get (rc_map s) key = Some e" "en_phase (rc_heap s ! e) = Opened" "(key, member) \<notin> set (holders s)"
  shows "held_ok (attach key member e s)"
proof -
  have e: "e < length (rc_heap s)" "en_key (rc_heap s ! e) = key" using ok_map [of s key e] assms(1,2) by (auto simp: held_ok_def)
  have lt: "hd_entry h < length (rc_heap s)" if "h \<in> set (live_handles s)" for h
    using that assms(1) by (auto simp: held_ok_def rc_ok_def handles_ok_def live_handles_def)
  have "subscribed (attach key member e s)"
    using assms(1,2) e lt
    by (auto simp: held_ok_def subscribed_def attach_def on_entry_def live_handles_def nth_updated)
  moreover have "distinct (holders (attach key member e s))"
    using assms(1,4) by (auto simp: held_ok_def holders_def live_handles_def attach_def on_entry_def)
  ultimately show ?thesis using assms e by (simp add: held_ok_def ok_attach)
qed

lemma held_add:
  assumes "held_ok s" "(key, member) \<notin> set (holders s)"
  shows "held_ok (rc_add key member s)"
proof (cases "jm_get (rc_map s) key")
  case (Some e)
  show ?thesis
  proof (cases "en_phase (rc_heap s ! e) = Opened")
    case True
    then show ?thesis using held_attach [OF assms(1) Some True assms(2)] Some by (simp add: rc_add_def)
  next
    case False
    have "rc_ok (rc_add key member s)" using assms(1) by (simp add: held_ok_def ok_add)
    then show ?thesis
      using assms False Some by (auto simp: held_ok_def rc_add_def subscribed_def holders_def live_handles_def)
  qed
next
  case None
  have lt: "hd_entry h < length (rc_heap s)" if "h \<in> set (live_handles s)" for h
    using that assms(1) by (auto simp: held_ok_def rc_ok_def handles_ok_def live_handles_def)
  have "rc_ok (rc_add key member s)" using assms(1) by (simp add: held_ok_def ok_add)
  moreover have "subscribed (rc_add key member s)"
    using assms(1) None lt
    by (fastforce simp: held_ok_def rc_add_def openEntry_def Let_def subscribed_def live_handles_def nth_append)
  moreover have "distinct (holders (rc_add key member s))"
    using assms None by (auto simp: held_ok_def rc_add_def openEntry_def Let_def holders_def live_handles_def)
  ultimately show ?thesis by (simp add: held_ok_def)
qed

lemma held_settle:
  assumes "held_ok s" "en_phase (rc_heap s ! e) = Opening" "e < length (rc_heap s)"
  shows "held_ok (rc_settle e ok s)"
proof -
  have other: "hd_entry h \<noteq> e \<and> hd_entry h < length (rc_heap s)" if "h \<in> set (live_handles s)" for h
    using that assms(1,2) by (auto simp: held_ok_def rc_ok_def handles_ok_def live_handles_def)
  have key: "hd_key h \<noteq> en_key (rc_heap s ! e)" if "h \<in> set (live_handles s)" "jm_get (rc_map s) (en_key (rc_heap s ! e)) = Some e" for h
    using that other [OF that(1)] assms(1) by (auto simp: held_ok_def subscribed_def)
  have "rc_ok (rc_settle e ok s)" using assms by (simp add: held_ok_def ok_settle)
  moreover have "subscribed (rc_settle e ok s)"
    using assms(1) other key
    by (auto simp: held_ok_def subscribed_def rc_settle_def on_entry_def live_handles_def nth_updated Let_def)
  moreover have "holders (rc_settle e ok s) = holders s"
    by (simp add: holders_def live_handles_def rc_settle_def on_entry_def Let_def)
  ultimately show ?thesis using assms(1) by (simp add: held_ok_def)
qed

lemma held_resume:
  assumes "held_ok s" "i < length (rc_waiters s)" "en_phase (rc_heap s ! fst (rc_waiters s ! i)) \<noteq> Opening"
  shows "held_ok (rc_resume i s)"
proof -
  obtain e key member where w: "rc_waiters s ! i = (e, key, member)" by (cases "rc_waiters s ! i")
  let ?s = "s\<lparr>rc_waiters := take i (rc_waiters s) @ drop (Suc i) (rc_waiters s)\<rparr>"
  have split: "rc_waiters s = take i (rc_waiters s) @ (e, key, member) # drop (Suc i) (rc_waiters s)"
    using id_take_nth_drop [OF assms(2)] w by simp
  have "distinct (holders s)" using assms(1) by (simp add: held_ok_def)
  then have d: "distinct (holders ?s)" "(key, member) \<notin> set (holders ?s)"
    unfolding holders_def by (subst (asm) split, force simp: live_handles_def)+
  have ok: "held_ok ?s" using assms(1) d(1) ok_drop_waiter [of s i] by (simp add: held_ok_def subscribed_def live_handles_def)
  have refused: "held_ok (?s\<lparr>rc_refused := r\<rparr>)" for r
    using ok by (simp add: held_ok_def ok_refused subscribed_def holders_def live_handles_def)
  show ?thesis
    using refused held_add [OF ok d(2)] held_attach [OF ok _ _ d(2)] assms(3) w
    by (cases "en_phase (rc_heap s ! e)") (auto simp: rc_resume_def Let_def)
qed

lemma subscribed_removeFrom:
  assumes "rc_ok s" "subscribed s" "jm_get (rc_map s) key = Some e" "\<forall>h \<in> set (live_handles s). (hd_key h, hd_member h) \<noteq> (key, member)"
  shows "subscribed (removeFrom key member e s)" "holders (removeFrom key member e s) = holders s"
proof -
  let ?ms = "removeAll member (en_members (rc_heap s ! e))"
  have e: "e < length (rc_heap s)" using ok_map [OF assms(1,3)] by simp
  have run: "removeFrom key member e s =
      (let s' = s\<lparr>rc_heap := (rc_heap s)[e := (rc_heap s ! e)\<lparr>en_members := ?ms\<rparr>]\<rparr>
       in if ?ms \<noteq> [] then s' else rc_teardown e (s'\<lparr>rc_map := jm_delete key (rc_map s)\<rparr>))"
    using e by (simp add: removeFrom_def assms(3) on_entry_def Let_def)
  have live: "hd_member h \<in> set (en_members ((rc_heap s)[e := (rc_heap s ! e)\<lparr>en_members := ?ms\<rparr>] ! hd_entry h))"
    and on: "hd_key h = key \<Longrightarrow> ?ms \<noteq> []"
    and map: "jm_get (rc_map s) (hd_key h) = Some (hd_entry h)" if "h \<in> set (live_handles s)" for h
  proof -
    show m: "jm_get (rc_map s) (hd_key h) = Some (hd_entry h)" using that assms(2) by (simp add: subscribed_def)
    have key: "hd_key h = key" if "hd_entry h = e"
      using that ok_map [OF assms(1) m] ok_map [OF assms(1,3)] by simp
    have mem: "hd_member h \<in> set (en_members (rc_heap s ! hd_entry h))" "hd_entry h < length (rc_heap s)"
      using that assms(1,2) by (auto simp: subscribed_def rc_ok_def handles_ok_def live_handles_def)
    show "hd_member h \<in> set (en_members ((rc_heap s)[e := (rc_heap s ! e)\<lparr>en_members := ?ms\<rparr>] ! hd_entry h))"
      using mem key that assms(4) by (auto simp: nth_updated)
    show "?ms \<noteq> []" if k: "hd_key h = key"
    proof -
      have "hd_entry h = e" using m k assms(3) by simp
      then show ?thesis using mem(1) assms(4) \<open>h \<in> set (live_handles s)\<close> k by (auto simp: removeAll_filter_not_eq filter_empty_conv)
    qed
  qed
  show "subscribed (removeFrom key member e s)"
    unfolding subscribed_def
  proof
    fix h assume "h \<in> set (live_handles (removeFrom key member e s))"
    then have "h \<in> set (live_handles s)" by (auto simp: run Let_def live_handles_def rc_teardown_def split: if_splits)
    from live [OF this] on [OF this] map [OF this]
    show "jm_get (rc_map (removeFrom key member e s)) (hd_key h) = Some (hd_entry h) \<and>
        hd_member h \<in> set (en_members (rc_heap (removeFrom key member e s) ! hd_entry h))"
      by (auto simp: run Let_def)
  qed
  show "holders (removeFrom key member e s) = holders s"
    by (simp add: run Let_def holders_def live_handles_def rc_teardown_def)
qed

lemma distinct_middle:
  assumes "distinct (ws @ map g (a @ x # b))"
  shows "distinct (ws @ map g (a @ b)) \<and> (\<forall>y \<in> set (a @ b). g y \<noteq> g x)"
  using assms by (auto dest: sym)

lemma held_release:
  assumes "held_ok s" "h < length (rc_handles s)"
  shows "held_ok (rc_release h s)"
proof (cases "hd_released (rc_handles s ! h)")
  case True
  then show ?thesis using assms(1) by (simp add: rc_release_def)
next
  case False
  let ?hd = "rc_handles s ! h"
  let ?s = "s\<lparr>rc_handles := (rc_handles s)[h := ?hd\<lparr>hd_released := True\<rparr>]\<rparr>"
  let ?rest = "filter (\<lambda>h. \<not> hd_released h) (take h (rc_handles s)) @ filter (\<lambda>h. \<not> hd_released h) (drop (Suc h) (rc_handles s))"
  have ok: "rc_ok (rc_release h s)" using assms by (simp add: held_ok_def ok_release)
  have rest: "live_handles ?s = ?rest" using assms(2) by (simp add: live_handles_def upd_conv_take_nth_drop)
  have all: "live_handles s = filter (\<lambda>h. \<not> hd_released h) (take h (rc_handles s)) @ ?hd # filter (\<lambda>h. \<not> hd_released h) (drop (Suc h) (rc_handles s))"
    unfolding live_handles_def by (subst id_take_nth_drop [OF assms(2)]) (simp add: False)
  have inside: "?hd \<in> set (live_handles s)" "set (live_handles ?s) \<subseteq> set (live_handles s)" by (auto simp: all rest)
  let ?g = "\<lambda>h. (hd_key h, hd_member h)"
  have hs: "holders ?s = map snd (rc_waiters s) @ map ?g ?rest" unfolding holders_def rest by simp
  have "distinct (map snd (rc_waiters s) @ map ?g (live_handles s))" using assms(1) by (simp add: held_ok_def holders_def)
  from distinct_middle [OF this [unfolded all]]
  have d: "distinct (holders ?s)" "\<forall>h' \<in> set (live_handles ?s). ?g h' \<noteq> ?g ?hd" unfolding hs rest by simp_all
  have sub: "subscribed ?s" "jm_get (rc_map ?s) (hd_key ?hd) = Some (hd_entry ?hd)"
    using assms(1) inside by (auto simp: held_ok_def subscribed_def)
  have "rc_ok ?s"
  proof -
    have "handles_ok (rc_heap s) ((rc_handles s)[h := ?hd\<lparr>hd_released := True\<rparr>])"
      using assms by (auto simp: held_ok_def rc_ok_def handles_ok_def dest!: set_update_subset_insert [THEN subsetD])
    then show ?thesis using assms(1) by (simp add: held_ok_def rc_ok_def)
  qed
  from subscribed_removeFrom [OF this sub d(2)] d(1) ok False show ?thesis by (simp add: held_ok_def rc_release_def Let_def)
qed

lemma held_runs: "orderly_runs evs s \<Longrightarrow> held_ok s"
proof (induction rule: orderly_runs.induct)
  case orderly_start
  show ?case using rc_ok_empty by (simp add: held_ok_def subscribed_def holders_def live_handles_def rc_empty_def)
next
  case (orderly_next evs s ev s')
  then show ?case
    by (cases ev) (auto elim!: rc_stepE intro: held_add held_settle held_resume held_release)
qed

text \<open>
  in every run in which members leave by the handle they got and no member joins a key twice, a member
  whose \<open>add\<close> returned and who has not released it is among the members of the key's entry, and that entry's
  upstream is open and not torn down.
\<close>

theorem members_stay_subscribed:
  assumes "orderly_runs evs s" "h \<in> set (rc_handles s)" "\<not> hd_released h"
  shows "\<exists>ms. membersOf (hd_key h) s = Some ms \<and> hd_member h \<in> set ms \<and>
    en_phase (rc_heap s ! hd_entry h) = Opened \<and> hd_entry h \<notin> set (rc_torn s)"
proof -
  have held: "held_ok s" using assms(1) by (rule held_runs)
  have "h \<in> set (live_handles s)" using assms(2,3) by (simp add: live_handles_def)
  then have "jm_get (rc_map s) (hd_key h) = Some (hd_entry h)" "hd_member h \<in> set (en_members (rc_heap s ! hd_entry h))"
    using held by (auto simp: held_ok_def subscribed_def)
  moreover have "en_phase (rc_heap s ! hd_entry h) = Opened"
    using held assms(2) by (auto simp: held_ok_def rc_ok_def handles_ok_def)
  ultimately show ?thesis using held mapped_not_torn [of s] by (auto simp: membersOf_def held_ok_def)
qed

subsection \<open>Witnesses\<close>

lemma one_member_run:
  "orderly_runs [Add ''room'' ''a'', Settle 0 True, Resume 0]
     (rc_resume 0 (rc_settle 0 True (rc_add ''room'' ''a'' (rc_empty :: string rc_state))))"
proof -
  have step: "orderly_runs (evs @ [ev]) (rc_do ev s)" if "orderly_runs evs s" "rc_enabled ev s" "orderly ev s"
    for evs ev and s :: "string rc_state"
    using orderly_next [OF that(1) rc_stepI [OF that(2)] that(3)] .
  have "orderly_runs ([] @ [Add ''room'' ''a'']) (rc_do (Add ''room'' ''a'') (rc_empty :: string rc_state))"
    by (rule step [OF orderly_start]) code_simp+
  then have "orderly_runs (([] @ [Add ''room'' ''a'']) @ [Settle 0 True]) (rc_do (Settle 0 True) (rc_do (Add ''room'' ''a'') (rc_empty :: string rc_state)))"
    by (rule step) code_simp+
  then have "orderly_runs ((([] @ [Add ''room'' ''a'']) @ [Settle 0 True]) @ [Resume 0])
      (rc_do (Resume 0) (rc_do (Settle 0 True) (rc_do (Add ''room'' ''a'') (rc_empty :: string rc_state))))"
    by (rule step) code_simp+
  then show ?thesis by simp
qed

theorem members_stay_subscribed_witness:
  "\<exists>ms. membersOf ''room'' (rc_resume 0 (rc_settle 0 True (rc_add ''room'' ''a'' (rc_empty :: string rc_state)))) = Some ms \<and> ''a'' \<in> set ms"
proof -
  let ?h = "\<lparr>hd_key = ''room'', hd_member = ''a'', hd_entry = 0, hd_released = False\<rparr>"
  have "?h \<in> set (rc_handles (rc_resume 0 (rc_settle 0 True (rc_add ''room'' ''a'' (rc_empty :: string rc_state)))))" by code_simp
  from members_stay_subscribed [OF one_member_run this] show ?thesis by auto
qed

theorem no_phantom_entries_witness:
  "distinct (rc_torn (rc_resume 0 (rc_settle 0 True (rc_add ''room'' ''a'' (rc_empty :: string rc_state)))))"
  using no_phantom_entries [OF orderly_is_run [OF one_member_run]] by blast

theorem rejected_subscribe_retries_witness:
  "jm_get (rc_map (rc_add ''room'' ''b'' (rc_settle 0 False (rc_add ''room'' ''a'' (rc_empty :: string rc_state))))) ''room'' = Some 1"
proof -
  let ?s = "rc_add ''room'' ''a'' (rc_empty :: string rc_state)"
  have "jm_get (rc_map ?s) ''room'' = Some 0" "en_phase (rc_heap ?s ! 0) = Opening" "length (rc_heap ?s) = 1" by code_simp+
  with rejected_subscribe_retries [OF ok_add [OF rc_ok_empty], where member = "''b''"] show ?thesis by simp
qed

end
