(* ===== verification/Version_Gate.thy ===== *)
theory Version_Gate
  imports Prelude
begin

section \<open>The API version gate (\<open>versioning/policy.ts\<close>, \<open>versioning/version-gate.ts\<close>)\<close>

text \<open>
  Which API versions a deployment serves and what the gate answers on each.  The policy's constants form a
  record, so that the gate is also defined for the policies the file's comment describes;
  \<open>deployed_policy\<close> holds the values of the source.  \<open>decodeURIComponent\<close> and the date formatting are
  parameters.
\<close>

datatype version_lifecycle = Current | Deprecated | Sunset

record version_status =
  vs_status :: version_lifecycle
  vs_sunset :: "string option"

record version_policy =
  vp_SERVED_VERSIONS :: "string list"
  vp_MIN_SUPPORTED_VERSION :: string
  vp_VERSION_STATUS :: "(string, version_status) js_map"

definition SERVED_VERSIONS :: "string list" where "SERVED_VERSIONS = [''v1'']"
definition MIN_SUPPORTED_VERSION :: string where "MIN_SUPPORTED_VERSION = ''v1''"
definition VERSION_STATUS :: "(string, version_status) js_map" where
  "VERSION_STATUS = [(''v1'', \<lparr>vs_status = Current, vs_sunset = None\<rparr>)]"

definition deployed_policy :: version_policy where
  "deployed_policy = \<lparr>vp_SERVED_VERSIONS = SERVED_VERSIONS, vp_MIN_SUPPORTED_VERSION = MIN_SUPPORTED_VERSION,
     vp_VERSION_STATUS = VERSION_STATUS\<rparr>"

text \<open>\<open>/^v(\d+)$/\<close>: the digits.\<close>

definition version_digits :: "string \<Rightarrow> string option" where
  "version_digits seg =
     (case seg of c # ds \<Rightarrow> if c = CHR ''v'' \<and> ds \<noteq> [] \<and> list_all is_digit ds then Some ds else None | [] \<Rightarrow> None)"

definition majorOf :: "string \<Rightarrow> nat option" where
  "majorOf seg = map_option digits_val (version_digits seg)"

definition isVersionSegment :: "string \<Rightarrow> bool" where
  "isVersionSegment seg \<longleftrightarrow> version_digits seg \<noteq> None"

definition isServedVersion :: "version_policy \<Rightarrow> string \<Rightarrow> bool" where
  "isServedVersion P seg \<longleftrightarrow> seg \<in> set (vp_SERVED_VERSIONS P)"

definition versionStatus :: "version_policy \<Rightarrow> string \<Rightarrow> version_status option" where
  "versionStatus P seg = (if \<not> isVersionSegment seg then None else jm_get (vp_VERSION_STATUS P) seg)"

definition isBelowMinSupported :: "version_policy \<Rightarrow> string \<Rightarrow> bool" where
  "isBelowMinSupported P seg =
     (case majorOf seg of
        None \<Rightarrow> False
      | Some major \<Rightarrow> (case majorOf (vp_MIN_SUPPORTED_VERSION P) of None \<Rightarrow> False | Some lowest \<Rightarrow> major < lowest))"

definition policy_problem :: "version_policy \<Rightarrow> string \<Rightarrow> string list" where
  "policy_problem P v =
     (case jm_get (vp_VERSION_STATUS P) v of
        None \<Rightarrow> [v @ '': no VERSION_STATUS entry'']
      | Some status \<Rightarrow> if vs_status status = Sunset then [v @ '': served/min but marked sunset''] else [])"

definition validateVersionPolicy :: "version_policy \<Rightarrow> ('w, unit) prog" where
  "validateVersionPolicy P =
     (let problems = concat (map (policy_problem P) (vp_MIN_SUPPORTED_VERSION P # vp_SERVED_VERSIONS P))
      in if problems \<noteq> [] then raise (PlainError (''API version policy is inconsistent: '' @ join_with ''; '' problems))
         else ret ())"

subsection \<open>The gate\<close>

definition DEPRECATION_HEADER :: string where "DEPRECATION_HEADER = ''Deprecation''"
definition SUNSET_HEADER :: string where "SUNSET_HEADER = ''Sunset''"

definition decodeSegment :: "(string \<Rightarrow> string option) \<Rightarrow> string \<Rightarrow> string" where
  "decodeSegment decodeURIComponent seg =
     (case decodeURIComponent seg of
        None \<Rightarrow> seg
      | Some decoded \<Rightarrow> (case indexOf (CHR ''/'') decoded of None \<Rightarrow> decoded | Some slash \<Rightarrow> take slash decoded))"

fun first_segment :: "(string \<Rightarrow> string option) \<Rightarrow> string list \<Rightarrow> string" where
  "first_segment decode [] = []"
| "first_segment decode (seg # segs) = (if length seg > 0 then decodeSegment decode seg else first_segment decode segs)"

definition firstPathSegment :: "(string \<Rightarrow> string option) \<Rightarrow> string \<Rightarrow> string" where
  "firstPathSegment decode url =
     (let path = (case indexOf (CHR ''?'') url of None \<Rightarrow> url | Some queryStart \<Rightarrow> take queryStart url)
      in first_segment decode (split_char (CHR ''/'') path))"

text \<open>
  The hook: it rejects the request, or lets it pass with the headers it sets.  \<open>utc\<close> formats a date, and has
  no value on a text that is not one.
\<close>

definition versionGate ::
  "version_policy \<Rightarrow> (string \<Rightarrow> string option) \<Rightarrow> (string \<Rightarrow> string option) \<Rightarrow> string \<Rightarrow> app_error + (string \<times> string) list" where
  "versionGate P decode utc url =
     (let seg = firstPathSegment decode url
      in if \<not> isVersionSegment seg then Inr []
         else if isBelowMinSupported P seg then Inl UnsupportedApiVersion
         else
           (case versionStatus P seg of
              None \<Rightarrow> Inl UnsupportedApiVersion
            | Some status \<Rightarrow>
                if \<not> isServedVersion P seg
                then Inl (if vs_status status = Sunset then ApiVersionSunset else UnsupportedApiVersion)
                else
                  (case vs_status status of
                     Current \<Rightarrow> Inr []
                   | Deprecated \<Rightarrow>
                       Inr ((DEPRECATION_HEADER, ''true'') #
                         (case vs_sunset status of
                            None \<Rightarrow> []
                          | Some s \<Rightarrow>
                              if s = [] then []
                              else (case utc s of None \<Rightarrow> [] | Some date \<Rightarrow> [(SUNSET_HEADER, date)])))
                   | Sunset \<Rightarrow> Inl ApiVersionSunset)))"

subsection \<open>Properties\<close>

lemma validated_status:
  assumes "fst (validateVersionPolicy P w) = Inr ()" "v \<in> set (vp_MIN_SUPPORTED_VERSION P # vp_SERVED_VERSIONS P)"
  shows "\<exists>status. jm_get (vp_VERSION_STATUS P) v = Some status \<and> vs_status status \<noteq> Sunset"
proof -
  have "policy_problem P v = []"
    using assms by (auto simp: validateVersionPolicy_def prog_simps Let_def split: if_splits)
  then show ?thesis by (auto simp: policy_problem_def split: option.splits if_splits)
qed

text \<open>
  under a policy that passes the boot check, the gate lets a versioned request pass exactly when the
  version is served and not below the minimum, so a served version is never answered as sunset.
\<close>

theorem validated_policy_gate:
  assumes "fst (validateVersionPolicy P w) = Inr ()" "isVersionSegment (firstPathSegment decode url)"
  shows "(\<exists>headers. versionGate P decode utc url = Inr headers) \<longleftrightarrow>
    isServedVersion P (firstPathSegment decode url) \<and> \<not> isBelowMinSupported P (firstPathSegment decode url)"
proof (cases "isServedVersion P (firstPathSegment decode url)")
  case True
  then obtain status where "jm_get (vp_VERSION_STATUS P) (firstPathSegment decode url) = Some status" "vs_status status \<noteq> Sunset"
    using validated_status [OF assms(1)] by (auto simp: isServedVersion_def)
  then show ?thesis
    using True assms(2) by (cases "vs_status status") (auto simp: versionGate_def versionStatus_def Let_def)
next
  case False
  then show ?thesis using assms(2) by (auto simp: versionGate_def Let_def split: option.splits)
qed

theorem validated_policy_gate_witness:
  "\<exists>headers. versionGate deployed_policy Some Some ''/v1/reports?limit=5'' = Inr headers"
proof -
  have ok: "fst (validateVersionPolicy deployed_policy ()) = Inr ()" by code_simp
  have seg: "isVersionSegment (firstPathSegment Some ''/v1/reports?limit=5'')" by code_simp
  have "isServedVersion deployed_policy (firstPathSegment Some ''/v1/reports?limit=5'')"
    "\<not> isBelowMinSupported deployed_policy (firstPathSegment Some ''/v1/reports?limit=5'')" by code_simp+
  then show ?thesis using validated_policy_gate [OF ok seg] by blast
qed

end
