(* ===== verification/Dm_Repository.thy ===== *)
theory Dm_Repository
  imports Handle_Policy "HOL-Library.List_Lexorder" "HOL-Library.Char_ord" "HOL-Library.Product_Lexorder"
begin

section \<open>Direct messages (\<open>services/dm-repository.memory.ts\<close>, \<open>services/dm-service.ts\<close>)\<close>

text \<open>
  The in-memory repository of direct messages, the block list and the hidden conversations beside it, and
  the service that opens a conversation.  A \<open>Date\<close> and its ISO text are both the instant in milliseconds:
  ISO texts of the years the code stamps compare as their instants do.  \<open>avatarGradient\<close>,
  \<open>relativeAgo\<close> and \<open>DELETED_USER_LABEL\<close> come from the contract package and are parameters, as is the
  supply of random UUIDs.  An absent optional field is \<^const>\<open>None\<close>; a field that may also be \<open>null\<close>
  when present (\<open>replyTo\<close>, \<open>cityMention\<close>) is an option of an option.
\<close>

subsection \<open>Data\<close>

record person =
  p_id :: string
  p_name :: string
  p_handle :: "string option"
  p_bio :: "string option"
  p_avatar :: "string \<times> string"
  p_avatarUrl :: "string option"
  p_followers :: nat
  p_following :: nat
  p_isFollowing :: bool
  p_official :: bool

record reaction_summary =
  rs_emoji :: string
  rs_count :: nat
  rs_mine :: bool

record reply_to =
  rt_id :: string
  rt_from :: "(string \<times> string) option"
  rt_excerpt :: string
  rt_kind :: string
  rt_deleted :: bool

record attachment =
  at_kind :: string

record chat_message =
  cm_id :: string
  cm_cleanupId :: string
  cm_roomKind :: "string option"
  cm_from :: "person option"
  cm_body :: "string option"
  cm_kind :: string
  cm_attachments :: "attachment list"
  cm_reactions :: "reaction_summary list"
  cm_mentions :: "string list"
  cm_createdAt :: int
  cm_replyToId :: "string option"
  cm_replyTo :: "reply_to option option"
  cm_clientId :: "string option"
  cm_mine :: "bool option"
  cm_editedAt :: "int option"
  cm_pinnedAt :: "int option"
  cm_deletedAt :: "int option"
  cm_forwardedToCity :: "bool option"
  cm_cityMention :: "string option option"

record dm_thread =
  th_id :: string
  th_userLo :: string
  th_userHi :: string
  th_createdAt :: int

record thread_peer =
  tp_id :: string
  tp_displayName :: string
  tp_handle :: "string option"
  tp_bio :: "string option"
  tp_avatarUrl :: "string option"
  tp_deleted :: bool

record thread_last =
  tl_body :: "string option"
  tl_createdAt :: int
  tl_senderId :: string

record dm_thread_aggregate =
  ag_threadId :: string
  ag_createdAt :: int
  ag_peer :: thread_peer
  ag_last :: "thread_last option"
  ag_unread :: nat

record dm_persist_input =
  pi_threadId :: string
  pi_senderId :: string
  pi_body :: string
  pi_kind :: "string option"
  pi_clientId :: "string option"
  pi_replyToId :: "string option"

record dm_message_meta =
  mm_id :: string
  mm_threadId :: string
  mm_senderId :: string
  mm_kind :: string
  mm_createdAt :: int
  mm_deletedAt :: "int option"

record chat_history_page =
  hp_items :: "chat_message list"
  hp_nextCursor :: "string option"
  hp_prevCursor :: "string option"

record dm_user =
  du_id :: string
  du_displayName :: string
  du_handle :: "string option"
  du_bio :: "string option"
  du_avatarUrl :: "string option"
  du_deletedAt :: "int option"

record stored_dm_message =
  st_dto :: chat_message
  st_deleted :: bool
  st_deletedAt :: "int option"
  st_insertedAtMs :: int

record time_cursor =
  tc_at :: int
  tc_id :: string

text \<open>
  The fields of \<open>InMemoryDmRepository\<close>, \<open>InMemoryBlocksRepository\<close> and the hidden conversations;
  \<open>dm_entropy\<close> counts the UUIDs drawn.
\<close>

record dm_world = clock_world +
  dm_threads :: "(string, dm_thread) js_map"
  dm_byPair :: "(string, string) js_map"
  dm_log :: "(string, stored_dm_message list) js_map"
  dm_reads :: "(string, int) js_map"
  dm_reactions :: "(string, string list) js_map"
  dm_users :: "(string, dm_user) js_map"
  dm_tick :: int
  dm_entropy :: nat
  block_edges :: "(string, string list) js_map"
  block_users :: "(string, dm_user) js_map"
  hide_rows :: "(string, int) js_map"

text \<open>What the code takes from outside: the contract package's functions and the supply of UUIDs.\<close>

record dm_env =
  uuid_of :: "nat \<Rightarrow> string"
  avatarGradient :: "string \<Rightarrow> string \<times> string"
  relativeAgo :: "int \<Rightarrow> int \<Rightarrow> string"
  DELETED_USER_LABEL :: string

subsection \<open>Shared helpers\<close>

record around_limits =
  olderLimit :: nat
  newerLimit :: nat

definition aroundLimits :: "nat \<Rightarrow> around_limits" where
  "aroundLimits limit = \<lparr>olderLimit = (limit + 1) div 2, newerLimit = limit div 2\<rparr>"

record 'a around_window =
  aw_rows :: "'a list"
  aw_hasOlder :: bool
  aw_hasNewer :: bool

definition mergeAroundWindow :: "'a list \<Rightarrow> 'a list \<Rightarrow> around_limits \<Rightarrow> 'a around_window" where
  "mergeAroundWindow olderDesc newerAsc L =
     (let hasOlder = length olderDesc > olderLimit L;
          hasNewer = length newerAsc > newerLimit L;
          older = (if hasOlder then take (olderLimit L) olderDesc else olderDesc);
          newer = (if hasNewer then take (newerLimit L) newerAsc else newerAsc)
      in \<lparr>aw_rows = rev newer @ older, aw_hasOlder = hasOlder, aw_hasNewer = hasNewer\<rparr>)"

definition toTombstoneDTO :: "chat_message \<Rightarrow> int \<Rightarrow> chat_message" where
  "toTombstoneDTO dto deletedAt =
     \<lparr>cm_id = cm_id dto, cm_cleanupId = cm_cleanupId dto, cm_roomKind = cm_roomKind dto, cm_from = cm_from dto,
      cm_body = None, cm_kind = cm_kind dto, cm_attachments = [], cm_reactions = [], cm_mentions = [],
      cm_createdAt = cm_createdAt dto, cm_replyToId = cm_replyToId dto,
      cm_replyTo =
        (if cm_replyToId dto = None then None
         else Some (case cm_replyTo dto of None \<Rightarrow> None | Some r \<Rightarrow> r)),
      cm_clientId = cm_clientId dto, cm_mine = cm_mine dto, cm_editedAt = None, cm_pinnedAt = None,
      cm_deletedAt = Some deletedAt, cm_forwardedToCity = cm_forwardedToCity dto,
      cm_cityMention = (if cm_forwardedToCity dto = None then None else Some None)\<rparr>"

record public_author_identity =
  ai_name :: string
  ai_handle :: "string option"
  ai_avatar :: "string \<times> string"
  ai_avatarUrl :: "string option"
  ai_deleted :: bool

definition publicAuthorIdentity ::
  "dm_env \<Rightarrow> string \<Rightarrow> string option \<Rightarrow> string option \<Rightarrow> string option \<Rightarrow> int option \<Rightarrow> public_author_identity" where
  "publicAuthorIdentity E userId displayName handle avatarUrl deletedAt =
     (if deletedAt \<noteq> None
      then \<lparr>ai_name = DELETED_USER_LABEL E, ai_handle = None, ai_avatar = avatarGradient E userId,
             ai_avatarUrl = None, ai_deleted = True\<rparr>
      else \<lparr>ai_name = (case displayName of None \<Rightarrow> [] | Some n \<Rightarrow> n), ai_handle = handle,
             ai_avatar = avatarGradient E userId, ai_avatarUrl = avatarUrl, ai_deleted = False\<rparr>)"

definition FALLBACK_ACTOR_NAME :: string where "FALLBACK_ACTOR_NAME = ''Someone''"

definition actorDisplayName :: "string option \<Rightarrow> string option \<Rightarrow> string" where
  "actorDisplayName displayName handle =
     (let by_handle = (case handle of None \<Rightarrow> FALLBACK_ACTOR_NAME | Some h \<Rightarrow> if h = [] then FALLBACK_ACTOR_NAME else ''@'' @ h)
      in case displayName of None \<Rightarrow> by_handle | Some n \<Rightarrow> if n \<noteq> [] \<and> trim n \<noteq> [] then n else by_handle)"

definition officialPersonFlag :: "string \<Rightarrow> bool" where
  "officialPersonFlag userId = isOfficialAccount (Some userId)"

definition REPLY_EXCERPT_MAX :: nat where "REPLY_EXCERPT_MAX = 120"
definition PIN_LIST_CAP :: nat where "PIN_LIST_CAP = 25"
definition LIST_BLOCKS_DEFAULT_LIMIT :: nat where "LIST_BLOCKS_DEFAULT_LIMIT = 50"

definition replyWrongRoom :: app_error where
  "replyWrongRoom = ValidationErr [(''code'', ''reply_wrong_room'')]
     (Some ''The message you're replying to isn't in this conversation.'')"

definition replyDeletedTarget :: app_error where
  "replyDeletedTarget = ValidationErr [(''code'', ''reply_deleted_target'')]
     (Some ''The message you're replying to was deleted.'')"

text \<open>\<open>xs.sort((a, b) => b.key - a.key)\<close>: descending and stable.\<close>

definition sort_desc :: "('a \<Rightarrow> 'k :: linorder) \<Rightarrow> 'a list \<Rightarrow> 'a list" where
  "sort_desc key xs = rev (sort_key key (rev xs))"

subsection \<open>Hidden conversations\<close>

definition hide_key :: "string \<Rightarrow> string \<Rightarrow> string \<Rightarrow> string" where
  "hide_key userId roomKind roomId = userId @ ''|'' @ roomKind @ ''|'' @ roomId"

definition setHidden :: "string \<Rightarrow> string \<Rightarrow> string \<Rightarrow> bool \<Rightarrow> ('w dm_world_scheme, unit) prog" where
  "setHidden userId roomKind roomId hidden =
     writes (\<lambda>w. let key = hide_key userId roomKind roomId
       in if hidden then w\<lparr>hide_rows := jm_set key (clock w) (hide_rows w)\<rparr>
          else w\<lparr>hide_rows := jm_delete key (hide_rows w)\<rparr>)"

fun hidden_among :: "(string, int) js_map \<Rightarrow> string \<Rightarrow> string \<Rightarrow> string list \<Rightarrow> (string, int) js_map \<Rightarrow> (string, int) js_map" where
  "hidden_among rows userId roomKind [] found = found"
| "hidden_among rows userId roomKind (roomId # ids) found =
     hidden_among rows userId roomKind ids
       (case jm_get rows (hide_key userId roomKind roomId) of None \<Rightarrow> found | Some t \<Rightarrow> jm_set roomId t found)"

definition hiddenAtFor :: "string \<Rightarrow> string \<Rightarrow> string list \<Rightarrow> ('w dm_world_scheme, (string, int) js_map) prog" where
  "hiddenAtFor userId roomKind roomIds = reads (\<lambda>w. hidden_among (hide_rows w) userId roomKind roomIds [])"

type_synonym 'w hides_repo = "string \<Rightarrow> string \<Rightarrow> string list \<Rightarrow> ('w, (string, int) js_map) prog"

definition visibleAfterHides ::
  "'w hides_repo option \<Rightarrow> string \<Rightarrow> string \<Rightarrow> 'a list \<Rightarrow> ('a \<Rightarrow> string) \<Rightarrow> ('a \<Rightarrow> int) \<Rightarrow> ('w, 'a list) prog" where
  "visibleAfterHides hides userId roomKind rows roomIdOf activityOf =
     (case hides of
        None \<Rightarrow> ret rows
      | Some hidden_at \<Rightarrow>
          if rows = [] then ret rows
          else seq (hidden_at userId roomKind (map roomIdOf rows)) (\<lambda>hiddenAt.
            if hiddenAt = [] then ret rows
            else ret (filter (\<lambda>row. case jm_get hiddenAt (roomIdOf row) of
                                       None \<Rightarrow> True | Some t \<Rightarrow> activityOf row > t) rows)))"

subsection \<open>The repository's helpers\<close>

definition SYNTHETIC_EPOCH_MS :: int where "SYNTHETIC_EPOCH_MS = 1767225600000"
definition PLACEHOLDER_NAME_ID_CHARS :: nat where "PLACEHOLDER_NAME_ID_CHARS = 4"

definition orderPair :: "string \<Rightarrow> string \<Rightarrow> string \<times> string" where
  "orderPair a b = (if a < b then (a, b) else (b, a))"

definition placeholderDisplayName :: "string \<Rightarrow> string" where
  "placeholderDisplayName userId = ''User '' @ take PLACEHOLDER_NAME_ID_CHARS userId"

definition readKey :: "string \<Rightarrow> string \<Rightarrow> string" where
  "readKey threadId userId = threadId @ '':'' @ userId"

definition pair_key :: "string \<Rightarrow> string \<Rightarrow> string" where
  "pair_key lo hi = lo @ '':'' @ hi"

definition peerIn :: "dm_thread \<Rightarrow> string \<Rightarrow> string option" where
  "peerIn thread userId =
     (if th_userLo thread = userId then Some (th_userHi thread)
      else if th_userHi thread = userId then Some (th_userLo thread)
      else None)"

definition lastSenderId :: "chat_message \<Rightarrow> ('w, string) prog" where
  "lastSenderId message =
     (case cm_from message of
        None \<Rightarrow> raise (PlainError ''DM message unexpectedly has no author'')
      | Some p \<Rightarrow> ret (p_id p))"

definition randomUUID :: "dm_env \<Rightarrow> ('w dm_world_scheme, string) prog" where
  "randomUUID E = (\<lambda>w. (Inr (uuid_of E (dm_entropy w)), w\<lparr>dm_entropy := dm_entropy w + 1\<rparr>))"

definition nextDate :: "('w dm_world_scheme, int) prog" where
  "nextDate = (\<lambda>w. (Inr (SYNTHETIC_EPOCH_MS + (dm_tick w + 1)), w\<lparr>dm_tick := dm_tick w + 1\<rparr>))"

definition dm_registerUser :: "dm_user \<Rightarrow> ('w dm_world_scheme, unit) prog" where
  "dm_registerUser user = writes (\<lambda>w. w\<lparr>dm_users := jm_set (du_id user) user (dm_users w)\<rparr>)"

definition userOf :: "string \<Rightarrow> 'w dm_world_scheme \<Rightarrow> dm_user" where
  "userOf userId w =
     (case jm_get (dm_users w) userId of
        Some u \<Rightarrow> u
      | None \<Rightarrow> \<lparr>du_id = userId, du_displayName = placeholderDisplayName userId, du_handle = None, du_bio = None,
                   du_avatarUrl = None, du_deletedAt = None\<rparr>)"

text \<open>\<open>this.log.get(threadId) ?? []\<close>.\<close>

definition log_of :: "string \<Rightarrow> 'w dm_world_scheme \<Rightarrow> stored_dm_message list" where
  "log_of threadId w = (case jm_get (dm_log w) threadId of None \<Rightarrow> [] | Some l \<Rightarrow> l)"

abbreviation st_id :: "stored_dm_message \<Rightarrow> string" where
  "st_id m \<equiv> cm_id (st_dto m)"

abbreviation st_sender :: "stored_dm_message \<Rightarrow> string option" where
  "st_sender m \<equiv> map_option p_id (cm_from (st_dto m))"

definition replyToFor :: "string \<Rightarrow> string \<Rightarrow> 'w dm_world_scheme \<Rightarrow> reply_to option" where
  "replyToFor threadId replyToId w =
     (case find (\<lambda>m. st_id m = replyToId) (log_of threadId w) of
        None \<Rightarrow> None
      | Some stored \<Rightarrow>
          Some \<lparr>rt_id = replyToId,
                rt_from = map_option (\<lambda>p. (p_id p, p_name p)) (cm_from (st_dto stored)),
                rt_excerpt =
                  (if st_deleted stored then []
                   else take REPLY_EXCERPT_MAX (case cm_body (st_dto stored) of None \<Rightarrow> [] | Some b \<Rightarrow> b)),
                rt_kind = cm_kind (st_dto stored),
                rt_deleted = st_deleted stored\<rparr>)"

definition withReply :: "string \<Rightarrow> 'w dm_world_scheme \<Rightarrow> chat_message \<Rightarrow> chat_message" where
  "withReply threadId w dto =
     (case cm_replyToId dto of
        None \<Rightarrow> dto
      | Some replyToId \<Rightarrow> dto\<lparr>cm_replyTo := Some (replyToFor threadId replyToId w)\<rparr>)"

text \<open>\<open>key.slice(0, sep)\<close> and \<open>key.slice(sep + 1)\<close>, with \<open>sep\<close> possibly \<open>-1\<close>.\<close>

definition react_parts :: "string \<Rightarrow> string \<times> string" where
  "react_parts key =
     (case indexOf (CHR '':'') key of
        Some sep \<Rightarrow> (take sep key, drop (sep + 1) key)
      | None \<Rightarrow> (butlast key, key))"

fun count_reactions :: "string option \<Rightarrow> string list \<Rightarrow> (string, nat \<times> bool) js_map \<Rightarrow> (string, nat \<times> bool) js_map" where
  "count_reactions viewer [] counts = counts"
| "count_reactions viewer (key # ks) counts =
     (let (uid, emoji) = react_parts key;
          (count, mine) = (case jm_get counts emoji of None \<Rightarrow> (0, False) | Some c \<Rightarrow> c)
      in count_reactions viewer ks (jm_set emoji (count + 1, mine \<or> viewer = Some uid) counts))"

definition reactionsFor :: "string \<Rightarrow> string option \<Rightarrow> 'w dm_world_scheme \<Rightarrow> reaction_summary list" where
  "reactionsFor messageId viewer w =
     (case jm_get (dm_reactions w) messageId of
        None \<Rightarrow> []
      | Some keys \<Rightarrow>
          if keys = [] then []
          else map (\<lambda>(emoji, count, mine). \<lparr>rs_emoji = emoji, rs_count = count, rs_mine = mine\<rparr>)
                 (sort_key fst (count_reactions viewer keys [])))"

text \<open>The live message a viewer sees: with its reactions and its reply preview.\<close>

definition live_view :: "string \<Rightarrow> string option \<Rightarrow> 'w dm_world_scheme \<Rightarrow> stored_dm_message \<Rightarrow> chat_message" where
  "live_view threadId viewer w m =
     withReply threadId w ((st_dto m)\<lparr>cm_reactions := reactionsFor (st_id m) viewer w\<rparr>)"

subsection \<open>Threads\<close>

definition openOrCreateThread :: "dm_env \<Rightarrow> string \<Rightarrow> string \<Rightarrow> ('w dm_world_scheme, dm_thread) prog" where
  "openOrCreateThread E userA userB =
     (let (lo, hi) = orderPair userA userB; key = pair_key lo hi in
      seq (reads (\<lambda>w. case jm_get (dm_byPair w) key of None \<Rightarrow> None | Some existingId \<Rightarrow> jm_get (dm_threads w) existingId))
        (\<lambda>existing. case existing of
           Some thread \<Rightarrow> ret thread
         | None \<Rightarrow>
             seq (randomUUID E) (\<lambda>id.
             seq nextDate (\<lambda>createdAt.
               let thread = \<lparr>th_id = id, th_userLo = lo, th_userHi = hi, th_createdAt = createdAt\<rparr> in
               seq (writes (\<lambda>w. w\<lparr>dm_threads := jm_set id thread (dm_threads w),
                                   dm_byPair := jm_set key id (dm_byPair w)\<rparr>))
                 (\<lambda>_. ret thread)))))"

definition getThreadForPair :: "string \<Rightarrow> string \<Rightarrow> ('w dm_world_scheme, dm_thread option) prog" where
  "getThreadForPair userA userB =
     reads (\<lambda>w. let (lo, hi) = orderPair userA userB in
       case jm_get (dm_byPair w) (pair_key lo hi) of
         None \<Rightarrow> None
       | Some tid \<Rightarrow> if tid = [] then None else jm_get (dm_threads w) tid)"

definition getThread :: "string \<Rightarrow> ('w dm_world_scheme, dm_thread option) prog" where
  "getThread threadId = reads (\<lambda>w. jm_get (dm_threads w) threadId)"

definition isParticipant :: "string \<Rightarrow> string \<Rightarrow> ('w dm_world_scheme, bool) prog" where
  "isParticipant threadId userId =
     reads (\<lambda>w. case jm_get (dm_threads w) threadId of
                   None \<Rightarrow> False | Some t \<Rightarrow> th_userLo t = userId \<or> th_userHi t = userId)"

definition dm_peerOf :: "string \<Rightarrow> string \<Rightarrow> 'w dm_world_scheme \<Rightarrow> string option" where
  "dm_peerOf threadId userId w =
     (case jm_get (dm_threads w) threadId of None \<Rightarrow> None | Some t \<Rightarrow> peerIn t userId)"

definition dmPeerOfThread :: "dm_thread \<Rightarrow> string \<Rightarrow> string option" where
  "dmPeerOfThread thread userId =
     (if th_userLo thread = userId then Some (th_userHi thread)
      else if th_userHi thread = userId then Some (th_userLo thread)
      else None)"

definition makeDmPeerOf :: "(string \<Rightarrow> ('w, dm_thread option) prog) \<Rightarrow> string \<Rightarrow> string \<Rightarrow> ('w, string option) prog" where
  "makeDmPeerOf get_thread threadId userId =
     seq (get_thread threadId) (\<lambda>thread.
       ret (case thread of None \<Rightarrow> None | Some t \<Rightarrow> dmPeerOfThread t userId))"

subsection \<open>Messages\<close>

definition reply_target_check :: "dm_persist_input \<Rightarrow> ('w dm_world_scheme, unit) prog" where
  "reply_target_check input =
     (case pi_replyToId input of
        None \<Rightarrow> ret ()
      | Some replyToId \<Rightarrow>
          seq (reads (\<lambda>w. find (\<lambda>m. st_id m = replyToId) (log_of (pi_threadId input) w))) (\<lambda>target.
            case target of
              None \<Rightarrow> raise replyWrongRoom
            | Some t \<Rightarrow> if st_deleted t then raise replyDeletedTarget else ret ()))"

definition person_of_user :: "dm_env \<Rightarrow> dm_user \<Rightarrow> person" where
  "person_of_user E u =
     \<lparr>p_id = du_id u, p_name = du_displayName u, p_handle = du_handle u, p_bio = du_bio u,
      p_avatar = avatarGradient E (du_id u), p_avatarUrl = du_avatarUrl u, p_followers = 0, p_following = 0,
      p_isFollowing = False, p_official = officialPersonFlag (du_id u)\<rparr>"

definition new_message :: "dm_env \<Rightarrow> dm_persist_input \<Rightarrow> dm_user \<Rightarrow> string \<Rightarrow> int \<Rightarrow> chat_message" where
  "new_message E input sender messageId createdAt =
     \<lparr>cm_id = messageId, cm_cleanupId = pi_threadId input, cm_roomKind = Some ''dm'',
      cm_from = Some (person_of_user E sender), cm_body = Some (pi_body input),
      cm_kind = (case pi_kind input of None \<Rightarrow> ''text'' | Some k \<Rightarrow> k), cm_attachments = [], cm_reactions = [],
      cm_mentions = [], cm_createdAt = createdAt, cm_replyToId = pi_replyToId input, cm_replyTo = None,
      cm_clientId = pi_clientId input, cm_mine = None, cm_editedAt = None, cm_pinnedAt = None, cm_deletedAt = None,
      cm_forwardedToCity = None, cm_cityMention = None\<rparr>"

definition append_log :: "string \<Rightarrow> stored_dm_message \<Rightarrow> 'w dm_world_scheme \<Rightarrow> 'w dm_world_scheme" where
  "append_log threadId m w = w\<lparr>dm_log := jm_set threadId (log_of threadId w @ [m]) (dm_log w)\<rparr>"

definition persist :: "dm_env \<Rightarrow> dm_persist_input \<Rightarrow> ('w dm_world_scheme, chat_message) prog" where
  "persist E input =
     seq (reply_target_check input) (\<lambda>_.
     seq (reads (userOf (pi_senderId input))) (\<lambda>sender.
     seq (randomUUID E) (\<lambda>id.
     seq nextDate (\<lambda>createdAt.
       let dto = new_message E input sender id createdAt in
       seq (writes (\<lambda>w. append_log (pi_threadId input)
              \<lparr>st_dto = dto, st_deleted = False, st_deletedAt = None, st_insertedAtMs = clock w\<rparr> w)) (\<lambda>_.
         reads (\<lambda>w. (withReply (pi_threadId input) w dto)\<lparr>cm_mine := Some True\<rparr>))))))"

text \<open>
  An assignment to a field of the message \<open>find\<close> returned: the stored object changes in place.
\<close>

definition update_log :: "string \<Rightarrow> (stored_dm_message \<Rightarrow> bool) \<Rightarrow> (stored_dm_message \<Rightarrow> stored_dm_message)
    \<Rightarrow> 'w dm_world_scheme \<Rightarrow> 'w dm_world_scheme" where
  "update_log threadId P f w = w\<lparr>dm_log := jm_set threadId (update_first P f (log_of threadId w)) (dm_log w)\<rparr>"

definition own_live :: "string \<Rightarrow> string \<Rightarrow> stored_dm_message \<Rightarrow> bool" where
  "own_live messageId senderId m \<longleftrightarrow> st_id m = messageId \<and> st_sender m = Some senderId \<and> \<not> st_deleted m"

definition editMessage :: "string \<Rightarrow> string \<Rightarrow> string \<Rightarrow> string \<Rightarrow> ('w dm_world_scheme, chat_message option) prog" where
  "editMessage threadId messageId senderId body =
     seq (reads (\<lambda>w. find (own_live messageId senderId) (log_of threadId w))) (\<lambda>found.
       case found of
         None \<Rightarrow> ret None
       | Some stored \<Rightarrow>
           seq nextDate (\<lambda>editedAt.
             let edited = (st_dto stored)\<lparr>cm_body := Some body, cm_editedAt := Some editedAt\<rparr> in
             seq (writes (update_log threadId (own_live messageId senderId) (\<lambda>m. m\<lparr>st_dto := edited\<rparr>))) (\<lambda>_.
               reads (\<lambda>w. Some (withReply threadId w edited)))))"

fun find_in_logs :: "string \<Rightarrow> (string \<times> stored_dm_message list) list \<Rightarrow> (string \<times> stored_dm_message) option" where
  "find_in_logs messageId [] = None"
| "find_in_logs messageId ((threadId, l) # ls) =
     (case find (\<lambda>m. st_id m = messageId) l of
        Some stored \<Rightarrow> Some (threadId, stored)
      | None \<Rightarrow> find_in_logs messageId ls)"

definition findMessageMeta :: "string \<Rightarrow> ('w dm_world_scheme, dm_message_meta option) prog" where
  "findMessageMeta messageId =
     seq (reads (\<lambda>w. find_in_logs messageId (dm_log w))) (\<lambda>found.
       case found of
         None \<Rightarrow> ret None
       | Some (threadId, stored) \<Rightarrow>
           seq (lastSenderId (st_dto stored)) (\<lambda>senderId.
             ret (Some \<lparr>mm_id = messageId, mm_threadId = threadId, mm_senderId = senderId,
                        mm_kind = cm_kind (st_dto stored), mm_createdAt = st_insertedAtMs stored,
                        mm_deletedAt = (if st_deleted stored then Some (st_insertedAtMs stored) else None)\<rparr>)))"

definition softDelete :: "string \<Rightarrow> string \<Rightarrow> string \<Rightarrow> ('w dm_world_scheme, chat_message option) prog" where
  "softDelete threadId messageId senderId =
     seq (reads (\<lambda>w. find (own_live messageId senderId) (log_of threadId w))) (\<lambda>found.
       case found of
         None \<Rightarrow> ret None
       | Some stored \<Rightarrow>
           seq nextDate (\<lambda>deletedAt.
           seq (writes (update_log threadId (own_live messageId senderId)
                  (\<lambda>m. m\<lparr>st_deleted := True, st_deletedAt := Some deletedAt\<rparr>))) (\<lambda>_.
             reads (\<lambda>w. Some (withReply threadId w
               (toTombstoneDTO ((st_dto stored)\<lparr>cm_mine := Some True\<rparr>) deletedAt))))))"

definition setPinned :: "string \<Rightarrow> string \<Rightarrow> string \<Rightarrow> bool \<Rightarrow> ('w dm_world_scheme, chat_message option) prog" where
  "setPinned threadId messageId userId pinned =
     seq (reads (\<lambda>w. find (\<lambda>m. st_id m = messageId) (log_of threadId w))) (\<lambda>found.
       case found of
         None \<Rightarrow> ret None
       | Some stored \<Rightarrow>
           if st_deleted stored then ret None
           else
             let currentlyPinned = cm_pinnedAt (st_dto stored) \<noteq> None in
             seq (if cm_kind (st_dto stored) \<noteq> ''system'' \<and> currentlyPinned \<noteq> pinned
                  then seq (if pinned then seq nextDate (\<lambda>d. ret (Some d)) else ret None) (\<lambda>pinnedAt.
                         let dto = (st_dto stored)\<lparr>cm_pinnedAt := pinnedAt\<rparr> in
                         seq (writes (update_log threadId (\<lambda>m. st_id m = messageId) (\<lambda>m. m\<lparr>st_dto := dto\<rparr>)))
                           (\<lambda>_. ret dto))
                  else ret (st_dto stored)) (\<lambda>dto.
             reads (\<lambda>w. Some (withReply threadId w (dto\<lparr>cm_reactions := reactionsFor messageId (Some userId) w\<rparr>)))))"

definition pinned_live :: "stored_dm_message list \<Rightarrow> stored_dm_message list" where
  "pinned_live l = filter (\<lambda>m. \<not> st_deleted m \<and> cm_pinnedAt (st_dto m) \<noteq> None) l"

definition listPins :: "string \<Rightarrow> string option \<Rightarrow> ('w dm_world_scheme, chat_message list) prog" where
  "listPins threadId viewer =
     reads (\<lambda>w. map (live_view threadId viewer w)
       (take PIN_LIST_CAP (sort_desc (\<lambda>m. (the (cm_pinnedAt (st_dto m)), st_id m)) (pinned_live (log_of threadId w)))))"

subsection \<open>History\<close>

fun findIndex :: "('a \<Rightarrow> bool) \<Rightarrow> 'a list \<Rightarrow> nat option" where
  "findIndex P [] = None"
| "findIndex P (x # xs) = (if P x then Some 0 else map_option Suc (findIndex P xs))"

definition historyAround ::
  "string \<Rightarrow> string \<Rightarrow> nat \<Rightarrow> string option \<Rightarrow> ('w dm_world_scheme, chat_history_page) prog" where
  "historyAround threadId around limit viewer = (\<lambda>w.
     let all = log_of threadId w in
     if \<not> (\<exists>m \<in> set all. st_id m = around) then raise (NotFound (Some ''Message not found'')) w
     else
       let ordered = rev (filter (\<lambda>m. \<not> st_deleted m \<or> st_id m = around) all);
           idx = the (findIndex (\<lambda>m. st_id m = around) ordered);
           L = aroundLimits limit;
           newerStart = idx - newerLimit L;
           window = drop newerStart (take (idx + olderLimit L) ordered);
           items = map (\<lambda>m. if st_deleted m
                     then withReply threadId w (toTombstoneDTO (st_dto m)
                            (case st_deletedAt m of Some d \<Rightarrow> d | None \<Rightarrow> st_insertedAtMs m))
                     else live_view threadId viewer w m) window
       in ret \<lparr>hp_items = items,
               hp_nextCursor = (if idx + olderLimit L < length ordered \<and> items \<noteq> [] then Some (cm_id (last items)) else None),
               hp_prevCursor = (if newerStart > 0 \<and> items \<noteq> [] then Some (cm_id (hd items)) else None)\<rparr> w)"

definition history ::
  "string \<Rightarrow> string option \<Rightarrow> nat \<Rightarrow> string option \<Rightarrow> string option \<Rightarrow> ('w dm_world_scheme, chat_history_page) prog" where
  "history threadId before limit viewer around =
     (case around of
        Some a \<Rightarrow> historyAround threadId a limit viewer
      | None \<Rightarrow> reads (\<lambda>w.
          let allDesc = rev (log_of threadId w);
              afterAnchor = (case before of
                  None \<Rightarrow> allDesc
                | Some b \<Rightarrow> (case findIndex (\<lambda>m. st_id m = b) allDesc of
                               None \<Rightarrow> allDesc | Some idx \<Rightarrow> drop (idx + 1) allDesc));
              ordered = map (live_view threadId viewer w) (filter (\<lambda>m. \<not> st_deleted m) afterAnchor);
              page = take limit ordered
          in \<lparr>hp_items = page,
              hp_nextCursor = (if length ordered > limit \<and> page \<noteq> [] then Some (cm_id (last page)) else None),
              hp_prevCursor = None\<rparr>))"

definition findMessage :: "string \<Rightarrow> string \<Rightarrow> string option \<Rightarrow> ('w dm_world_scheme, chat_message option) prog" where
  "findMessage threadId messageId viewer =
     reads (\<lambda>w. map_option (live_view threadId viewer w)
       (find (\<lambda>m. st_id m = messageId \<and> \<not> st_deleted m) (log_of threadId w)))"

subsection \<open>Reactions and read marks\<close>

definition live_message_exists :: "string \<Rightarrow> 'w dm_world_scheme \<Rightarrow> bool" where
  "live_message_exists messageId w \<longleftrightarrow>
     list_ex (\<lambda>(_, l). list_ex (\<lambda>m. st_id m = messageId \<and> \<not> st_deleted m) l) (dm_log w)"

definition reaction_key :: "string \<Rightarrow> string \<Rightarrow> string" where
  "reaction_key userId emoji = userId @ '':'' @ emoji"

definition toggleReaction :: "string \<Rightarrow> string \<Rightarrow> string \<Rightarrow> ('w dm_world_scheme, bool) prog" where
  "toggleReaction messageId userId emoji = (\<lambda>w.
     if \<not> live_message_exists messageId w then (Inr False, w)
     else
       let keys = (case jm_get (dm_reactions w) messageId of None \<Rightarrow> [] | Some s \<Rightarrow> s);
           key = reaction_key userId emoji;
           present = key \<notin> set keys;
           keys' = (if present then keys @ [key] else remove1 key keys)
       in (Inr present, w\<lparr>dm_reactions := jm_set messageId keys' (dm_reactions w)\<rparr>))"

definition markRead :: "string \<Rightarrow> string \<Rightarrow> int \<Rightarrow> ('w dm_world_scheme, unit) prog" where
  "markRead threadId userId t =
     writes (\<lambda>w. let key = readKey threadId userId;
                      prev = (case jm_get (dm_reads w) key of None \<Rightarrow> 0 | Some ms \<Rightarrow> ms)
       in if t > prev then w\<lparr>dm_reads := jm_set key t (dm_reads w)\<rparr> else w)"

definition lastReadAt :: "string \<Rightarrow> string \<Rightarrow> ('w dm_world_scheme, int option) prog" where
  "lastReadAt threadId userId = reads (\<lambda>w. jm_get (dm_reads w) (readKey threadId userId))"

definition read_baseline :: "dm_thread \<Rightarrow> string \<Rightarrow> string \<Rightarrow> 'w dm_world_scheme \<Rightarrow> int" where
  "read_baseline thread threadId userId w =
     max (th_createdAt thread) (case jm_get (dm_reads w) (readKey threadId userId) of None \<Rightarrow> 0 | Some ms \<Rightarrow> ms)"

definition countUnread :: "string \<Rightarrow> string \<Rightarrow> ('w dm_world_scheme, nat) prog" where
  "countUnread threadId userId =
     reads (\<lambda>w. case jm_get (dm_threads w) threadId of
        None \<Rightarrow> 0
      | Some thread \<Rightarrow>
          length (filter (\<lambda>m. \<not> st_deleted m \<and> st_sender m \<noteq> Some userId \<and>
                              cm_createdAt (st_dto m) > read_baseline thread threadId userId w) (log_of threadId w)))"

definition resolveMessageCreatedAt :: "string \<Rightarrow> string \<Rightarrow> ('w dm_world_scheme, int option) prog" where
  "resolveMessageCreatedAt threadId messageId =
     reads (\<lambda>w. map_option (\<lambda>m. cm_createdAt (st_dto m)) (find (\<lambda>m. st_id m = messageId) (log_of threadId w)))"

subsection \<open>The inbox\<close>

definition ag_activity :: "dm_thread_aggregate \<Rightarrow> int" where
  "ag_activity a = (case ag_last a of None \<Rightarrow> ag_createdAt a | Some l \<Rightarrow> tl_createdAt l)"

definition thread_aggregate :: "dm_env \<Rightarrow> string \<Rightarrow> dm_thread \<Rightarrow> string \<Rightarrow> ('w dm_world_scheme, dm_thread_aggregate) prog" where
  "thread_aggregate E userId t peerId =
     seq (reads (\<lambda>w. (userOf peerId w, map st_dto (filter (\<lambda>m. \<not> st_deleted m) (log_of (th_id t) w)),
                       read_baseline t (th_id t) userId w)))
       (\<lambda>(peer, live, baseline).
          let identity = publicAuthorIdentity E (du_id peer) (Some (du_displayName peer)) (du_handle peer)
                           (du_avatarUrl peer) (du_deletedAt peer);
              unread = length (filter (\<lambda>m. map_option p_id (cm_from m) = Some peerId \<and> cm_createdAt m > baseline) live)
          in seq (if live = [] then ret None
                  else seq (lastSenderId (last live)) (\<lambda>senderId.
                         ret (Some \<lparr>tl_body = cm_body (last live), tl_createdAt = cm_createdAt (last live),
                                    tl_senderId = senderId\<rparr>)))
               (\<lambda>lst. ret
                 \<lparr>ag_threadId = th_id t, ag_createdAt = th_createdAt t,
                  ag_peer = \<lparr>tp_id = du_id peer, tp_displayName = ai_name identity, tp_handle = ai_handle identity,
                              tp_bio = (if ai_deleted identity then None else du_bio peer),
                              tp_avatarUrl = ai_avatarUrl identity, tp_deleted = ai_deleted identity\<rparr>,
                  ag_last = lst, ag_unread = unread\<rparr>))"

fun collect_threads :: "dm_env \<Rightarrow> (string \<Rightarrow> string \<Rightarrow> ('w dm_world_scheme, bool) prog) option \<Rightarrow> string
    \<Rightarrow> dm_thread list \<Rightarrow> ('w dm_world_scheme, dm_thread_aggregate list) prog" where
  "collect_threads E isBlocked userId [] = ret []"
| "collect_threads E isBlocked userId (t # ts) =
     (case peerIn t userId of
        None \<Rightarrow> collect_threads E isBlocked userId ts
      | Some peerId \<Rightarrow>
          seq (case isBlocked of None \<Rightarrow> ret False | Some blocked \<Rightarrow> blocked userId peerId) (\<lambda>b.
            if b then collect_threads E isBlocked userId ts
            else seq (thread_aggregate E userId t peerId) (\<lambda>a.
                   seq (collect_threads E isBlocked userId ts) (\<lambda>out. ret (a # out)))))"

definition listThreadsForUser ::
  "dm_env \<Rightarrow> (string \<Rightarrow> string \<Rightarrow> ('w dm_world_scheme, bool) prog) option \<Rightarrow> 'w dm_world_scheme hides_repo option
     \<Rightarrow> string \<Rightarrow> nat option \<Rightarrow> time_cursor option \<Rightarrow> ('w dm_world_scheme, dm_thread_aggregate list) prog" where
  "listThreadsForUser E isBlocked hides userId limit cursor =
     seq (reads (\<lambda>w. map snd (dm_threads w))) (\<lambda>threads.
     seq (collect_threads E isBlocked userId threads) (\<lambda>out.
     seq (visibleAfterHides hides userId ''dm'' out ag_threadId ag_activity) (\<lambda>visible.
       let sorted_rows = sort_desc (\<lambda>a. (ag_activity a, ag_threadId a)) visible;
           paged = (case cursor of
               None \<Rightarrow> sorted_rows
             | Some c \<Rightarrow> filter (\<lambda>a. ag_activity a < tc_at c \<or> (ag_activity a = tc_at c \<and> ag_threadId a < tc_id c)) sorted_rows)
       in ret (case limit of None \<Rightarrow> paged | Some n \<Rightarrow> take n paged))))"

subsection \<open>Blocks\<close>

record block_state =
  bs_blockedByViewer :: bool
  bs_blockedByTarget :: bool

record list_blocked_page =
  lb_blocked :: "person list"
  lb_nextCursor :: "string option"

definition blocks_registerUser :: "dm_user \<Rightarrow> ('w dm_world_scheme, unit) prog" where
  "blocks_registerUser user = writes (\<lambda>w. w\<lparr>block_users := jm_set (du_id user) user (block_users w)\<rparr>)"

definition edges_of :: "string \<Rightarrow> 'w dm_world_scheme \<Rightarrow> string list" where
  "edges_of blockerId w = (case jm_get (block_edges w) blockerId of None \<Rightarrow> [] | Some s \<Rightarrow> s)"

definition block :: "string \<Rightarrow> string \<Rightarrow> ('w dm_world_scheme, unit) prog" where
  "block blockerId blockedId =
     writes (\<lambda>w. w\<lparr>block_edges := jm_set blockerId (set_add blockedId (edges_of blockerId w)) (block_edges w)\<rparr>)"

definition unblock :: "string \<Rightarrow> string \<Rightarrow> ('w dm_world_scheme, unit) prog" where
  "unblock blockerId blockedId =
     writes (\<lambda>w. case jm_get (block_edges w) blockerId of
        None \<Rightarrow> w
      | Some s \<Rightarrow> w\<lparr>block_edges := jm_set blockerId (removeAll blockedId s) (block_edges w)\<rparr>)"

definition isBlockedEitherWay :: "string \<Rightarrow> string \<Rightarrow> ('w dm_world_scheme, bool) prog" where
  "isBlockedEitherWay a b = reads (\<lambda>w. b \<in> set (edges_of a w) \<or> a \<in> set (edges_of b w))"

definition blockState :: "string \<Rightarrow> string \<Rightarrow> ('w dm_world_scheme, block_state) prog" where
  "blockState viewerId targetId =
     reads (\<lambda>w. \<lparr>bs_blockedByViewer = targetId \<in> set (edges_of viewerId w),
                 bs_blockedByTarget = viewerId \<in> set (edges_of targetId w)\<rparr>)"

definition blockedIdsAmong :: "string \<Rightarrow> string list \<Rightarrow> ('w dm_world_scheme, string list) prog" where
  "blockedIdsAmong actorId candidateIds =
     reads (\<lambda>w. fold (\<lambda>id blocked. if id \<in> set (edges_of actorId w) \<or> actorId \<in> set (edges_of id w)
                                    then set_add id blocked else blocked) candidateIds [])"

definition listBlocked :: "dm_env \<Rightarrow> string \<Rightarrow> nat option \<Rightarrow> ('w dm_world_scheme, list_blocked_page) prog" where
  "listBlocked E blockerId limit_arg =
     reads (\<lambda>w. let limit = (case limit_arg of None \<Rightarrow> LIST_BLOCKS_DEFAULT_LIMIT | Some n \<Rightarrow> n) in
       \<lparr>lb_blocked = map (\<lambda>id. person_of_user E
           (case jm_get (block_users w) id of
              Some u \<Rightarrow> u
            | None \<Rightarrow> \<lparr>du_id = id, du_displayName = placeholderDisplayName id, du_handle = None, du_bio = None,
                         du_avatarUrl = None, du_deletedAt = None\<rparr>)) (take limit (edges_of blockerId w)),
        lb_nextCursor = None\<rparr>)"

subsection \<open>Opening a conversation\<close>

definition DM_FORBIDDEN_MESSAGE :: string where "DM_FORBIDDEN_MESSAGE = ''You can't message this account.''"
definition DM_MEMBER_COUNT :: nat where "DM_MEMBER_COUNT = 2"

record dm_target_user =
  tu_id :: string
  tu_displayName :: string
  tu_handle :: "string option"
  tu_bio :: "string option"
  tu_avatarUrl :: "string option"
  tu_allowDirectMessages :: bool

record 'w dm_service_deps =
  dd_getThreadForPair :: "string \<Rightarrow> string \<Rightarrow> ('w, dm_thread option) prog"
  dd_openOrCreateThread :: "string \<Rightarrow> string \<Rightarrow> ('w, dm_thread) prog"
  dd_history :: "string \<Rightarrow> string option \<Rightarrow> nat \<Rightarrow> string option \<Rightarrow> string option \<Rightarrow> ('w, chat_history_page) prog"
  dd_countUnread :: "string \<Rightarrow> string \<Rightarrow> ('w, nat) prog"
  dd_isBlockedEitherWay :: "string \<Rightarrow> string \<Rightarrow> ('w, bool) prog"
  dd_loadUser :: "string \<Rightarrow> ('w, dm_target_user option) prog"
  dd_isMutedFor :: "(string \<Rightarrow> string \<Rightarrow> ('w, bool) prog) option"
  dd_now :: "'w \<Rightarrow> int"

record message_thread =
  mt_id :: string
  mt_kind :: string
  mt_refId :: string
  mt_title :: string
  mt_peer :: person
  mt_last :: "string option"
  mt_ago :: "string option"
  mt_lastMessageAt :: "int option"
  mt_lastFromMe :: bool
  mt_unread :: nat
  mt_members :: nat
  mt_muted :: bool

definition lastPreview :: "chat_message \<Rightarrow> string" where
  "lastPreview m =
     (let by_attachment = (case cm_attachments m of
            [] \<Rightarrow> [] | a # _ \<Rightarrow> if at_kind a = ''video'' then ''Video'' else ''Photo'')
      in case cm_body m of None \<Rightarrow> by_attachment | Some body \<Rightarrow> if trim body \<noteq> [] then body else by_attachment)"

definition service_peerOf :: "dm_env \<Rightarrow> dm_target_user \<Rightarrow> person" where
  "service_peerOf E target =
     \<lparr>p_id = tu_id target, p_name = tu_displayName target, p_handle = tu_handle target, p_bio = tu_bio target,
      p_avatar = avatarGradient E (tu_id target), p_avatarUrl = tu_avatarUrl target, p_followers = 0,
      p_following = 0, p_isFollowing = False, p_official = officialPersonFlag (tu_id target)\<rparr>"

definition dmTitle :: "dm_target_user \<Rightarrow> string" where
  "dmTitle target =
     (if trim (tu_displayName target) \<noteq> [] then tu_displayName target
      else case tu_handle target of Some h \<Rightarrow> ''@'' @ h | None \<Rightarrow> tu_displayName target)"

definition openDm :: "dm_env \<Rightarrow> 'w dm_service_deps \<Rightarrow> string \<Rightarrow> string \<Rightarrow> ('w, message_thread) prog" where
  "openDm E D viewerId targetUserId =
     (let forbidden = Forbidden (Some DM_FORBIDDEN_MESSAGE) in
      if targetUserId = viewerId then raise forbidden
      else
        seq (dd_loadUser D targetUserId) (\<lambda>loaded.
        case loaded of
          None \<Rightarrow> raise forbidden
        | Some target \<Rightarrow>
            seq (dd_isBlockedEitherWay D viewerId targetUserId) (\<lambda>blocked.
            if blocked then raise forbidden
            else
              seq (dd_getThreadForPair D viewerId targetUserId) (\<lambda>existing.
              if \<not> tu_allowDirectMessages target \<and> existing = None then raise forbidden
              else
                seq (case existing of Some t \<Rightarrow> ret t | None \<Rightarrow> dd_openOrCreateThread D viewerId targetUserId) (\<lambda>thread.
                seq (dd_history D (th_id thread) None 1 None None) (\<lambda>page.
                seq (case dd_isMutedFor D of
                       Some isMutedFor \<Rightarrow> recover (isMutedFor viewerId (th_id thread)) (\<lambda>_. ret False)
                     | None \<Rightarrow> ret False) (\<lambda>muted.
                seq (recover (dd_countUnread D (th_id thread) viewerId) (\<lambda>_. ret 0)) (\<lambda>unread.
                  let lst = (case hp_items page of [] \<Rightarrow> None | m # _ \<Rightarrow> Some m) in
                  reads (\<lambda>w.
                    \<lparr>mt_id = th_id thread, mt_kind = ''dm'', mt_refId = th_id thread, mt_title = dmTitle target,
                     mt_peer = service_peerOf E target, mt_last = map_option lastPreview lst,
                     mt_ago = map_option (\<lambda>m. relativeAgo E (cm_createdAt m) (dd_now D w)) lst,
                     mt_lastMessageAt = map_option cm_createdAt lst,
                     mt_lastFromMe =
                       (case lst of None \<Rightarrow> False | Some m \<Rightarrow> map_option p_id (cm_from m) = Some viewerId),
                     mt_unread = unread, mt_members = DM_MEMBER_COUNT, mt_muted = muted\<rparr>)))))))))"

text \<open>The service over the in-memory repositories, as the tests and the local server compose it.\<close>

definition memory_dm_deps ::
  "dm_env \<Rightarrow> (string \<Rightarrow> ('w dm_world_scheme, dm_target_user option) prog)
     \<Rightarrow> (string \<Rightarrow> string \<Rightarrow> ('w dm_world_scheme, bool) prog) option \<Rightarrow> 'w dm_world_scheme dm_service_deps" where
  "memory_dm_deps E loadUser isMutedFor =
     \<lparr>dd_getThreadForPair = getThreadForPair, dd_openOrCreateThread = openOrCreateThread E, dd_history = history,
      dd_countUnread = countUnread, dd_isBlockedEitherWay = isBlockedEitherWay, dd_loadUser = loadUser,
      dd_isMutedFor = isMutedFor, dd_now = clock\<rparr>"

end
