(* ===== verification/Dm_Laws.thy ===== *)
theory Dm_Laws
  imports Dm_Repository
begin

section \<open>The laws of direct messages\<close>

text \<open>
  What every operation of the repository does to the logs and the threads, the invariant of the store over
  runs of operations, and the properties of the conversations: one thread per pair, authorship, deletion.
\<close>

subsection \<open>Runs of operations\<close>

datatype dm_op =
    OpenThread string string
  | Persist dm_persist_input
  | Edit string string string string
  | SoftDelete string string string
  | SetPinned string string string bool
  | ToggleReaction string string string
  | MarkRead string string int
  | RegisterUser dm_user
  | Block string string
  | Unblock string string
  | SetHidden string string string bool
  | Tick int

fun dm_exec :: "dm_env \<Rightarrow> dm_op \<Rightarrow> 'w dm_world_scheme \<Rightarrow> 'w dm_world_scheme" where
  "dm_exec E (OpenThread a b) w = snd (openOrCreateThread E a b w)"
| "dm_exec E (Persist i) w = snd (persist E i w)"
| "dm_exec E (Edit t m u b) w = snd (editMessage t m u b w)"
| "dm_exec E (SoftDelete t m u) w = snd (softDelete t m u w)"
| "dm_exec E (SetPinned t m u p) w = snd (setPinned t m u p w)"
| "dm_exec E (ToggleReaction m u e) w = snd (toggleReaction m u e w)"
| "dm_exec E (MarkRead t u d) w = snd (markRead t u d w)"
| "dm_exec E (RegisterUser u) w = snd (dm_registerUser u w)"
| "dm_exec E (Block a b) w = snd (block a b w)"
| "dm_exec E (Unblock a b) w = snd (unblock a b w)"
| "dm_exec E (SetHidden u k r h) w = snd (setHidden u k r h w)"
| "dm_exec E (Tick d) w = tick d w"

definition dm_run :: "dm_env \<Rightarrow> dm_op list \<Rightarrow> 'w dm_world_scheme \<Rightarrow> 'w dm_world_scheme" where
  "dm_run E ops w = fold (dm_exec E) ops w"

definition dm_empty :: dm_world where
  "dm_empty = \<lparr>clock = 0, dm_threads = [], dm_byPair = [], dm_log = [], dm_reads = [], dm_reactions = [],
     dm_users = [], dm_tick = 0, dm_entropy = 0, block_edges = [], block_users = [], hide_rows = []\<rparr>"

lemma dm_run_simps [simp]: "dm_run E [] w = w" "dm_run E (x # xs) w = dm_run E xs (dm_exec E x w)"
  by (simp_all add: dm_run_def)

text \<open>The user on whose behalf an operation rewrites or deletes a message.\<close>

fun op_author :: "dm_op \<Rightarrow> string option" where
  "op_author (Edit t m u b) = Some u"
| "op_author (SoftDelete t m u) = Some u"
| "op_author _ = None"

text \<open>
  User ids are UUIDs; that they hold no colon is what makes the pair key and the reaction key unambiguous.
\<close>

fun op_ids_ok :: "dm_op \<Rightarrow> bool" where
  "op_ids_ok (OpenThread a b) \<longleftrightarrow> CHR '':'' \<notin> set a \<and> CHR '':'' \<notin> set b"
| "op_ids_ok (ToggleReaction m u e) \<longleftrightarrow> CHR '':'' \<notin> set u"
| "op_ids_ok _ \<longleftrightarrow> True"

subsection \<open>Logs\<close>

lemma log_of_append [simp]:
  "log_of t (append_log t' m w) = (if t = t' then log_of t w @ [m] else log_of t w)"
  by (simp add: log_of_def append_log_def)

lemma log_of_update [simp]:
  "log_of t (update_log t' P f w) = (if t = t' then update_first P f (log_of t w) else log_of t w)"
  by (simp add: log_of_def update_log_def)

lemma log_of_frame [simp]:
  "log_of t (w\<lparr>dm_tick := a\<rparr>) = log_of t w"
  "log_of t (w\<lparr>dm_entropy := n\<rparr>) = log_of t w"
  "log_of t (w\<lparr>dm_threads := b\<rparr>) = log_of t w"
  "log_of t (w\<lparr>dm_byPair := c\<rparr>) = log_of t w"
  "log_of t (w\<lparr>dm_reads := d\<rparr>) = log_of t w"
  "log_of t (w\<lparr>dm_reactions := e\<rparr>) = log_of t w"
  "log_of t (w\<lparr>dm_users := f\<rparr>) = log_of t w"
  "log_of t (w\<lparr>block_edges := g\<rparr>) = log_of t w"
  "log_of t (w\<lparr>hide_rows := h\<rparr>) = log_of t w"
  "log_of t (w\<lparr>clock := j\<rparr>) = log_of t w"
  "log_of t (tick i w) = log_of t w"
  by (simp_all add: log_of_def tick_def)

lemma append_log_frame [simp]:
  "dm_threads (append_log t m w) = dm_threads w" "dm_byPair (append_log t m w) = dm_byPair w"
  "dm_tick (append_log t m w) = dm_tick w" "dm_entropy (append_log t m w) = dm_entropy w"
  "dm_reactions (append_log t m w) = dm_reactions w"
  by (simp_all add: append_log_def)

lemma update_log_frame [simp]:
  "dm_threads (update_log t P f w) = dm_threads w" "dm_byPair (update_log t P f w) = dm_byPair w"
  "dm_tick (update_log t P f w) = dm_tick w" "dm_entropy (update_log t P f w) = dm_entropy w"
  "dm_reactions (update_log t P f w) = dm_reactions w"
  by (simp_all add: update_log_def)

lemma find_split:
  assumes "find P xs = Some x"
  obtains ys zs where "xs = ys @ x # zs" "P x" "\<forall>y \<in> set ys. \<not> P y"
  using assms
proof (induction xs arbitrary: thesis)
  case (Cons a xs)
  show ?case
  proof (cases "P a")
    case True
    with Cons.prems show ?thesis by (intro Cons.prems(1) [of "[]" xs]) auto
  next
    case False
    with Cons.prems(2) have "find P xs = Some x" by simp
    then obtain ys zs where "xs = ys @ x # zs" "P x" "\<forall>y \<in> set ys. \<not> P y"
      using Cons.IH by blast
    with False show ?thesis by (intro Cons.prems(1) [of "a # ys" zs]) auto
  qed
qed simp

lemma update_first_split:
  "\<forall>y \<in> set ys. \<not> P y \<Longrightarrow> P x \<Longrightarrow> update_first P f (ys @ x # zs) = ys @ f x # zs"
  by (induction ys) auto

text \<open>
  What an operation may do to a stored message: its identity, date and author stay, a deleted message is not
  touched, and only its author's operations change the text or delete it.
\<close>

definition touched :: "dm_op \<Rightarrow> stored_dm_message \<Rightarrow> stored_dm_message \<Rightarrow> bool" where
  "touched opr s s' \<longleftrightarrow>
     st_id s' = st_id s \<and> cm_createdAt (st_dto s') = cm_createdAt (st_dto s) \<and> cm_from (st_dto s') = cm_from (st_dto s) \<and>
     \<not> st_deleted s \<and> (st_deleted s' \<longrightarrow> st_deletedAt s' \<noteq> None) \<and>
     ((st_deleted s' \<or> cm_body (st_dto s') \<noteq> cm_body (st_dto s)) \<longrightarrow> op_author opr = st_sender s)"

text \<open>The three effects an operation can have on the logs.\<close>

inductive log_step :: "dm_env \<Rightarrow> dm_op \<Rightarrow> 'w dm_world_scheme \<Rightarrow> 'w dm_world_scheme \<Rightarrow> bool" for E opr w where
  log_same: "(\<And>t. log_of t w' = log_of t w) \<Longrightarrow> dm_tick w \<le> dm_tick w' \<Longrightarrow> dm_entropy w \<le> dm_entropy w' \<Longrightarrow>
     log_step E opr w w'"
| log_append: "(\<And>t. log_of t w' = (if t = t0 then log_of t w @ [m] else log_of t w)) \<Longrightarrow>
     st_id m = uuid_of E (dm_entropy w) \<Longrightarrow> dm_entropy w' = dm_entropy w + 1 \<Longrightarrow>
     cm_createdAt (st_dto m) = SYNTHETIC_EPOCH_MS + dm_tick w' \<Longrightarrow> dm_tick w' = dm_tick w + 1 \<Longrightarrow>
     cm_from (st_dto m) \<noteq> None \<Longrightarrow> \<not> st_deleted m \<Longrightarrow>
     log_step E opr w w'"
| log_touch: "log_of t0 w = ys @ s # zs \<Longrightarrow> touched opr s s' \<Longrightarrow>
     (\<And>t. log_of t w' = (if t = t0 then ys @ s' # zs else log_of t w)) \<Longrightarrow>
     dm_tick w \<le> dm_tick w' \<Longrightarrow> dm_entropy w \<le> dm_entropy w' \<Longrightarrow>
     log_step E opr w w'"

lemma openOrCreateThread_run:
  assumes "orderPair a b = (lo, hi)"
  shows "openOrCreateThread E a b w =
    (case (case jm_get (dm_byPair w) (pair_key lo hi) of None \<Rightarrow> None | Some i \<Rightarrow> jm_get (dm_threads w) i) of
       Some t \<Rightarrow> (Inr t, w)
     | None \<Rightarrow>
         let i = uuid_of E (dm_entropy w);
             t = \<lparr>th_id = i, th_userLo = lo, th_userHi = hi, th_createdAt = SYNTHETIC_EPOCH_MS + (dm_tick w + 1)\<rparr>
         in (Inr t, w\<lparr>dm_entropy := dm_entropy w + 1, dm_tick := dm_tick w + 1,
                      dm_threads := jm_set i t (dm_threads w), dm_byPair := jm_set (pair_key lo hi) i (dm_byPair w)\<rparr>))"
  using assms
  by (auto simp: openOrCreateThread_def prog_simps randomUUID_def nextDate_def Let_def split: option.split)

lemma reply_target_check_run:
  "reply_target_check i w = (Inr (), w) \<or> (\<exists>e. reply_target_check i w = (Inl e, w))"
  by (auto simp: reply_target_check_def prog_simps split: option.split)

lemma persist_run:
  assumes "reply_target_check i w = (Inr (), w)"
  shows "snd (persist E i w) =
    append_log (pi_threadId i)
      \<lparr>st_dto = new_message E i (userOf (pi_senderId i) w) (uuid_of E (dm_entropy w)) (SYNTHETIC_EPOCH_MS + (dm_tick w + 1)),
       st_deleted = False, st_deletedAt = None, st_insertedAtMs = clock w\<rparr>
      (w\<lparr>dm_entropy := dm_entropy w + 1, dm_tick := dm_tick w + 1\<rparr>)"
  using assms by (simp add: persist_def prog_simps randomUUID_def nextDate_def Let_def)

lemma persist_refused: "reply_target_check i w = (Inl e, w) \<Longrightarrow> persist E i w = (Inl e, w)"
  by (simp add: persist_def prog_simps)

lemma log_step_persist: "log_step E opr w (snd (persist E i w))"
proof (cases "reply_target_check i w = (Inr (), w)")
  case True
  show ?thesis
    unfolding persist_run [OF True]
    by (rule log_append) (auto simp: new_message_def)
next
  case False
  with reply_target_check_run [of i w] obtain e where "reply_target_check i w = (Inl e, w)" by blast
  from persist_refused [OF this] show ?thesis by (auto intro: log_same)
qed

lemma log_step_update:
  assumes "find P (log_of t w) = Some s" "touched opr s (f s)"
  shows "log_step E opr w (update_log t P f (w\<lparr>dm_tick := dm_tick w + 1\<rparr>))"
    and "log_step E opr w (update_log t P f w)"
proof -
  from assms(1) obtain ys zs where *: "log_of t w = ys @ s # zs" "P s" "\<forall>y \<in> set ys. \<not> P y"
    by (rule find_split)
  show "log_step E opr w (update_log t P f (w\<lparr>dm_tick := dm_tick w + 1\<rparr>))"
    by (rule log_touch [OF *(1) assms(2)]) (auto simp: * update_first_split)
  show "log_step E opr w (update_log t P f w)"
    by (rule log_touch [OF *(1) assms(2)]) (auto simp: * update_first_split)
qed

lemma log_step_refl: "log_step E opr w w"
  by (rule log_same) auto

lemma log_step_edit: "log_step E (Edit t m u b) w (snd (editMessage t m u b w))"
proof (cases "find (own_live m u) (log_of t w)")
  case None
  then show ?thesis by (simp add: editMessage_def prog_simps log_step_refl)
next
  case (Some s)
  then have "own_live m u s" by (rule find_SomeD [THEN conjunct1])
  then show ?thesis
    using Some
    by (auto simp: editMessage_def prog_simps nextDate_def Let_def touched_def own_live_def intro!: log_step_update(1))
qed

lemma log_step_softDelete: "log_step E (SoftDelete t m u) w (snd (softDelete t m u w))"
proof (cases "find (own_live m u) (log_of t w)")
  case None
  then show ?thesis by (simp add: softDelete_def prog_simps log_step_refl)
next
  case (Some s)
  then have "own_live m u s" by (rule find_SomeD [THEN conjunct1])
  then show ?thesis
    using Some
    by (auto simp: softDelete_def prog_simps nextDate_def Let_def touched_def own_live_def intro!: log_step_update(1))
qed

lemma log_step_setPinned: "log_step E opr w (snd (setPinned t m u p w))"
proof (cases "find (\<lambda>x. st_id x = m) (log_of t w)")
  case None
  then show ?thesis by (simp add: setPinned_def prog_simps log_step_refl)
next
  case (Some s)
  then show ?thesis
    by (auto simp: setPinned_def prog_simps nextDate_def Let_def touched_def log_step_refl
        intro!: log_step_update(1) log_step_update(2))
qed

lemma log_step_exec: "log_step E opr w (dm_exec E opr w)"
proof (cases opr)
  case (OpenThread a b)
  obtain lo hi where "orderPair a b = (lo, hi)" by (rule prod.exhaust)
  with OpenThread show ?thesis
    by (auto simp: openOrCreateThread_run Let_def intro: log_same log_step_refl split: option.split)
next
  case (ToggleReaction m u e)
  then show ?thesis by (auto simp: toggleReaction_def Let_def intro: log_same)
next
  case (Unblock a b)
  then show ?thesis by (auto simp: unblock_def prog_simps intro: log_same split: option.split)
qed (auto simp: log_step_persist log_step_edit log_step_softDelete log_step_setPinned markRead_def dm_registerUser_def
    block_def setHidden_def prog_simps Let_def tick_def [abs_def] intro: log_same)

subsection \<open>The invariant\<close>

abbreviation used_ids :: "dm_env \<Rightarrow> 'w dm_world_scheme \<Rightarrow> string set" where
  "used_ids E w \<equiv> uuid_of E ` {..<dm_entropy w}"

text \<open>One log: ids that were drawn, without repetition; strictly increasing dates; every message has an author.\<close>

definition log_ok :: "dm_env \<Rightarrow> 'w dm_world_scheme \<Rightarrow> stored_dm_message list \<Rightarrow> bool" where
  "log_ok E w l \<longleftrightarrow>
     distinct (map st_id l) \<and> sorted_wrt (<) (map (\<lambda>m. cm_createdAt (st_dto m)) l) \<and>
     (\<forall>m \<in> set l. st_id m \<in> used_ids E w \<and> cm_createdAt (st_dto m) \<le> SYNTHETIC_EPOCH_MS + dm_tick w \<and>
        cm_from (st_dto m) \<noteq> None \<and> (st_deleted m \<longrightarrow> st_deletedAt m \<noteq> None))"

definition logs_ok :: "dm_env \<Rightarrow> 'w dm_world_scheme \<Rightarrow> bool" where
  "logs_ok E w \<longleftrightarrow>
     (\<forall>t. log_ok E w (log_of t w)) \<and>
     (\<forall>t t'. t \<noteq> t' \<longrightarrow> st_id ` set (log_of t w) \<inter> st_id ` set (log_of t' w) = {})"

text \<open>Threads and the index of pairs mirror each other.\<close>

definition threads_ok :: "dm_env \<Rightarrow> 'w dm_world_scheme \<Rightarrow> bool" where
  "threads_ok E w \<longleftrightarrow>
     (\<forall>i t. jm_get (dm_threads w) i = Some t \<longrightarrow>
        th_id t = i \<and> i \<in> used_ids E w \<and> CHR '':'' \<notin> set (th_userLo t) \<and> CHR '':'' \<notin> set (th_userHi t) \<and>
        orderPair (th_userLo t) (th_userHi t) = (th_userLo t, th_userHi t) \<and>
        th_createdAt t \<le> SYNTHETIC_EPOCH_MS + dm_tick w \<and>
        jm_get (dm_byPair w) (pair_key (th_userLo t) (th_userHi t)) = Some i) \<and>
     (\<forall>k i. jm_get (dm_byPair w) k = Some i \<longrightarrow>
        (\<exists>t. jm_get (dm_threads w) i = Some t \<and> k = pair_key (th_userLo t) (th_userHi t)))"

definition reactions_ok :: "(string, string list) js_map \<Rightarrow> bool" where
  "reactions_ok r \<longleftrightarrow>
     (\<forall>ks \<in> ran (jm_get r). distinct ks \<and> (\<forall>k \<in> set ks. \<exists>u e. CHR '':'' \<notin> set u \<and> k = reaction_key u e))"

definition dm_inv :: "dm_env \<Rightarrow> 'w dm_world_scheme \<Rightarrow> bool" where
  "dm_inv E w \<longleftrightarrow> logs_ok E w \<and> threads_ok E w \<and> reactions_ok (dm_reactions w)"

lemma log_ok_mono:
  assumes "log_ok E w l" "dm_tick w \<le> dm_tick w'" "dm_entropy w \<le> dm_entropy w'"
  shows "log_ok E w' l"
  using assms unfolding log_ok_def by fastforce

lemma log_ok_append:
  assumes "log_ok E w l" "inj (uuid_of E)"
    and "st_id m = uuid_of E (dm_entropy w)" "dm_entropy w' = dm_entropy w + 1"
    and "cm_createdAt (st_dto m) = SYNTHETIC_EPOCH_MS + dm_tick w'" "dm_tick w' = dm_tick w + 1"
    and "cm_from (st_dto m) \<noteq> None" "\<not> st_deleted m"
  shows "log_ok E w' (l @ [m])"
proof -
  have "log_ok E w' l" using assms(1,4,6) by (intro log_ok_mono [OF assms(1)]) auto
  moreover have "uuid_of E (dm_entropy w) \<notin> used_ids E w"
    using assms(2) by (auto dest: injD)
  moreover have "\<forall>x \<in> set l. cm_createdAt (st_dto x) < cm_createdAt (st_dto m)"
    using assms(1,5,6) unfolding log_ok_def by fastforce
  ultimately show ?thesis
    using assms(1,3,4,5,7,8) unfolding log_ok_def by (auto simp: sorted_wrt_append)
qed

lemma log_ok_touch:
  assumes "log_ok E w (ys @ s # zs)" "touched opr s s'"
  shows "log_ok E w (ys @ s' # zs)"
  using assms unfolding log_ok_def touched_def by auto

lemma logs_ok_step:
  assumes "log_step E opr w w'" "inj (uuid_of E)" "logs_ok E w"
  shows "logs_ok E w'"
  using assms(1)
proof cases
  case log_same
  with assms(3) show ?thesis by (auto simp: logs_ok_def intro: log_ok_mono)
next
  case (log_append t0 m)
  have "st_id m \<notin> used_ids E w" using log_append(2) assms(2) by (auto dest: injD)
  then have fresh: "st_id m \<notin> st_id ` set (log_of t w)" for t
    using assms(3) by (auto simp: logs_ok_def log_ok_def)
  have "log_ok E w' (log_of t w')" for t
    using log_append assms(2,3) by (auto simp: logs_ok_def intro: log_ok_append log_ok_mono)
  moreover have "st_id ` set (log_of t w') \<inter> st_id ` set (log_of t' w') = {}" if "t \<noteq> t'" for t t'
    using that fresh assms(3) by (auto simp: log_append(1) logs_ok_def)
  ultimately show ?thesis by (simp add: logs_ok_def)
next
  case (log_touch t0 ys s zs s')
  have ids: "st_id ` set (log_of t w') = st_id ` set (log_of t w)" for t
    using log_touch(1,2) by (auto simp: log_touch(3) touched_def)
  have "log_ok E w (log_of t w')" for t
    using assms(3) log_touch(1,2) by (auto simp: log_touch(3) logs_ok_def intro: log_ok_touch) (metis log_ok_touch)
  then have "log_ok E w' (log_of t w')" for t
    using log_touch(4,5) by (blast intro: log_ok_mono)
  with ids assms(3) show ?thesis by (simp add: logs_ok_def)
qed

lemma logs_ok_run:
  assumes "inj (uuid_of E)" "logs_ok E w"
  shows "logs_ok E (dm_run E ops w)"
  using assms(2) by (induction ops arbitrary: w) (auto intro: logs_ok_step [OF log_step_exec assms(1)])

subsection \<open>Threads\<close>

lemma orderPair_sym: "orderPair a b = orderPair b a"
  by (auto simp: orderPair_def)

lemma orderPair_set: "orderPair a b = (lo, hi) \<Longrightarrow> {lo, hi} = {a, b} \<and> orderPair lo hi = (lo, hi)"
  by (auto simp: orderPair_def split: if_splits)

lemma colon_free_split:
  assumes "lo @ c # hi = lo' @ c # hi'" "c \<notin> set lo" "c \<notin> set lo'"
  shows "lo = lo' \<and> hi = hi'"
  using assms
proof (induction lo arbitrary: lo')
  case Nil
  then show ?case by (cases lo') auto
next
  case (Cons x lo)
  then show ?case by (cases lo') auto
qed

lemma pair_key_inj:
  "pair_key lo hi = pair_key lo' hi' \<Longrightarrow> CHR '':'' \<notin> set lo \<Longrightarrow> CHR '':'' \<notin> set lo' \<Longrightarrow> lo = lo' \<and> hi = hi'"
  by (rule colon_free_split) (simp_all add: pair_key_def)

lemma threads_ok_frame:
  assumes "threads_ok E w" "dm_threads w' = dm_threads w" "dm_byPair w' = dm_byPair w"
    "dm_tick w \<le> dm_tick w'" "dm_entropy w \<le> dm_entropy w'"
  shows "threads_ok E w'"
  using assms unfolding threads_ok_def by fastforce

text \<open>The thread a pair has is the thread of that pair.\<close>

lemma thread_of_pair:
  assumes "threads_ok E w" "orderPair a b = (lo, hi)" "CHR '':'' \<notin> set a" "CHR '':'' \<notin> set b"
    and "jm_get (dm_byPair w) (pair_key lo hi) = Some i"
  obtains t where "jm_get (dm_threads w) i = Some t" "th_id t = i" "th_userLo t = lo" "th_userHi t = hi"
proof -
  from assms(1,5) obtain t where t: "jm_get (dm_threads w) i = Some t" "pair_key lo hi = pair_key (th_userLo t) (th_userHi t)"
    unfolding threads_ok_def by blast
  then have "th_id t = i" "CHR '':'' \<notin> set (th_userLo t)"
    using assms(1) unfolding threads_ok_def by blast+
  moreover from orderPair_set [OF assms(2)] assms(3,4) have "CHR '':'' \<notin> set lo"
    by (auto simp: doubleton_eq_iff)
  ultimately show ?thesis using that t pair_key_inj [of lo hi "th_userLo t" "th_userHi t"] by metis
qed

lemma threads_ok_insert:
  assumes inv: "threads_ok E w" and uuid: "inj (uuid_of E)"
    and pr: "orderPair a b = (lo, hi)" "CHR '':'' \<notin> set a" "CHR '':'' \<notin> set b"
    and new: "jm_get (dm_byPair w) (pair_key lo hi) = None"
    and w': "dm_entropy w' = dm_entropy w + 1" "dm_tick w' = dm_tick w + 1"
      "dm_threads w' = jm_set (uuid_of E (dm_entropy w)) t (dm_threads w)"
      "dm_byPair w' = jm_set (pair_key lo hi) (uuid_of E (dm_entropy w)) (dm_byPair w)"
    and t: "t = \<lparr>th_id = uuid_of E (dm_entropy w), th_userLo = lo, th_userHi = hi,
                  th_createdAt = SYNTHETIC_EPOCH_MS + (dm_tick w + 1)\<rparr>"
  shows "threads_ok E w'"
proof -
  let ?i = "uuid_of E (dm_entropy w)"
  have fresh: "?i \<notin> used_ids E w" using uuid by (auto dest: injD)
  have lohi: "CHR '':'' \<notin> set lo" "CHR '':'' \<notin> set hi" "orderPair lo hi = (lo, hi)"
    using orderPair_set [OF pr(1)] pr(2,3) by (auto simp: doubleton_eq_iff)
  have old: "jm_get (dm_threads w) ?i = None"
    using inv fresh unfolding threads_ok_def by (metis not_None_eq)
  have "th_id s = i \<and> i \<in> used_ids E w' \<and> CHR '':'' \<notin> set (th_userLo s) \<and> CHR '':'' \<notin> set (th_userHi s) \<and>
      orderPair (th_userLo s) (th_userHi s) = (th_userLo s, th_userHi s) \<and>
      th_createdAt s \<le> SYNTHETIC_EPOCH_MS + dm_tick w' \<and>
      jm_get (dm_byPair w') (pair_key (th_userLo s) (th_userHi s)) = Some i"
    if s: "jm_get (dm_threads w') i = Some s" for i s
  proof (cases "i = ?i")
    case True
    with s have "s = t" by (simp add: w')
    with True lohi show ?thesis by (auto simp: w' t)
  next
    case False
    with s have "jm_get (dm_threads w) i = Some s" by (simp add: w')
    with inv have "th_id s = i \<and> i \<in> used_ids E w \<and> CHR '':'' \<notin> set (th_userLo s) \<and> CHR '':'' \<notin> set (th_userHi s) \<and>
      orderPair (th_userLo s) (th_userHi s) = (th_userLo s, th_userHi s) \<and>
      th_createdAt s \<le> SYNTHETIC_EPOCH_MS + dm_tick w \<and>
      jm_get (dm_byPair w) (pair_key (th_userLo s) (th_userHi s)) = Some i"
      unfolding threads_ok_def by blast
    with new show ?thesis by (auto simp: w')
  qed
  moreover have "\<exists>s. jm_get (dm_threads w') i = Some s \<and> k = pair_key (th_userLo s) (th_userHi s)"
    if k: "jm_get (dm_byPair w') k = Some i" for k i
  proof (cases "k = pair_key lo hi")
    case True
    with k show ?thesis by (simp add: w' t)
  next
    case False
    with k have "jm_get (dm_byPair w) k = Some i" by (simp add: w')
    with inv obtain s where "jm_get (dm_threads w) i = Some s" "k = pair_key (th_userLo s) (th_userHi s)"
      unfolding threads_ok_def by blast
    with old show ?thesis by (auto simp: w')
  qed
  ultimately show ?thesis unfolding threads_ok_def by blast
qed

lemma threads_ok_open:
  assumes "threads_ok E w" "inj (uuid_of E)" "CHR '':'' \<notin> set a" "CHR '':'' \<notin> set b"
  shows "threads_ok E (snd (openOrCreateThread E a b w))"
proof -
  obtain lo hi where pr: "orderPair a b = (lo, hi)" by (rule prod.exhaust)
  show ?thesis
  proof (cases "jm_get (dm_byPair w) (pair_key lo hi)")
    case None
    then have run: "snd (openOrCreateThread E a b w) =
        w\<lparr>dm_entropy := dm_entropy w + 1, dm_tick := dm_tick w + 1,
          dm_threads := jm_set (uuid_of E (dm_entropy w)) \<lparr>th_id = uuid_of E (dm_entropy w), th_userLo = lo, th_userHi = hi,
              th_createdAt = SYNTHETIC_EPOCH_MS + (dm_tick w + 1)\<rparr> (dm_threads w),
          dm_byPair := jm_set (pair_key lo hi) (uuid_of E (dm_entropy w)) (dm_byPair w)\<rparr>"
      by (simp add: openOrCreateThread_run [OF pr] Let_def)
    show ?thesis
      by (rule threads_ok_insert [OF assms(1,2) pr assms(3,4) None]) (simp_all add: run)
  next
    case (Some i)
    with assms pr obtain t where "jm_get (dm_threads w) i = Some t" by (blast elim: thread_of_pair)
    with Some assms(1) show ?thesis by (simp add: openOrCreateThread_run [OF pr])
  qed
qed

lemma threads_frame_exec:
  assumes "\<And>a b. opr \<noteq> OpenThread a b"
  shows "dm_threads (dm_exec E opr w) = dm_threads w \<and> dm_byPair (dm_exec E opr w) = dm_byPair w"
  using assms
proof (cases opr)
  case (Persist i)
  with reply_target_check_run [of i w] show ?thesis by (auto simp: persist_run persist_refused)
qed (auto simp: editMessage_def softDelete_def setPinned_def toggleReaction_def markRead_def dm_registerUser_def
    block_def unblock_def setHidden_def prog_simps nextDate_def Let_def tick_def split: option.split)

lemma log_step_mono: "log_step E opr w w' \<Longrightarrow> dm_tick w \<le> dm_tick w' \<and> dm_entropy w \<le> dm_entropy w'"
  by (erule log_step.cases) auto

lemma threads_ok_exec:
  assumes "threads_ok E w" "inj (uuid_of E)" "op_ids_ok opr"
  shows "threads_ok E (dm_exec E opr w)"
proof (cases "\<exists>a b. opr = OpenThread a b")
  case True
  with assms show ?thesis by (auto intro: threads_ok_open)
next
  case False
  with assms(1) log_step_mono [OF log_step_exec [of E opr w]] threads_frame_exec [of opr E w] show ?thesis
    by (intro threads_ok_frame [OF assms(1)]) auto
qed

lemma reactions_ok_set:
  assumes "reactions_ok r" "distinct ks" "\<forall>k \<in> set ks. \<exists>u e. CHR '':'' \<notin> set u \<and> k = reaction_key u e"
  shows "reactions_ok (jm_set m ks r)"
proof -
  have "ran (jm_get (jm_set m ks r)) \<subseteq> insert ks (ran (jm_get r))"
    by (auto simp: ran_def split: if_splits)
  with assms show ?thesis unfolding reactions_ok_def by blast
qed

text \<open>The reaction keys of a message.\<close>

definition keys_of :: "string \<Rightarrow> 'w dm_world_scheme \<Rightarrow> string list" where
  "keys_of m w = (case jm_get (dm_reactions w) m of None \<Rightarrow> [] | Some s \<Rightarrow> s)"

lemma reactions_okD:
  assumes "reactions_ok (dm_reactions w)"
  shows "distinct (keys_of m w) \<and> (\<forall>k \<in> set (keys_of m w). \<exists>u e. CHR '':'' \<notin> set u \<and> k = reaction_key u e)"
proof (cases "jm_get (dm_reactions w) m")
  case None
  then show ?thesis by (simp add: keys_of_def)
next
  case (Some ks)
  then have "ks \<in> ran (jm_get (dm_reactions w))" by (rule ranI)
  with assms have "distinct ks \<and> (\<forall>k \<in> set ks. \<exists>u e. CHR '':'' \<notin> set u \<and> k = reaction_key u e)"
    unfolding reactions_ok_def by (rule bspec)
  then show ?thesis unfolding keys_of_def Some by simp
qed

lemma toggleReaction_run:
  "toggleReaction m u e w =
     (if \<not> live_message_exists m w then (Inr False, w)
      else (Inr (reaction_key u e \<notin> set (keys_of m w)),
            w\<lparr>dm_reactions := jm_set m (if reaction_key u e \<notin> set (keys_of m w) then keys_of m w @ [reaction_key u e]
                                         else remove1 (reaction_key u e) (keys_of m w)) (dm_reactions w)\<rparr>))"
  unfolding toggleReaction_def keys_of_def Let_def by (rule refl)

lemma reactions_ok_toggle:
  assumes ok: "reactions_ok (dm_reactions w)" and u: "CHR '':'' \<notin> set u"
  shows "reactions_ok (dm_reactions (snd (toggleReaction m u e w)))"
proof -
  define ks where "ks = (if reaction_key u e \<notin> set (keys_of m w) then keys_of m w @ [reaction_key u e]
    else remove1 (reaction_key u e) (keys_of m w))"
  note D = reactions_okD [OF ok, of m]
  have "distinct ks" using D [THEN conjunct1] by (simp add: ks_def)
  moreover have "set ks \<subseteq> insert (reaction_key u e) (set (keys_of m w))"
    using set_remove1_subset [of "reaction_key u e" "keys_of m w"] by (auto simp: ks_def)
  then have "\<forall>k \<in> set ks. \<exists>u e. CHR '':'' \<notin> set u \<and> k = reaction_key u e"
    using D [THEN conjunct2] u by blast
  ultimately have "reactions_ok (jm_set m ks (dm_reactions w))" by (rule reactions_ok_set [OF ok])
  with ok show ?thesis unfolding toggleReaction_run ks_def [symmetric] by simp
qed

lemma reactions_ok_exec:
  assumes "reactions_ok (dm_reactions w)" "op_ids_ok opr"
  shows "reactions_ok (dm_reactions (dm_exec E opr w))"
proof (cases "\<exists>m u e. opr = ToggleReaction m u e")
  case True
  with assms show ?thesis by (auto intro: reactions_ok_toggle)
next
  case False
  have "dm_reactions (dm_exec E opr w) = dm_reactions w"
    using False
  proof (cases opr)
    case (OpenThread a b)
    obtain lo hi where "orderPair a b = (lo, hi)" by (rule prod.exhaust)
    with OpenThread show ?thesis by (auto simp: openOrCreateThread_run Let_def split: option.split)
  next
    case (Persist i)
    with reply_target_check_run [of i w] show ?thesis by (auto simp: persist_run persist_refused)
  qed (auto simp: editMessage_def softDelete_def setPinned_def markRead_def dm_registerUser_def
      block_def unblock_def setHidden_def prog_simps nextDate_def Let_def tick_def split: option.split)
  with assms show ?thesis by simp
qed

lemma dm_inv_exec:
  assumes "dm_inv E w" "inj (uuid_of E)" "op_ids_ok opr"
  shows "dm_inv E (dm_exec E opr w)"
proof -
  have "logs_ok E (dm_exec E opr w)"
    using assms(1) by (intro logs_ok_step [OF log_step_exec assms(2)]) (simp add: dm_inv_def)
  moreover have "threads_ok E (dm_exec E opr w)"
    using assms by (intro threads_ok_exec) (simp_all add: dm_inv_def)
  moreover have "reactions_ok (dm_reactions (dm_exec E opr w))"
    using assms(1,3) by (intro reactions_ok_exec) (simp_all add: dm_inv_def)
  ultimately show ?thesis by (simp add: dm_inv_def)
qed

lemma dm_inv_run:
  assumes "dm_inv E w" "inj (uuid_of E)" "\<forall>x \<in> set ops. op_ids_ok x"
  shows "dm_inv E (dm_run E ops w)"
  using assms(1,3) by (induction ops arbitrary: w) (auto intro: dm_inv_exec [OF _ assms(2)])

lemma dm_inv_empty: "dm_inv E dm_empty"
  by (simp add: dm_inv_def logs_ok_def log_ok_def threads_ok_def reactions_ok_def dm_empty_def log_of_def)

lemma dm_run_append: "dm_run E (xs @ ys) w = dm_run E ys (dm_run E xs w)"
  by (simp add: dm_run_def)

lemma logs_ok_reached: "inj (uuid_of E) \<Longrightarrow> logs_ok E (dm_run E ops dm_empty)"
  using dm_inv_empty [of E] by (auto simp: dm_inv_def intro: logs_ok_run)

end
