(* ===== verification/Dm_Runs.thy ===== *)
theory Dm_Runs
  imports Dm_Laws
begin

section \<open>Properties of direct messages\<close>

text \<open>
  The properties of \<open>services/dm-repository.memory.ts\<close> and \<open>services/dm-service.ts\<close>, over every run of
  operations from the empty store: threads, the order of messages, authorship and deletion, paging, the
  window around a message, reactions, and who may open a conversation.
\<close>

definition wit_env :: dm_env where
  "wit_env = \<lparr>uuid_of = string_of_nat, avatarGradient = (\<lambda>_. (''a'', ''b'')), relativeAgo = (\<lambda>_ _. ''now''),
     DELETED_USER_LABEL = ''Deleted user''\<rparr>"

lemma wit_env_inj: "inj (uuid_of wit_env)"
  by (rule inj_on_inverseI [where g = digits_val]) (simp add: wit_env_def)

subsection \<open>Threads\<close>

lemma open_getThread:
  assumes "threads_ok E w" "CHR '':'' \<notin> set a" "CHR '':'' \<notin> set b" "\<forall>n. uuid_of E n \<noteq> []" "inj (uuid_of E)"
  obtains t where "fst (openOrCreateThread E a b w) = Inr t" "{th_userLo t, th_userHi t} = {a, b}"
    "openOrCreateThread E a b (snd (openOrCreateThread E a b w)) = (Inr t, snd (openOrCreateThread E a b w))"
    "getThreadForPair a b (snd (openOrCreateThread E a b w)) = (Inr (Some t), snd (openOrCreateThread E a b w))"
proof -
  obtain lo hi where pr: "orderPair a b = (lo, hi)" by (rule prod.exhaust)
  from orderPair_set [OF pr] have set: "{lo, hi} = {a, b}" by simp
  show ?thesis
  proof (cases "jm_get (dm_byPair w) (pair_key lo hi)")
    case None
    with set assms(4) show ?thesis
      by (intro that [of "\<lparr>th_id = uuid_of E (dm_entropy w), th_userLo = lo, th_userHi = hi,
                            th_createdAt = SYNTHETIC_EPOCH_MS + (dm_tick w + 1)\<rparr>"])
        (simp_all add: openOrCreateThread_run [OF pr] getThreadForPair_def pr Let_def prog_simps)
  next
    case (Some i)
    obtain t where t: "jm_get (dm_threads w) i = Some t" "th_id t = i" "th_userLo t = lo" "th_userHi t = hi"
      using assms(1-3) pr Some by (blast elim: thread_of_pair)
    with assms(1) have "i \<in> used_ids E w" unfolding threads_ok_def by blast
    with assms(4) have "i \<noteq> []" by auto
    with Some t set show ?thesis
      by (intro that [of t]) (simp_all add: openOrCreateThread_run [OF pr] getThreadForPair_def pr prog_simps)
  qed
qed

lemma pair_thread_unique:
  assumes "threads_ok E w" "jm_get (dm_threads w) i = Some s" "jm_get (dm_threads w) j = Some t"
    and "{th_userLo s, th_userHi s} = {th_userLo t, th_userHi t}"
  shows "i = j"
proof -
  have key: "jm_get (dm_byPair w) (pair_key (th_userLo x) (th_userHi x)) = Some k \<and>
      orderPair (th_userLo x) (th_userHi x) = (th_userLo x, th_userHi x)"
    if "jm_get (dm_threads w) k = Some x" for k x
    using assms(1) that unfolding threads_ok_def by blast
  have "orderPair (th_userLo s) (th_userHi s) = orderPair (th_userLo t) (th_userHi t)"
    using assms(4) by (metis doubleton_eq_iff orderPair_sym)
  with key [OF assms(2)] key [OF assms(3)] show ?thesis by (metis option.inject prod.inject)
qed

lemma orderPair_ops_sym:
  "openOrCreateThread E a b = openOrCreateThread E b a" "getThreadForPair a b = getThreadForPair b a"
  by (simp_all add: openOrCreateThread_def getThreadForPair_def orderPair_sym [of a b])

text \<open>
  C20: In every state the store can reach, opening a conversation between two users yields a thread of exactly
  these two; opening it again, from either side, yields the same thread and changes nothing; looking it up
  from either side finds it; and no second thread of the pair exists.
\<close>

theorem one_thread_per_pair:
  assumes "inj (uuid_of E)" "\<forall>n. uuid_of E n \<noteq> []" "\<forall>x \<in> set ops. op_ids_ok x"
    and "CHR '':'' \<notin> set a" "CHR '':'' \<notin> set b"
  shows "\<exists>t w'. openOrCreateThread E a b (dm_run E ops dm_empty) = (Inr t, w') \<and>
    {th_userLo t, th_userHi t} = {a, b} \<and>
    openOrCreateThread E b a w' = (Inr t, w') \<and>
    getThreadForPair a b w' = (Inr (Some t), w') \<and> getThreadForPair b a w' = (Inr (Some t), w') \<and>
    (\<forall>i s j s'. jm_get (dm_threads w') i = Some s \<and> jm_get (dm_threads w') j = Some s' \<and>
       {th_userLo s, th_userHi s} = {th_userLo s', th_userHi s'} \<longrightarrow> i = j)"
proof -
  let ?w = "dm_run E ops dm_empty"
  have inv: "threads_ok E ?w" using dm_inv_run [OF dm_inv_empty assms(1,3)] by (simp add: dm_inv_def)
  obtain t where t: "fst (openOrCreateThread E a b ?w) = Inr t" "{th_userLo t, th_userHi t} = {a, b}"
      "openOrCreateThread E a b (snd (openOrCreateThread E a b ?w)) = (Inr t, snd (openOrCreateThread E a b ?w))"
      "getThreadForPair a b (snd (openOrCreateThread E a b ?w)) = (Inr (Some t), snd (openOrCreateThread E a b ?w))"
    by (rule open_getThread [OF inv assms(4,5,2,1)])
  have "threads_ok E (snd (openOrCreateThread E a b ?w))"
    by (rule threads_ok_open [OF inv assms(1,4,5)])
  then have "\<forall>i s j s'. jm_get (dm_threads (snd (openOrCreateThread E a b ?w))) i = Some s \<and>
      jm_get (dm_threads (snd (openOrCreateThread E a b ?w))) j = Some s' \<and>
      {th_userLo s, th_userHi s} = {th_userLo s', th_userHi s'} \<longrightarrow> i = j"
    by (blast intro: pair_thread_unique)
  then show ?thesis
    by (intro exI [of _ t] exI [of _ "snd (openOrCreateThread E a b ?w)"] conjI)
      (simp_all only: prod_eq_iff t fst_conv snd_conv orderPair_ops_sym(1) [of E b a] orderPair_ops_sym(2) [of b a] simp_thms)
qed

theorem one_thread_per_pair_witness:
  "\<exists>t w'. openOrCreateThread wit_env ''bob'' ''amy'' (dm_run wit_env [OpenThread ''amy'' ''bob''] dm_empty) = (Inr t, w') \<and>
    {th_userLo t, th_userHi t} = {''bob'', ''amy''} \<and> openOrCreateThread wit_env ''amy'' ''bob'' w' = (Inr t, w')"
  using one_thread_per_pair [of wit_env "[OpenThread ''amy'' ''bob'']" "''bob''" "''amy''"] wit_env_inj
  by (fastforce simp: wit_env_def)

text \<open>
  In every state the store can reach, no two messages share an id, in one thread or across threads, and
  each thread's log is in strictly increasing order of its dates, none of them ahead of the store's own clock.
\<close>

theorem messages_ordered_and_unique:
  assumes "inj (uuid_of E)"
  shows "distinct (map st_id (log_of t (dm_run E ops dm_empty))) \<and>
    sorted_wrt (<) (map (\<lambda>m. cm_createdAt (st_dto m)) (log_of t (dm_run E ops dm_empty))) \<and>
    (\<forall>m \<in> set (log_of t (dm_run E ops dm_empty)).
       cm_createdAt (st_dto m) \<le> SYNTHETIC_EPOCH_MS + dm_tick (dm_run E ops dm_empty) \<and> cm_from (st_dto m) \<noteq> None) \<and>
    (t \<noteq> t' \<longrightarrow> st_id ` set (log_of t (dm_run E ops dm_empty)) \<inter> st_id ` set (log_of t' (dm_run E ops dm_empty)) = {})"
  using logs_ok_reached [OF assms, of ops] by (simp add: logs_ok_def log_ok_def)

definition wit_post :: "string \<Rightarrow> string \<Rightarrow> string \<Rightarrow> dm_op" where
  "wit_post t u b = Persist \<lparr>pi_threadId = t, pi_senderId = u, pi_body = b, pi_kind = None, pi_clientId = None, pi_replyToId = None\<rparr>"

theorem messages_ordered_and_unique_witness:
  "distinct (map st_id (log_of ''t'' (dm_run wit_env [wit_post ''t'' ''amy'' ''hi'', wit_post ''u'' ''amy'' ''yo'',
     wit_post ''t'' ''bob'' ''hey''] dm_empty)))"
  using messages_ordered_and_unique [OF wit_env_inj] by blast

subsection \<open>Authorship and deletion\<close>

lemma step_keeps_message:
  assumes "log_step E opr w w'" "m \<in> set (log_of t w)"
  obtains m' where "m' \<in> set (log_of t w')" "m' = m \<or> touched opr m m'"
  using assms(1)
proof cases
  case log_same
  with assms(2) show ?thesis by (intro that [of m]) simp_all
next
  case (log_append t0 n)
  with assms(2) have "m \<in> set (log_of t w')" by auto
  then show ?thesis by (rule that) simp
next
  case (log_touch t0 ys s zs s')
  show ?thesis
  proof (cases "t = t0")
    case True
    with assms(2) log_touch(1) consider "m \<in> set ys \<union> set zs" | "m = s" by auto
    then show ?thesis using that True log_touch(2) by cases (auto simp: log_touch(3))
  next
    case False
    with assms(2) log_touch(3) show ?thesis by (intro that [of m]) simp_all
  qed
qed

lemma run_keeps_body:
  assumes "m \<in> set (log_of t w)" "\<forall>x \<in> set ops. op_author x \<noteq> st_sender m" "st_sender m \<noteq> None"
  shows "\<exists>m' \<in> set (log_of t (dm_run E ops w)). st_id m' = st_id m \<and> cm_from (st_dto m') = cm_from (st_dto m) \<and>
    cm_createdAt (st_dto m') = cm_createdAt (st_dto m) \<and>
    cm_body (st_dto m') = cm_body (st_dto m) \<and> st_deleted m' = st_deleted m"
  using assms
proof (induction ops arbitrary: w m)
  case (Cons x ops)
  obtain m' where m': "m' \<in> set (log_of t (dm_exec E x w))" "m' = m \<or> touched x m m'"
    by (rule step_keeps_message [OF log_step_exec Cons.prems(1)])
  have same: "st_id m' = st_id m" "cm_from (st_dto m') = cm_from (st_dto m)"
      "cm_createdAt (st_dto m') = cm_createdAt (st_dto m)"
      "cm_body (st_dto m') = cm_body (st_dto m)" "st_deleted m' = st_deleted m"
    using m'(2) Cons.prems(2) by (auto simp: touched_def)
  from Cons.IH [OF m'(1)] Cons.prems(2,3) same show ?case by auto
qed auto

text \<open>
  C7: Whatever operations run, on this message or others, a message keeps its text and stays undeleted unless
  one of them is an edit or a deletion on behalf of its own author.
\<close>

theorem only_the_author_changes_a_message:
  assumes "inj (uuid_of E)" "m \<in> set (log_of t (dm_run E ops dm_empty))" "\<forall>x \<in> set ops'. op_author x \<noteq> st_sender m"
  shows "\<exists>m' \<in> set (log_of t (dm_run E (ops @ ops') dm_empty)). st_id m' = st_id m \<and>
    cm_from (st_dto m') = cm_from (st_dto m) \<and> cm_createdAt (st_dto m') = cm_createdAt (st_dto m) \<and>
    cm_body (st_dto m') = cm_body (st_dto m) \<and> st_deleted m' = st_deleted m"
proof -
  from logs_ok_reached [OF assms(1), of ops] assms(2) have "st_sender m \<noteq> None"
    by (auto simp: logs_ok_def log_ok_def)
  from run_keeps_body [OF assms(2,3) this, of E] show ?thesis by (simp add: dm_run_append)
qed

lemma deleted_run:
  assumes "m \<in> set (log_of t w)" "st_deleted m"
  shows "m \<in> set (log_of t (dm_run E ops w))"
  using assms
proof (induction ops arbitrary: w)
  case (Cons x ops)
  obtain m' where "m' \<in> set (log_of t (dm_exec E x w))" "m' = m \<or> touched x m m'"
    by (rule step_keeps_message [OF log_step_exec Cons.prems(1)])
  with Cons.prems(2) have "m \<in> set (log_of t (dm_exec E x w))" by (auto simp: touched_def)
  with Cons show ?case by simp
qed simp

text \<open>Logs live under distinct thread ids, so a message id belongs to one stored message.\<close>

lemma jm_ok_log_exec: "jm_ok (dm_log w) \<Longrightarrow> jm_ok (dm_log (dm_exec E x w))"
proof (cases x)
  case (OpenThread a b)
  assume "jm_ok (dm_log w)"
  moreover obtain lo hi where "orderPair a b = (lo, hi)" by (rule prod.exhaust)
  ultimately show ?thesis using OpenThread by (auto simp: openOrCreateThread_run Let_def split: option.split)
next
  case (Persist i)
  assume "jm_ok (dm_log w)"
  with Persist reply_target_check_run [of i w] show ?thesis by (auto simp: persist_run persist_refused append_log_def)
qed (auto simp: editMessage_def softDelete_def setPinned_def toggleReaction_def markRead_def dm_registerUser_def
    block_def unblock_def setHidden_def prog_simps nextDate_def update_log_def Let_def tick_def split: option.split)

lemma jm_ok_log_run: "jm_ok (dm_log (dm_run E ops dm_empty))"
proof -
  have "jm_ok (dm_log w) \<Longrightarrow> jm_ok (dm_log (dm_run E ops w))" for w :: dm_world
    by (induction ops arbitrary: w) (auto intro: jm_ok_log_exec)
  then show ?thesis by (simp add: dm_empty_def)
qed

lemma unique_message:
  assumes "logs_ok E w" "m \<in> set (log_of t w)" "m' \<in> set (log_of t' w)" "st_id m' = st_id m"
  shows "m' = m"
proof (cases "t = t'")
  case True
  have "inj_on st_id (set (log_of t w))"
    using assms(1) by (simp add: logs_ok_def log_ok_def distinct_map)
  with True assms(2-4) show ?thesis by (auto dest: inj_onD)
next
  case False
  with assms(1) have "st_id ` set (log_of t w) \<inter> st_id ` set (log_of t' w) = {}" unfolding logs_ok_def by blast
  with assms(2-4) show ?thesis by (metis IntI empty_iff imageI)
qed

lemma withReply_fields [simp]:
  "cm_id (withReply t w d) = cm_id d" "cm_body (withReply t w d) = cm_body d"
  "cm_reactions (withReply t w d) = cm_reactions d" "cm_deletedAt (withReply t w d) = cm_deletedAt d"
  "cm_createdAt (withReply t w d) = cm_createdAt d" "cm_from (withReply t w d) = cm_from d"
  by (simp_all add: withReply_def split: option.split)

lemma live_view_fields [simp]:
  "cm_id (live_view t v w m) = st_id m" "cm_body (live_view t v w m) = cm_body (st_dto m)"
  "cm_createdAt (live_view t v w m) = cm_createdAt (st_dto m)" "cm_from (live_view t v w m) = cm_from (st_dto m)"
  by (simp_all add: live_view_def)

lemma toTombstoneDTO_fields [simp]:
  "cm_id (toTombstoneDTO d x) = cm_id d" "cm_body (toTombstoneDTO d x) = None"
  "cm_reactions (toTombstoneDTO d x) = []" "cm_deletedAt (toTombstoneDTO d x) = Some x"
  by (simp_all add: toTombstoneDTO_def)

lemma history_page_items:
  assumes "history t before limit v None w = (Inr page, w')"
  shows "\<exists>ms. set ms \<subseteq> set (log_of t w) \<and> (\<forall>m \<in> set ms. \<not> st_deleted m) \<and> hp_items page = map (live_view t v w) ms"
proof -
  let ?a = "case before of None \<Rightarrow> rev (log_of t w)
     | Some b \<Rightarrow> (case findIndex (\<lambda>m. st_id m = b) (rev (log_of t w)) of
          None \<Rightarrow> rev (log_of t w) | Some i \<Rightarrow> drop (i + 1) (rev (log_of t w)))"
  have "set ?a \<subseteq> set (log_of t w)"
    by (auto split: option.split dest: in_set_dropD)
  moreover have "hp_items page = map (live_view t v w) (take limit (filter (\<lambda>m. \<not> st_deleted m) ?a))"
    using assms by (auto simp: history_def prog_simps Let_def take_map)
  moreover have "set (take limit (filter (\<lambda>m. \<not> st_deleted m) ?a)) \<subseteq> {x \<in> set ?a. \<not> st_deleted x}"
    by (auto dest: in_set_takeD)
  ultimately show ?thesis by (intro exI [of _ "take limit (filter (\<lambda>m. \<not> st_deleted m) ?a)"]) auto
qed

definition around_item :: "string \<Rightarrow> string option \<Rightarrow> 'w dm_world_scheme \<Rightarrow> stored_dm_message \<Rightarrow> chat_message" where
  "around_item t v w m =
     (if st_deleted m
      then withReply t w (toTombstoneDTO (st_dto m) (case st_deletedAt m of Some d \<Rightarrow> d | None \<Rightarrow> st_insertedAtMs m))
      else live_view t v w m)"

lemma around_item_id [simp]: "cm_id (around_item t v w m) = st_id m"
  by (simp add: around_item_def)

lemma history_around_items:
  assumes "history t before limit v (Some a) w = (Inr page, w')"
  shows "\<exists>ms. set ms \<subseteq> set (log_of t w) \<and> hp_items page = map (around_item t v w) ms"
proof -
  let ?o = "rev (filter (\<lambda>m. \<not> st_deleted m \<or> st_id m = a) (log_of t w))"
  let ?i = "the (findIndex (\<lambda>m. st_id m = a) ?o)"
  let ?ms = "drop (?i - newerLimit (aroundLimits limit)) (take (?i + olderLimit (aroundLimits limit)) ?o)"
  have "hp_items page = map (around_item t v w) ?ms"
    using assms by (auto simp: history_def historyAround_def prog_simps Let_def around_item_def [abs_def] split: if_splits)
  moreover have "set ?ms \<subseteq> set (log_of t w)" by (auto dest!: in_set_dropD in_set_takeD)
  ultimately show ?thesis by blast
qed

lemma find_unique:
  assumes "logs_ok E w" "m \<in> set (log_of t w)"
  shows "find (\<lambda>x. st_id x = st_id m) (log_of t w) = Some m"
proof (cases "find (\<lambda>x. st_id x = st_id m) (log_of t w)")
  case None
  with assms(2) show ?thesis by (auto simp: find_None_iff)
next
  case (Some x)
  with find_SomeD [OF Some] unique_message [OF assms] show ?thesis by auto
qed

lemma no_live_copy:
  assumes "logs_ok E w" "jm_ok (dm_log w)" "m \<in> set (log_of t w)" "st_deleted m"
  shows "\<not> live_message_exists (st_id m) w"
proof
  assume "live_message_exists (st_id m) w"
  then obtain t' l m' where "(t', l) \<in> set (dm_log w)" "m' \<in> set l" "st_id m' = st_id m" "\<not> st_deleted m'"
    by (auto simp: live_message_exists_def list_ex_iff)
  moreover from this assms(2) have "log_of t' w = l" by (simp add: log_of_def)
  ultimately show False using unique_message [OF assms(1,3)] assms(4) by blast
qed

lemma deleted_is_inert:
  assumes "logs_ok E w" "jm_ok (dm_log w)" "m \<in> set (log_of t w)" "st_deleted m"
  shows "editMessage t (st_id m) u b w = (Inr None, w)" "softDelete t (st_id m) u w = (Inr None, w)"
    "setPinned t (st_id m) u p w = (Inr None, w)" "toggleReaction (st_id m) u e w = (Inr False, w)"
    "findMessage t (st_id m) v w = (Inr None, w)"
proof -
  have gone: "find P (log_of t w) = None" if "\<And>x. P x \<Longrightarrow> st_id x = st_id m \<and> \<not> st_deleted x" for P
    using that unique_message [OF assms(1,3)] assms(4) by (fastforce simp: find_None_iff)
  have "find (own_live (st_id m) u) (log_of t w) = None" by (rule gone) (simp add: own_live_def)
  then show "editMessage t (st_id m) u b w = (Inr None, w)" "softDelete t (st_id m) u w = (Inr None, w)"
    by (simp_all add: editMessage_def softDelete_def prog_simps)
  show "setPinned t (st_id m) u p w = (Inr None, w)"
    using find_unique [OF assms(1,3)] assms(4) by (simp add: setPinned_def prog_simps)
  show "toggleReaction (st_id m) u e w = (Inr False, w)"
    using no_live_copy [OF assms] by (simp add: toggleReaction_def)
  have "find (\<lambda>x. st_id x = st_id m \<and> \<not> st_deleted x) (log_of t w) = None" by (rule gone) simp
  then show "findMessage t (st_id m) v w = (Inr None, w)" by (simp add: findMessage_def prog_simps)
qed

lemma deleted_is_unread:
  assumes "logs_ok E w" "m \<in> set (log_of t w)" "st_deleted m"
  shows "history t before limit v None w = (Inr page, w') \<Longrightarrow> st_id m \<notin> cm_id ` set (hp_items page)"
    and "history t before limit v (Some a) w = (Inr page, w') \<Longrightarrow> x \<in> set (hp_items page) \<Longrightarrow> cm_id x = st_id m \<Longrightarrow>
      cm_body x = None \<and> cm_reactions x = [] \<and> cm_deletedAt x \<noteq> None"
    and "listPins t v w = (Inr pins, w') \<Longrightarrow> st_id m \<notin> cm_id ` set pins"
    and "replyToFor t (st_id m) w = Some r \<Longrightarrow> rt_excerpt r = [] \<and> rt_deleted r"
proof -
  note same = unique_message [OF assms(1,2)]
  show "st_id m \<notin> cm_id ` set (hp_items page)" if h: "history t before limit v None w = (Inr page, w')"
    using history_page_items [OF h] same assms(3) by fastforce
  show "cm_body x = None \<and> cm_reactions x = [] \<and> cm_deletedAt x \<noteq> None"
    if h: "history t before limit v (Some a) w = (Inr page, w')" and x: "x \<in> set (hp_items page)" "cm_id x = st_id m"
  proof -
    from history_around_items [OF h] x(1) obtain m' where "m' \<in> set (log_of t w)" "x = around_item t v w m'"
      by (metis imageE list.set_map subsetD)
    with same x(2) have "x = around_item t v w m" by fastforce
    with assms(3) show ?thesis by (simp add: around_item_def)
  qed
  show "st_id m \<notin> cm_id ` set pins" if p: "listPins t v w = (Inr pins, w')"
  proof
    assume "st_id m \<in> cm_id ` set pins"
    then obtain m' where "m' \<in> set (pinned_live (log_of t w))" "st_id m' = st_id m"
      using p by (auto simp: listPins_def prog_simps sort_desc_def dest!: in_set_takeD)
    with same assms(3) show False by (auto simp: pinned_live_def)
  qed
  show "rt_excerpt r = [] \<and> rt_deleted r" if "replyToFor t (st_id m) w = Some r"
    using that find_unique [OF assms(1,2)] assms(3) by (auto simp: replyToFor_def)
qed

text \<open>
  C5: Once a message is deleted it stays deleted whatever follows, and no read gives its text away: history
  pages and pins leave it out, a window around it shows a tombstone with neither text nor reactions, replies
  to it quote nothing, and editing, deleting, pinning, reacting or replying to it has no effect.
\<close>

theorem deleted_message_stays_hidden:
  assumes "inj (uuid_of E)" "m \<in> set (log_of t (dm_run E ops dm_empty))" "st_deleted m"
    and "w = dm_run E (ops @ ops') dm_empty"
  shows "(\<forall>before limit v page. history t before limit v None w = (Inr page, w) \<longrightarrow> st_id m \<notin> cm_id ` set (hp_items page)) \<and>
    (\<forall>before limit v a page. history t before limit v (Some a) w = (Inr page, w) \<longrightarrow>
       (\<forall>x \<in> set (hp_items page). cm_id x = st_id m \<longrightarrow> cm_body x = None \<and> cm_reactions x = [] \<and> cm_deletedAt x \<noteq> None)) \<and>
    (\<forall>v pins. listPins t v w = (Inr pins, w) \<longrightarrow> st_id m \<notin> cm_id ` set pins) \<and>
    (\<forall>r. replyToFor t (st_id m) w = Some r \<longrightarrow> rt_excerpt r = []) \<and>
    (\<forall>v. findMessage t (st_id m) v w = (Inr None, w)) \<and>
    (\<forall>u b. editMessage t (st_id m) u b w = (Inr None, w)) \<and> (\<forall>u. softDelete t (st_id m) u w = (Inr None, w)) \<and>
    (\<forall>u p. setPinned t (st_id m) u p w = (Inr None, w)) \<and> (\<forall>u e. toggleReaction (st_id m) u e w = (Inr False, w)) \<and>
    (\<forall>i. pi_threadId i = t \<and> pi_replyToId i = Some (st_id m) \<longrightarrow> persist E i w = (Inl replyDeletedTarget, w))"
proof -
  have ok: "logs_ok E w" "jm_ok (dm_log w)" "m \<in> set (log_of t w)"
    using deleted_run [OF assms(2,3), of E ops']
    by (simp_all add: assms(4) logs_ok_reached [OF assms(1)] jm_ok_log_run flip: dm_run_append)
  have reply: "persist E i w = (Inl replyDeletedTarget, w)" if "pi_threadId i = t" "pi_replyToId i = Some (st_id m)" for i
    using that find_unique [OF ok(1,3)] assms(3) by (intro persist_refused) (simp add: reply_target_check_def prog_simps)
  note unread = deleted_is_unread [OF ok(1,3) assms(3)]
  show ?thesis
    by (intro conjI allI impI ballI) (use unread in \<open>blast+\<close> | simp add: deleted_is_inert [OF ok assms(3)] reply)+
qed

end
