(* ===== verification/Dm_Views.thy ===== *)
theory Dm_Views
  imports Dm_Runs
begin

section \<open>What the reads of direct messages show\<close>

text \<open>
  Paging through a conversation, the window around a message, the summary of reactions as the view of an
  abstract relation, and the gate in front of opening a conversation.
\<close>

subsection \<open>Paging\<close>

text \<open>A client that follows \<open>nextCursor\<close> until it is null; \<^const>\<open>None\<close> when it has not ended within \<open>n\<close> pages.\<close>

fun read_pages :: "nat \<Rightarrow> string \<Rightarrow> nat \<Rightarrow> string option \<Rightarrow> string option \<Rightarrow> 'w dm_world_scheme \<Rightarrow> chat_message list option" where
  "read_pages 0 t limit v before w = None"
| "read_pages (Suc n) t limit v before w =
     (case fst (history t before limit v None w) of
        Inl _ \<Rightarrow> None
      | Inr page \<Rightarrow>
          (case hp_nextCursor page of
             None \<Rightarrow> Some (hp_items page)
           | Some c \<Rightarrow> map_option (\<lambda>rest. hp_items page @ rest) (read_pages n t limit v (Some c) w)))"

lemma findIndex_append:
  "\<forall>y \<in> set ys. \<not> P y \<Longrightarrow> P x \<Longrightarrow> findIndex P (ys @ x # zs) = Some (length ys)"
  by (induction ys) auto

lemma filter_cut:
  assumes "0 < k" "k \<le> length (filter P xs)"
  obtains ys x zs where "xs = ys @ x # zs" "filter P (ys @ [x]) = take k (filter P xs)" "P x"
    "filter P zs = drop k (filter P xs)"
  using assms
proof (induction xs arbitrary: k thesis)
  case (Cons a xs)
  show ?case
  proof (cases "P a \<and> k = 1")
    case True
    then show ?thesis by (intro Cons.prems(1) [of "[]" a xs]) auto
  next
    case False
    define j where "j = (if P a then k - 1 else k)"
    have "0 < j" "j \<le> length (filter P xs)" using False Cons.prems(2,3) by (auto simp: j_def)
    then obtain ys x zs where *: "xs = ys @ x # zs" "filter P (ys @ [x]) = take j (filter P xs)" "P x"
        "filter P zs = drop j (filter P xs)"
      using Cons.IH by metis
    have k: "take k (filter P (a # xs)) = filter P [a] @ take j (filter P xs)"
      "drop k (filter P (a # xs)) = drop j (filter P xs)"
      using Cons.prems(2) by (auto simp: j_def take_Cons' drop_Cons')
    show ?thesis
    proof (rule Cons.prems(1))
      show "a # xs = (a # ys) @ x # zs" using *(1) by simp
      show "filter P ((a # ys) @ [x]) = take k (filter P (a # xs))" unfolding k *(2) [symmetric] by simp
      show "filter P zs = drop k (filter P (a # xs))" unfolding k by (rule *(4))
    qed (rule *(3))
  qed
qed simp

lemma last_take_nth: "0 < k \<Longrightarrow> k \<le> length l \<Longrightarrow> last (take k l) = l ! (k - 1)"
  by (cases l) (simp_all add: last_conv_nth min_def)

text \<open>A cursor stands behind the message it names.\<close>

definition cursor_at :: "stored_dm_message list \<Rightarrow> string option \<Rightarrow> bool" where
  "cursor_at pre before \<longleftrightarrow>
     (case before of None \<Rightarrow> pre = [] | Some b \<Rightarrow> pre \<noteq> [] \<and> b = st_id (last pre))"

lemma history_after_cursor:
  assumes "rev (log_of t w) = pre @ suf" "distinct (map st_id (log_of t w))" "cursor_at pre before"
  shows "fst (history t before limit v None w) =
    (let live = filter (\<lambda>m. \<not> st_deleted m) suf
     in Inr \<lparr>hp_items = map (live_view t v w) (take limit live),
             hp_nextCursor = (if length live > limit \<and> limit > 0 then Some (st_id (live ! (limit - 1))) else None),
             hp_prevCursor = None\<rparr>)"
proof -
  have "(case before of None \<Rightarrow> rev (log_of t w)
     | Some b \<Rightarrow> (case findIndex (\<lambda>m. st_id m = b) (rev (log_of t w)) of
          None \<Rightarrow> rev (log_of t w) | Some i \<Rightarrow> drop (i + 1) (rev (log_of t w)))) = suf"
  proof (cases before)
    case None
    with assms show ?thesis by (simp add: cursor_at_def)
  next
    case (Some b)
    with assms(3) have pre: "pre = butlast pre @ [last pre]" "b = st_id (last pre)" by (simp_all add: cursor_at_def)
    then have log: "rev (log_of t w) = butlast pre @ last pre # suf" using assms(1) by (metis append.assoc append_Cons append_Nil)
    moreover have "distinct (map st_id (rev (log_of t w)))" using assms(2) by (simp flip: rev_map)
    ultimately have "st_id (last pre) \<notin> st_id ` set (butlast pre)" by simp
    then have "\<forall>y \<in> set (butlast pre). st_id y \<noteq> b" unfolding pre(2) by (metis imageI)
    then have "findIndex (\<lambda>m. st_id m = b) (butlast pre @ last pre # suf) = Some (length (butlast pre))"
      by (rule findIndex_append) (simp add: pre(2))
    with Some show ?thesis unfolding log by simp
  qed
  moreover have "cm_id (last (take limit (map (live_view t v w) l))) = st_id (l ! (limit - 1))"
    if "limit < length l" "0 < limit" for l
    using that by (subst last_take_nth) auto
  ultimately show ?thesis
    by (simp add: history_def prog_simps Let_def take_map)
qed

lemma read_pages_from:
  assumes "rev (log_of t w) = pre @ suf" "distinct (map st_id (log_of t w))" "cursor_at pre before" "0 < limit"
    and "length (filter (\<lambda>m. \<not> st_deleted m) suf) < n"
  shows "read_pages n t limit v before w = Some (map (live_view t v w) (filter (\<lambda>m. \<not> st_deleted m) suf))"
  using assms(1,3,5)
proof (induction n arbitrary: pre suf before)
  case (Suc n)
  let ?live = "filter (\<lambda>m. \<not> st_deleted m) suf"
  note h = history_after_cursor [OF Suc.prems(1) assms(2) Suc.prems(2)]
  show ?case
  proof (cases "limit < length ?live")
    case False
    then show ?thesis by (simp add: h Let_def)
  next
    case True
    then obtain ys x zs where cut: "suf = ys @ x # zs" "filter (\<lambda>m. \<not> st_deleted m) (ys @ [x]) = take limit ?live"
        "\<not> st_deleted x" "filter (\<lambda>m. \<not> st_deleted m) zs = drop limit ?live"
      using filter_cut [OF assms(4), of "\<lambda>m. \<not> st_deleted m" suf] by (metis less_imp_le_nat)
    have "?live ! (limit - 1) = last (take limit ?live)"
      using True assms(4) by (simp add: last_take_nth)
    also have "\<dots> = x" unfolding cut(2) [symmetric] using cut(3) by simp
    finally have x: "?live ! (limit - Suc 0) = x" by simp
    have "read_pages n t limit v (Some (st_id x)) w = Some (map (live_view t v w) (drop limit ?live))"
      unfolding cut(4) [symmetric]
    proof (rule Suc.IH [of "pre @ ys @ [x]"])
      show "rev (log_of t w) = (pre @ ys @ [x]) @ zs" using Suc.prems(1) cut(1) by simp
      show "cursor_at (pre @ ys @ [x]) (Some (st_id x))" by (simp add: cursor_at_def)
      show "length (filter (\<lambda>m. \<not> st_deleted m) zs) < n"
        unfolding cut(4) using Suc.prems(3) True assms(4) by simp
    qed
    with True assms(4) show ?thesis by (simp add: h Let_def x flip: map_append)
  qed
qed simp

text \<open>
  C21: In every state the store can reach, following the cursors of the history from its first page ends, and
  yields each live message of the thread exactly once, newest first, for every page size.
\<close>

theorem history_pages_complete:
  assumes "inj (uuid_of E)" "0 < limit" "w = dm_run E ops dm_empty"
  shows "read_pages (Suc (length (log_of t w))) t limit v None w =
    Some (map (live_view t v w) (rev (filter (\<lambda>m. \<not> st_deleted m) (log_of t w))))"
proof -
  have "distinct (map st_id (log_of t w))"
    using logs_ok_reached [OF assms(1), of ops] by (simp add: assms(3) logs_ok_def log_ok_def)
  moreover have "length (filter (\<lambda>m. \<not> st_deleted m) (rev (log_of t w))) < Suc (length (log_of t w))"
    using length_filter_le [of "\<lambda>m. \<not> st_deleted m" "rev (log_of t w)"] by (simp del: length_filter_le)
  ultimately show ?thesis
    using read_pages_from [of t w "[]" "rev (log_of t w)" None limit "Suc (length (log_of t w))" v] assms(2)
    by (simp add: cursor_at_def rev_filter)
qed

subsection \<open>The window around a message\<close>

lemma around_ends:
  "(if b \<and> map (around_item t v w) ms \<noteq> [] then Some (cm_id (last (map (around_item t v w) ms))) else None) =
     (if b \<and> ms \<noteq> [] then Some (st_id (last ms)) else None)"
  "(if b \<and> map (around_item t v w) ms \<noteq> [] then Some (cm_id (hd (map (around_item t v w) ms))) else None) =
     (if b \<and> ms \<noteq> [] then Some (st_id (hd ms)) else None)"
  by (simp_all add: last_map hd_map)

lemma merge_rows:
  "aw_rows (mergeAroundWindow (take (olderLimit L + 1) os) (take (newerLimit L + 1) ns) L) =
     rev (take (newerLimit L) ns) @ take (olderLimit L) os"
  by (auto simp: mergeAroundWindow_def Let_def min_def)

text \<open>
  The in-memory window around a message is the one the database repositories build: \<open>mergeAroundWindow\<close>
  of the target with the live messages older than it and of the live messages newer than it, each side
  fetched with one row more than its limit.
\<close>

theorem around_window_equiv:
  assumes "inj (uuid_of E)" "w = dm_run E ops dm_empty" "log_of t w = pre @ m # post"
    and "L = aroundLimits limit"
    and "win = mergeAroundWindow (take (olderLimit L + 1) (m # rev (filter (\<lambda>x. \<not> st_deleted x) pre)))
           (take (newerLimit L + 1) (filter (\<lambda>x. \<not> st_deleted x) post)) L"
  shows "history t before limit v (Some (st_id m)) w =
    (Inr \<lparr>hp_items = map (around_item t v w) (aw_rows win),
          hp_nextCursor = (if aw_hasOlder win \<and> aw_rows win \<noteq> [] then Some (st_id (last (aw_rows win))) else None),
          hp_prevCursor = (if aw_hasNewer win \<and> aw_rows win \<noteq> [] then Some (st_id (hd (aw_rows win))) else None)\<rparr>, w)"
proof -
  let ?O = "rev (filter (\<lambda>x. \<not> st_deleted x) pre)" and ?P = "filter (\<lambda>x. \<not> st_deleted x) post"
  have dist: "distinct (map st_id (log_of t w))"
    using logs_ok_reached [OF assms(1), of ops] by (simp add: assms(2) logs_ok_def log_ok_def)
  then have "st_id m \<notin> st_id ` (set pre \<union> set post)" by (auto simp: assms(3))
  then have other: "st_id x \<noteq> st_id m" if "x \<in> set pre \<union> set post" for x
    using that by (metis imageI)
  then have ordered: "rev (filter (\<lambda>x. \<not> st_deleted x \<or> st_id x = st_id m) (log_of t w)) = rev ?P @ m # ?O"
    by (simp add: assms(3) cong: filter_cong)
  have idx: "findIndex (\<lambda>x. st_id x = st_id m) (rev ?P @ m # ?O) = Some (length ?P)"
    using other by (subst findIndex_append) auto
  have rows: "aw_rows win = drop (length ?P - newerLimit L) (take (length ?P + olderLimit L) (rev ?P @ m # ?O))"
    unfolding assms(5) merge_rows by (simp add: rev_take)
  have more: "aw_hasOlder win \<longleftrightarrow> length ?P + olderLimit L < length (rev ?P @ m # ?O)"
    "aw_hasNewer win \<longleftrightarrow> 0 < length ?P - newerLimit L"
    by (auto simp: assms(5) mergeAroundWindow_def Let_def)
  have item: "(\<lambda>x. if st_deleted x then withReply t w (toTombstoneDTO (st_dto x)
        (case st_deletedAt x of None \<Rightarrow> st_insertedAtMs x | Some d \<Rightarrow> d)) else live_view t v w x) = around_item t v w"
    by (simp add: around_item_def fun_eq_iff)
  have "\<exists>x \<in> set (log_of t w). st_id x = st_id m" by (auto simp: assms(3))
  then show ?thesis
    unfolding more rows history_def option.case historyAround_def Let_def ordered idx option.sel item
      assms(4) [symmetric] around_ends ret_run
    by (simp only: simp_thms if_False)
qed

subsection \<open>Reactions\<close>

text \<open>
  The abstract reactions of a message are a relation of users and emojis: a toggle flips one pair, and a
  summary lists the emojis in order, each with the number of users and whether the viewer is one.
\<close>

definition reacted :: "string \<Rightarrow> 'w dm_world_scheme \<Rightarrow> (string \<times> string) set" where
  "reacted m w = {(u, e). CHR '':'' \<notin> set u \<and> reaction_key u e \<in> set (keys_of m w)}"

definition reaction_view :: "(string \<times> string) set \<Rightarrow> string option \<Rightarrow> reaction_summary list" where
  "reaction_view R v =
     map (\<lambda>e. \<lparr>rs_emoji = e, rs_count = card {u. (u, e) \<in> R}, rs_mine = (\<exists>u. v = Some u \<and> (u, e) \<in> R)\<rparr>)
       (sorted_list_of_set (snd ` R))"

lemma react_parts_key: "CHR '':'' \<notin> set u \<Longrightarrow> react_parts (reaction_key u e) = (u, e)"
  by (simp add: react_parts_def reaction_key_def indexOf_append)

lemma reaction_key_inj:
  "CHR '':'' \<notin> set u \<Longrightarrow> CHR '':'' \<notin> set u' \<Longrightarrow> reaction_key u e = reaction_key u' e' \<longleftrightarrow> u = u' \<and> e = e'"
  using colon_free_split [of u "CHR '':''" e u' e'] by (auto simp: reaction_key_def)

text \<open>The keys of a message, read back as pairs.\<close>

lemma sort_key_map_of:
  assumes "jm_ok m"
  shows "sort_key fst m = map (\<lambda>k. (k, the (jm_get m k))) (sorted_list_of_set (fst ` set m))"
proof -
  have "map fst (sort_key fst m) = sorted_list_of_set (fst ` set m)"
  proof (rule sorted_distinct_set_unique)
    show "distinct (map fst (sort_key fst m))" using assms by (simp add: distinct_map)
  qed (simp_all add: sorted_sort_key)
  moreover have "map (\<lambda>k. (k, the (jm_get m k))) (map fst (sort_key fst m)) = sort_key fst m"
    using assms by (auto simp: intro!: map_idI)
  ultimately show ?thesis by simp
qed

definition tally :: "string option \<Rightarrow> (string \<times> string) list \<Rightarrow> string \<Rightarrow> nat \<times> bool" where
  "tally v ps e = (length (filter (\<lambda>p. snd p = e) ps), \<exists>u. v = Some u \<and> (u, e) \<in> set ps)"

lemma count_reactions_get:
  "jm_get (count_reactions v ks c) e =
     (if e \<in> snd ` set (map react_parts ks) \<or> jm_get c e \<noteq> None
      then let (n, b) = (case jm_get c e of None \<Rightarrow> (0, False) | Some x \<Rightarrow> x); (n', b') = tally v (map react_parts ks) e
           in Some (n + n', b \<or> b')
      else None)"
proof (induction ks arbitrary: c)
  case Nil
  show ?case by (auto simp: tally_def split: option.split)
next
  case (Cons k ks)
  obtain u f where k: "react_parts k = (u, f)" by (rule prod.exhaust)
  show ?case
    by (cases "jm_get c e"; cases "f = e") (auto simp: Cons.IH k tally_def split: option.splits prod.splits)
qed

lemma count_reactions_ok: "jm_ok c \<Longrightarrow> jm_ok (count_reactions v ks c)"
  by (induction ks arbitrary: c) (auto simp: Let_def split: prod.split option.split)

lemma count_reactions_keys: "fst ` set (count_reactions v ks []) = snd ` set (map react_parts ks)"
proof -
  have "fst ` set m = {k. jm_get m k \<noteq> None}" for m :: "(string, nat \<times> bool) js_map"
    by (auto simp: map_of_eq_None_iff)
  then show ?thesis by (auto simp: count_reactions_get Let_def tally_def split: if_splits)
qed

lemma tally_card:
  assumes "distinct ps"
  shows "fst (tally v ps e) = card {u. (u, e) \<in> set ps}"
proof -
  have "length (filter (\<lambda>p. snd p = e) ps) = card {p \<in> set ps. snd p = e}"
    using assms distinct_card [of "filter (\<lambda>p. snd p = e) ps"] by simp
  also have "{p \<in> set ps. snd p = e} = (\<lambda>u. (u, e)) ` {u. (u, e) \<in> set ps}" by auto
  also have "card \<dots> = card {u. (u, e) \<in> set ps}" by (rule card_image) (simp add: inj_on_def)
  finally show ?thesis by (simp add: tally_def)
qed

lemma reacted_pairs:
  assumes "reactions_ok (dm_reactions w)"
  shows "reacted m w = set (map react_parts (keys_of m w))" "distinct (map react_parts (keys_of m w))"
proof -
  let ?ks = "keys_of m w"
  note D = reactions_okD [OF assms, of m]
  have parts: "\<exists>u e. CHR '':'' \<notin> set u \<and> k = reaction_key u e \<and> react_parts k = (u, e)" if "k \<in> set ?ks" for k
    using bspec [OF D [THEN conjunct2] that] react_parts_key by blast
  have "inj_on react_parts (set ?ks)"
    by (rule inj_onI) (metis parts prod.inject)
  with D show "distinct (map react_parts ?ks)" by (simp add: distinct_map)
  show "reacted m w = set (map react_parts ?ks)"
  proof (intro set_eqI iffI; clarify)
    fix u e assume "(u, e) \<in> reacted m w"
    then have "CHR '':'' \<notin> set u" "reaction_key u e \<in> set ?ks" by (simp_all add: reacted_def)
    then show "(u, e) \<in> set (map react_parts ?ks)"
      by (metis imageI list.set_map react_parts_key)
  next
    fix u e assume "(u, e) \<in> set (map react_parts ?ks)"
    then obtain k where "k \<in> set ?ks" "react_parts k = (u, e)" by auto
    with parts [of k] show "(u, e) \<in> reacted m w" by (auto simp: reacted_def)
  qed
qed

lemma reactionsFor_view:
  assumes "reactions_ok (dm_reactions w)"
  shows "reactionsFor m v w = reaction_view (reacted m w) v"
proof -
  let ?ps = "map react_parts (keys_of m w)"
  let ?c = "count_reactions v (keys_of m w) []"
  let ?row = "\<lambda>(e, n, b). \<lparr>rs_emoji = e, rs_count = n, rs_mine = b\<rparr>"
  note R = reacted_pairs [OF assms, of m]
  have "reactionsFor m v w = map ?row (sort_key fst ?c)"
    by (auto simp: reactionsFor_def keys_of_def split: option.split)
  also have "\<dots> = map ?row (map (\<lambda>e. (e, the (jm_get ?c e))) (sorted_list_of_set (snd ` set ?ps)))"
    by (simp only: sort_key_map_of [OF count_reactions_ok [of "[]"], simplified] count_reactions_keys)
  also have "\<dots> = map (\<lambda>e. ?row (e, tally v ?ps e)) (sorted_list_of_set (snd ` set ?ps))"
    by (auto simp: count_reactions_get Let_def split: prod.split intro!: map_cong)
  also have "\<dots> = reaction_view (reacted m w) v"
    unfolding reaction_view_def R(1)
    using tally_card [OF R(2)] by (simp add: tally_def case_prod_beta)
  finally show ?thesis .
qed

lemma reacted_toggle:
  assumes "reactions_ok (dm_reactions w)" "CHR '':'' \<notin> set u" "live_message_exists m w"
  shows "reacted m' (snd (toggleReaction m u e w)) =
    (if m' = m then (if (u, e) \<in> reacted m w then reacted m w - {(u, e)} else insert (u, e) (reacted m w))
     else reacted m' w)"
proof -
  have keys: "set (keys_of m' (snd (toggleReaction m u e w))) =
      (if m' = m then (if reaction_key u e \<in> set (keys_of m w) then set (keys_of m w) - {reaction_key u e}
                       else insert (reaction_key u e) (set (keys_of m w)))
       else set (keys_of m' w))"
    using assms(3) reactions_okD [OF assms(1), of m, THEN conjunct1]
    by (simp add: toggleReaction_run) (simp add: keys_of_def)
  show ?thesis
    using assms(2) reaction_key_inj [of _ u _ e] by (auto simp: reacted_def keys)
qed

lemma toggle_result:
  "CHR '':'' \<notin> set u \<Longrightarrow> live_message_exists m w \<Longrightarrow> fst (toggleReaction m u e w) = Inr ((u, e) \<notin> reacted m w)"
  by (simp add: toggleReaction_run reacted_def)

text \<open>
  C17: Reactions refine a relation of users and emojis.  On a live message a toggle flips the pair of the user
  and the emoji, in this message only, and answers whether the pair is there now; on any other message it
  answers false and changes nothing.  What every viewer is shown is the summary of the relation.
\<close>

theorem reactions_refine_relation:
  assumes "inj (uuid_of E)" "\<forall>x \<in> set ops. op_ids_ok x" "CHR '':'' \<notin> set u" "w = dm_run E ops dm_empty"
  shows "(if live_message_exists m w
          then fst (toggleReaction m u e w) = Inr ((u, e) \<notin> reacted m w) \<and>
            (\<forall>m'. reacted m' (snd (toggleReaction m u e w)) =
               (if m' = m then (if (u, e) \<in> reacted m w then reacted m w - {(u, e)} else insert (u, e) (reacted m w))
                else reacted m' w))
          else toggleReaction m u e w = (Inr False, w)) \<and>
    (\<forall>m' v. reactionsFor m' v w = reaction_view (reacted m' w) v)"
proof -
  have "reactions_ok (dm_reactions w)" using dm_inv_run [OF dm_inv_empty assms(1,2)] by (simp add: dm_inv_def assms(4))
  note ok = this
  show ?thesis
  proof (cases "live_message_exists m w")
    case True
    then show ?thesis
      by (simp only: if_True simp_thms toggle_result [OF assms(3)] reacted_toggle [OF ok assms(3)] reactionsFor_view [OF ok])
  next
    case False
    then show ?thesis by (simp add: toggleReaction_def reactionsFor_view [OF ok])
  qed
qed

subsection \<open>Opening a conversation\<close>

text \<open>
  What the service relies on: reads of users, blocks and threads that leave the world as it is, a thread
  that can be opened, and a history that can be read.  The mute flag and the unread badge may fail.
\<close>

locale dm_backend =
  fixes D :: "'w dm_service_deps" and users :: "string \<Rightarrow> dm_target_user option"
    and blocked :: "'w \<Rightarrow> string \<Rightarrow> string \<Rightarrow> bool" and thread_for :: "'w \<Rightarrow> string \<Rightarrow> string \<Rightarrow> dm_thread option"
  assumes load_user: "dd_loadUser D u w = (Inr (users u), w)"
    and is_blocked: "dd_isBlockedEitherWay D a b w = (Inr (blocked w a b), w)"
    and pair_thread: "dd_getThreadForPair D a b w = (Inr (thread_for w a b), w)"
    and opens: "\<exists>t w'. dd_openOrCreateThread D a b w = (Inr t, w')"
    and pages: "\<exists>page. dd_history D i None 1 None None w = (Inr page, w)"
begin

definition may_open :: "'w \<Rightarrow> string \<Rightarrow> string \<Rightarrow> bool" where
  "may_open w viewer target \<longleftrightarrow>
     viewer \<noteq> target \<and> \<not> blocked w viewer target \<and>
     (\<exists>u. users target = Some u \<and> (tu_allowDirectMessages u \<or> thread_for w viewer target \<noteq> None))"

lemma refused:
  assumes "\<not> may_open w viewer target"
  shows "openDm E D viewer target w = (Inl (Forbidden (Some DM_FORBIDDEN_MESSAGE)), w)"
  using assms
  by (auto simp: openDm_def may_open_def prog_simps Let_def load_user is_blocked pair_thread split: option.split)

lemma recovered: "\<exists>x w'. recover m (\<lambda>_. ret c) w = (Inr x, w')"
  by (auto simp: prog_simps split: sum.split)

lemma opened:
  assumes "may_open w viewer target"
  shows "\<exists>d w'. openDm E D viewer target w = (Inr d, w') \<and> mt_members d = 2 \<and>
    (\<forall>t. thread_for w viewer target = Some t \<longrightarrow> mt_id d = th_id t)"
proof -
  from assms obtain u where u: "users target = Some u" "tu_allowDirectMessages u \<or> thread_for w viewer target \<noteq> None"
    by (auto simp: may_open_def)
  obtain th w1 where th: "(case thread_for w viewer target of Some t \<Rightarrow> ret t
      | None \<Rightarrow> dd_openOrCreateThread D viewer target) w = (Inr th, w1)"
    and same: "\<forall>t. thread_for w viewer target = Some t \<longrightarrow> th = t"
    using opens [of viewer target w] by (cases "thread_for w viewer target") (auto simp: ret_run)
  obtain page where page: "dd_history D (th_id th) None 1 None None w1 = (Inr page, w1)" using pages by blast
  have "\<exists>mu w2. (case dd_isMutedFor D of Some f \<Rightarrow> recover (f viewer (th_id th)) (\<lambda>_. ret False)
      | None \<Rightarrow> ret False) w1 = (Inr mu, w2)"
    by (cases "dd_isMutedFor D") (auto simp: ret_run recovered)
  then obtain mu w2 where mu: "(case dd_isMutedFor D of Some f \<Rightarrow> recover (f viewer (th_id th)) (\<lambda>_. ret False)
      | None \<Rightarrow> ret False) w1 = (Inr mu, w2)" by blast
  obtain n w3 where n: "recover (dd_countUnread D (th_id th) viewer) (\<lambda>_. ret 0) w2 = (Inr n, w3)"
    using recovered [of "dd_countUnread D (th_id th) viewer" 0 w2] by blast
  have "viewer \<noteq> target" "\<not> blocked w viewer target" using assms by (auto simp: may_open_def)
  with u th page mu n same show ?thesis
    by (auto simp: openDm_def seq_run [of "dd_loadUser D target"] seq_run [of "dd_isBlockedEitherWay D viewer target"]
        seq_run [of "dd_getThreadForPair D viewer target"] load_user is_blocked pair_thread seq_def reads_def Let_def
        DM_MEMBER_COUNT_def)
qed

end

text \<open>The in-memory repositories provide it.\<close>

definition mem_blocked :: "'w dm_world_scheme \<Rightarrow> string \<Rightarrow> string \<Rightarrow> bool" where
  "mem_blocked w a b \<longleftrightarrow> b \<in> set (edges_of a w) \<or> a \<in> set (edges_of b w)"

definition mem_thread_for :: "'w dm_world_scheme \<Rightarrow> string \<Rightarrow> string \<Rightarrow> dm_thread option" where
  "mem_thread_for w a b = (case fst (getThreadForPair a b w) of Inl _ \<Rightarrow> None | Inr t \<Rightarrow> t)"

interpretation mem_dm: dm_backend "memory_dm_deps E (\<lambda>u. ret (users u)) muted" users mem_blocked mem_thread_for
  for E users muted
proof (unfold_locales, goal_cases)
  case (4 a b w)
  obtain lo hi where "orderPair a b = (lo, hi)" by (rule prod.exhaust)
  then show ?case by (auto simp: memory_dm_deps_def openOrCreateThread_run Let_def split: option.split)
qed (auto simp: memory_dm_deps_def prog_simps isBlockedEitherWay_def mem_blocked_def getThreadForPair_def
    mem_thread_for_def history_def Let_def)

text \<open>
  C18: A conversation opens exactly when the two users differ, the target exists, neither has blocked the other,
  and the target accepts messages or already has a thread with the viewer.  Every refusal is the same error
  and leaves the store as it was, so the answer does not tell which condition failed; an existing thread is
  the one that opens, whether or not the mute lookup fails.
\<close>

theorem openDm_gate:
  "let D = memory_dm_deps E (\<lambda>u. ret (users u)) muted;
       may = (viewer \<noteq> target \<and> \<not> mem_blocked w viewer target \<and>
              (case users target of None \<Rightarrow> False
               | Some u \<Rightarrow> tu_allowDirectMessages u \<or> mem_thread_for w viewer target \<noteq> None))
   in if may
      then \<exists>d w'. openDm E D viewer target w = (Inr d, w') \<and> mt_members d = 2 \<and>
             (case mem_thread_for w viewer target of None \<Rightarrow> True | Some t \<Rightarrow> mt_id d = th_id t)
      else openDm E D viewer target w = (Inl (Forbidden (Some DM_FORBIDDEN_MESSAGE)), w)"
  using mem_dm.refused [of users w viewer target E E muted] mem_dm.opened [of users w viewer target E E muted]
  unfolding mem_dm.may_open_def Let_def by (auto split: option.splits)

subsection \<open>Witnesses\<close>

definition wit_ops :: "dm_op list" where
  "wit_ops = [wit_post ''t'' ''amy'' ''hi'', wit_post ''t'' ''bob'' ''hey'', wit_post ''t'' ''amy'' ''bye'',
     SoftDelete ''t'' ''1'' ''bob'', ToggleReaction ''0'' ''bob'' ''ok'']"

abbreviation wit_world :: dm_world where
  "wit_world \<equiv> dm_run wit_env wit_ops dm_empty"

lemma wit_log:
  "map (\<lambda>m. (st_id m, st_sender m, cm_body (st_dto m), st_deleted m)) (log_of ''t'' wit_world) =
     [(''0'', Some ''amy'', Some ''hi'', False), (''1'', Some ''bob'', Some ''hey'', True),
      (''2'', Some ''amy'', Some ''bye'', False)]"
  by code_simp

lemma wit_msgs:
  obtains a b c where "log_of ''t'' wit_world = [a, b, c]" "st_id a = ''0''" "st_sender a = Some ''amy''"
    "cm_body (st_dto a) = Some ''hi''" "\<not> st_deleted a" "st_id b = ''1''" "st_deleted b" "st_id c = ''2''" "\<not> st_deleted c"
    "cm_body (st_dto c) = Some ''bye''"
  using wit_log by (auto simp: map_eq_Cons_conv)

lemma wit_ids_ok: "\<forall>x \<in> set wit_ops. op_ids_ok x"
  by (simp add: wit_ops_def wit_post_def)

theorem only_the_author_changes_a_message_witness:
  "\<exists>m \<in> set (log_of ''t'' (dm_run wit_env (wit_ops @ [Edit ''t'' ''0'' ''bob'' ''pwned'', SoftDelete ''t'' ''0'' ''bob'']) dm_empty)).
     st_id m = ''0'' \<and> cm_body (st_dto m) = Some ''hi'' \<and> \<not> st_deleted m"
proof -
  obtain a b c where m: "log_of ''t'' wit_world = [a, b, c]" "st_id a = ''0''" "st_sender a = Some ''amy''"
    "cm_body (st_dto a) = Some ''hi''" "\<not> st_deleted a"
    by (rule wit_msgs)
  from only_the_author_changes_a_message [OF wit_env_inj, of a "''t''" wit_ops
      "[Edit ''t'' ''0'' ''bob'' ''pwned'', SoftDelete ''t'' ''0'' ''bob'']"] m
  show ?thesis by auto
qed

theorem deleted_message_stays_hidden_witness:
  "editMessage ''t'' ''1'' ''bob'' ''again'' wit_world = (Inr None, wit_world) \<and>
   toggleReaction ''1'' ''amy'' ''ok'' wit_world = (Inr False, wit_world)"
proof -
  obtain a b c where m: "log_of ''t'' wit_world = [a, b, c]" "st_id b = ''1''" "st_deleted b"
    by (rule wit_msgs)
  then have mem: "b \<in> set (log_of ''t'' wit_world)" by simp
  have "wit_world = dm_run wit_env (wit_ops @ []) dm_empty" by simp
  from deleted_message_stays_hidden [OF wit_env_inj mem m(3) this, unfolded m(2)] show ?thesis by blast
qed

theorem history_pages_complete_witness:
  "map_option (map cm_body) (read_pages (Suc (length (log_of ''t'' wit_world))) ''t'' 1 None None wit_world) =
     Some [Some ''bye'', Some ''hi'']"
proof -
  obtain a b c where m: "log_of ''t'' wit_world = [a, b, c]" "cm_body (st_dto a) = Some ''hi''" "\<not> st_deleted a"
    "st_deleted b" "\<not> st_deleted c" "cm_body (st_dto c) = Some ''bye''"
    by (rule wit_msgs)
  have "read_pages (Suc (length (log_of ''t'' wit_world))) ''t'' 1 None None wit_world =
      Some (map (live_view ''t'' None wit_world) (rev (filter (\<lambda>m. \<not> st_deleted m) (log_of ''t'' wit_world))))"
    by (rule history_pages_complete [OF wit_env_inj]) simp_all
  then show ?thesis by (simp only: m) (simp add: m)
qed

theorem around_window_equiv_witness:
  "\<exists>page. history ''t'' None 2 None (Some ''0'') wit_world = (Inr page, wit_world) \<and>
     map cm_body (hp_items page) = [Some ''bye'', Some ''hi''] \<and> hp_prevCursor page = None"
proof -
  obtain a b c where m: "log_of ''t'' wit_world = [a, b, c]" "st_id a = ''0''" "cm_body (st_dto a) = Some ''hi''"
    "\<not> st_deleted a" "st_deleted b" "\<not> st_deleted c" "cm_body (st_dto c) = Some ''bye''"
    by (rule wit_msgs)
  then have "log_of ''t'' wit_world = [] @ a # [b, c]" by simp
  from around_window_equiv [OF wit_env_inj refl this refl refl, of None 2 None] m show ?thesis
    by (auto simp: mergeAroundWindow_def aroundLimits_def around_item_def Let_def)
qed

theorem reactions_refine_relation_witness:
  "reacted ''0'' wit_world = {(''bob'', ''ok'')} \<and>
   reactionsFor ''0'' (Some ''bob'') wit_world = [\<lparr>rs_emoji = ''ok'', rs_count = 1, rs_mine = True\<rparr>] \<and>
   reacted ''0'' (snd (toggleReaction ''0'' ''bob'' ''ok'' wit_world)) = {}"
proof -
  have ok: "reactions_ok (dm_reactions wit_world)"
    using dm_inv_run [OF dm_inv_empty wit_env_inj wit_ids_ok] by (simp add: dm_inv_def)
  have "set (map react_parts (keys_of ''0'' wit_world)) = {(''bob'', ''ok'')}" by code_simp
  then have r: "reacted ''0'' wit_world = {(''bob'', ''ok'')}" by (simp add: reacted_pairs [OF ok])
  have live: "live_message_exists ''0'' wit_world" by code_simp
  have u: "CHR '':'' \<notin> set ''bob''" by simp
  have "{u. u = ''bob''} = {''bob''}" by simp
  with r live reactions_refine_relation [OF wit_env_inj wit_ids_ok u refl, of "''0''" "''ok''"] show ?thesis
    by (simp add: reaction_view_def)
qed

definition wit_users :: "string \<Rightarrow> dm_target_user option" where
  "wit_users u =
     (if u = ''bob'' then Some \<lparr>tu_id = ''bob'', tu_displayName = ''Bob'', tu_handle = None, tu_bio = None,
                                tu_avatarUrl = None, tu_allowDirectMessages = True\<rparr> else None)"

lemma wit_blocks:
  "\<not> mem_blocked dm_empty ''amy'' ''bob''" "mem_blocked (dm_run wit_env [Block ''bob'' ''amy''] dm_empty) ''amy'' ''bob''"
  by code_simp+

theorem openDm_gate_witness:
  "(\<exists>d w. openDm wit_env (memory_dm_deps wit_env (\<lambda>u. ret (wit_users u)) None) ''amy'' ''bob'' dm_empty = (Inr d, w)) \<and>
   (let w = dm_run wit_env [Block ''bob'' ''amy''] dm_empty
    in openDm wit_env (memory_dm_deps wit_env (\<lambda>u. ret (wit_users u)) None) ''amy'' ''bob'' w =
         (Inl (Forbidden (Some DM_FORBIDDEN_MESSAGE)), w))"
  using openDm_gate [of wit_env wit_users None "''amy''" "''bob''" dm_empty]
    openDm_gate [of wit_env wit_users None "''amy''" "''bob''" "dm_run wit_env [Block ''bob'' ''amy''] dm_empty"]
  unfolding Let_def by (auto simp: wit_blocks wit_users_def simp del: dm_run_simps)

end
