(* ===== verification/Chat_Presence.thy ===== *)
theory Chat_Presence
  imports Prelude "HOL-Library.List_Lexorder" "HOL-Library.Char_ord"
begin

section \<open>Who is in a room (\<open>adapters/chat-presence.ts\<close>)\<close>

text \<open>
  The in-memory presence of a room: one entry for each connection, refreshed by the heartbeat and pruned when
  stale.  The Redis class keeps the same entries in a sorted set on the server.  The abstract presence is the
  time each connection was last seen, with no pruning; the operations answer as if they looked at it.
\<close>

definition PRESENCE_TTL_MS :: int where "PRESENCE_TTL_MS = 90000"
definition SEP :: string where "SEP = ''::''"

record presence_join_result =
  pj_online :: "string list"
  pj_userJoined :: bool

record presence_leave_result =
  pl_online :: "string list"
  pl_userGone :: bool

record presence_world = clock_world +
  rooms :: "(string, (string, int) js_map) js_map"

definition member :: "string \<Rightarrow> string \<Rightarrow> string" where
  "member userId connId = userId @ SEP @ connId"

text \<open>\<open>memberId.indexOf("::")\<close>.\<close>

fun index_sep :: "string \<Rightarrow> nat option" where
  "index_sep (x # y # s) = (if x = CHR '':'' \<and> y = CHR '':'' then Some 0 else map_option Suc (index_sep (y # s)))"
| "index_sep s = None"

definition userOf :: "string \<Rightarrow> string" where
  "userOf memberId = (case index_sep memberId of None \<Rightarrow> memberId | Some idx \<Rightarrow> take idx memberId)"

definition distinctUsers :: "string list \<Rightarrow> string list" where
  "distinctUsers members = sort (fold (\<lambda>m us. set_add (userOf m) us) members [])"

definition prune :: "(string, int) js_map \<Rightarrow> int \<Rightarrow> (string, int) js_map" where
  "prune room now = filter (\<lambda>(m, seen). \<not> seen < now - PRESENCE_TTL_MS) room"

definition roomFor :: "string \<Rightarrow> 'w presence_world_scheme \<Rightarrow> (string, int) js_map" where
  "roomFor cleanupId w = (case jm_get (rooms w) cleanupId of None \<Rightarrow> [] | Some room \<Rightarrow> room)"

definition put_room :: "string \<Rightarrow> (string, int) js_map \<Rightarrow> 'w presence_world_scheme \<Rightarrow> 'w presence_world_scheme" where
  "put_room cleanupId room w = w\<lparr>rooms := jm_set cleanupId room (rooms w)\<rparr>"

definition join :: "string \<Rightarrow> string \<Rightarrow> string \<Rightarrow> ('w presence_world_scheme, presence_join_result) prog" where
  "join cleanupId connId userId = (\<lambda>w.
     let room = jm_set (member userId connId) (clock w) (prune (roomFor cleanupId w) (clock w));
         members = jm_keys room;
         userConns = length (filter (\<lambda>m. userOf m = userId) members)
     in (Inr \<lparr>pj_online = distinctUsers members, pj_userJoined = (userConns \<le> 1)\<rparr>, put_room cleanupId room w))"

definition leave :: "string \<Rightarrow> string \<Rightarrow> string \<Rightarrow> ('w presence_world_scheme, presence_leave_result) prog" where
  "leave cleanupId connId userId = (\<lambda>w.
     let before = roomFor cleanupId w;
         removed = member userId connId \<in> set (jm_keys before);
         room = prune (jm_delete (member userId connId) before) (clock w);
         members = jm_keys room;
         userGone = (removed \<and> \<not> list_ex (\<lambda>m. userOf m = userId) members)
     in (Inr \<lparr>pl_online = distinctUsers members, pl_userGone = userGone\<rparr>,
         if members = [] then w\<lparr>rooms := jm_delete cleanupId (rooms w)\<rparr> else put_room cleanupId room w))"

definition refresh :: "string \<Rightarrow> string \<Rightarrow> string \<Rightarrow> ('w presence_world_scheme, unit) prog" where
  "refresh cleanupId connId userId =
     writes (\<lambda>w. put_room cleanupId (jm_set (member userId connId) (clock w) (roomFor cleanupId w)) w)"

definition online :: "string \<Rightarrow> ('w presence_world_scheme, string list) prog" where
  "online cleanupId = (\<lambda>w.
     case jm_get (rooms w) cleanupId of
       None \<Rightarrow> (Inr [], w)
     | Some room \<Rightarrow>
         let room' = prune room (clock w)
         in (Inr (distinctUsers (jm_keys room')), put_room cleanupId room' w))"

definition presence_close :: "('w presence_world_scheme, unit) prog" where
  "presence_close = writes (\<lambda>w. w\<lparr>rooms := []\<rparr>)"

subsection \<open>The abstract presence\<close>

datatype presence_op =
    Join string string string
  | Leave string string string
  | Refresh string string string
  | Online string
  | Close
  | Pass int

fun presence_exec :: "presence_op \<Rightarrow> 'w presence_world_scheme \<Rightarrow> 'w presence_world_scheme" where
  "presence_exec (Join r c u) w = snd (join r c u w)"
| "presence_exec (Leave r c u) w = snd (leave r c u w)"
| "presence_exec (Refresh r c u) w = snd (refresh r c u w)"
| "presence_exec (Online r) w = snd (online r w)"
| "presence_exec Close w = snd (presence_close w)"
| "presence_exec (Pass d) w = tick d w"

type_synonym presence = "string \<Rightarrow> string \<Rightarrow> string \<Rightarrow> int option"

text \<open>\<open>last_seen op t P\<close>: after \<open>op\<close> at time \<open>t\<close>, when each connection of each user of each room was last seen.\<close>

fun last_seen :: "presence_op \<Rightarrow> int \<Rightarrow> presence \<Rightarrow> presence" where
  "last_seen (Join r c u) t P = (\<lambda>r' u' c'. if (r', u', c') = (r, u, c) then Some t else P r' u' c')"
| "last_seen (Refresh r c u) t P = (\<lambda>r' u' c'. if (r', u', c') = (r, u, c) then Some t else P r' u' c')"
| "last_seen (Leave r c u) t P = (\<lambda>r' u' c'. if (r', u', c') = (r, u, c) then None else P r' u' c')"
| "last_seen Close t P = (\<lambda>r' u' c'. None)"
| "last_seen _ t P = P"

fun presence_run :: "presence_op list \<Rightarrow> presence_world \<Rightarrow> presence \<Rightarrow> presence_world \<times> presence" where
  "presence_run [] w P = (w, P)"
| "presence_run (x # xs) w P = presence_run xs (presence_exec x w) (last_seen x (clock w) P)"

text \<open>User ids are UUIDs without colons; time does not run backwards.\<close>

fun presence_op_ok :: "presence_op \<Rightarrow> bool" where
  "presence_op_ok (Join r c u) \<longleftrightarrow> CHR '':'' \<notin> set u"
| "presence_op_ok (Leave r c u) \<longleftrightarrow> CHR '':'' \<notin> set u"
| "presence_op_ok (Refresh r c u) \<longleftrightarrow> CHR '':'' \<notin> set u"
| "presence_op_ok (Pass d) \<longleftrightarrow> 0 \<le> d"
| "presence_op_ok _ \<longleftrightarrow> True"

definition here :: "presence \<Rightarrow> int \<Rightarrow> string \<Rightarrow> string \<Rightarrow> string \<Rightarrow> bool" where
  "here P t r u c \<longleftrightarrow> (case P r u c of None \<Rightarrow> False | Some s \<Rightarrow> t - PRESENCE_TTL_MS \<le> s)"

lemma index_sep_member: "CHR '':'' \<notin> set u \<Longrightarrow> index_sep (u @ CHR '':'' # CHR '':'' # c) = Some (length u)"
proof (induction u)
  case (Cons x u)
  then show ?case by (cases u) auto
qed simp

lemma userOf_member [simp]: "CHR '':'' \<notin> set u \<Longrightarrow> userOf (member u c) = u"
  by (simp add: userOf_def member_def SEP_def index_sep_member)

lemma append_colon_inj:
  "u @ x # s = u' @ x # s' \<Longrightarrow> x \<notin> set u \<Longrightarrow> x \<notin> set u' \<Longrightarrow> u = u' \<and> s = s'"
  by (induction u arbitrary: u') (case_tac u'; auto)+

lemma member_inj [simp]:
  "CHR '':'' \<notin> set u \<Longrightarrow> CHR '':'' \<notin> set u' \<Longrightarrow> member u c = member u' c' \<longleftrightarrow> u = u' \<and> c = c'"
  using append_colon_inj [of u "CHR '':''" "CHR '':'' # c" u' "CHR '':'' # c'"] by (auto simp: member_def SEP_def)

lemma fold_set_add:
  "set (fold (\<lambda>m us. set_add (f m) us) ms us) = f ` set ms \<union> set us"
  "distinct us \<Longrightarrow> distinct (fold (\<lambda>m us. set_add (f m) us) ms us)"
  by (induction ms arbitrary: us) (auto simp: set_add_def)

lemma distinctUsers_set: "distinctUsers ms = sorted_list_of_set (userOf ` set ms)"
  by (rule sorted_distinct_set_unique) (auto simp: distinctUsers_def fold_set_add)

lemma roomFor_put [simp]: "roomFor r (put_room r' room w) = (if r = r' then room else roomFor r w)"
  by (simp add: roomFor_def put_room_def)

lemma clock_put_room [simp]: "clock (put_room r room w) = clock w"
  by (simp add: put_room_def)

lemma jm_get_prune: "jm_ok room \<Longrightarrow>
  jm_get (prune room now) k = (case jm_get room k of None \<Rightarrow> None | Some s \<Rightarrow> if now - PRESENCE_TTL_MS \<le> s then Some s else None)"
  by (auto simp: prune_def jm_get_filter not_less split: option.split)

lemma keys_jm: "k \<in> set (jm_keys m) \<longleftrightarrow> jm_get m k \<noteq> None"
  by (simp add: map_of_eq_None_iff)

text \<open>The rooms hold every entry that still counts, and nothing that was not last seen then.\<close>

definition entry_ok :: "int option \<Rightarrow> int option \<Rightarrow> int \<Rightarrow> bool" where
  "entry_ok x q t \<longleftrightarrow> x = q \<or> (x = None \<and> (case q of None \<Rightarrow> True | Some s \<Rightarrow> s < t - PRESENCE_TTL_MS))"

definition room_ok :: "(string, int) js_map \<Rightarrow> (string \<Rightarrow> string \<Rightarrow> int option) \<Rightarrow> int \<Rightarrow> bool" where
  "room_ok room Q t \<longleftrightarrow> jm_ok room \<and>
     (\<forall>k \<in> set (jm_keys room). \<exists>u c. CHR '':'' \<notin> set u \<and> k = member u c) \<and>
     (\<forall>u c. CHR '':'' \<notin> set u \<longrightarrow> entry_ok (jm_get room (member u c)) (Q u c) t)"

definition presence_inv :: "'w presence_world_scheme \<Rightarrow> presence \<Rightarrow> bool" where
  "presence_inv w P \<longleftrightarrow> (\<forall>r. room_ok (roomFor r w) (P r) (clock w)) \<and>
     (\<forall>r u c. CHR '':'' \<in> set u \<longrightarrow> P r u c = None)"

lemma room_okI:
  assumes "jm_ok room" "\<And>k. k \<in> set (jm_keys room) \<Longrightarrow> \<exists>u c. CHR '':'' \<notin> set u \<and> k = member u c"
    "\<And>u c. CHR '':'' \<notin> set u \<Longrightarrow> entry_ok (jm_get room (member u c)) (Q u c) t"
  shows "room_ok room Q t"
  using assms by (simp add: room_ok_def)

lemma room_okD:
  assumes "room_ok room Q t"
  shows "jm_ok room" "k \<in> set (jm_keys room) \<Longrightarrow> \<exists>u c. CHR '':'' \<notin> set u \<and> k = member u c"
    "CHR '':'' \<notin> set u \<Longrightarrow> entry_ok (jm_get room (member u c)) (Q u c) t"
  using assms unfolding room_ok_def by blast+

lemma room_ok_set:
  assumes "room_ok room Q t" "CHR '':'' \<notin> set u"
  shows "room_ok (jm_set (member u c) s room) (\<lambda>u' c'. if (u', c') = (u, c) then Some s else Q u' c') t"
proof (rule room_okI)
  show "jm_ok (jm_set (member u c) s room)" using room_okD(1) [OF assms(1)] by simp
  show "\<exists>u c. CHR '':'' \<notin> set u \<and> k = member u c" if "k \<in> set (jm_keys (jm_set (member u c) s room))" for k
    using that room_okD(2) [OF assms(1), of k] assms(2) by (auto simp: dom_update)
  show "entry_ok (jm_get (jm_set (member u c) s room) (member u' c')) (if (u', c') = (u, c) then Some s else Q u' c') t"
    if "CHR '':'' \<notin> set u'" for u' c'
    using that assms(2) room_okD(3) [OF assms(1) that, of c'] by (auto simp: entry_ok_def)
qed

lemma room_ok_delete:
  assumes "room_ok room Q t" "CHR '':'' \<notin> set u"
  shows "room_ok (jm_delete (member u c) room) (\<lambda>u' c'. if (u', c') = (u, c) then None else Q u' c') t"
proof (rule room_okI)
  show "jm_ok (jm_delete (member u c) room)" using room_okD(1) [OF assms(1)] by simp
  show "\<exists>u c. CHR '':'' \<notin> set u \<and> k = member u c" if "k \<in> set (jm_keys (jm_delete (member u c) room))" for k
    using that room_okD(2) [OF assms(1), of k] by (auto simp: delete_keys)
  show "entry_ok (jm_get (jm_delete (member u c) room) (member u' c')) (if (u', c') = (u, c) then None else Q u' c') t"
    if "CHR '':'' \<notin> set u'" for u' c'
    using that assms(2) room_okD(3) [OF assms(1) that, of c'] by (auto simp: entry_ok_def)
qed

lemma room_ok_prune:
  assumes "room_ok room Q t"
  shows "room_ok (prune room t) Q t"
proof (rule room_okI)
  note ok = room_okD(1) [OF assms]
  show "jm_ok (prune room t)" unfolding prune_def using ok by (rule jm_ok_filter)
  show "\<exists>u c. CHR '':'' \<notin> set u \<and> k = member u c" if "k \<in> set (jm_keys (prune room t))" for k
    using that room_okD(2) [OF assms, of k] by (auto simp: prune_def)
  show "entry_ok (jm_get (prune room t) (member u c)) (Q u c) t" if "CHR '':'' \<notin> set u" for u c
    using room_okD(3) [OF assms that, of c]
    by (auto simp: jm_get_prune [OF ok] entry_ok_def split: option.splits)
qed

lemma room_ok_later:
  assumes "room_ok room Q t" "t \<le> t'"
  shows "room_ok room Q t'"
proof (rule room_okI)
  show "jm_ok room" by (rule room_okD(1) [OF assms(1)])
  show "\<exists>u c. CHR '':'' \<notin> set u \<and> k = member u c" if "k \<in> set (jm_keys room)" for k
    by (rule room_okD(2) [OF assms(1) that])
  show "entry_ok (jm_get room (member u c)) (Q u c) t'" if "CHR '':'' \<notin> set u" for u c
    using room_okD(3) [OF assms(1) that, of c] assms(2) by (auto simp: entry_ok_def split: option.splits)
qed

lemma room_ok_empty: "room_ok [] (\<lambda>u c. None) t"
  by (simp add: room_ok_def entry_ok_def)

text \<open>What a pruned room answers.\<close>

lemma pruned_keys:
  assumes "room_ok room Q t"
  shows "member u c \<in> set (jm_keys (prune room t)) \<and> CHR '':'' \<notin> set u \<longleftrightarrow>
    CHR '':'' \<notin> set u \<and> (case Q u c of None \<Rightarrow> False | Some s \<Rightarrow> t - PRESENCE_TTL_MS \<le> s)"
proof (cases "CHR '':'' \<in> set u")
  case False
  then show ?thesis
    using room_okD(3) [OF assms False, of c] unfolding keys_jm jm_get_prune [OF room_okD(1) [OF assms]]
    by (auto simp: entry_ok_def split: option.splits)
qed simp

lemma room_users:
  assumes "\<forall>k \<in> set ks. \<exists>u c. CHR '':'' \<notin> set u \<and> k = member u c"
  shows "userOf ` set ks = {u. CHR '':'' \<notin> set u \<and> (\<exists>c. member u c \<in> set ks)}"
proof (intro set_eqI iffI)
  fix u assume "u \<in> userOf ` set ks"
  then obtain k where "k \<in> set ks" "u = userOf k" by auto
  with bspec [OF assms, of k] show "u \<in> {u. CHR '':'' \<notin> set u \<and> (\<exists>c. member u c \<in> set ks)}" by auto
next
  fix u assume "u \<in> {u. CHR '':'' \<notin> set u \<and> (\<exists>c. member u c \<in> set ks)}"
  then obtain c where "CHR '':'' \<notin> set u" "member u c \<in> set ks" by auto
  then show "u \<in> userOf ` set ks" by (metis imageI userOf_member)
qed

lemma presence_invD: "presence_inv w P \<Longrightarrow> room_ok (roomFor r w) (P r) (clock w)"
  by (simp add: presence_inv_def)

lemma presence_inv_put:
  assumes "presence_inv w P" "room_ok room (P' r) (clock w)" "\<And>r'. r' \<noteq> r \<Longrightarrow> P' r' = P r'"
    "\<And>r u c. CHR '':'' \<in> set u \<Longrightarrow> P' r u c = None"
  shows "presence_inv (put_room r room w) P'"
  unfolding presence_inv_def
proof (intro conjI allI impI)
  fix r' show "room_ok (roomFor r' (put_room r room w)) (P' r') (clock (put_room r room w))"
    using assms(2,3) presence_invD [OF assms(1), of r'] by (cases "r' = r") simp_all
qed (rule assms(4))

lemma roomFor_delete: "roomFor r (w\<lparr>rooms := jm_delete r' (rooms w)\<rparr>) = (if r = r' then [] else roomFor r w)"
  by (simp add: roomFor_def)

lemma presence_inv_delete:
  assumes "presence_inv w P" "room_ok [] (P' r) (clock w)" "\<And>r'. r' \<noteq> r \<Longrightarrow> P' r' = P r'"
    "\<And>r u c. CHR '':'' \<in> set u \<Longrightarrow> P' r u c = None"
  shows "presence_inv (w\<lparr>rooms := jm_delete r (rooms w)\<rparr>) P'"
  unfolding presence_inv_def
proof (intro conjI allI impI)
  fix r' show "room_ok (roomFor r' (w\<lparr>rooms := jm_delete r (rooms w)\<rparr>)) (P' r') (clock (w\<lparr>rooms := jm_delete r (rooms w)\<rparr>))"
    using assms(2,3) presence_invD [OF assms(1), of r'] by (cases "r' = r") (simp_all add: roomFor_delete)
qed (rule assms(4))

lemma none_colon: "presence_inv w P \<Longrightarrow> CHR '':'' \<in> set u \<Longrightarrow> P r u c = None"
  by (simp add: presence_inv_def)

lemma presence_inv_exec:
  assumes inv: "presence_inv w P" and ok: "presence_op_ok x"
  shows "presence_inv (presence_exec x w) (last_seen x (clock w) P)"
proof (cases x)
  case (Join r c u)
  have "room_ok (jm_set (member u c) (clock w) (prune (roomFor r w) (clock w)))
      (\<lambda>u' c'. if (u', c') = (u, c) then Some (clock w) else P r u' c') (clock w)"
    using ok by (intro room_ok_set room_ok_prune presence_invD [OF inv]) (simp add: Join)
  then show ?thesis
    unfolding Join presence_exec.simps join_def Let_def snd_conv
    using ok none_colon [OF inv] by (intro presence_inv_put [OF inv]) (auto simp: Join)
next
  case (Refresh r c u)
  have "room_ok (jm_set (member u c) (clock w) (roomFor r w))
      (\<lambda>u' c'. if (u', c') = (u, c) then Some (clock w) else P r u' c') (clock w)"
    using ok by (intro room_ok_set presence_invD [OF inv]) (simp add: Refresh)
  then show ?thesis
    unfolding Refresh presence_exec.simps refresh_def writes_run Let_def snd_conv
    using ok none_colon [OF inv] by (intro presence_inv_put [OF inv]) (auto simp: Refresh)
next
  case (Leave r c u)
  let ?room = "prune (jm_delete (member u c) (roomFor r w)) (clock w)"
  have room: "room_ok ?room (\<lambda>u' c'. if (u', c') = (u, c) then None else P r u' c') (clock w)"
    using ok by (intro room_ok_prune room_ok_delete presence_invD [OF inv]) (simp add: Leave)
  show ?thesis
  proof (cases "?room = []")
    case True
    with room show ?thesis
      unfolding Leave presence_exec.simps leave_def Let_def snd_conv
      using none_colon [OF inv] by (simp only: list.map simp_thms if_True) (rule presence_inv_delete [OF inv]; auto)
  next
    case False
    with room show ?thesis
      unfolding Leave presence_exec.simps leave_def Let_def snd_conv
      using none_colon [OF inv] by (simp only: list.map_disc_iff if_False) (rule presence_inv_put [OF inv]; auto)
  qed
next
  case (Online r)
  show ?thesis
  proof (cases "jm_get (rooms w) r")
    case None
    with inv show ?thesis by (simp add: Online online_def)
  next
    case (Some room)
    then have "roomFor r w = room" by (simp add: roomFor_def)
    with room_ok_prune [OF presence_invD [OF inv, of r]] Some show ?thesis
      using none_colon [OF inv] by (auto simp: Online online_def Let_def intro!: presence_inv_put [OF inv])
  qed
next
  case Close
  then show ?thesis by (simp add: presence_close_def writes_run presence_inv_def roomFor_def room_ok_empty)
next
  case (Pass d)
  have "roomFor r (tick d w) = roomFor r w" for r by (simp add: roomFor_def tick_def)
  with inv ok Pass show ?thesis
    unfolding presence_inv_def by (auto intro: room_ok_later)
qed

definition no_rooms :: presence_world where
  "no_rooms = \<lparr>clock = 0, rooms = []\<rparr>"

lemma presence_inv_run:
  assumes "\<forall>x \<in> set ops. presence_op_ok x" "presence_inv w P" "presence_run ops w P = (w', P')"
  shows "presence_inv w' P'"
  using assms by (induction ops arbitrary: w P) (auto intro: presence_inv_exec)

lemma presence_inv_start: "presence_inv no_rooms (\<lambda>r u c. None)"
  by (simp add: presence_inv_def no_rooms_def roomFor_def room_ok_empty)

text \<open>The answers of a room that stands for \<open>P\<close>.\<close>

definition users_here :: "presence \<Rightarrow> int \<Rightarrow> string \<Rightarrow> string list" where
  "users_here P t r = sorted_list_of_set {u. \<exists>c. here P t r u c}"

lemma room_online:
  assumes "room_ok room (P r) t" "\<forall>u c. CHR '':'' \<in> set u \<longrightarrow> P r u c = None"
    "\<forall>k \<in> set (jm_keys room). \<forall>s. jm_get room k = Some s \<longrightarrow> t - PRESENCE_TTL_MS \<le> s"
  shows "distinctUsers (jm_keys room) = users_here P t r"
    and "CHR '':'' \<notin> set u \<Longrightarrow> member u c \<in> set (jm_keys room) \<longleftrightarrow> here P t r u c"
proof -
  show iff: "member u c \<in> set (jm_keys room) \<longleftrightarrow> here P t r u c" if "CHR '':'' \<notin> set u" for u c
    using room_okD(3) [OF assms(1) that, of c] assms(3) [rule_format, of "member u c"]
    unfolding keys_jm here_def entry_ok_def by (auto split: option.splits)
  have "here P t r u c \<Longrightarrow> CHR '':'' \<notin> set u" for u c
    using assms(2) by (force simp: here_def split: option.splits)
  with iff have "{u. CHR '':'' \<notin> set u \<and> (\<exists>c. member u c \<in> set (jm_keys room))} = {u. \<exists>c. here P t r u c}" by blast
  moreover have "\<forall>k \<in> set (jm_keys room). \<exists>u c. CHR '':'' \<notin> set u \<and> k = member u c"
    using room_okD(2) [OF assms(1)] by blast
  ultimately show "distinctUsers (jm_keys room) = users_here P t r"
    unfolding distinctUsers_set users_here_def by (simp only: room_users)
qed

lemma prune_fresh:
  "jm_ok room \<Longrightarrow> \<forall>k \<in> set (jm_keys (prune room t)). \<forall>s. jm_get (prune room t) k = Some s \<longrightarrow> t - PRESENCE_TTL_MS \<le> s"
  by (auto simp: jm_get_prune split: option.splits if_splits)

lemma only_one:
  assumes "distinct ks" "x \<in> set ks" "f x"
  shows "length (filter f ks) \<le> 1 \<longleftrightarrow> (\<forall>k \<in> set ks. f k \<longrightarrow> k = x)"
proof -
  have "length (filter f ks) = card (set (filter f ks))"
    using distinct_card [OF distinct_filter [OF assms(1), of f]] by simp
  also have "\<dots> \<le> 1 \<longleftrightarrow> (\<forall>k \<in> set (filter f ks). k = x)"
    using assms(2,3) by (auto simp: card_le_Suc0_iff_eq)
  finally show ?thesis by auto
qed

lemma other_conns:
  assumes "\<forall>k \<in> K. \<exists>u c. CHR '':'' \<notin> set u \<and> k = member u c" "CHR '':'' \<notin> set u"
  shows "(\<forall>k \<in> K. userOf k = u \<longrightarrow> k = member u c) \<longleftrightarrow> \<not> (\<exists>c'. c' \<noteq> c \<and> member u c' \<in> K)"
    and "(\<exists>k \<in> K. userOf k = u) \<longleftrightarrow> (\<exists>c. member u c \<in> K)"
proof -
  have form: "\<exists>c'. k = member u c'" if "k \<in> K" "userOf k = u" for k
    using bspec [OF assms(1) that(1)] that(2) by auto
  show "(\<forall>k \<in> K. userOf k = u \<longrightarrow> k = member u c) \<longleftrightarrow> \<not> (\<exists>c'. c' \<noteq> c \<and> member u c' \<in> K)"
    using form assms(2) by fastforce
  show "(\<exists>k \<in> K. userOf k = u) \<longleftrightarrow> (\<exists>c. member u c \<in> K)"
    by (metis form userOf_member [OF assms(2)])
qed

lemma join_answer:
  assumes inv: "presence_inv w P" and u: "CHR '':'' \<notin> set u"
  shows "fst (join r c u w) = Inr \<lparr>pj_online = users_here (last_seen (Join r c u) (clock w) P) (clock w) r,
      pj_userJoined = (\<not> (\<exists>c'. c' \<noteq> c \<and> here P (clock w) r u c'))\<rparr>"
proof -
  let ?t = "clock w" let ?P = "last_seen (Join r c u) ?t P"
  let ?room = "jm_set (member u c) ?t (prune (roomFor r w) ?t)"
  note ok = room_ok_prune [OF presence_invD [OF inv, of r]]
  have room: "room_ok ?room (?P r) ?t" using room_ok_set [OF ok u] by simp
  have none: "\<forall>u c. CHR '':'' \<in> set u \<longrightarrow> ?P r u c = None" using none_colon [OF inv] u by auto
  have fresh: "\<forall>k \<in> set (jm_keys ?room). \<forall>s. jm_get ?room k = Some s \<longrightarrow> ?t - PRESENCE_TTL_MS \<le> s"
  proof (intro ballI allI impI)
    fix k s assume k: "jm_get ?room k = Some s"
    show "?t - PRESENCE_TTL_MS \<le> s"
    proof (cases "k = member u c")
      case True
      with k show ?thesis by (auto simp: PRESENCE_TTL_MS_def)
    next
      case False
      with k have s: "jm_get (prune (roomFor r w) ?t) k = Some s" by simp
      then have "k \<in> set (jm_keys (prune (roomFor r w) ?t))" by (simp only: keys_jm) simp
      with s prune_fresh [OF room_okD(1) [OF presence_invD [OF inv, of r]], of ?t] show ?thesis by blast
    qed
  qed
  note ans = room_online [of ?room ?P r ?t, OF room none fresh]
  have dist: "distinct (jm_keys ?room)" by (rule room_okD(1) [OF room])
  have mine: "member u c \<in> set (jm_keys ?room)" unfolding keys_jm by simp
  have "length (filter (\<lambda>m. userOf m = u) (jm_keys ?room)) \<le> 1 \<longleftrightarrow>
      (\<forall>k \<in> set (jm_keys ?room). userOf k = u \<longrightarrow> k = member u c)"
    using u by (intro only_one [OF dist mine]) simp
  also have "\<dots> \<longleftrightarrow> \<not> (\<exists>c'. c' \<noteq> c \<and> member u c' \<in> set (jm_keys ?room))"
    by (rule other_conns(1) [OF _ u]) (use room_okD(2) [OF room] in blast)
  also have "\<dots> \<longleftrightarrow> \<not> (\<exists>c'. c' \<noteq> c \<and> here P ?t r u c')"
    using ans(2) [OF u] by (auto simp: here_def)
  finally show ?thesis using ans(1) by (simp only: join_def Let_def fst_conv)
qed

lemma leave_answer:
  assumes inv: "presence_inv w P" and u: "CHR '':'' \<notin> set u"
  shows "\<exists>gone. fst (leave r c u w) = Inr \<lparr>pl_online = users_here (last_seen (Leave r c u) (clock w) P) (clock w) r,
        pl_userGone = gone\<rparr> \<and>
      (gone \<longrightarrow> P r u c \<noteq> None) \<and> (gone \<longrightarrow> \<not> (\<exists>c'. c' \<noteq> c \<and> here P (clock w) r u c')) \<and>
      (here P (clock w) r u c \<and> \<not> (\<exists>c'. c' \<noteq> c \<and> here P (clock w) r u c') \<longrightarrow> gone)"
proof -
  let ?t = "clock w" let ?P = "last_seen (Leave r c u) ?t P"
  let ?room = "prune (jm_delete (member u c) (roomFor r w)) ?t"
  note base = presence_invD [OF inv, of r]
  have del: "room_ok (jm_delete (member u c) (roomFor r w)) (?P r) ?t" using room_ok_delete [OF base u] by simp
  note room = room_ok_prune [OF del]
  have none: "\<forall>u c. CHR '':'' \<in> set u \<longrightarrow> ?P r u c = None" using none_colon [OF inv] by auto
  note ans = room_online [of ?room ?P r ?t, OF room none prune_fresh [OF room_okD(1) [OF del]]]
  have stay: "list_ex (\<lambda>m. userOf m = u) (jm_keys ?room) \<longleftrightarrow> (\<exists>c'. c' \<noteq> c \<and> here P ?t r u c')"
  proof -
    have "list_ex (\<lambda>m. userOf m = u) (jm_keys ?room) \<longleftrightarrow> (\<exists>c'. member u c' \<in> set (jm_keys ?room))"
      unfolding list_ex_iff by (rule other_conns(2) [OF _ u]) (use room_okD(2) [OF room] in blast)
    also have "\<dots> \<longleftrightarrow> (\<exists>c'. c' \<noteq> c \<and> here P ?t r u c')" using ans(2) [OF u] by (auto simp: here_def)
    finally show ?thesis .
  qed
  have entry: "member u c \<in> set (jm_keys (roomFor r w)) \<Longrightarrow> P r u c \<noteq> None"
    "here P ?t r u c \<Longrightarrow> member u c \<in> set (jm_keys (roomFor r w))"
    using room_okD(3) [OF base u, of c] unfolding keys_jm by (auto simp: entry_ok_def here_def split: option.splits)
  show ?thesis
    unfolding leave_def Let_def fst_conv ans(1) stay
    by (intro exI conjI) (rule refl, use entry in \<open>blast+\<close>)
qed

lemma online_answer:
  assumes inv: "presence_inv w P"
  shows "fst (online r w) = Inr (users_here P (clock w) r)"
proof -
  let ?room = "prune (roomFor r w) (clock w)"
  note base = presence_invD [OF inv, of r]
  have "distinctUsers (jm_keys ?room) = users_here P (clock w) r"
    using none_colon [OF inv]
    by (intro room_online(1) room_ok_prune [OF base] prune_fresh [OF room_okD(1) [OF base]]) blast
  then show ?thesis
    by (auto simp: online_def roomFor_def Let_def prune_def distinctUsers_def split: option.splits)
qed

text \<open>
  C36: After every run of joins, leaves, heartbeats and reads, the presence answers as the abstract one that
  remembers when each connection was last seen and never prunes.  A room's list is, in order, the users with a
  connection seen in the last ninety seconds; a join is announced exactly when the user has no other such
  connection; a leave is announced only for a connection that had joined and only when none of the user's
  others is left, and always when such a connection was the last.
\<close>

theorem presence_refines_last_seen:
  assumes "\<forall>x \<in> set ops. presence_op_ok x" "CHR '':'' \<notin> set u"
    and "presence_run ops no_rooms (\<lambda>r u c. None) = (w, P)"
  shows "fst (online r w) = Inr (users_here P (clock w) r) \<and>
    fst (join r c u w) = Inr \<lparr>pj_online = users_here (last_seen (Join r c u) (clock w) P) (clock w) r,
      pj_userJoined = (\<not> (\<exists>c'. c' \<noteq> c \<and> here P (clock w) r u c'))\<rparr> \<and>
    (\<exists>gone. fst (leave r c u w) = Inr \<lparr>pl_online = users_here (last_seen (Leave r c u) (clock w) P) (clock w) r,
        pl_userGone = gone\<rparr> \<and>
      (gone \<longrightarrow> P r u c \<noteq> None) \<and> (gone \<longrightarrow> \<not> (\<exists>c'. c' \<noteq> c \<and> here P (clock w) r u c')) \<and>
      (here P (clock w) r u c \<and> \<not> (\<exists>c'. c' \<noteq> c \<and> here P (clock w) r u c') \<longrightarrow> gone))"
proof -
  note inv = presence_inv_run [OF assms(1) presence_inv_start assms(3)]
  show ?thesis by (intro conjI online_answer [OF inv] join_answer [OF inv assms(2)] leave_answer [OF inv assms(2)])
qed

theorem presence_refines_last_seen_witness:
  "fst (join ''room'' ''c2'' ''amy'' (fst (presence_run [Join ''room'' ''c1'' ''amy'', Pass 90001] no_rooms (\<lambda>r u c. None)))) =
     Inr \<lparr>pj_online = [''amy''], pj_userJoined = True\<rparr>"
proof -
  let ?ops = "[Join ''room'' ''c1'' ''amy'', Pass 90001]"
  obtain w P where run: "presence_run ?ops no_rooms (\<lambda>r u c. None) = (w, P)" by (rule prod.exhaust)
  have w: "clock w = 90001" "P = (\<lambda>r u c. if (r, u, c) = (''room'', ''amy'', ''c1'') then Some 0 else None)"
    using run by (auto simp: join_def no_rooms_def Let_def)
  have ok: "\<forall>x \<in> set ?ops. presence_op_ok x" "CHR '':'' \<notin> set ''amy''" by simp_all
  have h: "here (last_seen (Join ''room'' ''c2'' ''amy'') 90001 P) 90001 ''room'' u c \<longleftrightarrow> u = ''amy'' \<and> c = ''c2''" for u c
    by (cases "u = ''amy''"; cases "c = ''c1''"; cases "c = ''c2''") (simp_all add: here_def w(2) PRESENCE_TTL_MS_def)
  have "{u. \<exists>c. here (last_seen (Join ''room'' ''c2'' ''amy'') 90001 P) 90001 ''room'' u c} = {''amy''}"
    by (simp add: h del: last_seen.simps)
  then have online: "users_here (last_seen (Join ''room'' ''c2'' ''amy'') (clock w) P) (clock w) ''room'' = [''amy'']"
    by (simp add: users_here_def w(1) del: last_seen.simps)
  have "\<not> here P 90001 ''room'' ''amy'' c" for c
    by (cases "c = ''c1''") (simp_all add: here_def w(2) PRESENCE_TTL_MS_def)
  then have alone: "\<not> (\<exists>c'. c' \<noteq> ''c2'' \<and> here P (clock w) ''room'' ''amy'' c')" by (simp add: w(1))
  from presence_refines_last_seen [OF ok run, of "''room''" "''c2''"] online alone show ?thesis
    by (simp only: run fst_conv simp_thms)
qed

end
