(* ===== verification/Answer_Validation.thy ===== *)
theory Answer_Validation
  imports Prelude
begin

section \<open>Registration answers (\<open>services/host/question-validation.ts\<close>)\<close>

text \<open>
  The check of the answers a registration submits against the questions of its event, and its equivalence with
  a declarative description of valid answers.  The three limits come from the contract package and are
  parameters.
\<close>

datatype question_kind = ShortText | LongText | SingleSelect | MultiSelect | Checkbox | Consent

datatype answer_value = AText string | AList "string list" | ABool bool

datatype condition_value = CText string | CBool bool

record question_condition =
  qc_questionId :: string
  qc_equals :: condition_value

text \<open>The part of an option the check reads.\<close>

record question_option =
  qo_value :: string

record question_record =
  qr_id :: string
  qr_cleanupId :: string
  qr_ticketTypeId :: "string option"
  qr_kind :: question_kind
  qr_prompt :: string
  qr_helpText :: "string option"
  qr_required :: bool
  qr_options :: "question_option list"
  qr_maxSelections :: "nat option"
  qr_consentText :: "string option"
  qr_showIf :: "question_condition option"
  qr_sortOrder :: int
  qr_archivedAt :: "int option"

record answer_input =
  ai_questionId :: string
  ai_value :: answer_value

record answer_write =
  aw_questionId :: string
  aw_valueText :: "string option"
  aw_valueJson :: "answer_value option"

record answer_limits =
  MAX_SHORT_TEXT_ANSWER :: nat
  MAX_LONG_TEXT_ANSWER :: nat
  MAX_QUESTION_OPTIONS :: nat

definition conditionSatisfied :: "question_record \<Rightarrow> (string, answer_input) js_map \<Rightarrow> bool" where
  "conditionSatisfied question byId =
     (case qr_showIf question of
        None \<Rightarrow> True
      | Some condition \<Rightarrow>
          (case jm_get byId (qc_questionId condition) of
             None \<Rightarrow> False
           | Some source \<Rightarrow>
               (case qc_equals condition of
                  CBool b \<Rightarrow> ai_value source = ABool b
                | CText s \<Rightarrow>
                    (case ai_value source of AText v \<Rightarrow> v = s | AList vs \<Rightarrow> s \<in> set vs | ABool _ \<Rightarrow> False))))"

definition REQUIRED :: string where "REQUIRED = ''required''"

type_synonym answer_check = "string + answer_write"

definition checkTextAnswer :: "answer_limits \<Rightarrow> question_record \<Rightarrow> answer_value \<Rightarrow> answer_check" where
  "checkTextAnswer L question v =
     (case v of
        AText s \<Rightarrow>
          (let trimmed = trim s;
               max = (if qr_kind question = ShortText then MAX_SHORT_TEXT_ANSWER L else MAX_LONG_TEXT_ANSWER L)
           in if length trimmed > max then Inl (''must be at most '' @ string_of_nat max @ '' characters'')
              else if qr_required question \<and> length trimmed = 0 then Inl REQUIRED
              else Inr \<lparr>aw_questionId = qr_id question, aw_valueText = Some trimmed, aw_valueJson = None\<rparr>)
      | _ \<Rightarrow> Inl ''must be text'')"

definition checkSingleSelect :: "question_record \<Rightarrow> answer_value \<Rightarrow> answer_check" where
  "checkSingleSelect question v =
     (case v of
        AText s \<Rightarrow>
          if list_ex (\<lambda>opt. qo_value opt = s) (qr_options question)
          then Inr \<lparr>aw_questionId = qr_id question, aw_valueText = Some s, aw_valueJson = None\<rparr>
          else Inl ''must be one of the offered options''
      | _ \<Rightarrow> Inl ''must be one of the offered options'')"

definition checkMultiSelect :: "answer_limits \<Rightarrow> question_record \<Rightarrow> answer_value \<Rightarrow> answer_check" where
  "checkMultiSelect L question v =
     (case v of
        AList vs \<Rightarrow>
          if length vs > MAX_QUESTION_OPTIONS L then Inl ''too many selections''
          else if list_ex (\<lambda>e. e \<notin> set (map qo_value (qr_options question))) vs then Inl ''must be a list of offered options''
          else if length (remdups vs) \<noteq> length vs then Inl ''lists the same option twice''
          else if (case qr_maxSelections question of None \<Rightarrow> False | Some n \<Rightarrow> length vs > n)
          then Inl (''select at most '' @ string_of_nat (the (qr_maxSelections question)))
          else if qr_required question \<and> length vs = 0 then Inl REQUIRED
          else Inr \<lparr>aw_questionId = qr_id question, aw_valueText = None, aw_valueJson = Some v\<rparr>
      | _ \<Rightarrow> Inl ''must be a list of offered options'')"

definition checkBooleanAnswer :: "question_record \<Rightarrow> answer_value \<Rightarrow> answer_check" where
  "checkBooleanAnswer question v =
     (case v of
        ABool b \<Rightarrow>
          if qr_required question \<and> \<not> b then Inl REQUIRED
          else Inr \<lparr>aw_questionId = qr_id question, aw_valueText = None, aw_valueJson = Some v\<rparr>
      | _ \<Rightarrow> Inl ''must be true or false'')"

definition checkAnswer :: "answer_limits \<Rightarrow> question_record \<Rightarrow> answer_value \<Rightarrow> answer_check" where
  "checkAnswer L question v =
     (case qr_kind question of
        ShortText \<Rightarrow> checkTextAnswer L question v
      | LongText \<Rightarrow> checkTextAnswer L question v
      | SingleSelect \<Rightarrow> checkSingleSelect question v
      | MultiSelect \<Rightarrow> checkMultiSelect L question v
      | Checkbox \<Rightarrow> checkBooleanAnswer question v
      | Consent \<Rightarrow> checkBooleanAnswer question v)"

type_synonym error_fields = "(string, string) js_map"

fun indexSubmitted ::
  "(string, question_record) js_map \<Rightarrow> answer_input list \<Rightarrow> error_fields \<Rightarrow> (string, answer_input) js_map
     \<Rightarrow> error_fields \<times> (string, answer_input) js_map" where
  "indexSubmitted live [] faults submitted = (faults, submitted)"
| "indexSubmitted live (answer # answers) faults submitted =
     (if jm_get live (ai_questionId answer) = None
      then indexSubmitted live answers (jm_set (ai_questionId answer) ''unknown question'' faults) submitted
      else if jm_get submitted (ai_questionId answer) \<noteq> None
      then indexSubmitted live answers (jm_set (ai_questionId answer) ''answered more than once'' faults) submitted
      else indexSubmitted live answers faults (jm_set (ai_questionId answer) answer submitted))"

fun check_questions ::
  "answer_limits \<Rightarrow> (string, answer_input) js_map \<Rightarrow> question_record list \<Rightarrow> error_fields \<Rightarrow> answer_write list
     \<Rightarrow> error_fields \<times> answer_write list" where
  "check_questions L submitted [] faults ws = (faults, ws)"
| "check_questions L submitted (question # qs) faults ws =
     (let applies = conditionSatisfied question submitted in
      case jm_get submitted (qr_id question) of
        None \<Rightarrow>
          check_questions L submitted qs
            (if qr_required question \<and> applies then jm_set (qr_id question) REQUIRED faults else faults) ws
      | Some answer \<Rightarrow>
          if \<not> applies
          then check_questions L submitted qs
                 (jm_set (qr_id question) ''not applicable to the other answers given'' faults) ws
          else
            (case checkAnswer L question (ai_value answer) of
               Inl e \<Rightarrow> check_questions L submitted qs (jm_set (qr_id question) e faults) ws
             | Inr w \<Rightarrow> check_questions L submitted qs faults (ws @ [w])))"

definition live_questions :: "question_record list \<Rightarrow> (string, question_record) js_map" where
  "live_questions questions =
     fold (\<lambda>q m. jm_set (qr_id q) q m) (filter (\<lambda>q. qr_archivedAt q = None) questions) []"

definition validateAnswers ::
  "answer_limits \<Rightarrow> question_record list \<Rightarrow> answer_input list \<Rightarrow> error_fields + answer_write list" where
  "validateAnswers L questions answers =
     (let live = live_questions questions;
          (faults, submitted) = indexSubmitted live answers [] [];
          (faults', ws) = check_questions L submitted (map snd live) faults []
      in if length faults' > 0 then Inl faults' else Inr ws)"

subsection \<open>Valid answers, declaratively\<close>

text \<open>The answer given to a question: the one that names it.\<close>

definition answer_to :: "answer_input list \<Rightarrow> string \<Rightarrow> answer_value option" where
  "answer_to answers q = map_option ai_value (find (\<lambda>a. ai_questionId a = q) answers)"

definition shown :: "answer_input list \<Rightarrow> question_record \<Rightarrow> bool" where
  "shown answers q \<longleftrightarrow>
     (\<forall>c. qr_showIf q = Some c \<longrightarrow>
        (case qc_equals c of
           CBool b \<Rightarrow> answer_to answers (qc_questionId c) = Some (ABool b)
         | CText s \<Rightarrow> answer_to answers (qc_questionId c) = Some (AText s) \<or>
             (\<exists>vs. answer_to answers (qc_questionId c) = Some (AList vs) \<and> s \<in> set vs)))"

text \<open>What a question accepts: a text within its limit, an offered option, distinct offered options within
  the limits, a truth value; none of them empty when the question is required.\<close>

fun accepts :: "answer_limits \<Rightarrow> question_record \<Rightarrow> answer_value \<Rightarrow> bool" where
  "accepts L q (AText s) \<longleftrightarrow>
     (qr_kind q = ShortText \<and> length (trim s) \<le> MAX_SHORT_TEXT_ANSWER L \<and> (qr_required q \<longrightarrow> trim s \<noteq> [])) \<or>
     (qr_kind q = LongText \<and> length (trim s) \<le> MAX_LONG_TEXT_ANSWER L \<and> (qr_required q \<longrightarrow> trim s \<noteq> [])) \<or>
     (qr_kind q = SingleSelect \<and> s \<in> qo_value ` set (qr_options q))"
| "accepts L q (AList vs) \<longleftrightarrow>
     qr_kind q = MultiSelect \<and> distinct vs \<and> set vs \<subseteq> qo_value ` set (qr_options q) \<and> length vs \<le> MAX_QUESTION_OPTIONS L \<and>
     (\<forall>n. qr_maxSelections q = Some n \<longrightarrow> length vs \<le> n) \<and> (qr_required q \<longrightarrow> vs \<noteq> [])"
| "accepts L q (ABool b) \<longleftrightarrow> qr_kind q \<in> {Checkbox, Consent} \<and> (qr_required q \<longrightarrow> b)"

fun written :: "question_record \<Rightarrow> answer_value \<Rightarrow> answer_write" where
  "written q (AText s) =
     \<lparr>aw_questionId = qr_id q, aw_valueText = Some (if qr_kind q = SingleSelect then s else trim s), aw_valueJson = None\<rparr>"
| "written q v = \<lparr>aw_questionId = qr_id q, aw_valueText = None, aw_valueJson = Some v\<rparr>"

definition question_ok :: "answer_limits \<Rightarrow> answer_input list \<Rightarrow> question_record \<Rightarrow> bool" where
  "question_ok L answers q \<longleftrightarrow>
     (case answer_to answers (qr_id q) of
        None \<Rightarrow> \<not> (qr_required q \<and> shown answers q)
      | Some v \<Rightarrow> shown answers q \<and> accepts L q v)"

definition valid_answers :: "answer_limits \<Rightarrow> question_record list \<Rightarrow> answer_input list \<Rightarrow> bool" where
  "valid_answers L questions answers \<longleftrightarrow>
     ai_questionId ` set answers \<subseteq> set (jm_keys (live_questions questions)) \<and>
     distinct (map ai_questionId answers) \<and>
     (\<forall>q \<in> set (map snd (live_questions questions)). question_ok L answers q)"

definition writes_of :: "question_record list \<Rightarrow> answer_input list \<Rightarrow> answer_write list" where
  "writes_of qs answers = concat (map (\<lambda>q. case answer_to answers (qr_id q) of None \<Rightarrow> [] | Some v \<Rightarrow> [written q v]) qs)"

lemma checkAnswer_iff: "checkAnswer L q v = Inr w \<longleftrightarrow> accepts L q v \<and> w = written q v"
proof (cases v)
  case (AText s)
  then show ?thesis
    by (cases "qr_kind q") (auto simp: checkAnswer_def checkTextAnswer_def checkSingleSelect_def checkMultiSelect_def
        checkBooleanAnswer_def Let_def list_ex_iff)
next
  case (AList vs)
  have "length (remdups vs) \<noteq> length vs \<longleftrightarrow> \<not> distinct vs"
    using distinct_card [of "remdups vs"] card_length [of vs] by (metis distinct_remdups distinct_remdups_id length_remdups_card_conv card_distinct distinct_card)
  with AList show ?thesis
    by (cases "qr_kind q") (auto simp: checkAnswer_def checkTextAnswer_def checkSingleSelect_def checkMultiSelect_def
        checkBooleanAnswer_def Let_def list_ex_iff split: option.splits)
next
  case (ABool b)
  then show ?thesis
    by (cases "qr_kind q") (auto simp: checkAnswer_def checkTextAnswer_def checkSingleSelect_def checkMultiSelect_def
        checkBooleanAnswer_def Let_def)
qed

lemma checkAnswer_error: "isl (checkAnswer L q v) \<longleftrightarrow> \<not> accepts L q v"
  using checkAnswer_iff [of L q v] by (cases "checkAnswer L q v") auto

text \<open>A recorded error is never taken back.\<close>

lemma update_not_Nil [simp]: "jm_set k v m \<noteq> []"
  by (cases m) auto

lemma index_errors_stay: "fst (indexSubmitted live as f s) = [] \<Longrightarrow> f = []"
  by (induction live as f s rule: indexSubmitted.induct) (auto split: if_splits)

lemma check_errors_stay: "fst (check_questions L sub qs f ws) = [] \<Longrightarrow> f = []"
proof (induction L sub qs f ws rule: check_questions.induct)
  case (2 L sub q qs f ws)
  then show ?case
    by (cases "jm_get sub (qr_id q)"; cases "checkAnswer L q (ai_value (the (jm_get sub (qr_id q))))")
      (auto simp: Let_def split: if_splits)
qed simp

lemma jm_set_new: "jm_get m k = None \<Longrightarrow> jm_set k v m = m @ [(k, v)]"
  by (induction m) (auto split: if_splits)

lemma index_ok:
  "fst (indexSubmitted live as [] s) = [] \<longleftrightarrow>
     ai_questionId ` set as \<subseteq> set (jm_keys live) \<and> distinct (map ai_questionId as) \<and>
     (\<forall>a \<in> set as. jm_get s (ai_questionId a) = None)"
proof (induction as arbitrary: s)
  case (Cons a as)
  have live: "jm_get live k = None \<longleftrightarrow> k \<notin> set (jm_keys live)" for k by (simp add: map_of_eq_None_iff)
  have err: "fst (indexSubmitted live as (jm_set k e []) s) \<noteq> []" for k e
    using index_errors_stay [of live as "jm_set k e []" s] by auto
  show ?case
  proof (cases "jm_get live (ai_questionId a) = None \<or> jm_get s (ai_questionId a) \<noteq> None")
    case True
    then show ?thesis using err live by auto
  next
    case False
    then show ?thesis using live by (auto simp: Cons.IH) (metis imageI)
  qed
qed simp

lemma index_submitted:
  assumes "fst (indexSubmitted live as [] s) = []"
  shows "snd (indexSubmitted live as [] s) = s @ map (\<lambda>a. (ai_questionId a, a)) as"
  using assms
proof (induction as arbitrary: s)
  case (Cons a as)
  have "fst (indexSubmitted live as (jm_set k e []) s) \<noteq> []" for k e
    using index_errors_stay [of live as "jm_set k e []" s] by auto
  with Cons show ?case by (auto simp: jm_set_new split: if_splits)
qed simp

lemma submitted_find: "jm_get (map (\<lambda>a. (ai_questionId a, a)) as) q = find (\<lambda>a. ai_questionId a = q) as"
  by (induction as) auto

lemma conditionSatisfied_iff:
  "conditionSatisfied q (map (\<lambda>a. (ai_questionId a, a)) as) \<longleftrightarrow> shown as q"
  by (auto simp: conditionSatisfied_def shown_def answer_to_def submitted_find
      split: option.splits condition_value.splits answer_value.splits)

lemma check_ok:
  "fst (check_questions L (map (\<lambda>a. (ai_questionId a, a)) as) qs [] ws) = [] \<longleftrightarrow> (\<forall>q \<in> set qs. question_ok L as q)"
proof (induction qs arbitrary: ws)
  case (Cons q qs)
  let ?sub = "map (\<lambda>a. (ai_questionId a, a)) as"
  have err: "fst (check_questions L ?sub qs [(k, e)] ws) \<noteq> []" for k e
    using check_errors_stay [of L ?sub qs "[(k, e)]" ws] by auto
  show ?case
  proof (cases "find (\<lambda>a. ai_questionId a = qr_id q) as")
    case None
    then show ?thesis
      by (auto simp: Let_def submitted_find conditionSatisfied_iff question_ok_def answer_to_def Cons.IH err)
  next
    case (Some a)
    then show ?thesis
      using checkAnswer_error [of L q "ai_value a"]
      by (cases "checkAnswer L q (ai_value a)")
        (auto simp: Let_def submitted_find conditionSatisfied_iff question_ok_def answer_to_def Cons.IH err)
  qed
qed simp

lemma check_writes:
  assumes "\<forall>q \<in> set qs. question_ok L as q"
  shows "snd (check_questions L (map (\<lambda>a. (ai_questionId a, a)) as) qs [] ws) = ws @ writes_of qs as"
  using assms
proof (induction qs arbitrary: ws)
  case Nil
  show ?case by (simp add: writes_of_def)
next
  case (Cons q qs)
  have wo: "writes_of (q # qs) as =
      (case answer_to as (qr_id q) of None \<Rightarrow> [] | Some v \<Rightarrow> [written q v]) @ writes_of qs as"
    by (simp add: writes_of_def)
  show ?case
  proof (cases "find (\<lambda>a. ai_questionId a = qr_id q) as")
    case None
    with Cons show ?thesis
      by (auto simp: wo Let_def submitted_find conditionSatisfied_iff question_ok_def answer_to_def)
  next
    case (Some a)
    with Cons.prems have "checkAnswer L q (ai_value a) = Inr (written q (ai_value a))" "shown as q"
      by (auto simp: question_ok_def answer_to_def checkAnswer_iff)
    with Some Cons show ?thesis
      by (simp add: wo Let_def submitted_find conditionSatisfied_iff answer_to_def)
  qed
qed

text \<open>
  C37: Answers pass the check exactly when they are valid: each names a different live question, none is given
  to a question its condition hides, every required question that is shown is answered, and every answer is
  one its question accepts.  What is then written is one row for each answered question, in the order of the
  questions.
\<close>

theorem validateAnswers_equiv:
  "validateAnswers L questions answers = Inr ws \<longleftrightarrow>
     valid_answers L questions answers \<and> ws = writes_of (map snd (live_questions questions)) answers"
proof -
  let ?live = "live_questions questions" and ?sub = "map (\<lambda>a. (ai_questionId a, a)) answers"
  obtain f s where idx: "indexSubmitted ?live answers [] [] = (f, s)" by (rule prod.exhaust)
  obtain f' ws' where chk: "check_questions L s (map snd ?live) f [] = (f', ws')" by (rule prod.exhaust)
  have result: "validateAnswers L questions answers = Inr ws \<longleftrightarrow> f' = [] \<and> ws = ws'"
    by (auto simp: validateAnswers_def Let_def idx chk)
  have stay: "f' = [] \<Longrightarrow> f = []" using check_errors_stay [of L s "map snd ?live" f "[]"] by (simp add: chk)
  show ?thesis
  proof (cases "f = []")
    case True
    then have s: "s = ?sub" using index_submitted [of ?live answers "[]"] by (simp add: idx)
    have "ai_questionId ` set answers \<subseteq> set (jm_keys ?live) \<and> distinct (map ai_questionId answers)"
      using index_ok [of ?live answers "[]"] True by (simp add: idx)
    moreover have "f' = [] \<longleftrightarrow> (\<forall>q \<in> set (map snd ?live). question_ok L answers q)"
      using check_ok [of L answers "map snd ?live" "[]"] chk True s by simp
    ultimately have valid: "f' = [] \<longleftrightarrow> valid_answers L questions answers" unfolding valid_answers_def by blast
    have "ws' = writes_of (map snd ?live) answers" if "valid_answers L questions answers"
      using check_writes [of "map snd ?live" L answers "[]"] that chk True s by (simp add: valid_answers_def)
    with valid result show ?thesis by blast
  next
    case False
    then have "\<not> valid_answers L questions answers"
      using index_ok [of ?live answers "[]"] by (auto simp: idx valid_answers_def)
    with False stay result show ?thesis by blast
  qed
qed

end
