(* ===== verification/Ticket_Token.thy ===== *)
theory Ticket_Token
  imports Anon_Token "HOL-Library.Word"
begin

unbundle bit_operations_syntax

section \<open>Ticket tokens (\<open>services/host/ticket-token.ts\<close>)\<close>

text \<open>
  The base-32 text of a seat's HMAC.  The encoder keeps its bits in a JavaScript number under the bitwise
  operators, which work on 32-bit two's complement words: the high bits of earlier bytes are shifted out.  It
  is equal to the plain definition by groups of five bits.  HMAC-SHA256 and SHA-256 are parameters.
\<close>

definition BASE32_ALPHABET :: string where "BASE32_ALPHABET = ''ABCDEFGHIJKLMNOPQRSTUVWXYZ234567''"
definition BITS_PER_BYTE :: nat where "BITS_PER_BYTE = 8"
definition BASE32_BITS :: nat where "BASE32_BITS = 5"
definition BASE32_MASK :: "32 word" where "BASE32_MASK = word_of_nat (length BASE32_ALPHABET - 1)"

text \<open>\<open>BASE32_ALPHABET.charAt(w)\<close>: empty out of range.\<close>

definition charAt :: "32 word \<Rightarrow> string" where
  "charAt w = (if unat w < length BASE32_ALPHABET then [BASE32_ALPHABET ! unat w] else [])"

fun base32_emit :: "32 word \<Rightarrow> nat \<Rightarrow> string \<Rightarrow> nat \<times> string" where
  "base32_emit buffer bits out =
     (if bits \<ge> BASE32_BITS \<and> BASE32_BITS > 0
      then base32_emit buffer (bits - BASE32_BITS)
             (out @ charAt (signed_drop_bit (bits - BASE32_BITS) buffer AND BASE32_MASK))
      else (bits, out))"

declare base32_emit.simps [simp del]

fun base32_loop :: "8 word list \<Rightarrow> 32 word \<Rightarrow> nat \<Rightarrow> string \<Rightarrow> string" where
  "base32_loop [] buffer bits out =
     (if bits > 0 then out @ charAt (push_bit (BASE32_BITS - bits) buffer AND BASE32_MASK) else out)"
| "base32_loop (byte # bytes) buffer bits out =
     (let buffer' = push_bit BITS_PER_BYTE buffer OR ucast byte;
          (bits', out') = base32_emit buffer' (bits + BITS_PER_BYTE) out
      in base32_loop bytes buffer' bits' out')"

definition base32 :: "8 word list \<Rightarrow> string" where
  "base32 bytes = base32_loop bytes 0 0 []"








definition makeTicketTokenSigner :: "string \<Rightarrow> ('w, unit) prog" where
  "makeTicketTokenSigner secret =
     (if length secret = 0 then raise (PlainError ''ticket tokens: TICKET_TOKEN_SECRET is empty'') else ret ())"

subsection \<open>Base 32 by groups of five bits\<close>

definition byte_bits :: "8 word \<Rightarrow> bool list" where
  "byte_bits b = map (bit b) (rev [0..<8])"

definition group_char :: "bool list \<Rightarrow> char" where
  "group_char g = BASE32_ALPHABET ! horner_sum of_bool 2 (rev g)"

fun groups5 :: "bool list \<Rightarrow> bool list list" where
  "groups5 bs = (if bs = [] then [] else take 5 (bs @ replicate (5 - length bs) False) # groups5 (drop 5 bs))"

declare groups5.simps [simp del]

definition base32_ref :: "8 word list \<Rightarrow> string" where
  "base32_ref bytes = map group_char (groups5 (concat (map byte_bits bytes)))"

lemma groups5_Nil [simp]: "groups5 [] = []"
  by (simp add: groups5.simps)

lemma groups5_cut: "5 \<le> length bs \<Longrightarrow> groups5 bs = take 5 bs # groups5 (drop 5 bs)"
  by (subst groups5.simps) auto

lemma groups5_short: "bs \<noteq> [] \<Longrightarrow> length bs < 5 \<Longrightarrow> groups5 bs = [bs @ replicate (5 - length bs) False]"
  by (subst groups5.simps) simp

text \<open>The low bits of a word, as the pending bits they stand for.\<close>

definition holds_bits :: "32 word \<Rightarrow> bool list \<Rightarrow> bool" where
  "holds_bits w p \<longleftrightarrow> (\<forall>i < length p. bit w i = rev p ! i)"

lemma mask_31: "bit (BASE32_MASK) i \<longleftrightarrow> i < 5"
proof -
  have "BASE32_MASK = mask 5" by (simp add: BASE32_MASK_def BASE32_ALPHABET_def mask_eq_decr_exp)
  then show ?thesis unfolding \<open>BASE32_MASK = mask 5\<close> bit_mask_iff by auto
qed

lemma charAt_group:
  assumes "length g = 5" "\<And>i. i < 5 \<Longrightarrow> bit w i = rev g ! i" "\<And>i. 5 \<le> i \<Longrightarrow> \<not> bit w i"
  shows "charAt w = [group_char g]"
proof -
  have "take_bit 5 (unat w) = unat w"
    using assms(3) by (intro bit_eqI) (auto simp: bit_take_bit_iff bit_unsigned_iff; metis not_le)
  moreover have "map (bit (unat w)) [0..<5] = rev g"
    using assms(1,2) by (intro nth_equalityI) (auto simp: bit_unsigned_iff)
  ultimately have eq: "unat w = horner_sum of_bool 2 (rev g)"
    using horner_sum_bit_eq_take_bit [of "unat w" 5] by simp
  have "unat w < 32" using \<open>take_bit 5 (unat w) = unat w\<close> take_bit_nat_less_exp [of 5 "unat w"] by simp
  with eq show ?thesis by (simp add: charAt_def group_char_def BASE32_ALPHABET_def)
qed

lemma holds_suffix: "holds_bits w (a @ b) \<Longrightarrow> holds_bits w b"
  unfolding holds_bits_def by (metis length_append length_rev nth_append rev_append trans_less_add2)

lemma holds_byte:
  assumes "holds_bits w p" "length p + 8 \<le> 32"
  shows "holds_bits (push_bit 8 w OR ucast b) (p @ byte_bits b)"
  unfolding holds_bits_def
proof (intro allI impI)
  fix i assume "i < length (p @ byte_bits b)"
  then have i: "i < length p + 8" by (simp add: byte_bits_def)
  have rev: "rev (p @ byte_bits b) = map (bit b) [0..<8] @ rev p" by (simp add: byte_bits_def rev_map)
  show "bit (push_bit 8 w OR ucast b) i = rev (p @ byte_bits b) ! i"
  proof (cases "i < 8")
    case True
    then show ?thesis unfolding rev by (simp add: nth_append bit_or_iff bit_push_bit_iff bit_unsigned_iff)
  next
    case False
    then have "bit w (i - 8) = rev p ! (i - 8)" using assms(1) i by (auto simp: holds_bits_def)
    moreover have "\<not> bit b i" using False bit_imp_le_length [of b i] by auto
    ultimately show ?thesis
      unfolding rev using False i assms(2) by (simp add: nth_append bit_or_iff bit_push_bit_iff bit_unsigned_iff)
  qed
qed

text \<open>The full groups of a list of bits, and the bits left over.\<close>

fun full5 :: "bool list \<Rightarrow> bool list list \<times> bool list" where
  "full5 p = (if 5 \<le> length p then (case full5 (drop 5 p) of (gs, r) \<Rightarrow> (take 5 p # gs, r)) else ([], p))"

declare full5.simps [simp del]

lemma full5_cut: "5 \<le> length p \<Longrightarrow> full5 p = (take 5 p # fst (full5 (drop 5 p)), snd (full5 (drop 5 p)))"
  by (subst full5.simps) (simp add: split_beta)

lemma full5_short: "length p < 5 \<Longrightarrow> full5 p = ([], p)"
  by (subst full5.simps) simp

lemma full5_rest: "length (snd (full5 p)) < 5 \<and> (\<exists>a. p = a @ snd (full5 p))"
proof (induction p rule: full5.induct)
  case (1 p)
  show ?case
  proof (cases "5 \<le> length p")
    case True
    with 1 obtain a where "length (snd (full5 (drop 5 p))) < 5" "drop 5 p = a @ snd (full5 (drop 5 p))" by blast
    then have "p = (take 5 p @ a) @ snd (full5 p)"
      unfolding full5_cut [OF True] by (metis append.assoc append_take_drop_id snd_conv)
    with \<open>length (snd (full5 (drop 5 p))) < 5\<close> True show ?thesis by (metis full5_cut snd_conv)
  qed (auto simp: full5_short)
qed

lemma groups5_full: "groups5 (p @ q) = fst (full5 p) @ groups5 (snd (full5 p) @ q)"
proof (induction p rule: full5.induct)
  case (1 p)
  show ?case
  proof (cases "5 \<le> length p")
    case True
    with 1 have "groups5 (drop 5 p @ q) = fst (full5 (drop 5 p)) @ groups5 (snd (full5 (drop 5 p)) @ q)" by blast
    with True show ?thesis by (simp add: groups5_cut full5_cut)
  qed (simp add: full5_short)
qed

lemma emit_full:
  assumes "holds_bits w p" "length p \<le> 32"
  shows "base32_emit w (length p) out = (length (snd (full5 p)), out @ map group_char (fst (full5 p)))"
  using assms
proof (induction p arbitrary: out rule: full5.induct)
  case (1 p)
  show ?case
  proof (cases "5 \<le> length p")
    case True
    let ?c = "signed_drop_bit (length p - 5) w AND BASE32_MASK"
    have rev: "rev p = rev (drop 5 p) @ rev (take 5 p)" by (metis append_take_drop_id rev_append)
    have "charAt ?c = [group_char (take 5 p)]"
    proof (rule charAt_group)
      fix i :: nat assume "i < 5"
      then have "bit ?c i = bit w (length p - 5 + i)"
        using True "1.prems"(2) by (auto simp: bit_and_iff bit_signed_drop_bit_iff mask_31)
      also have "\<dots> = rev p ! (length p - 5 + i)"
        using "1.prems"(1) True \<open>i < 5\<close> by (simp add: holds_bits_def)
      finally show "bit ?c i = rev (take 5 p) ! i" by (simp add: rev nth_append)
    qed (use True in \<open>auto simp: bit_and_iff mask_31\<close>)
    moreover have "holds_bits w (drop 5 p)" using holds_suffix [of w "take 5 p" "drop 5 p"] "1.prems"(1) by simp
    moreover have "base32_emit w (length p) out = base32_emit w (length (drop 5 p)) (out @ charAt ?c)"
      using True by (subst base32_emit.simps) (simp add: BASE32_BITS_def)
    ultimately show ?thesis using "1.IH" [OF True] "1.prems"(2) by (simp add: full5_cut [OF True])
  next
    case False
    then show ?thesis by (subst base32_emit.simps) (simp add: BASE32_BITS_def full5_short)
  qed
qed

lemma emit_last:
  assumes "holds_bits w p" "p \<noteq> []" "length p < 5"
  shows "charAt (push_bit (BASE32_BITS - length p) w AND BASE32_MASK) = map group_char (groups5 p)"
proof -
  let ?g = "p @ replicate (5 - length p) False" and ?c = "push_bit (5 - length p) w AND BASE32_MASK"
  have "charAt ?c = [group_char ?g]"
  proof (rule charAt_group)
    fix i :: nat assume "i < 5"
    moreover have "rev ?g = replicate (5 - length p) False @ rev p" by simp
    moreover have "bit w (i - (5 - length p)) = rev p ! (i - (5 - length p))" if "5 - length p \<le> i"
      using assms(1) that \<open>i < 5\<close> assms(3) by (auto simp: holds_bits_def)
    ultimately show "bit ?c i = rev ?g ! i"
      by (auto simp: bit_and_iff bit_push_bit_iff mask_31 nth_append not_less)
  qed (use assms(3) in \<open>auto simp: bit_and_iff mask_31\<close>)
  with assms(2,3) show ?thesis by (simp add: groups5_short BASE32_BITS_def)
qed

lemma base32_loop_ref:
  assumes "holds_bits w p" "length p < 5"
  shows "base32_loop bytes w (length p) out = out @ map group_char (groups5 (p @ concat (map byte_bits bytes)))"
  using assms
proof (induction bytes arbitrary: w p out)
  case Nil
  then show ?case by (cases "p = []") (simp_all add: emit_last)
next
  case (Cons b bytes)
  let ?w = "push_bit 8 w OR ucast b" and ?q = "p @ byte_bits b"
  have len: "length ?q = length p + 8" by (simp add: byte_bits_def)
  have hold: "holds_bits ?w ?q" using Cons.prems by (intro holds_byte) auto
  have emit: "base32_emit ?w (length p + 8) out = (length (snd (full5 ?q)), out @ map group_char (fst (full5 ?q)))"
    using emit_full [OF hold] Cons.prems(2) len by simp
  obtain a where "?q = a @ snd (full5 ?q)" using full5_rest [of ?q] by blast
  then have "holds_bits ?w (snd (full5 ?q))" using hold holds_suffix [of ?w a "snd (full5 ?q)"] by simp
  then have "base32_loop bytes ?w (length (snd (full5 ?q))) (out @ map group_char (fst (full5 ?q))) =
      out @ map group_char (fst (full5 ?q)) @ map group_char (groups5 (snd (full5 ?q) @ concat (map byte_bits bytes)))"
    using Cons.IH full5_rest [of ?q] by simp
  then show ?case
    using groups5_full [of ?q "concat (map byte_bits bytes)"] by (simp add: emit BITS_PER_BYTE_def)
qed

lemma base32_is_ref: "base32 bytes = base32_ref bytes"
  using base32_loop_ref [of 0 "[]" bytes "[]"] by (simp add: base32_def base32_ref_def holds_bits_def)

subsection \<open>Tokens\<close>


lemma length_groups5: "length (groups5 bs) = (length bs + 4) div 5"
proof (induction bs rule: groups5.induct)
  case (1 bs)
  show ?case
  proof (cases "length bs < 5")
    case True
    then have "bs \<noteq> [] \<Longrightarrow> (length bs + 4) div 5 = 1" by (cases bs) (auto intro!: div_nat_eqI)
    with True show ?thesis by (cases "bs = []") (simp_all add: groups5_short)
  next
    case False
    then have "bs \<noteq> []" by auto
    with False have "length (groups5 bs) = Suc ((length bs - 5 + 4) div 5)" using 1 by (simp add: groups5_cut)
    also have "\<dots> = (length bs + 4) div 5" using False by (simp add: div_add_self2 [of 5 "length bs - 5 + 4", symmetric])
    finally show ?thesis .
  qed
qed


lemma length_bits: "length (concat (map byte_bits bytes)) = 8 * length bytes"
  by (induction bytes) (simp_all add: byte_bits_def)









text \<open>
  C38: The base-32 encoder, whose bit buffer overflows its 32 bits, yields on every input the letters of the
  five-bit groups of the input's bits, the last group filled with zeros.
\<close>

theorem base32_equiv:
  "base32 bytes = base32_ref bytes \<and> length (base32 bytes) = (8 * length bytes + 4) div 5"
  by (simp add: base32_is_ref base32_ref_def length_groups5 length_bits)




end
