(* ===== verification/Filing_Repository.thy ===== *)
theory Filing_Repository
  imports Prelude Complex_Main "HOL-Library.List_Lexorder" "HOL-Library.Char_ord" "HOL-Library.Product_Lexorder"
    "HOL-Library.Option_ord"
begin

section \<open>City filings: the tables and their queries (\<open>services/filings/\<close>)\<close>

text \<open>
  Where a report was filed with its city.  The types of \<open>filing-types.ts\<close>, and the queries of
  \<open>filing-repository.drizzle.ts\<close>, \<open>filing-reopen.drizzle.ts\<close> and \<open>filing-ingest-sql.drizzle.ts\<close> as operations on
  tables of rows: an \<open>UPDATE ... WHERE\<close> is a guarded write, a transaction is one step, and a write that would
  give a report two active filings is refused by the partial unique index \<open>report_filings_active_report_key\<close>.
  \<open>now()\<close> is the clock of the world; \<open>gen_random_uuid()\<close> is a parameter that is given the number of identifiers
  drawn before.  The keyset page (\<open>list\<close>) and the health of routes (\<open>routeHealth\<close>) are not modelled.
\<close>

datatype filing_channel = Email | Portal | Manual

datatype filing_status = Queued | Running | Submitted | Linked_existing | Needs_human | Cancelled

datatype filing_method = By_email | By_script | By_operator

datatype filing_reason =
    No_route | Route_disabled | Manual_route | Filing_off | Dry_run | Captcha | Login_required | Missing_info
  | Portal_error | Attempts_exhausted | Uncertain_submission | Ai_unavailable | City_needs_info
  | Reopened_after_city_closed | Other_reason

datatype evidence_kind = Screenshot | Script

datatype report_status = RSubmitted | RHeld | RPublished | RAcknowledged | RIn_progress | RResolved | RRejected

datatype timeline_kind = TRoute | TReply | TStatus | TDone

definition ACTIVE_FILING_STATUSES :: "filing_status list" where
  "ACTIVE_FILING_STATUSES = [Queued, Running, Needs_human]"

definition SUCCESSFUL_FILING_STATUSES :: "filing_status list" where
  "SUCCESSFUL_FILING_STATUSES = [Submitted, Linked_existing]"

definition FILING_DUE_MAX_LIMIT :: nat where "FILING_DUE_MAX_LIMIT = 100"
definition FILING_RUNNING_MAX :: nat where "FILING_RUNNING_MAX = 100"
definition FILING_EVIDENCE_MAX :: nat where "FILING_EVIDENCE_MAX = 50"
definition FILING_ROUTES_MAX :: nat where "FILING_ROUTES_MAX = 16"
definition FILING_REPORT_IDS_MAX :: nat where "FILING_REPORT_IDS_MAX = 100"
definition FILING_CASE_TOKENS_MAX :: nat where "FILING_CASE_TOKENS_MAX = 500"
definition FILING_REASON_DETAIL_MAX :: nat where "FILING_REASON_DETAIL_MAX = 500"
definition FILING_CASE_MATCH_MAX :: nat where "FILING_CASE_MATCH_MAX = 50"
definition FILING_CASE_WINDOW_DAYS :: int where "FILING_CASE_WINDOW_DAYS = 180"
definition MS_PER_DAY :: int where "MS_PER_DAY = 86400000"

record filing_record =
  f_id :: string
  f_reportId :: string
  f_geoid :: "string option"
  f_jurisdictionName :: "string option"
  f_category :: string
  f_routeCategory :: "string option"
  f_channel :: "filing_channel option"
  f_portalHost :: "string option"
  f_formUrl :: "string option"
  f_status :: filing_status
  f_method :: "filing_method option"
  f_reason :: "filing_reason option"
  f_reasonDetail :: "string option"
  f_caseId :: "string option"
  f_caseUrl :: "string option"
  f_cityClosedAt :: "int option"
  f_attempts :: int
  f_runId :: "string option"
  f_nextAttemptAt :: "int option"
  f_aiWaitSince :: "int option"
  f_scriptVersion :: "string option"
  f_dryRun :: bool
  f_ticketText :: string
  f_note :: "string option"
  f_mailThreadId :: "string option"
  f_createdBy :: "string option"
  f_createdAt :: int
  f_updatedAt :: int
  f_submittedAt :: "int option"

text \<open>\<open>Partial<FilingMutableFields>\<close> as the list of its assignments; a spread is an append, the later one wins.\<close>

datatype filing_assign =
    Set_geoid "string option" | Set_category string | Set_routeCategory "string option"
  | Set_channel "filing_channel option" | Set_portalHost "string option" | Set_formUrl "string option"
  | Set_status filing_status | Set_method "filing_method option" | Set_reason "filing_reason option"
  | Set_reasonDetail "string option" | Set_caseId "string option" | Set_caseUrl "string option"
  | Set_cityClosedAt "int option" | Set_attempts int | Set_runId "string option"
  | Set_nextAttemptAt "int option" | Set_aiWaitSince "int option" | Set_scriptVersion "string option"
  | Set_dryRun bool | Set_ticketText string | Set_note "string option" | Set_mailThreadId "string option"

type_synonym filing_set = "filing_assign list"

fun assign :: "filing_assign \<Rightarrow> filing_record \<Rightarrow> filing_record" where
  "assign (Set_geoid x) f = f\<lparr>f_geoid := x\<rparr>"
| "assign (Set_category x) f = f\<lparr>f_category := x\<rparr>"
| "assign (Set_routeCategory x) f = f\<lparr>f_routeCategory := x\<rparr>"
| "assign (Set_channel x) f = f\<lparr>f_channel := x\<rparr>"
| "assign (Set_portalHost x) f = f\<lparr>f_portalHost := x\<rparr>"
| "assign (Set_formUrl x) f = f\<lparr>f_formUrl := x\<rparr>"
| "assign (Set_status x) f = f\<lparr>f_status := x\<rparr>"
| "assign (Set_method x) f = f\<lparr>f_method := x\<rparr>"
| "assign (Set_reason x) f = f\<lparr>f_reason := x\<rparr>"
| "assign (Set_reasonDetail x) f = f\<lparr>f_reasonDetail := x\<rparr>"
| "assign (Set_caseId x) f = f\<lparr>f_caseId := x\<rparr>"
| "assign (Set_caseUrl x) f = f\<lparr>f_caseUrl := x\<rparr>"
| "assign (Set_cityClosedAt x) f = f\<lparr>f_cityClosedAt := x\<rparr>"
| "assign (Set_attempts x) f = f\<lparr>f_attempts := x\<rparr>"
| "assign (Set_runId x) f = f\<lparr>f_runId := x\<rparr>"
| "assign (Set_nextAttemptAt x) f = f\<lparr>f_nextAttemptAt := x\<rparr>"
| "assign (Set_aiWaitSince x) f = f\<lparr>f_aiWaitSince := x\<rparr>"
| "assign (Set_scriptVersion x) f = f\<lparr>f_scriptVersion := x\<rparr>"
| "assign (Set_dryRun x) f = f\<lparr>f_dryRun := x\<rparr>"
| "assign (Set_ticketText x) f = f\<lparr>f_ticketText := x\<rparr>"
| "assign (Set_note x) f = f\<lparr>f_note := x\<rparr>"
| "assign (Set_mailThreadId x) f = f\<lparr>f_mailThreadId := x\<rparr>"

definition setList :: "int \<Rightarrow> filing_set \<Rightarrow> filing_record \<Rightarrow> filing_record" where
  "setList now assigns f = fold assign assigns (f\<lparr>f_updatedAt := now\<rparr>)"

record create_filing_input =
  cf_reportId :: string
  cf_geoid :: "string option"
  cf_category :: string
  cf_routeCategory :: "string option"
  cf_channel :: "filing_channel option"
  cf_portalHost :: "string option"
  cf_formUrl :: "string option"
  cf_status :: filing_status
  cf_method :: "filing_method option"
  cf_reason :: "filing_reason option"
  cf_reasonDetail :: "string option"
  cf_caseId :: "string option"
  cf_caseUrl :: "string option"
  cf_ticketText :: string
  cf_note :: "string option"
  cf_mailThreadId :: "string option"
  cf_createdBy :: "string option"

datatype create_filing_result = Created filing_record | Active_exists

record evidence_input =
  ei_r2Key :: string
  ei_kind :: evidence_kind
  ei_label :: "string option"

record evidence_record =
  ev_id :: string
  ev_filingId :: string
  ev_r2Key :: string
  ev_kind :: evidence_kind
  ev_label :: "string option"
  ev_createdAt :: int

record write_audit =
  wa_actorId :: "string option"
  wa_action :: string
  wa_target :: "string option"
  wa_note :: "string option"

record transition_input =
  ti_from :: "filing_status list"
  ti_attempts :: "int option"
  ti_runId :: "string option"
  ti_set :: filing_set
  ti_audit :: "write_audit option"
  ti_evidence :: "evidence_input list"

record success_guard =
  sg_status :: "filing_status list"
  sg_attempts :: "int option"
  sg_runId :: "string option"
  sg_reason :: "filing_reason option"

text \<open>The filing a success is recorded on: an existing one under a guard, or a new one.\<close>

datatype success_target = Existing string success_guard | New create_filing_input

text \<open>An outer \<^const>\<open>None\<close> leaves the column as it is.\<close>

record record_success_input =
  rs_target :: success_target
  rs_outcome :: filing_status
  rs_method :: filing_method
  rs_caseId :: "string option option"
  rs_caseUrl :: "string option option"
  rs_mailThreadId :: "string option option"
  rs_scriptVersion :: "string option option"
  rs_dryRun :: "bool option"
  rs_note :: string
  rs_actorId :: "string option"
  rs_audit :: "write_audit option"
  rs_evidence :: "evidence_input list"

record record_success_result =
  rr_filing :: filing_record
  rr_reportChanged :: bool

record latest_successful = 
  ls_filing :: filing_record
  ls_mailBounced :: bool

record running_filing =
  rf_id :: string
  rf_attempts :: int
  rf_runId :: "string option"

record filing_route_record =
  ro_geoid :: string
  ro_category :: "string option"
  ro_channel :: filing_channel
  ro_formUrl :: "string option"
  ro_requestTypeHint :: "string option"
  ro_includeLink :: bool
  ro_statusSenderDomains :: "string list"
  ro_enabled :: bool
  ro_updatedAt :: int
  ro_updatedBy :: "string option"

record filing_settings_record =
  fs_paused :: bool
  fs_updatedAt :: int
  fs_updatedBy :: "string option"

datatype classification_status = C_received | C_in_progress | C_closed | C_needs_info | C_other

record filing_classification =
  fc_caseId :: "string option"
  fc_status :: classification_status
  fc_summary :: string
  fc_confidence :: rat

record filing_message =
  fm_id :: string
  fm_filingId :: string
  fm_inboundEmailId :: "string option"
  fm_mailMessageId :: "string option"
  fm_trusted :: bool
  fm_flagged :: bool
  fm_classification :: "filing_classification option"
  fm_summary :: "string option"
  fm_appliedAt :: "int option"
  fm_createdAt :: int

record report_row =
  r_id :: string
  r_category :: string
  r_status :: report_status
  r_public :: bool
  r_title :: string
  r_desc :: string
  r_referenceCode :: "string option"
  r_reporterId :: "string option"
  r_verdict :: "bool option"  \<comment> \<open>\<open>Some True\<close> approved, \<open>Some False\<close> rejected\<close>
  r_deletedAt :: "int option"

record timeline_row =
  t_reportId :: string
  t_status :: report_status
  t_note :: string
  t_kind :: timeline_kind
  t_actorId :: "string option"

record routing_record =
  ru_geoid :: "string option"
  ru_place :: string
  ru_contact :: "string option"

record filing_world = clock_world +
  w_filings :: "filing_record list"
  w_reports :: "report_row list"
  w_jurisdictions :: "(string, string) js_map"
  w_routing :: "(string, routing_record) js_map"
  w_timeline :: "timeline_row list"
  w_evidence :: "evidence_record list"
  w_audit :: "write_audit list"
  w_routes :: "filing_route_record list"
  w_settings :: "filing_settings_record option"
  w_messages :: "filing_message list"
  w_bouncedThreads :: "string list"
  w_drawn :: nat

subsection \<open>Reading filings\<close>

definition active :: "filing_record \<Rightarrow> bool" where
  "active f \<longleftrightarrow> f_status f \<in> set ACTIVE_FILING_STATUSES"

definition successful :: "filing_record \<Rightarrow> bool" where
  "successful f \<longleftrightarrow> f_status f \<in> set SUCCESSFUL_FILING_STATUSES"

text \<open>\<open>LEFT JOIN jurisdictions\<close>.\<close>

definition toFiling :: "'w filing_world_scheme \<Rightarrow> filing_record \<Rightarrow> filing_record" where
  "toFiling w f = f\<lparr>f_jurisdictionName := Option.bind (f_geoid f) (jm_get (w_jurisdictions w))\<rparr>"

definition oneFiling ::
  "(filing_record \<Rightarrow> bool) \<Rightarrow> ('w filing_world_scheme, filing_record option) prog" where
  "oneFiling P = reads (\<lambda>w. map_option (toFiling w) (find P (w_filings w)))"

definition getById :: "string \<Rightarrow> ('w filing_world_scheme, filing_record option) prog" where
  "getById i = oneFiling (\<lambda>f. f_id f = i)"

definition getActiveForReport :: "string \<Rightarrow> ('w filing_world_scheme, filing_record option) prog" where
  "getActiveForReport reportId = oneFiling (\<lambda>f. f_reportId f = reportId \<and> active f)"

text \<open>\<open>ORDER BY key DESC, id DESC LIMIT 1\<close>; an absent key comes last.\<close>

definition latest_by :: "(filing_record \<Rightarrow> int option) \<Rightarrow> filing_record list \<Rightarrow> filing_record option" where
  "latest_by key fs = (case rev (sort_key (\<lambda>f. (key f, f_id f)) fs) of [] \<Rightarrow> None | f # _ \<Rightarrow> Some f)"

definition getLatestForReport :: "string \<Rightarrow> ('w filing_world_scheme, filing_record option) prog" where
  "getLatestForReport reportId = reads (\<lambda>w.
     map_option (toFiling w) (latest_by (\<lambda>f. Some (f_createdAt f)) (filter (\<lambda>f. f_reportId f = reportId) (w_filings w))))"

definition getLatestByMailThread :: "string \<Rightarrow> ('w filing_world_scheme, filing_record option) prog" where
  "getLatestByMailThread threadId = reads (\<lambda>w.
     map_option (toFiling w)
       (latest_by (\<lambda>f. Some (f_createdAt f)) (filter (\<lambda>f. f_mailThreadId f = Some threadId) (w_filings w))))"

definition latest_success :: "string \<Rightarrow> filing_record list \<Rightarrow> filing_record option" where
  "latest_success reportId fs = latest_by f_submittedAt (filter (\<lambda>f. f_reportId f = reportId \<and> successful f) fs)"

definition mail_bounced :: "'w filing_world_scheme \<Rightarrow> filing_record \<Rightarrow> bool" where
  "mail_bounced w f \<longleftrightarrow> f_status f = Submitted \<and>
     (case f_mailThreadId f of None \<Rightarrow> False | Some t \<Rightarrow> t \<in> set (w_bouncedThreads w))"

definition getLatestSuccessfulForReport ::
  "string \<Rightarrow> ('w filing_world_scheme, latest_successful option) prog" where
  "getLatestSuccessfulForReport reportId = reads (\<lambda>w.
     map_option (\<lambda>f. \<lparr>ls_filing = toFiling w f, ls_mailBounced = mail_bounced w f\<rparr>)
       (latest_success reportId (w_filings w)))"

text \<open>\<open>DISTINCT ON (report_id)\<close>, in the order of report ids.\<close>

definition getLatestSuccessfulForReports ::
  "string list \<Rightarrow> ('w filing_world_scheme, filing_record list) prog" where
  "getLatestSuccessfulForReports reportIds =
     (if length reportIds > FILING_REPORT_IDS_MAX
      then raise (PlainError (''getLatestSuccessfulForReports: over '' @ string_of_nat FILING_REPORT_IDS_MAX @ '' report ids''))
      else if reportIds = [] then ret []
      else reads (\<lambda>w. take FILING_REPORT_IDS_MAX
             (map (toFiling w) (List.map_filter (\<lambda>i. latest_success i (w_filings w)) (sort (remdups reportIds))))))"

definition countGroups :: "('w filing_world_scheme, nat \<times> nat) prog" where
  "countGroups = reads (\<lambda>w.
     (length (filter (\<lambda>f. f_status f = Needs_human) (w_filings w)),
      length (filter (\<lambda>f. f_status f = Queued \<or> f_status f = Running) (w_filings w))))"

definition clampPageLimit :: "nat \<Rightarrow> nat \<Rightarrow> nat" where
  "clampPageLimit limit cap = min (max 1 limit) cap"

definition listDueQueued ::
  "int \<Rightarrow> int option \<Rightarrow> filing_channel list \<Rightarrow> nat \<Rightarrow> ('w filing_world_scheme, filing_record list) prog" where
  "listDueQueued now updatedBefore channels limit = reads (\<lambda>w.
     map (toFiling w) (take (clampPageLimit limit FILING_DUE_MAX_LIMIT)
       (sort_key (\<lambda>f. (f_createdAt f, f_id f)) (filter (\<lambda>f.
          f_status f = Queued
          \<and> (case f_nextAttemptAt f of None \<Rightarrow> True | Some t \<Rightarrow> t \<le> now)
          \<and> (case updatedBefore of None \<Rightarrow> True | Some t \<Rightarrow> f_updatedAt f \<le> t)
          \<and> (case f_channel f of None \<Rightarrow> False | Some c \<Rightarrow> c \<in> set channels)) (w_filings w)))))"

definition listStaleRunningEmail ::
  "int \<Rightarrow> nat \<Rightarrow> ('w filing_world_scheme, filing_record list) prog" where
  "listStaleRunningEmail updatedBefore limit = reads (\<lambda>w.
     map (toFiling w) (take (clampPageLimit limit FILING_DUE_MAX_LIMIT)
       (sort_key (\<lambda>f. (f_updatedAt f, f_id f)) (filter (\<lambda>f.
          f_status f = Running \<and> f_channel f = Some Email \<and> f_updatedAt f < updatedBefore) (w_filings w)))))"

definition listRunningFilings :: "('w filing_world_scheme, running_filing list) prog" where
  "listRunningFilings = reads (\<lambda>w.
     map (\<lambda>f. \<lparr>rf_id = f_id f, rf_attempts = f_attempts f, rf_runId = f_runId f\<rparr>)
       (take FILING_RUNNING_MAX (sort_key (\<lambda>f. (f_updatedAt f, f_id f))
          (filter (\<lambda>f. f_status f = Running \<and> f_channel f = Some Portal) (w_filings w)))))"

definition listEvidence :: "string \<Rightarrow> ('w filing_world_scheme, evidence_record list) prog" where
  "listEvidence filingId = reads (\<lambda>w. take FILING_EVIDENCE_MAX
     (sort_key (\<lambda>e. (ev_createdAt e, ev_id e)) (filter (\<lambda>e. ev_filingId e = filingId) (w_evidence w))))"

definition findByCaseIds :: "string list \<Rightarrow> ('w filing_world_scheme, filing_record list) prog" where
  "findByCaseIds tokens =
     (if length tokens > FILING_CASE_TOKENS_MAX
      then raise (PlainError (''findByCaseIds: over '' @ string_of_nat FILING_CASE_TOKENS_MAX @ '' tokens''))
      else if tokens = [] then ret []
      else reads (\<lambda>w. map (toFiling w) (take FILING_CASE_MATCH_MAX
             (rev (sort_key (\<lambda>f. (f_submittedAt f, f_id f)) (filter (\<lambda>f.
                (case f_caseId f of None \<Rightarrow> False | Some c \<Rightarrow> c \<in> set tokens) \<and> successful f
                \<and> (case f_submittedAt f of None \<Rightarrow> False
                    | Some t \<Rightarrow> t \<ge> clock w - FILING_CASE_WINDOW_DAYS * MS_PER_DAY)) (w_filings w)))))))"

subsection \<open>Writing filings\<close>

text \<open>The partial unique index: no report has two active filings.\<close>

definition active_unique :: "filing_record list \<Rightarrow> bool" where
  "active_unique fs = distinct (map f_reportId (filter active fs))"

definition put_filings :: "filing_record list \<Rightarrow> ('w filing_world_scheme, unit) prog" where
  "put_filings fs = (if active_unique fs then writes (\<lambda>w. w\<lparr>w_filings := fs\<rparr>) else raise UniqueViolation)"

text \<open>\<open>UPDATE report_filings SET ... WHERE P RETURNING *\<close> for a condition that names one row.\<close>

definition update_filing ::
  "(filing_record \<Rightarrow> bool) \<Rightarrow> (filing_record \<Rightarrow> filing_record) \<Rightarrow> ('w filing_world_scheme, filing_record option) prog" where
  "update_filing P g = seq (reads w_filings) (\<lambda>fs.
     case find P fs of
       None \<Rightarrow> ret None
     | Some f \<Rightarrow> seq (put_filings (update_rows P g fs)) (\<lambda>_. reads (\<lambda>w. Some (toFiling w (g f)))))"

definition draw_uuid :: "(nat \<Rightarrow> string) \<Rightarrow> ('w filing_world_scheme, string) prog" where
  "draw_uuid U = seq (reads w_drawn) (\<lambda>n. seq (writes (\<lambda>w. w\<lparr>w_drawn := Suc n\<rparr>)) (\<lambda>_. ret (U n)))"

definition new_filing :: "string \<Rightarrow> int \<Rightarrow> create_filing_input \<Rightarrow> bool \<Rightarrow> filing_record" where
  "new_filing i now input submittedNow =
     \<lparr>f_id = i, f_reportId = cf_reportId input, f_geoid = cf_geoid input, f_jurisdictionName = None,
      f_category = cf_category input, f_routeCategory = cf_routeCategory input,
      f_channel = cf_channel input, f_portalHost = cf_portalHost input, f_formUrl = cf_formUrl input,
      f_status = cf_status input, f_method = cf_method input, f_reason = cf_reason input,
      f_reasonDetail = cf_reasonDetail input, f_caseId = cf_caseId input, f_caseUrl = cf_caseUrl input,
      f_cityClosedAt = None, f_attempts = 0, f_runId = None, f_nextAttemptAt = None,
      f_aiWaitSince = None, f_scriptVersion = None, f_dryRun = False,
      f_ticketText = cf_ticketText input, f_note = cf_note input,
      f_mailThreadId = cf_mailThreadId input, f_createdBy = cf_createdBy input,
      f_createdAt = now, f_updatedAt = now, f_submittedAt = (if submittedNow then Some now else None)\<rparr>"

definition insertFiling ::
  "(nat \<Rightarrow> string) \<Rightarrow> create_filing_input \<Rightarrow> bool \<Rightarrow> ('w filing_world_scheme, filing_record) prog" where
  "insertFiling U input submittedNow = seq (draw_uuid U) (\<lambda>i. seq (reads (\<lambda>w. (clock w, w_filings w))) (\<lambda>(now, fs).
     let f = new_filing i now input submittedNow
     in seq (put_filings (fs @ [f])) (\<lambda>_. reads (\<lambda>w. toFiling w f))))"

definition insertAuditRow :: "write_audit \<Rightarrow> ('w filing_world_scheme, unit) prog" where
  "insertAuditRow a = writes (\<lambda>w. w\<lparr>w_audit := w_audit w @ [a]\<rparr>)"

definition audit_if :: "write_audit option \<Rightarrow> ('w filing_world_scheme, unit) prog" where
  "audit_if a = (case a of None \<Rightarrow> ret () | Some x \<Rightarrow> insertAuditRow x)"

fun insertEvidence ::
  "(nat \<Rightarrow> string) \<Rightarrow> string \<Rightarrow> evidence_input list \<Rightarrow> ('w filing_world_scheme, unit) prog" where
  "insertEvidence U filingId [] = ret ()"
| "insertEvidence U filingId (e # es) = seq (draw_uuid U) (\<lambda>i. seq (writes (\<lambda>w. w\<lparr>w_evidence := w_evidence w @
     [\<lparr>ev_id = i, ev_filingId = filingId, ev_r2Key = ei_r2Key e, ev_kind = ei_kind e, ev_label = ei_label e,
       ev_createdAt = clock w\<rparr>]\<rparr>)) (\<lambda>_. insertEvidence U filingId es))"

definition create ::
  "(nat \<Rightarrow> string) \<Rightarrow> create_filing_input \<Rightarrow> write_audit option \<Rightarrow> ('w filing_world_scheme, create_filing_result) prog" where
  "create U input audit = recover
     (seq (insertFiling U input False) (\<lambda>f.
      seq (audit_if (map_option (\<lambda>a. a\<lparr>wa_target := Some (case wa_target a of Some t \<Rightarrow> t | None \<Rightarrow> ''filing:'' @ f_id f)\<rparr>) audit))
        (\<lambda>_. ret (Created f))))
     (\<lambda>e. if e = UniqueViolation then ret Active_exists else raise e)"

definition guard_opt :: "'a option \<Rightarrow> 'a \<Rightarrow> bool" where
  "guard_opt want x = (case want of None \<Rightarrow> True | Some y \<Rightarrow> x = y)"

definition transition_guard :: "string \<Rightarrow> transition_input \<Rightarrow> filing_record \<Rightarrow> bool" where
  "transition_guard i input f \<longleftrightarrow> f_id f = i \<and> f_status f \<in> set (ti_from input)
     \<and> guard_opt (ti_attempts input) (f_attempts f)
     \<and> (case ti_runId input of None \<Rightarrow> True | Some r \<Rightarrow> f_runId f = Some r)"

definition transition ::
  "(nat \<Rightarrow> string) \<Rightarrow> string \<Rightarrow> transition_input \<Rightarrow> ('w filing_world_scheme, filing_record option) prog" where
  "transition U i input = seq (reads clock) (\<lambda>now.
     seq (update_filing (transition_guard i input) (setList now (ti_set input))) (\<lambda>row.
     case row of
       None \<Rightarrow> ret None
     | Some f \<Rightarrow> seq (insertEvidence U i (ti_evidence input)) (\<lambda>_. seq (audit_if (ti_audit input)) (\<lambda>_. ret (Some f)))))"

definition report_fileable :: "report_row \<Rightarrow> bool" where
  "report_fileable r \<longleftrightarrow> r_deletedAt r = None \<and> r_status r \<noteq> RRejected \<and> r_verdict r \<noteq> Some False"

definition applyReportSuccess ::
  "string \<Rightarrow> string \<Rightarrow> string option \<Rightarrow> ('w filing_world_scheme, bool) prog" where
  "applyReportSuccess reportId note actorId = seq (reads w_reports) (\<lambda>rs.
     case find (\<lambda>r. r_id r = reportId \<and> report_fileable r) rs of
       None \<Rightarrow> ret False
     | Some report \<Rightarrow>
         let unrouted = (\<lambda>r. r_id r = reportId \<and> r_status r \<in> {RSubmitted, RHeld, RPublished});
             status = (if r_status report \<in> {RSubmitted, RHeld, RPublished} then RAcknowledged else r_status report)
         in seq (writes (\<lambda>w. w\<lparr>w_reports := update_rows unrouted (\<lambda>r. r\<lparr>r_status := RAcknowledged\<rparr>) (w_reports w)\<rparr>)) (\<lambda>_.
            seq (writes (\<lambda>w. w\<lparr>w_timeline := w_timeline w @
              [\<lparr>t_reportId = reportId, t_status = status, t_note = note, t_kind = TRoute, t_actorId = actorId\<rparr>]\<rparr>))
            (\<lambda>_. ret True)))"

definition given :: "('a \<Rightarrow> filing_assign) \<Rightarrow> 'a option \<Rightarrow> filing_set" where
  "given c x = (case x of None \<Rightarrow> [] | Some y \<Rightarrow> [c y])"

definition success_set :: "record_success_input \<Rightarrow> filing_set" where
  "success_set input = [Set_status (rs_outcome input), Set_method (Some (rs_method input))]
     @ given Set_caseId (rs_caseId input) @ given Set_caseUrl (rs_caseUrl input)
     @ given Set_mailThreadId (rs_mailThreadId input) @ given Set_scriptVersion (rs_scriptVersion input)
     @ given Set_dryRun (rs_dryRun input)"

definition success_guarded :: "string \<Rightarrow> success_guard \<Rightarrow> filing_record \<Rightarrow> bool" where
  "success_guarded i g f \<longleftrightarrow> f_id f = i \<and> f_status f \<in> set (sg_status g)
     \<and> guard_opt (sg_attempts g) (f_attempts f)
     \<and> (case sg_runId g of None \<Rightarrow> True | Some r \<Rightarrow> f_runId f = Some r)
     \<and> (case sg_reason g of None \<Rightarrow> True | Some r \<Rightarrow> f_reason f = Some r)"

definition updateToSuccess ::
  "string \<Rightarrow> success_guard \<Rightarrow> record_success_input \<Rightarrow> ('w filing_world_scheme, filing_record option) prog" where
  "updateToSuccess i g input = seq (reads clock) (\<lambda>now.
     update_filing (success_guarded i g) (\<lambda>f. (setList now (success_set input) f)\<lparr>f_submittedAt := Some now\<rparr>))"

definition success_row ::
  "(nat \<Rightarrow> string) \<Rightarrow> record_success_input \<Rightarrow> ('w filing_world_scheme, filing_record option) prog" where
  "success_row U input =
     (case rs_target input of
        Existing i g \<Rightarrow> updateToSuccess i g input
      | New nf \<Rightarrow> seq (insertFiling U
          (nf\<lparr>cf_status := rs_outcome input, cf_method := Some (rs_method input),
              cf_caseId := Option.bind (rs_caseId input) id, cf_caseUrl := Option.bind (rs_caseUrl input) id,
              cf_mailThreadId := Option.bind (rs_mailThreadId input) id\<rparr>) True) (\<lambda>f. ret (Some f)))"

definition recordSuccess ::
  "(nat \<Rightarrow> string) \<Rightarrow> record_success_input \<Rightarrow> ('w filing_world_scheme, record_success_result option) prog" where
  "recordSuccess U input = seq (success_row U input) (\<lambda>row.
     case row of
       None \<Rightarrow> ret None
     | Some f \<Rightarrow>
         seq (applyReportSuccess (f_reportId f) (rs_note input) (rs_actorId input)) (\<lambda>changed.
         seq (insertEvidence U (f_id f) (rs_evidence input)) (\<lambda>_.
         seq (audit_if (rs_audit input)) (\<lambda>_.
         ret (Some \<lparr>rr_filing = f, rr_reportChanged = changed\<rparr>)))))"

definition claim ::
  "(nat \<Rightarrow> string) \<Rightarrow> string \<Rightarrow> int \<Rightarrow> ('w filing_world_scheme, string option) prog" where
  "claim U i attempt = seq (reads (\<lambda>w. find (\<lambda>f. f_id f = i \<and> f_status f = Queued \<and> f_attempts f = attempt - 1) (w_filings w))) (\<lambda>row.
     case row of
       None \<Rightarrow> ret None
     | Some _ \<Rightarrow> seq (draw_uuid U) (\<lambda>run. seq (reads clock) (\<lambda>now.
         seq (update_filing (\<lambda>f. f_id f = i \<and> f_status f = Queued \<and> f_attempts f = attempt - 1)
               (\<lambda>f. f\<lparr>f_status := Running, f_attempts := attempt, f_runId := Some run, f_updatedAt := now\<rparr>)) (\<lambda>_.
         ret (Some run)))))"

subsection \<open>Routes, settings and messages\<close>

definition listRoutes :: "string \<Rightarrow> ('w filing_world_scheme, filing_route_record list) prog" where
  "listRoutes geoid = reads (\<lambda>w. take FILING_ROUTES_MAX
     (sort_key ro_category (filter (\<lambda>r. ro_geoid r = geoid) (w_routes w))))"

text \<open>\<open>ORDER BY category NULLS LAST LIMIT 2\<close>.\<close>

definition findRoutes :: "string \<Rightarrow> string \<Rightarrow> ('w filing_world_scheme, filing_route_record list) prog" where
  "findRoutes geoid category = reads (\<lambda>w. take 2
     (sort_key (\<lambda>r. ro_category r = None)
        (filter (\<lambda>r. ro_geoid r = geoid \<and> (ro_category r = Some category \<or> ro_category r = None)) (w_routes w))))"

record filing_route_input =
  ri_category :: "string option"
  ri_channel :: filing_channel
  ri_formUrl :: "string option"
  ri_requestTypeHint :: "string option"
  ri_includeLink :: bool
  ri_statusSenderDomains :: "string list"
  ri_enabled :: bool

text \<open>The two partial unique indexes on \<open>filing_routes\<close> refuse a category given twice.\<close>

definition replaceRoutes ::
  "string \<Rightarrow> filing_route_input list \<Rightarrow> write_audit option \<Rightarrow> ('w filing_world_scheme, filing_route_record list) prog" where
  "replaceRoutes geoid routes audit =
     (if length routes > FILING_ROUTES_MAX
      then raise (PlainError (''replaceRoutes: over '' @ string_of_nat FILING_ROUTES_MAX @ '' routes''))
      else if \<not> distinct (map ri_category routes) then raise UniqueViolation
      else seq (writes (\<lambda>w. w\<lparr>w_routes := filter (\<lambda>r. ro_geoid r \<noteq> geoid) (w_routes w) @
             map (\<lambda>r. \<lparr>ro_geoid = geoid, ro_category = ri_category r, ro_channel = ri_channel r,
                       ro_formUrl = ri_formUrl r, ro_requestTypeHint = ri_requestTypeHint r,
                       ro_includeLink = ri_includeLink r, ro_statusSenderDomains = ri_statusSenderDomains r,
                       ro_enabled = ri_enabled r, ro_updatedAt = clock w,
                       ro_updatedBy = Option.bind audit wa_actorId\<rparr>) routes\<rparr>)) (\<lambda>_.
           seq (audit_if audit) (\<lambda>_. listRoutes geoid)))"

definition SETTINGS_MISSING :: string where
  "SETTINGS_MISSING = ''filing_settings row is missing (0210 seeds it)''"

definition toSettings :: "filing_settings_record option \<Rightarrow> ('w filing_world_scheme, filing_settings_record) prog" where
  "toSettings row = (case row of None \<Rightarrow> raise (PlainError SETTINGS_MISSING) | Some s \<Rightarrow> ret s)"

definition getSettings :: "('w filing_world_scheme, filing_settings_record) prog" where
  "getSettings = seq (reads w_settings) toSettings"

text \<open>Without the settings row the transaction rolls back, its audit row included.\<close>

definition setPaused :: "bool \<Rightarrow> write_audit option \<Rightarrow> ('w filing_world_scheme, filing_settings_record) prog" where
  "setPaused paused audit = seq (reads w_settings) (\<lambda>row.
     case row of
       None \<Rightarrow> raise (PlainError SETTINGS_MISSING)
     | Some _ \<Rightarrow> seq (writes (\<lambda>w. w\<lparr>w_settings :=
           Some \<lparr>fs_paused = paused, fs_updatedAt = clock w, fs_updatedBy = Option.bind audit wa_actorId\<rparr>\<rparr>)) (\<lambda>_.
         seq (audit_if audit) (\<lambda>_. getSettings)))"

text \<open>\<open>ON CONFLICT DO NOTHING\<close>: one row for each inbox row and for each mail message.\<close>

definition insertMessageIfAbsent ::
  "(nat \<Rightarrow> string) \<Rightarrow> string \<Rightarrow> string option \<Rightarrow> string option \<Rightarrow> bool \<Rightarrow> ('w filing_world_scheme, filing_message option) prog" where
  "insertMessageIfAbsent U filingId inboundEmailId mailMessageId trusted = seq (draw_uuid U) (\<lambda>i.
     seq (reads (\<lambda>w. (clock w, w_messages w))) (\<lambda>(now, ms).
     if (\<exists>m \<in> set ms. (inboundEmailId \<noteq> None \<and> fm_inboundEmailId m = inboundEmailId)
                     \<or> (mailMessageId \<noteq> None \<and> fm_mailMessageId m = mailMessageId)) then ret None
     else let m = \<lparr>fm_id = i, fm_filingId = filingId, fm_inboundEmailId = inboundEmailId,
                   fm_mailMessageId = mailMessageId, fm_trusted = trusted, fm_flagged = False,
                   fm_classification = None, fm_summary = None, fm_appliedAt = None, fm_createdAt = now\<rparr>
          in seq (writes (\<lambda>w. w\<lparr>w_messages := ms @ [m]\<rparr>)) (\<lambda>_. ret (Some m))))"

definition getMessageByInboundEmailId :: "string \<Rightarrow> ('w filing_world_scheme, filing_message option) prog" where
  "getMessageByInboundEmailId i = reads (\<lambda>w. find (\<lambda>m. fm_inboundEmailId m = Some i) (w_messages w))"

definition getMessageByMailMessageId :: "string \<Rightarrow> ('w filing_world_scheme, filing_message option) prog" where
  "getMessageByMailMessageId i = reads (\<lambda>w. find (\<lambda>m. fm_mailMessageId m = Some i) (w_messages w))"

definition flagMessage :: "string \<Rightarrow> ('w filing_world_scheme, unit) prog" where
  "flagMessage i = writes (\<lambda>w. w\<lparr>w_messages := update_rows (\<lambda>m. fm_id m = i) (\<lambda>m. m\<lparr>fm_flagged := True\<rparr>) (w_messages w)\<rparr>)"

subsection \<open>Reopening and city updates\<close>

datatype reopen_outcome = Reopen_created | Skipped_active | Reopen_none

definition reopenReasonDetail :: "string option \<Rightarrow> string" where
  "reopenReasonDetail caseId =
     (case caseId of None \<Rightarrow> ''Previous request had no number'' | Some c \<Rightarrow> ''Previous request '' @ c)"

definition insertReopenFilingIn ::
  "(nat \<Rightarrow> string) \<Rightarrow> string \<Rightarrow> ('w filing_world_scheme, reopen_outcome) prog" where
  "insertReopenFilingIn U reportId = seq (reads (\<lambda>w. (latest_success reportId (w_filings w), w_filings w))) (\<lambda>(latest, fs).
     case latest of
       None \<Rightarrow> ret Reopen_none
     | Some prev \<Rightarrow>
         if f_cityClosedAt prev = None then ret Reopen_none
         else if (\<exists>f \<in> set fs. f_reportId f = reportId \<and> active f) then ret Skipped_active
         else seq (insertFiling U
                \<lparr>cf_reportId = reportId, cf_geoid = f_geoid prev, cf_category = f_category prev,
                 cf_routeCategory = None, cf_channel = None, cf_portalHost = None, cf_formUrl = None,
                 cf_status = Needs_human, cf_method = None, cf_reason = Some Reopened_after_city_closed,
                 cf_reasonDetail = Some (reopenReasonDetail (f_caseId prev)), cf_caseId = None,
                 cf_caseUrl = None, cf_ticketText = f_ticketText prev, cf_note = None,
                 cf_mailThreadId = None, cf_createdBy = None\<rparr> False) (\<lambda>_. ret Reopen_created))"

record city_update_filing =
  cu_id :: string
  cu_reportId :: string
  cu_channel :: "filing_channel option"
  cu_status :: filing_status
  cu_caseId :: "string option"
  cu_jurisdictionName :: "string option"

datatype city_update_effect =
    No_effect
  | Flag_effect
  | Case_id_effect string string  \<comment> \<open>case id, note\<close>
  | Report_status_effect "report_status list" report_status string timeline_kind bool
  | Needs_info_effect string

datatype city_update_result = Not_claimed | Claimed city_update_filing city_update_effect bool

definition add_timeline ::
  "string \<Rightarrow> report_status \<Rightarrow> string \<Rightarrow> timeline_kind \<Rightarrow> ('w filing_world_scheme, unit) prog" where
  "add_timeline reportId status note kind = writes (\<lambda>w. w\<lparr>w_timeline := w_timeline w @
     [\<lparr>t_reportId = reportId, t_status = status, t_note = note, t_kind = kind, t_actorId = None\<rparr>]\<rparr>)"

definition isSome :: "'a option \<Rightarrow> bool" where
  "isSome x = (x \<noteq> None)"

fun applyEffectIn :: "city_update_filing \<Rightarrow> city_update_effect \<Rightarrow> ('w filing_world_scheme, bool) prog" where
  "applyEffectIn filing (Case_id_effect caseId note) = seq (reads clock) (\<lambda>now.
     seq (update_filing (\<lambda>f. f_id f = cu_id filing \<and> f_caseId f = None)
            (\<lambda>f. f\<lparr>f_caseId := Some caseId, f_updatedAt := now\<rparr>)) (\<lambda>row.
     if row = None then ret False
     else seq (reads (\<lambda>w. find (\<lambda>r. r_id r = cu_reportId filing) (w_reports w))) (\<lambda>r.
          case r of None \<Rightarrow> ret True
          | Some report \<Rightarrow> seq (add_timeline (cu_reportId filing) (r_status report) note TReply) (\<lambda>_. ret True))))"
| "applyEffectIn filing (Report_status_effect from target note kind cityClosed) =
     (let here = (\<lambda>r. r_id r = cu_reportId filing \<and> r_deletedAt r = None \<and> r_status r \<in> set from)
      in seq (reads (\<lambda>w. find here (w_reports w))) (\<lambda>row.
         if row = None then ret False
         else seq (writes (\<lambda>w. w\<lparr>w_reports := update_rows here (\<lambda>r. r\<lparr>r_status := target\<rparr>) (w_reports w)\<rparr>)) (\<lambda>_.
              seq (add_timeline (cu_reportId filing) target note kind) (\<lambda>_.
              seq (if cityClosed
                   then seq (reads clock) (\<lambda>now. update_filing (\<lambda>f. f_id f = cu_id filing)
                          (\<lambda>f. f\<lparr>f_cityClosedAt := Some now, f_updatedAt := now\<rparr>))
                   else ret None) (\<lambda>_. ret True)))))"
| "applyEffectIn filing (Needs_info_effect detail) = seq (reads (\<lambda>w. (clock w, w_filings w))) (\<lambda>(now, fs).
     seq (update_filing (\<lambda>f. f_id f = cu_id filing \<and> successful f
              \<and> \<not> (\<exists>a \<in> set fs. f_reportId a = f_reportId f \<and> active a))
            (\<lambda>f. f\<lparr>f_status := Needs_human, f_reason := Some City_needs_info,
                   f_reasonDetail := Some detail, f_updatedAt := now\<rparr>)) (\<lambda>row. ret (isSome row)))"
| "applyEffectIn filing No_effect = ret False"
| "applyEffectIn filing Flag_effect = ret False"

definition applyCityUpdate ::
  "string \<Rightarrow> filing_classification option \<Rightarrow> (city_update_filing \<Rightarrow> city_update_effect) \<Rightarrow>
     ('w filing_world_scheme, city_update_result) prog" where
  "applyCityUpdate messageId c plan =
     (let claimable = (\<lambda>m. fm_id m = messageId \<and> fm_appliedAt m = None \<and> fm_trusted m \<and> \<not> fm_flagged m)
      in seq (reads (\<lambda>w. find claimable (w_messages w))) (\<lambda>claimed.
      case claimed of
        None \<Rightarrow> ret Not_claimed
      | Some m \<Rightarrow>
          seq (getById (fm_filingId m)) (\<lambda>row.
          case row of
            None \<Rightarrow> raise (PlainError ''filing_messages row names no filing'')
          | Some f \<Rightarrow>
              seq (writes (\<lambda>w. w\<lparr>w_messages := update_rows claimable (\<lambda>m. m\<lparr>fm_appliedAt := Some (clock w),
                     fm_classification := c, fm_summary := map_option fc_summary c\<rparr>) (w_messages w)\<rparr>)) (\<lambda>_.
              let filing = \<lparr>cu_id = f_id f, cu_reportId = f_reportId f, cu_channel = f_channel f,
                            cu_status = f_status f, cu_caseId = f_caseId f,
                            cu_jurisdictionName = f_jurisdictionName f\<rparr>;
                  effect = plan filing
              in seq (applyEffectIn filing effect) (\<lambda>applied.
                 seq (if effect = Flag_effect \<or> (effect \<noteq> No_effect \<and> \<not> applied) then flagMessage messageId else ret ())
                 (\<lambda>_. ret (Claimed filing effect applied)))))))"

definition reportIdByReferenceCode :: "string \<Rightarrow> ('w filing_world_scheme, string option) prog" where
  "reportIdByReferenceCode code = reads (\<lambda>w. map_option r_id (find (\<lambda>r. r_referenceCode r = Some code) (w_reports w)))"

definition getReport :: "string \<Rightarrow> ('w filing_world_scheme, report_row option) prog" where
  "getReport i = reads (\<lambda>w. find (\<lambda>r. r_id r = i \<and> r_deletedAt r = None) (w_reports w))"

definition getRouting :: "string \<Rightarrow> ('w filing_world_scheme, routing_record option) prog" where
  "getRouting i = reads (\<lambda>w. jm_get (w_routing w) i)"

end
