(* ===== verification/Send_Policy.thy ===== *)
theory Send_Policy
  imports Prelude
begin

section \<open>How long an outbound packet may take (\<open>services/admin/outbound-send-policy.ts\<close>)\<close>

text \<open>
  The deadline of a send, and the boot check that keeps every deadline below the window after which a send
  counts as lost.  The numbers are whole in every configuration, and quotients are exact.
\<close>

definition OUTBOUND_PAYLOAD_BUDGET_BYTES :: int where "OUTBOUND_PAYLOAD_BUDGET_BYTES = 8 * 1024 * 1024"
definition OUTBOUND_SEND_MIN_THROUGHPUT_BPS :: int where "OUTBOUND_SEND_MIN_THROUGHPUT_BPS = 256 * 1024"
definition OUTBOUND_SEND_MIN_THROUGHPUT_FLOOR_BPS :: int where "OUTBOUND_SEND_MIN_THROUGHPUT_FLOOR_BPS = 1024"
definition OUTBOUND_SMTP_TIMEOUT_CEILING_MS :: int where "OUTBOUND_SMTP_TIMEOUT_CEILING_MS = 60000"
definition OUTBOUND_SEND_MAX_DEADLINE_MS :: int where "OUTBOUND_SEND_MAX_DEADLINE_MS = 2 ^ 31 - 1"
definition BASE64_EXPANSION_NUMERATOR :: int where "BASE64_EXPANSION_NUMERATOR = 4"
definition BASE64_EXPANSION_DENOMINATOR :: int where "BASE64_EXPANSION_DENOMINATOR = 3"
definition OUTBOUND_INFLIGHT_SLACK_SECONDS :: int where "OUTBOUND_INFLIGHT_SLACK_SECONDS = 120"
definition SMTP_TIMEOUT_PHASES :: int where "SMTP_TIMEOUT_PHASES = 3"
definition ROUTE_INFLIGHT_FLOOR_SECONDS :: int where "ROUTE_INFLIGHT_FLOOR_SECONDS = 15 * 60"
definition ROUTE_GUARD_SMTP_TIMEOUT_MS :: int where
  "ROUTE_GUARD_SMTP_TIMEOUT_MS = OUTBOUND_SMTP_TIMEOUT_CEILING_MS div 4"

definition base64Bytes :: "int \<Rightarrow> int" where
  "base64Bytes rawBytes = ceil_div (max 0 rawBytes * BASE64_EXPANSION_NUMERATOR) BASE64_EXPANSION_DENOMINATOR"

definition outboundSendDeadlineMs :: "int \<Rightarrow> int \<Rightarrow> int \<Rightarrow> int" where
  "outboundSendDeadlineMs bytes phaseBudgetMs minThroughputBytesPerSec =
     (let throughput = max OUTBOUND_SEND_MIN_THROUGHPUT_FLOOR_BPS minThroughputBytesPerSec;
          phase = max 0 phaseBudgetMs;
          transfer = ceil_div (max 0 bytes * 1000) throughput
      in min (phase + transfer) OUTBOUND_SEND_MAX_DEADLINE_MS)"

definition phaseBudgetFor :: "int \<Rightarrow> int" where
  "phaseBudgetFor smtpTimeoutMs = max 0 smtpTimeoutMs * SMTP_TIMEOUT_PHASES"

definition maxOutboundSendDeadlineMs :: "int \<Rightarrow> int \<Rightarrow> int" where
  "maxOutboundSendDeadlineMs smtpTimeoutMs minThroughputBytesPerSec =
     outboundSendDeadlineMs (base64Bytes OUTBOUND_PAYLOAD_BUDGET_BYTES) (phaseBudgetFor smtpTimeoutMs) minThroughputBytesPerSec"

definition inflightWindowSeconds :: "int \<Rightarrow> int \<Rightarrow> int" where
  "inflightWindowSeconds smtpTimeoutMs minThroughputBytesPerSec =
     ceil_div (maxOutboundSendDeadlineMs smtpTimeoutMs minThroughputBytesPerSec) 1000 + OUTBOUND_INFLIGHT_SLACK_SECONDS"

definition ROUTE_DEADLINE_INFLIGHT_SECONDS :: int where
  "ROUTE_DEADLINE_INFLIGHT_SECONDS = max ROUTE_INFLIGHT_FLOOR_SECONDS
     (inflightWindowSeconds ROUTE_GUARD_SMTP_TIMEOUT_MS OUTBOUND_SEND_MIN_THROUGHPUT_BPS)"

definition throughput_message :: string where
  "throughput_message = ''OUTBOUND_SEND_MIN_THROUGHPUT_BPS: must be >= ''
     @ string_of_int OUTBOUND_SEND_MIN_THROUGHPUT_FLOOR_BPS @ '' (a lower floor lets one send outlive the ''
     @ string_of_int ROUTE_DEADLINE_INFLIGHT_SECONDS
     @ ''s in-flight guard, which is what stops a second packet going to a jurisdiction)''"

definition timeout_message :: string where
  "timeout_message = ''OCI_EMAIL_SMTP_TIMEOUT_MS: must be <= '' @ string_of_int OUTBOUND_SMTP_TIMEOUT_CEILING_MS
     @ '' (a larger phase budget lets one send outlive the '' @ string_of_int ROUTE_DEADLINE_INFLIGHT_SECONDS
     @ ''s in-flight guard)''"

definition deadline_message :: string where
  "deadline_message = ''OCI_EMAIL_SMTP_TIMEOUT_MS / OUTBOUND_SEND_MIN_THROUGHPUT_BPS: the largest computable send ''
     @ ''deadline exceeds the '' @ string_of_int ROUTE_DEADLINE_INFLIGHT_SECONDS @ ''s in-flight guard''"

definition assertOutboundSendPolicy :: "int \<Rightarrow> int \<Rightarrow> string list" where
  "assertOutboundSendPolicy smtpTimeoutMs minThroughputBytesPerSec =
     (let errors = (if minThroughputBytesPerSec < OUTBOUND_SEND_MIN_THROUGHPUT_FLOOR_BPS then [throughput_message] else [])
                 @ (if smtpTimeoutMs > OUTBOUND_SMTP_TIMEOUT_CEILING_MS then [timeout_message] else [])
      in errors @ (if errors = []
                      \<and> inflightWindowSeconds smtpTimeoutMs minThroughputBytesPerSec > ROUTE_DEADLINE_INFLIGHT_SECONDS
                   then [deadline_message] else []))"

lemmas send_policy_defs = OUTBOUND_PAYLOAD_BUDGET_BYTES_def OUTBOUND_SEND_MIN_THROUGHPUT_BPS_def
  OUTBOUND_SEND_MIN_THROUGHPUT_FLOOR_BPS_def OUTBOUND_SMTP_TIMEOUT_CEILING_MS_def OUTBOUND_SEND_MAX_DEADLINE_MS_def
  BASE64_EXPANSION_NUMERATOR_def BASE64_EXPANSION_DENOMINATOR_def OUTBOUND_INFLIGHT_SLACK_SECONDS_def
  SMTP_TIMEOUT_PHASES_def ROUTE_INFLIGHT_FLOOR_SECONDS_def ROUTE_GUARD_SMTP_TIMEOUT_MS_def

lemma inflight_window: "ROUTE_DEADLINE_INFLIGHT_SECONDS = 900"
  by (simp add: ROUTE_DEADLINE_INFLIGHT_SECONDS_def inflightWindowSeconds_def maxOutboundSendDeadlineMs_def
      outboundSendDeadlineMs_def base64Bytes_def phaseBudgetFor_def ceil_div_def send_policy_defs)

lemma ceil_div_mono: "0 < b \<Longrightarrow> a \<le> a' \<Longrightarrow> ceil_div a b \<le> ceil_div a' b"
  by (simp add: ceil_div_def zdiv_mono1)

lemma deadline_mono:
  assumes "bytes \<le> bytes'" "phase \<le> phase'"
  shows "outboundSendDeadlineMs bytes phase t \<le> outboundSendDeadlineMs bytes' phase' t"
proof -
  have "ceil_div (max 0 bytes * 1000) (max 1024 t) \<le> ceil_div (max 0 bytes' * 1000) (max 1024 t)"
    using assms(1) by (intro ceil_div_mono) auto
  with assms(2) have "max 0 phase + ceil_div (max 0 bytes * 1000) (max 1024 t)
      \<le> max 0 phase' + ceil_div (max 0 bytes' * 1000) (max 1024 t)" by linarith
  then show ?thesis by (simp add: outboundSendDeadlineMs_def send_policy_defs Let_def min.coboundedI1)
qed

text \<open>
  Under a configuration the boot check accepts, a packet within the payload budget is given up two minutes
  before the in-flight window ends, so a send that counts as lost is no longer on the wire.
\<close>

theorem accepted_policy_bounds_sends:
  assumes "assertOutboundSendPolicy smtpTimeoutMs minThroughput = []"
    and "bytes \<le> base64Bytes OUTBOUND_PAYLOAD_BUDGET_BYTES" "phaseBudgetMs \<le> phaseBudgetFor smtpTimeoutMs"
  shows "outboundSendDeadlineMs bytes phaseBudgetMs minThroughput
    \<le> (ROUTE_DEADLINE_INFLIGHT_SECONDS - OUTBOUND_INFLIGHT_SLACK_SECONDS) * 1000"
proof -
  let ?m = "maxOutboundSendDeadlineMs smtpTimeoutMs minThroughput"
  have "inflightWindowSeconds smtpTimeoutMs minThroughput \<le> ROUTE_DEADLINE_INFLIGHT_SECONDS"
    using assms(1) by (auto simp: assertOutboundSendPolicy_def Let_def not_less split: if_splits)
  then have "ceil_div ?m 1000 \<le> ROUTE_DEADLINE_INFLIGHT_SECONDS - OUTBOUND_INFLIGHT_SLACK_SECONDS"
    by (simp add: inflightWindowSeconds_def)
  moreover have "?m \<le> ceil_div ?m 1000 * 1000" by (rule ceil_div_ge) simp
  moreover have "outboundSendDeadlineMs bytes phaseBudgetMs minThroughput \<le> ?m"
    using assms(2,3) by (simp add: maxOutboundSendDeadlineMs_def deadline_mono)
  ultimately show ?thesis by (simp add: algebra_simps)
qed

theorem accepted_policy_bounds_sends_witness:
  "outboundSendDeadlineMs 11184811 45000 262144 \<le> 780000"
proof -
  have "assertOutboundSendPolicy 15000 262144 = []"
    by (simp add: assertOutboundSendPolicy_def inflight_window inflightWindowSeconds_def maxOutboundSendDeadlineMs_def
        outboundSendDeadlineMs_def base64Bytes_def phaseBudgetFor_def ceil_div_def send_policy_defs)
  moreover have "11184811 \<le> base64Bytes OUTBOUND_PAYLOAD_BUDGET_BYTES" "45000 \<le> phaseBudgetFor 15000"
    by (simp_all add: base64Bytes_def phaseBudgetFor_def ceil_div_def send_policy_defs)
  ultimately show ?thesis
    using accepted_policy_bounds_sends [of 15000 262144 11184811 45000]
    by (simp add: inflight_window OUTBOUND_INFLIGHT_SLACK_SECONDS_def)
qed

end
