(* ===== verification/Ticket_Text.thy ===== *)
theory Ticket_Text
  imports Prelude
begin

section \<open>The text a city receives (\<open>services/filings/filing-ticket-text.ts\<close>)\<close>

text \<open>
  The ticket text of a filing and its closing paragraph, which an email filing carries.  The middle dot of the
  framing line is the character 183.
\<close>

record ticket_text_input =
  tt_reportId :: string
  tt_title :: string
  tt_description :: "string option"
  tt_referenceCode :: "string option"
  tt_isPublic :: bool
  tt_includeLink :: bool
  tt_note :: "string option"
  tt_webBaseUrl :: string

definition newline :: char where "newline = char_of (10 :: nat)"
definition middle_dot :: char where "middle_dot = char_of (183 :: nat)"

definition FRAMING_LINE :: string where "FRAMING_LINE = ''Reported by a resident via CivFix''"

definition trimmed :: "string option \<Rightarrow> string" where
  "trimmed s = (case s of None \<Rightarrow> [] | Some t \<Rightarrow> trim t)"

definition head_lines :: "ticket_text_input \<Rightarrow> string list" where
  "head_lines input = tt_title input # (if trimmed (tt_description input) \<noteq> [] then [trimmed (tt_description input)] else [])"

definition framing :: "ticket_text_input \<Rightarrow> string" where
  "framing input = (case tt_referenceCode input of
       None \<Rightarrow> FRAMING_LINE
     | Some code \<Rightarrow> if code \<noteq> [] then FRAMING_LINE @ '' '' @ [middle_dot] @ '' ref '' @ code else FRAMING_LINE)"

definition closing_lines :: "ticket_text_input \<Rightarrow> string list" where
  "closing_lines input = framing input #
     (if tt_includeLink input \<and> tt_isPublic input then [tt_webBaseUrl input @ ''/pin/'' @ tt_reportId input] else [])
     @ (if trimmed (tt_note input) \<noteq> [] then [''Note from CivFix: '' @ trimmed (tt_note input)] else [])"

definition renderTicketText :: "ticket_text_input \<Rightarrow> string" where
  "renderTicketText input = join_with [newline] (head_lines input @ [[]] @ closing_lines input)"

text \<open>The loop of \<open>ticketTextClosing\<close> from line \<open>i\<close> down to line 1.\<close>

fun closing_from :: "string list \<Rightarrow> nat \<Rightarrow> string option" where
  "closing_from lines 0 = None"
| "closing_from lines (Suc i) =
     (if lines ! i = [] \<and> startsWith (lines ! Suc i) FRAMING_LINE
      then Some (join_with [newline] (drop (Suc i) lines)) else closing_from lines i)"

definition ticketTextClosing :: "string \<Rightarrow> ('w, string) prog" where
  "ticketTextClosing ticketText =
     (let lines = split_char newline ticketText
      in case closing_from lines (length lines - 1) of
           None \<Rightarrow> raise (PlainError ''ticket text has no framing line'')
         | Some s \<Rightarrow> ret s)"

subsection \<open>Lines of a text\<close>

lemma split_join: "split_char c (a @ c # b) = split_char c a @ split_char c b"
proof (induction a)
  case (Cons x a)
  obtain p ps where "split_char c a = p # ps" by (cases "split_char c a") auto
  with Cons show ?case by auto
qed simp

lemma split_join_with: "ls \<noteq> [] \<Longrightarrow> split_char c (join_with [c] ls) = concat (map (split_char c) ls)"
proof (induction ls)
  case (Cons l ls)
  then show ?case by (cases ls) (simp_all add: split_join)
qed simp

lemma closing_from_down:
  assumes "k \<le> n" "\<And>j. k < j \<Longrightarrow> j \<le> n \<Longrightarrow> \<not> (lines ! (j - 1) = [] \<and> startsWith (lines ! j) FRAMING_LINE)"
  shows "closing_from lines n = closing_from lines k"
  using assms
proof (induction n)
  case (Suc n)
  show ?case
  proof (cases "k = Suc n")
    case False
    with Suc.prems(1) have k: "k \<le> n" by simp
    with Suc.prems(2) [of "Suc n"] have "\<not> (lines ! n = [] \<and> startsWith (lines ! Suc n) FRAMING_LINE)" by simp
    then have "closing_from lines (Suc n) = closing_from lines n" by auto
    with Suc.IH [OF k] Suc.prems(2) show ?thesis by (metis le_SucI)
  qed simp
qed simp

text \<open>A text of several lines holds no second framing line after a blank one.\<close>

definition no_framing_after_blank :: "string list \<Rightarrow> bool" where
  "no_framing_after_blank ls \<longleftrightarrow>
     (\<forall>j < length ls. 0 < j \<longrightarrow> \<not> (ls ! (j - 1) = [] \<and> startsWith (ls ! j) FRAMING_LINE))"

lemma closing_found:
  assumes "startsWith c FRAMING_LINE" "no_framing_after_blank (c # cs)"
  shows "closing_from (pre @ [] # c # cs) (length (pre @ [] # c # cs) - 1) = Some (join_with [newline] (c # cs))"
proof -
  let ?ls = "pre @ [] # c # cs" and ?k = "Suc (length pre)"
  have "\<not> (?ls ! (j - 1) = [] \<and> startsWith (?ls ! j) FRAMING_LINE)" if "?k < j" "j \<le> length ?ls - 1" for j
  proof -
    define i where "i = j - ?k"
    then have "0 < i" "i < length (c # cs)" "j = ?k + i" using that by auto
    moreover have "?ls ! (?k + m) = (c # cs) ! m" for m by (simp add: nth_append)
    moreover from this [of "i - 1"] \<open>0 < i\<close> \<open>j = ?k + i\<close> have "?ls ! (j - 1) = (c # cs) ! (i - 1)" by simp
    ultimately show ?thesis using assms(2) by (auto simp: no_framing_after_blank_def)
  qed
  then have "closing_from ?ls (length ?ls - 1) = closing_from ?ls ?k" by (intro closing_from_down) auto
  also have "\<dots> = Some (join_with [newline] (c # cs))"
    using assms(1) by (simp add: nth_append)
  finally show ?thesis .
qed

lemma framing_starts: "startsWith (framing input) FRAMING_LINE"
  by (simp add: framing_def startsWith_def split: option.split)

lemma join_concat_split:
  "ls \<noteq> [] \<Longrightarrow> join_with [c] (concat (map (split_char c) ls)) = join_with [c] ls"
  by (metis join_split_char split_join_with)

text \<open>
  The closing paragraph of every rendered ticket text is its part from the framing line on, so an email
  filing carries the reference, the link and the note, unless the operator's note itself holds a blank line
  and then the framing words.
\<close>

theorem ticket_text_closing:
  assumes "newline \<notin> set (framing input)"
    and "no_framing_after_blank (concat (map (split_char newline) (closing_lines input)))"
  shows "ticketTextClosing (renderTicketText input) w = (Inr (join_with [newline] (closing_lines input)), w)"
proof -
  let ?pre = "concat (map (split_char newline) (head_lines input))"
  let ?cs = "concat (map (split_char newline) (tl (closing_lines input)))"
  have cl: "closing_lines input = framing input # tl (closing_lines input)" by (simp add: closing_lines_def)
  have first: "split_char newline (framing input) = [framing input]" using assms(1) by (rule split_char_no_sep)
  have closing: "concat (map (split_char newline) (closing_lines input)) = framing input # ?cs"
    by (subst cl) (simp add: first)
  have "split_char newline (renderTicketText input) = ?pre @ [] # framing input # ?cs"
    using closing by (simp add: renderTicketText_def split_join_with)
  moreover have "closing_from (?pre @ [] # framing input # ?cs) (length (?pre @ [] # framing input # ?cs) - 1)
      = Some (join_with [newline] (framing input # ?cs))"
    using assms(2) closing by (intro closing_found framing_starts) simp
  moreover have "join_with [newline] (framing input # ?cs) = join_with [newline] (closing_lines input)"
    using join_concat_split [of "closing_lines input" newline] closing cl by (metis list.distinct(1))
  ultimately show ?thesis by (simp add: ticketTextClosing_def prog_simps)
qed

definition wit_ticket :: ticket_text_input where
  "wit_ticket = \<lparr>tt_reportId = ''r1'', tt_title = ''Pothole'', tt_description = Some ''Deep one'',
     tt_referenceCode = Some ''PH-90012-000123'', tt_isPublic = True, tt_includeLink = True,
     tt_note = Some ''Near the bridge'', tt_webBaseUrl = ''https://civfix.org''\<rparr>"

theorem ticket_text_closing_witness:
  "ticketTextClosing (renderTicketText wit_ticket) () = (Inr (join_with [newline] (closing_lines wit_ticket)), ())"
proof (rule ticket_text_closing)
  show "newline \<notin> set (framing wit_ticket)" by code_simp
  show "no_framing_after_blank (concat (map (split_char newline) (closing_lines wit_ticket)))" by code_simp
qed

end
