(* ===== verification/Filing_Service.thy ===== *)
theory Filing_Service
  imports Filing_Repository Send_Policy Ticket_Text
begin

section \<open>City filings: the services (\<open>services/filings/\<close>)\<close>

text \<open>
  How a filing is opened, queued, run, settled and read back: \<open>filing-route.ts\<close>, \<open>filing-sweep.ts\<close>,
  \<open>filing-results.ts\<close>, \<open>filing-service.ts\<close>, \<open>filing-admin-service.ts\<close>, \<open>city-update-jobs.ts\<close> and the outcomes of
  \<open>filing-email-jobs.ts\<close>.  The URL parser, the case-id pattern and the public statuses of the contract package,
  and whether the notification service accepts a notification, are parameters.  Queued jobs, chat events and
  notifications are outboxes of the world.
\<close>

definition MS_PER_SECOND :: int where "MS_PER_SECOND = 1000"
definition MS_PER_MINUTE :: int where "MS_PER_MINUTE = 60000"
definition MS_PER_HOUR :: int where "MS_PER_HOUR = 3600000"

datatype filing_job =
    Email_job string "int option"       \<comment> \<open>filing, \<open>startAfter\<close>\<close>
  | Run_job string int "int option"     \<comment> \<open>filing, attempt, \<open>startAfter\<close>\<close>

record chat_event =
  ce_reportId :: string
  ce_status :: report_status
  ce_kind :: timeline_kind
  ce_note :: string

datatype notice_title = Filed_with_city | Filed_with string | Status_is report_status

record notice =
  no_to :: string
  no_title :: notice_title
  no_link :: string

record filing_app = filing_world +
  w_jobs :: "filing_job list"
  w_chat :: "chat_event list"
  w_notices :: "notice list"

text \<open>\<open>fe_url\<close> is \<open>new URL(s)\<close> as its protocol and hostname, \<^const>\<open>None\<close> where it throws.\<close>

record filing_env =
  fe_uuid :: "nat \<Rightarrow> string"
  fe_automatic :: bool
  fe_webBaseUrl :: string
  fe_url :: "string \<Rightarrow> (string \<times> string) option"
  fe_caseIdOk :: "string \<Rightarrow> bool"
  fe_public :: "report_status \<Rightarrow> bool"
  fe_notifies :: "string \<Rightarrow> bool"
  fe_issues :: "(string \<times> string) list"

subsection \<open>Routes (\<open>filing-route.ts\<close>)\<close>

record resolved_route =
  rv_channel :: "filing_channel option"
  rv_routeCategory :: "string option"
  rv_portalHost :: "string option"
  rv_formUrl :: "string option"
  rv_requestTypeHint :: "string option"
  rv_includeLink :: bool
  rv_recipient :: "string option"
  rv_reason :: "filing_reason option"

definition NO_ROUTE :: resolved_route where
  "NO_ROUTE = \<lparr>rv_channel = None, rv_routeCategory = None, rv_portalHost = None, rv_formUrl = None,
     rv_requestTypeHint = None, rv_includeLink = True, rv_recipient = None, rv_reason = Some No_route\<rparr>"

definition portalHostOf :: "filing_env \<Rightarrow> string \<Rightarrow> ('w, string) prog" where
  "portalHostOf E formUrl =
     (case fe_url E formUrl of None \<Rightarrow> raise (PlainError ''Invalid URL'') | Some (_, host) \<Rightarrow> ret (toLowerCase host))"

definition fromRoute :: "filing_env \<Rightarrow> filing_route_record \<Rightarrow> string option \<Rightarrow> ('w, resolved_route) prog" where
  "fromRoute E route contact =
     seq (case (ro_channel route, ro_formUrl route) of
            (Portal, Some url) \<Rightarrow> seq (portalHostOf E url) (\<lambda>h. ret (Some h)) | _ \<Rightarrow> ret None) (\<lambda>host.
     ret \<lparr>rv_channel = Some (ro_channel route), rv_routeCategory = ro_category route, rv_portalHost = host,
          rv_formUrl = ro_formUrl route, rv_requestTypeHint = ro_requestTypeHint route,
          rv_includeLink = ro_includeLink route,
          rv_recipient = (if ro_channel route = Email then contact else None), rv_reason = None\<rparr>)"

definition matched_route :: "string \<Rightarrow> filing_route_record list \<Rightarrow> filing_route_record option" where
  "matched_route category routes =
     (case find (\<lambda>r. ro_category r = Some category) routes of
        Some r \<Rightarrow> Some r | None \<Rightarrow> find (\<lambda>r. ro_category r = None) routes)"

definition resolveFilingRoute ::
  "filing_env \<Rightarrow> string option \<Rightarrow> string \<Rightarrow> string option \<Rightarrow> ('w filing_world_scheme, resolved_route) prog" where
  "resolveFilingRoute E geoid category contact =
     (case geoid of
        None \<Rightarrow> ret NO_ROUTE
      | Some g \<Rightarrow> seq (findRoutes g category) (\<lambda>routes.
          case matched_route category routes of
            None \<Rightarrow>
              (if contact = None \<or> contact = Some [] then ret NO_ROUTE
               else ret \<lparr>rv_channel = Some Email, rv_routeCategory = None, rv_portalHost = None, rv_formUrl = None,
                      rv_requestTypeHint = None, rv_includeLink = True, rv_recipient = contact, rv_reason = None\<rparr>)
          | Some matched \<Rightarrow> seq (fromRoute E matched contact) (\<lambda>resolved.
              if \<not> ro_enabled matched then ret (resolved\<lparr>rv_reason := Some Route_disabled\<rparr>)
              else if ro_channel matched = Manual then ret (resolved\<lparr>rv_reason := Some Manual_route\<rparr>)
              else ret resolved)))"

subsection \<open>The queue (\<open>filing-sweep.ts\<close>)\<close>

definition SWEEP_MIN_AGE_MS :: int where "SWEEP_MIN_AGE_MS = 10 * MS_PER_MINUTE"

definition sendOptions :: "filing_record \<Rightarrow> int \<Rightarrow> int option" where
  "sendOptions filing now =
     (let delayMs = (case f_nextAttemptAt filing of None \<Rightarrow> 0 | Some t \<Rightarrow> t - now)
      in if delayMs > 0 then Some (ceil_div delayMs MS_PER_SECOND) else None)"

definition jobs_enqueue :: "filing_job \<Rightarrow> ('w filing_app_scheme, unit) prog" where
  "jobs_enqueue j = writes (\<lambda>w. w\<lparr>w_jobs := w_jobs w @ [j]\<rparr>)"

definition enqueueFiling :: "filing_env \<Rightarrow> filing_record \<Rightarrow> ('w filing_app_scheme, bool) prog" where
  "enqueueFiling E filing = seq (reads clock) (\<lambda>now.
     if f_channel filing = Some Email
     then seq (jobs_enqueue (Email_job (f_id filing) (sendOptions filing now))) (\<lambda>_. ret True)
     else if f_channel filing = Some Portal \<and> fe_automatic E
     then seq (jobs_enqueue (Run_job (f_id filing) (f_attempts filing + 1) (sendOptions filing now))) (\<lambda>_. ret True)
     else ret False)"

definition tr_input :: "filing_status list \<Rightarrow> filing_set \<Rightarrow> transition_input" where
  "tr_input from assigns = \<lparr>ti_from = from, ti_attempts = None, ti_runId = None, ti_set = assigns, ti_audit = None, ti_evidence = []\<rparr>"

definition requeue_stuck :: "filing_env \<Rightarrow> filing_record \<Rightarrow> ('w filing_app_scheme, unit) prog" where
  "requeue_stuck E filing =
     seq (transition (fe_uuid E) (f_id filing)
            ((tr_input [Running] [Set_status Queued])\<lparr>ti_attempts := Some (f_attempts filing)\<rparr>)) (\<lambda>queued.
     case queued of None \<Rightarrow> ret () | Some q \<Rightarrow> seq (enqueueFiling E q) (\<lambda>_. ret ()))"

definition requeueStuckEmail :: "filing_env \<Rightarrow> int \<Rightarrow> ('w filing_app_scheme, unit) prog" where
  "requeueStuckEmail E now =
     seq (listStaleRunningEmail (now - ROUTE_DEADLINE_INFLIGHT_SECONDS * MS_PER_SECOND) FILING_DUE_MAX_LIMIT)
       (for_each (requeue_stuck E))"

definition runSweepPass :: "filing_env \<Rightarrow> bool \<Rightarrow> ('w filing_app_scheme, unit) prog" where
  "runSweepPass E ignoreAge = seq getSettings (\<lambda>s.
     if fs_paused s then ret ()
     else seq (reads clock) (\<lambda>now.
          seq (listDueQueued now (if ignoreAge then None else Some (now - SWEEP_MIN_AGE_MS))
                 (if fe_automatic E then [Email, Portal] else [Email]) FILING_DUE_MAX_LIMIT) (\<lambda>due.
          seq (for_each (\<lambda>f. seq (enqueueFiling E f) (\<lambda>_. ret ())) due) (\<lambda>_.
          requeueStuckEmail E now))))"

subsection \<open>Success (\<open>filing-service.ts\<close>)\<close>

definition THE_CITY :: string where "THE_CITY = ''the city''"

definition filingNote :: "filing_status \<Rightarrow> string option \<Rightarrow> string option \<Rightarrow> string" where
  "filingNote outcome jurisdictionName caseId =
     (let j = (case jurisdictionName of None \<Rightarrow> THE_CITY | Some n \<Rightarrow> if n = [] then THE_CITY else n)
      in case caseId of
           None \<Rightarrow> ''Filed with '' @ j
         | Some c \<Rightarrow> if outcome = Linked_existing then ''Linked to '' @ j @ '' request '' @ c
                     else ''Filed with '' @ j @ '' '' @ [middle_dot] @ '' Request '' @ c)"

definition isFileable :: "report_row \<Rightarrow> bool" where
  "isFileable report \<longleftrightarrow> r_status report \<noteq> RRejected \<and> r_verdict report \<noteq> Some False"

definition initialState :: "resolved_route \<Rightarrow> bool \<Rightarrow> filing_status \<times> filing_reason option" where
  "initialState route automaticFiling =
     (case rv_reason route of
        Some r \<Rightarrow> (Needs_human, Some r)
      | None \<Rightarrow> if rv_channel route = Some Portal \<and> \<not> automaticFiling then (Needs_human, Some Filing_off)
                else (Queued, None))"

definition routeFor ::
  "filing_env \<Rightarrow> report_row \<Rightarrow> routing_record option \<Rightarrow> ('w filing_world_scheme, resolved_route) prog" where
  "routeFor E report routing =
     resolveFilingRoute E (Option.bind routing ru_geoid) (r_category report) (Option.bind routing ru_contact)"

definition ticketText :: "filing_env \<Rightarrow> report_row \<Rightarrow> bool \<Rightarrow> string option \<Rightarrow> string" where
  "ticketText E report includeLink note = renderTicketText
     \<lparr>tt_reportId = r_id report, tt_title = r_title report, tt_description = Some (r_desc report),
      tt_referenceCode = r_referenceCode report, tt_isPublic = (fe_public E (r_status report) \<and> r_public report),
      tt_includeLink = includeLink, tt_note = note, tt_webBaseUrl = fe_webBaseUrl E\<rparr>"

datatype fileability_state = Fileable | Already_filed | Not_fileable

definition fileability :: "report_row \<Rightarrow> ('w filing_world_scheme, fileability_state) prog" where
  "fileability report =
     (if \<not> isFileable report then ret Not_fileable
      else seq (getActiveForReport (r_id report)) (\<lambda>act. seq (getLatestSuccessfulForReport (r_id report)) (\<lambda>latest.
           if act \<noteq> None then ret Already_filed
           else case latest of
                  None \<Rightarrow> ret Fileable
                | Some l \<Rightarrow> if f_cityClosedAt (ls_filing l) = None \<and> \<not> ls_mailBounced l then ret Already_filed
                            else ret Fileable)))"

definition createNotification :: "filing_env \<Rightarrow> notice \<Rightarrow> ('w filing_app_scheme, unit) prog" where
  "createNotification E n =
     (if fe_notifies E (no_to n) then writes (\<lambda>w. w\<lparr>w_notices := w_notices w @ [n]\<rparr>)
      else raise (PlainError ''notification failed''))"

definition notifyReporter ::
  "filing_env \<Rightarrow> string option \<Rightarrow> string \<Rightarrow> string option \<Rightarrow> ('w filing_app_scheme, unit) prog" where
  "notifyReporter E reporterId reportId jurisdictionName =
     (case reporterId of
        None \<Rightarrow> ret ()
      | Some u \<Rightarrow> if u = [] then ret ()
          else createNotification E \<lparr>no_to = u,
                 no_title = (case jurisdictionName of None \<Rightarrow> Filed_with_city
                             | Some j \<Rightarrow> if j = [] then Filed_with_city else Filed_with j),
                 no_link = ''/reports/'' @ reportId\<rparr>)"

definition chat_emit :: "chat_event \<Rightarrow> ('w filing_app_scheme, unit) prog" where
  "chat_emit e = writes (\<lambda>w. w\<lparr>w_chat := w_chat w @ [e]\<rparr>)"

definition afterSuccess :: "filing_env \<Rightarrow> record_success_result \<Rightarrow> string \<Rightarrow> ('w filing_app_scheme, unit) prog" where
  "afterSuccess E result note =
     (if \<not> rr_reportChanged result then ret ()
      else let reportId = f_reportId (rr_filing result)
           in recover
             (seq (getReport reportId) (\<lambda>report.
              seq (chat_emit \<lparr>ce_reportId = reportId,
                     ce_status = (case report of None \<Rightarrow> RAcknowledged | Some r \<Rightarrow> r_status r),
                     ce_kind = TRoute, ce_note = note\<rparr>) (\<lambda>_.
              notifyReporter E (Option.bind report r_reporterId) reportId (f_jurisdictionName (rr_filing result)))))
             (\<lambda>_. ret ()))"

text \<open>\<open>ApplyFilingSuccessInput\<close>; its \<open>filingId\<close> and \<open>from\<close> are separate arguments.\<close>

record apply_success =
  as_outcome :: filing_status
  as_method :: filing_method
  as_caseId :: "string option option"
  as_caseUrl :: "string option option"
  as_mailThreadId :: "string option option"
  as_actorId :: "string option"
  as_audit :: "write_audit option"
  as_scriptVersion :: "string option option"
  as_dryRun :: "bool option"
  as_evidence :: "evidence_input list"

definition applyFilingSuccess ::
  "filing_env \<Rightarrow> string \<Rightarrow> success_guard \<Rightarrow> apply_success \<Rightarrow> ('w filing_app_scheme, bool) prog" where
  "applyFilingSuccess E filingId from input = seq (getById filingId) (\<lambda>row.
     case row of
       None \<Rightarrow> ret False
     | Some filing \<Rightarrow>
         let caseId = (case as_caseId input of None \<Rightarrow> f_caseId filing | Some c \<Rightarrow> c);
             note = filingNote (as_outcome input) (f_jurisdictionName filing) caseId
         in seq (recordSuccess (fe_uuid E)
                  \<lparr>rs_target = Existing filingId from, rs_outcome = as_outcome input, rs_method = as_method input,
                   rs_caseId = as_caseId input, rs_caseUrl = as_caseUrl input,
                   rs_mailThreadId = as_mailThreadId input, rs_scriptVersion = as_scriptVersion input,
                   rs_dryRun = as_dryRun input, rs_note = note, rs_actorId = as_actorId input,
                   rs_audit = as_audit input, rs_evidence = as_evidence input\<rparr>) (\<lambda>result.
            case result of
              None \<Rightarrow> ret False
            | Some r \<Rightarrow> seq (afterSuccess E r note) (\<lambda>_. ret True)))"

subsection \<open>Results of a run (\<open>filing-results.ts\<close>)\<close>

definition MAX_ATTEMPTS :: int where "MAX_ATTEMPTS = 3"
definition AI_RETRY_DELAY_MS :: int where "AI_RETRY_DELAY_MS = 30 * MS_PER_MINUTE"
definition AI_WAIT_LIMIT_MS :: int where "AI_WAIT_LIMIT_MS = 6 * MS_PER_HOUR"
definition UNUSABLE_LINKED_CASE_DETAIL :: string where
  "UNUSABLE_LINKED_CASE_DETAIL = ''The portal showed an existing request, but its number was not usable''"

definition RETRY_DELAY_MS :: "int \<Rightarrow> int option" where
  "RETRY_DELAY_MS n = (if n = 1 then Some (10 * MS_PER_MINUTE) else if n = 2 then Some (30 * MS_PER_MINUTE) else None)"

datatype run_outcome = O_submitted | O_linked_existing | O_needs_human | O_failed | O_cancelled

record result_payload =
  fp_filingId :: string
  fp_runId :: string
  fp_attempt :: int
  fp_outcome :: run_outcome
  fp_reason :: "filing_reason option"
  fp_reasonDetail :: "string option"
  fp_caseId :: "string option"
  fp_caseUrl :: "string option"
  fp_scriptVersion :: "string option"
  fp_dryRun :: bool
  fp_evidence :: "evidence_input list"

definition EVIDENCE_LABEL_MAX :: nat where "EVIDENCE_LABEL_MAX = 120"
definition EVIDENCE_MAX :: nat where "EVIDENCE_MAX = 50"

definition IMMEDIATE_NEEDS_HUMAN_REASONS :: "filing_reason list" where
  "IMMEDIATE_NEEDS_HUMAN_REASONS = [Captcha, Login_required, Missing_info, No_route, Route_disabled,
     Manual_route, Filing_off, Dry_run]"

definition FAILED_RUN_REASONS :: "filing_reason list" where
  "FAILED_RUN_REASONS = [Portal_error, Ai_unavailable, Uncertain_submission]"

text \<open>The checks of \<open>FilingResultPayloadSchema\<close> beyond the types of its fields.\<close>

definition reason_allowed :: "filing_reason list \<Rightarrow> filing_reason option \<Rightarrow> bool" where
  "reason_allowed allowed r = (case r of None \<Rightarrow> False | Some x \<Rightarrow> x \<in> set allowed)"

definition payload_ok :: "result_payload \<Rightarrow> bool" where
  "payload_ok p \<longleftrightarrow> fp_attempt p > 0 \<and> length (fp_evidence p) \<le> EVIDENCE_MAX
     \<and> list_all (\<lambda>e. ei_r2Key e \<noteq> [] \<and> (case ei_label e of None \<Rightarrow> False | Some l \<Rightarrow> length l \<le> EVIDENCE_LABEL_MAX)) (fp_evidence p)
     \<and> (case fp_outcome p of
          O_needs_human \<Rightarrow> reason_allowed IMMEDIATE_NEEDS_HUMAN_REASONS (fp_reason p)
        | O_failed \<Rightarrow> reason_allowed FAILED_RUN_REASONS (fp_reason p)
        | _ \<Rightarrow> True)"

definition parsePayload :: "filing_env \<Rightarrow> result_payload \<Rightarrow> ('w, result_payload) prog" where
  "parsePayload E raw =
     (if payload_ok raw then ret raw else raise (ValidationErr (fe_issues E) (Some ''Invalid filing result'')))"

definition portalCaseUrl :: "filing_env \<Rightarrow> string \<Rightarrow> string option \<Rightarrow> string option" where
  "portalCaseUrl E caseUrl portalHost =
     (case fe_url E caseUrl of
        None \<Rightarrow> None
      | Some (protocol, hostname) \<Rightarrow>
          if protocol = ''https:'' \<and> portalHost \<noteq> None \<and> Some hostname = portalHost then Some caseUrl else None)"

definition detail :: "result_payload \<Rightarrow> filing_set" where
  "detail p = (case fp_reasonDetail p of None \<Rightarrow> [] | Some d \<Rightarrow> [Set_reasonDetail (Some (take FILING_REASON_DETAIL_MAX d))])"

definition guarded ::
  "filing_env \<Rightarrow> filing_record \<Rightarrow> result_payload \<Rightarrow> filing_set \<Rightarrow> ('w filing_world_scheme, filing_record option) prog" where
  "guarded E filing p assigns = transition (fe_uuid E) (f_id filing)
     \<lparr>ti_from = [Running], ti_attempts = Some (fp_attempt p), ti_runId = Some (fp_runId p),
      ti_set = assigns @ [Set_dryRun (fp_dryRun p)]
        @ (case fp_scriptVersion p of None \<Rightarrow> [] | Some v \<Rightarrow> [Set_scriptVersion (Some v)]),
      ti_audit = None, ti_evidence = fp_evidence p\<rparr>"

definition needsHuman ::
  "filing_env \<Rightarrow> filing_record \<Rightarrow> result_payload \<Rightarrow> filing_reason \<Rightarrow> filing_set \<Rightarrow> ('w filing_world_scheme, bool) prog" where
  "needsHuman E filing p reason extra =
     seq (guarded E filing p ([Set_status Needs_human, Set_reason (Some reason)] @ extra)) (\<lambda>r. ret (isSome r))"

definition requeue ::
  "filing_env \<Rightarrow> filing_record \<Rightarrow> result_payload \<Rightarrow> filing_set \<Rightarrow> ('w filing_app_scheme, bool) prog" where
  "requeue E filing p assigns = seq (guarded E filing p (Set_status Queued # assigns)) (\<lambda>queued.
     case queued of None \<Rightarrow> ret False | Some q \<Rightarrow> seq (enqueueFiling E q) (\<lambda>_. ret True))"

definition success ::
  "filing_env \<Rightarrow> filing_record \<Rightarrow> result_payload \<Rightarrow> ('w filing_app_scheme, bool) prog" where
  "success E filing p =
     (let caseIdOk = (case fp_caseId p of None \<Rightarrow> True | Some c \<Rightarrow> fe_caseIdOk E c)
      in if fp_outcome p = O_submitted \<and> \<not> caseIdOk then needsHuman E filing p Uncertain_submission (detail p)
         else if fp_outcome p = O_linked_existing \<and> (fp_caseId p = None \<or> \<not> caseIdOk)
         then needsHuman E filing p Other_reason [Set_reasonDetail (Some UNUSABLE_LINKED_CASE_DETAIL)]
         else applyFilingSuccess E (f_id filing)
                \<lparr>sg_status = [Running], sg_attempts = Some (fp_attempt p), sg_runId = Some (fp_runId p), sg_reason = None\<rparr>
                \<lparr>as_outcome = (if fp_outcome p = O_submitted then Submitted else Linked_existing),
                 as_method = By_script, as_caseId = map_option Some (fp_caseId p),
                 as_caseUrl = map_option (\<lambda>u. portalCaseUrl E u (f_portalHost filing)) (fp_caseUrl p),
                 as_mailThreadId = None, as_actorId = None, as_audit = None,
                 as_scriptVersion = map_option Some (fp_scriptVersion p), as_dryRun = Some (fp_dryRun p),
                 as_evidence = fp_evidence p\<rparr>)"

definition failed ::
  "filing_env \<Rightarrow> filing_record \<Rightarrow> result_payload \<Rightarrow> ('w filing_app_scheme, bool) prog" where
  "failed E filing p = seq (reads clock) (\<lambda>now.
     let n = fp_attempt p in
     if fp_reason p = Some Portal_error then
       (case RETRY_DELAY_MS n of
          None \<Rightarrow> needsHuman E filing p Attempts_exhausted (detail p)
        | Some delay \<Rightarrow>
            if n \<ge> MAX_ATTEMPTS then needsHuman E filing p Attempts_exhausted (detail p)
            else requeue E filing p [Set_nextAttemptAt (Some (now + delay))])
     else if fp_reason p = Some Ai_unavailable then
       (let waitingSince = (case f_aiWaitSince filing of None \<Rightarrow> now | Some t \<Rightarrow> t)
        in if now - waitingSince \<ge> AI_WAIT_LIMIT_MS then needsHuman E filing p Ai_unavailable (detail p)
           else requeue E filing p [Set_attempts (n - 1), Set_nextAttemptAt (Some (now + AI_RETRY_DELAY_MS)),
                  Set_aiWaitSince (Some waitingSince)])
     else needsHuman E filing p Uncertain_submission (detail p))"

fun apply_outcome ::
  "filing_env \<Rightarrow> filing_record \<Rightarrow> result_payload \<Rightarrow> run_outcome \<Rightarrow> ('w filing_app_scheme, bool) prog" where
  "apply_outcome E filing p O_submitted = success E filing p"
| "apply_outcome E filing p O_linked_existing = success E filing p"
| "apply_outcome E filing p O_needs_human =
     needsHuman E filing p (case fp_reason p of None \<Rightarrow> Other_reason | Some r \<Rightarrow> r) (detail p)"
| "apply_outcome E filing p O_failed = failed E filing p"
| "apply_outcome E filing p O_cancelled =
     seq (guarded E filing p [Set_status Cancelled]) (\<lambda>r. ret (isSome r))"

definition applyFilingResult :: "filing_env \<Rightarrow> result_payload \<Rightarrow> ('w filing_app_scheme, bool) prog" where
  "applyFilingResult E raw = seq (parsePayload E raw) (\<lambda>p. seq (getById (fp_filingId p)) (\<lambda>row.
     case row of None \<Rightarrow> ret False | Some filing \<Rightarrow> apply_outcome E filing p (fp_outcome p)))"

end
