(* ===== verification/Filing_Admin.thy ===== *)
theory Filing_Admin
  imports Filing_Service
begin

section \<open>City filings: operators, verdicts, city updates and email (\<open>services/filings/\<close>)\<close>

text \<open>
  The rest of \<open>filing-service.ts\<close>, the operator's actions of \<open>filing-admin-service.ts\<close>, the effects of a classified
  city message (\<open>city-update-jobs.ts\<close>) and the email job (\<open>filing-email-jobs.ts\<close>), whose mail side (outreach
  state, packets, delivery) is a parameter.  An instant and its ISO text are the same; the chat emitter and the
  notifier are wired, as in the container; lists of routes and pages of filings are left out.
\<close>

subsection \<open>Opening a filing (\<open>filing-service.ts\<close>)\<close>

definition REPORT_NOT_FOUND :: string where "REPORT_NOT_FOUND = ''Report not found''"

datatype create_outcome = Outcome_created filing_record | Outcome_refused fileability_state

definition blank_input :: create_filing_input where
  "blank_input = \<lparr>cf_reportId = [], cf_geoid = None, cf_category = [], cf_routeCategory = None, cf_channel = None,
     cf_portalHost = None, cf_formUrl = None, cf_status = Queued, cf_method = None, cf_reason = None,
     cf_reasonDetail = None, cf_caseId = None, cf_caseUrl = None, cf_ticketText = [], cf_note = None,
     cf_mailThreadId = None, cf_createdBy = None\<rparr>"

definition note_of :: "string option \<Rightarrow> string option" where
  "note_of note = (case note of None \<Rightarrow> None | Some n \<Rightarrow> if trim n = [] then None else Some (trim n))"

definition open_filing ::
  "filing_env \<Rightarrow> report_row \<Rightarrow> routing_record option \<Rightarrow> string option \<Rightarrow> string option \<Rightarrow> write_audit option \<Rightarrow>
     ('w filing_app_scheme, create_outcome) prog" where
  "open_filing E report routing actorId note audit = seq (routeFor E report routing) (\<lambda>route.
     let (status, reason) = initialState route (fe_automatic E); n = note_of note
     in seq (create (fe_uuid E)
              (blank_input\<lparr>cf_reportId := r_id report, cf_geoid := Option.bind routing ru_geoid,
                 cf_category := r_category report, cf_routeCategory := rv_routeCategory route,
                 cf_channel := rv_channel route, cf_portalHost := rv_portalHost route,
                 cf_formUrl := rv_formUrl route, cf_status := status, cf_reason := reason,
                 cf_ticketText := ticketText E report (rv_includeLink route) n, cf_note := n,
                 cf_createdBy := actorId\<rparr>) audit) (\<lambda>created.
        case created of
          Active_exists \<Rightarrow> ret (Outcome_refused Already_filed)
        | Created f \<Rightarrow>
            seq (if f_status f = Queued then enqueueFiling E f else ret False) (\<lambda>_. ret (Outcome_created f))))"

definition service_create ::
  "filing_env \<Rightarrow> string \<Rightarrow> string option \<Rightarrow> string option \<Rightarrow> write_audit option \<Rightarrow> ('w filing_app_scheme, create_outcome) prog" where
  "service_create E reportId actorId note audit =
     seq (getReport reportId) (\<lambda>report. seq (getRouting reportId) (\<lambda>routing.
     case report of
       None \<Rightarrow> raise (NotFound (Some REPORT_NOT_FOUND))
     | Some r \<Rightarrow> seq (fileability r) (\<lambda>state.
         if state \<noteq> Fileable then ret (Outcome_refused state)
         else open_filing E r routing actorId note audit)))"

definition recordEmailRoute ::
  "filing_env \<Rightarrow> report_row \<Rightarrow> routing_record option \<Rightarrow> string \<Rightarrow> string option \<Rightarrow> ('w filing_app_scheme, unit) prog" where
  "recordEmailRoute E report routing mailThreadId actorId =
     (let note = filingNote Submitted (map_option ru_place routing) None
      in seq (recordSuccess (fe_uuid E)
           \<lparr>rs_target = New (blank_input\<lparr>cf_reportId := r_id report, cf_geoid := Option.bind routing ru_geoid,
              cf_category := r_category report, cf_channel := Some Email,
              cf_ticketText := ticketText E report True None, cf_createdBy := actorId\<rparr>),
            rs_outcome = Submitted, rs_method = By_email, rs_caseId = None, rs_caseUrl = None,
            rs_mailThreadId = Some (Some mailThreadId), rs_scriptVersion = None, rs_dryRun = None,
            rs_note = note, rs_actorId = actorId, rs_audit = None, rs_evidence = []\<rparr>) (\<lambda>result.
         case result of None \<Rightarrow> ret () | Some r \<Rightarrow> afterSuccess E r note))"

definition cancelForReport :: "filing_env \<Rightarrow> string \<Rightarrow> ('w filing_app_scheme, unit) prog" where
  "cancelForReport E reportId = seq (getActiveForReport reportId) (\<lambda>act.
     case act of
       None \<Rightarrow> ret ()
     | Some f \<Rightarrow>
         if f_status f = Running then ret ()
         else seq (transition (fe_uuid E) (f_id f) (tr_input [Queued, Needs_human] [Set_status Cancelled])) (\<lambda>_. ret ()))"

definition onVerdict :: "filing_env \<Rightarrow> string \<Rightarrow> bool \<Rightarrow> string option \<Rightarrow> ('w filing_app_scheme, unit) prog" where
  "onVerdict E reportId approved actorId =
     (if \<not> approved then cancelForReport E reportId
      else seq (service_create E reportId actorId None None) (\<lambda>_. ret ()))"

record admin_filing_dto =
  ad_id :: string
  ad_reportId :: string
  ad_reportTitle :: string
  ad_referenceCode :: "string option"
  ad_geoid :: "string option"
  ad_jurisdictionName :: "string option"
  ad_category :: string
  ad_channel :: "filing_channel option"
  ad_portalHost :: "string option"
  ad_status :: filing_status
  ad_method :: "filing_method option"
  ad_reason :: "filing_reason option"
  ad_reasonDetail :: "string option"
  ad_caseId :: "string option"
  ad_caseUrl :: "string option"
  ad_cityClosedAt :: "int option"
  ad_attempts :: int
  ad_scriptVersion :: "string option"
  ad_dryRun :: bool
  ad_ticketText :: string
  ad_createdAt :: int
  ad_updatedAt :: int
  ad_submittedAt :: "int option"

definition toAdminFilingDTO :: "filing_record \<Rightarrow> string \<Rightarrow> string option \<Rightarrow> admin_filing_dto" where
  "toAdminFilingDTO filing title referenceCode =
     \<lparr>ad_id = f_id filing, ad_reportId = f_reportId filing, ad_reportTitle = title,
      ad_referenceCode = referenceCode, ad_geoid = f_geoid filing,
      ad_jurisdictionName = f_jurisdictionName filing, ad_category = f_category filing,
      ad_channel = f_channel filing, ad_portalHost = f_portalHost filing, ad_status = f_status filing,
      ad_method = f_method filing, ad_reason = f_reason filing, ad_reasonDetail = f_reasonDetail filing,
      ad_caseId = f_caseId filing, ad_caseUrl = f_caseUrl filing, ad_cityClosedAt = f_cityClosedAt filing,
      ad_attempts = f_attempts filing, ad_scriptVersion = f_scriptVersion filing, ad_dryRun = f_dryRun filing,
      ad_ticketText = f_ticketText filing, ad_createdAt = f_createdAt filing,
      ad_updatedAt = f_updatedAt filing, ad_submittedAt = f_submittedAt filing\<rparr>"

definition filingRouteTarget :: "resolved_route \<Rightarrow> string option" where
  "filingRouteTarget route =
     (if rv_channel route = Some Portal then rv_portalHost route
      else if rv_channel route = Some Email then rv_recipient route else None)"

definition adminReportView ::
  "filing_env \<Rightarrow> report_row \<Rightarrow> routing_record option \<Rightarrow>
     ('w filing_world_scheme, admin_filing_dto option \<times> (filing_channel \<times> string option) option) prog" where
  "adminReportView E report routing = seq (getLatestForReport (r_id report)) (\<lambda>latest.
     seq (routeFor E report routing) (\<lambda>route.
     ret (map_option (\<lambda>f. toAdminFilingDTO f (r_title report) (r_referenceCode report)) latest,
          map_option (\<lambda>c. (c, filingRouteTarget route)) (rv_channel route))))"

subsection \<open>The operator's actions (\<open>filing-admin-service.ts\<close>)\<close>

definition FILING_NOT_FOUND :: string where "FILING_NOT_FOUND = ''Filing not found''"
definition WRONG_STATE :: string where "WRONG_STATE = ''This filing can't do that in its current state''"
definition SETTINGS_TARGET :: string where "SETTINGS_TARGET = ''filing_settings''"

definition filingTarget :: "string \<Rightarrow> string" where
  "filingTarget i = ''filing:'' @ i"

definition filingAudit :: "string \<Rightarrow> string \<Rightarrow> string \<Rightarrow> string option \<Rightarrow> write_audit" where
  "filingAudit action i actorId note =
     \<lparr>wa_actorId = Some actorId, wa_action = action, wa_target = Some (filingTarget i), wa_note = note\<rparr>"

definition isOpen :: "filing_record \<Rightarrow> bool" where
  "isOpen filing \<longleftrightarrow> (f_status filing = Queued \<or> f_status filing = Needs_human) \<and> f_reason filing \<noteq> Some City_needs_info"

definition isCityNeedsInfo :: "filing_record \<Rightarrow> bool" where
  "isCityNeedsInfo filing \<longleftrightarrow> f_status filing = Needs_human \<and> f_reason filing = Some City_needs_info"

definition loadFiling :: "string \<Rightarrow> ('w filing_world_scheme, filing_record) prog" where
  "loadFiling i = seq (getById i) (\<lambda>row.
     case row of None \<Rightarrow> raise (NotFound (Some FILING_NOT_FOUND)) | Some f \<Rightarrow> ret f)"

definition dto_with :: "filing_record \<Rightarrow> report_row option \<Rightarrow> admin_filing_dto" where
  "dto_with filing r = toAdminFilingDTO filing (case r of None \<Rightarrow> [] | Some x \<Rightarrow> r_title x) (Option.bind r r_referenceCode)"

definition dtoOf :: "filing_record \<Rightarrow> ('w filing_world_scheme, admin_filing_dto) prog" where
  "dtoOf filing = seq (getReport (f_reportId filing)) (\<lambda>r. ret (dto_with filing r))"

definition admin_file ::
  "filing_env \<Rightarrow> string \<Rightarrow> string \<Rightarrow> string option \<Rightarrow> ('w filing_app_scheme, admin_filing_dto) prog" where
  "admin_file E reportId actorId note = seq (getReport reportId) (\<lambda>report.
     case report of
       None \<Rightarrow> raise (NotFound (Some REPORT_NOT_FOUND))
     | Some r \<Rightarrow> seq (service_create E reportId (Some actorId) note
           (Some \<lparr>wa_actorId = Some actorId, wa_action = ''filing.filed'', wa_target = None, wa_note = None\<rparr>)) (\<lambda>outcome.
         case outcome of
           Outcome_refused Already_filed \<Rightarrow> raise (ConflictErr (Some ''This report is already filed with the city''))
         | Outcome_refused _ \<Rightarrow> raise (ConflictErr (Some ''This report can't be filed''))
         | Outcome_created f \<Rightarrow> ret (dto_with f (Some r))))"

definition retry_set :: "resolved_route \<Rightarrow> string option \<Rightarrow> filing_status \<Rightarrow> filing_reason option \<Rightarrow> filing_set" where
  "retry_set route geoid status reason =
     [Set_geoid geoid, Set_routeCategory (rv_routeCategory route), Set_channel (rv_channel route),
      Set_portalHost (rv_portalHost route), Set_formUrl (rv_formUrl route), Set_status status, Set_reason reason,
      Set_reasonDetail None, Set_attempts 0, Set_aiWaitSince None]"

definition retry :: "filing_env \<Rightarrow> string \<Rightarrow> string \<Rightarrow> ('w filing_app_scheme, admin_filing_dto) prog" where
  "retry E i actorId = seq (loadFiling i) (\<lambda>filing.
     if f_status filing \<noteq> Needs_human \<or> f_reason filing = Some City_needs_info then raise (ConflictErr (Some WRONG_STATE))
     else seq (getReport (f_reportId filing)) (\<lambda>report. seq (getRouting (f_reportId filing)) (\<lambda>routing.
       case report of
         None \<Rightarrow> raise (NotFound (Some REPORT_NOT_FOUND))
       | Some r \<Rightarrow> seq (routeFor E r routing) (\<lambda>route.
           let (status, reason) = initialState route (fe_automatic E) in
           seq (transition (fe_uuid E) i
                  ((tr_input [Needs_human] (retry_set route (Option.bind routing ru_geoid) status reason))
                     \<lparr>ti_audit := Some (filingAudit ''filing.retried'' i actorId None)\<rparr>)) (\<lambda>retried.
           case retried of
             None \<Rightarrow> raise (ConflictErr (Some WRONG_STATE))
           | Some q \<Rightarrow> seq (if f_status q \<noteq> Queued then ret True else enqueueFiling E q) (\<lambda>sent.
               if sent then ret (dto_with q (Some r))
               else seq (transition (fe_uuid E) i (tr_input [Queued] [Set_status Needs_human, Set_reason (Some Filing_off)])) (\<lambda>off.
                    case off of
                      Some f \<Rightarrow> ret (dto_with f (Some r))
                    | None \<Rightarrow> seq (loadFiling i) (\<lambda>f. ret (dto_with f (Some r))))))))))"

definition admin_cancel ::
  "filing_env \<Rightarrow> string \<Rightarrow> string \<Rightarrow> string option \<Rightarrow> ('w filing_app_scheme, admin_filing_dto) prog" where
  "admin_cancel E i actorId note = seq (loadFiling i) (\<lambda>filing.
     if \<not> isOpen filing then raise (ConflictErr (Some WRONG_STATE))
     else seq (transition (fe_uuid E) i ((tr_input [Queued, Needs_human] [Set_status Cancelled])
             \<lparr>ti_audit := Some (filingAudit ''filing.cancelled'' i actorId note)\<rparr>)) (\<lambda>cancelled.
          case cancelled of None \<Rightarrow> raise (ConflictErr (Some WRONG_STATE)) | Some f \<Rightarrow> dtoOf f))"

definition manual_success :: "string \<Rightarrow> string option \<Rightarrow> string \<Rightarrow> write_audit \<Rightarrow> apply_success" where
  "manual_success caseId caseUrl actorId audit =
     \<lparr>as_outcome = Submitted, as_method = By_operator, as_caseId = Some (Some caseId), as_caseUrl = Some caseUrl,
      as_mailThreadId = None, as_actorId = Some actorId, as_audit = Some audit, as_scriptVersion = None,
      as_dryRun = None, as_evidence = []\<rparr>"

definition recordManual ::
  "filing_env \<Rightarrow> string \<Rightarrow> string \<Rightarrow> string \<Rightarrow> string option \<Rightarrow> string option \<Rightarrow> ('w filing_app_scheme, admin_filing_dto) prog" where
  "recordManual E i actorId caseId caseUrl note = seq (loadFiling i) (\<lambda>filing.
     let audit = filingAudit ''filing.manual_recorded'' i actorId note in
     if isCityNeedsInfo filing then
       seq (transition (fe_uuid E) i ((tr_input [Needs_human]
              [Set_status Submitted, Set_method (Some By_operator), Set_caseId (Some caseId), Set_caseUrl caseUrl])
              \<lparr>ti_audit := Some audit\<rparr>)) (\<lambda>submitted.
       case submitted of None \<Rightarrow> raise (ConflictErr (Some WRONG_STATE)) | Some f \<Rightarrow> dtoOf f)
     else if \<not> isOpen filing then raise (ConflictErr (Some WRONG_STATE))
     else seq (applyFilingSuccess E i
                 \<lparr>sg_status = [f_status filing], sg_attempts = None, sg_runId = None, sg_reason = None\<rparr>
                 (manual_success caseId caseUrl actorId audit)) (\<lambda>applied.
          if \<not> applied then raise (ConflictErr (Some WRONG_STATE))
          else seq (loadFiling i) dtoOf))"

definition setSettings :: "filing_env \<Rightarrow> bool \<Rightarrow> string \<Rightarrow> ('w filing_app_scheme, bool \<times> bool) prog" where
  "setSettings E paused actorId = seq getSettings (\<lambda>current.
     if fs_paused current = paused then ret (paused, fe_automatic E)
     else seq (setPaused paused (Some \<lparr>wa_actorId = Some actorId, wa_action = ''filing.settings_changed'',
                 wa_target = Some SETTINGS_TARGET, wa_note = None\<rparr>)) (\<lambda>saved.
          seq (if fs_paused current \<and> \<not> fs_paused saved then runSweepPass E True else ret ()) (\<lambda>_.
          ret (fs_paused saved, fe_automatic E))))"

subsection \<open>City updates (\<open>city-update-jobs.ts\<close>)\<close>

definition MIN_CONFIDENCE :: rat where "MIN_CONFIDENCE = 7 / 10"

definition is_alnum :: "char \<Rightarrow> bool" where
  "is_alnum c \<longleftrightarrow> is_digit c \<or> (let n = (of_char c :: nat) in (65 \<le> n \<and> n \<le> 90) \<or> (97 \<le> n \<and> n \<le> 122))"

text \<open>\<open>CASE_ID_RE\<close>.\<close>

definition case_id_re :: "string \<Rightarrow> bool" where
  "case_id_re s = (case s of [] \<Rightarrow> False
     | c # cs \<Rightarrow> is_alnum c \<and> length cs \<le> 63 \<and> list_all (\<lambda>d. is_alnum d \<or> d \<in> set '' ._#/-'') cs)"

definition planCityUpdate :: "filing_classification option \<Rightarrow> city_update_filing \<Rightarrow> city_update_effect" where
  "planCityUpdate c filing =
     (case c of None \<Rightarrow> Flag_effect
      | Some cl \<Rightarrow>
          if fc_confidence cl < MIN_CONFIDENCE then Flag_effect
          else let city = (case cu_jurisdictionName filing of None \<Rightarrow> ''The city'' | Some j \<Rightarrow> j) in
            case fc_status cl of
              C_received \<Rightarrow>
                (case fc_caseId cl of
                   None \<Rightarrow> No_effect
                 | Some i \<Rightarrow> if \<not> case_id_re i \<or> cu_caseId filing \<noteq> None then No_effect
                             else Case_id_effect i (city @ '' received request '' @ i))
            | C_in_progress \<Rightarrow>
                if cu_channel filing \<noteq> Some Portal then No_effect
                else Report_status_effect [RAcknowledged] RIn_progress
                       (case cu_caseId filing of None \<Rightarrow> city @ '' is working on this request''
                        | Some i \<Rightarrow> city @ '' is working on request '' @ i) TStatus False
            | C_closed \<Rightarrow> Report_status_effect [RAcknowledged, RIn_progress] RResolved
                       (case cu_caseId filing of None \<Rightarrow> city @ '' closed the request''
                        | Some i \<Rightarrow> city @ '' closed request '' @ i) TDone True
            | C_needs_info \<Rightarrow> Needs_info_effect (fc_summary cl)
            | C_other \<Rightarrow> No_effect)"

definition notifyReporterOfStatus ::
  "filing_env \<Rightarrow> string \<Rightarrow> string option \<Rightarrow> report_status \<Rightarrow> ('w filing_app_scheme, unit) prog" where
  "notifyReporterOfStatus E reportId reporterUserId status =
     (if status \<notin> {RIn_progress, RResolved} then ret ()
      else case reporterUserId of
             None \<Rightarrow> ret ()
           | Some u \<Rightarrow> if u = [] then ret ()
               else recover (createNotification E \<lparr>no_to = u, no_title = Status_is status, no_link = ''/reports/'' @ reportId\<rparr>)
                      (\<lambda>_. ret ()))"

definition city_update :: "filing_env \<Rightarrow> string \<Rightarrow> filing_classification option \<Rightarrow> ('w filing_app_scheme, unit) prog" where
  "city_update E messageId c = seq (applyCityUpdate messageId c (planCityUpdate c)) (\<lambda>result.
     case result of
       Not_claimed \<Rightarrow> ret ()
     | Claimed filing effect applied \<Rightarrow>
         if \<not> applied then ret ()
         else (case effect of
             Case_id_effect caseId note \<Rightarrow> seq (getReport (cu_reportId filing)) (\<lambda>report.
               case report of None \<Rightarrow> ret ()
               | Some r \<Rightarrow> chat_emit \<lparr>ce_reportId = cu_reportId filing, ce_status = r_status r, ce_kind = TReply, ce_note = note\<rparr>)
           | Report_status_effect from target note kind cityClosed \<Rightarrow> seq (getReport (cu_reportId filing)) (\<lambda>report.
               seq (notifyReporterOfStatus E (cu_reportId filing) (Option.bind report r_reporterId) target) (\<lambda>_.
               chat_emit \<lparr>ce_reportId = cu_reportId filing, ce_status = target, ce_kind = kind, ce_note = note\<rparr>))
           | _ \<Rightarrow> ret ()))"

subsection \<open>The email job (\<open>filing-email-jobs.ts\<close>)\<close>

record outreach_state =
  or_bounced :: bool
  or_threadId :: "string option"
  or_routedTo :: "string option"
  or_packetSent :: bool
  or_sendFailed :: bool
  or_sendInFlight :: bool

text \<open>
  The mail side of one try: the outreach state of the report, the packet not yet sent on a thread, the thread of
  a new packet or why there is none, whether the packet's content could be built, which errors are the send
  deadline's, and the message of an error.
\<close>

record mail_env =
  me_outreach :: outreach_state
  me_unsent :: "string \<Rightarrow> string option"
  me_prepare :: "app_error + string"
  me_content :: "app_error option"
  me_isDeadline :: "app_error \<Rightarrow> bool"
  me_message :: "app_error \<Rightarrow> string"

datatype email_step =
    Step_stale | Step_moved | Step_no_route | Step_delivered string | Step_send string | Step_failed app_error

definition SEND_IN_FLIGHT_CONFLICT :: string where
  "SEND_IN_FLIGHT_CONFLICT = ''A send to this jurisdiction is still in progress. Check back shortly to see the outcome on the outreach trail.''"
definition ALREADY_ROUTED_CONFLICT :: string where
  "ALREADY_ROUTED_CONFLICT = ''This report has already been sent to its jurisdiction''"

definition sameAddress :: "string \<Rightarrow> string \<Rightarrow> bool" where
  "sameAddress a b \<longleftrightarrow> toLowerCase (trim a) = toLowerCase (trim b)"

definition assertNoSendInFlight :: "outreach_state \<Rightarrow> ('w, unit) prog" where
  "assertNoSendInFlight existing = guard (\<not> or_sendInFlight existing) (ConflictErr (Some SEND_IN_FLIGHT_CONFLICT))"

definition assertRoutable :: "outreach_state \<Rightarrow> string \<Rightarrow> ('w, unit) prog" where
  "assertRoutable existing toAddr = seq (assertNoSendInFlight existing) (\<lambda>_.
     let retargeted = (case or_routedTo existing of None \<Rightarrow> False | Some a \<Rightarrow> \<not> sameAddress a toAddr)
     in guard (\<not> (or_packetSent existing \<and> \<not> or_sendFailed existing \<and> \<not> retargeted \<and> \<not> or_bounced existing))
          (ConflictErr (Some ALREADY_ROUTED_CONFLICT)))"

definition recipientOf :: "routing_record option \<Rightarrow> string option" where
  "recipientOf routing = (case Option.bind routing ru_contact of None \<Rightarrow> None | Some a \<Rightarrow> if a = [] then None else Some a)"

definition settle :: "filing_env \<Rightarrow> string \<Rightarrow> int \<Rightarrow> filing_set \<Rightarrow> ('w filing_world_scheme, bool) prog" where
  "settle E i attempt assigns =
     seq (transition (fe_uuid E) i ((tr_input [Running] assigns)\<lparr>ti_attempts := Some attempt\<rparr>)) (\<lambda>moved. ret (isSome moved))"

definition email_success :: "string \<Rightarrow> apply_success" where
  "email_success threadId =
     \<lparr>as_outcome = Submitted, as_method = By_email, as_caseId = None, as_caseUrl = None,
      as_mailThreadId = Some (Some threadId), as_actorId = None, as_audit = None, as_scriptVersion = None,
      as_dryRun = None, as_evidence = []\<rparr>"

definition succeed :: "filing_env \<Rightarrow> string \<Rightarrow> int \<Rightarrow> string \<Rightarrow> ('w filing_app_scheme, unit) prog" where
  "succeed E i attempt threadId =
     seq (applyFilingSuccess E i \<lparr>sg_status = [Running], sg_attempts = Some attempt, sg_runId = None, sg_reason = None\<rparr>
            (email_success threadId)) (\<lambda>_. ret ())"

definition lateSuccess :: "filing_env \<Rightarrow> string \<Rightarrow> string \<Rightarrow> ('w filing_app_scheme, unit) prog" where
  "lateSuccess E i threadId =
     seq (applyFilingSuccess E i
            \<lparr>sg_status = [Needs_human], sg_attempts = None, sg_runId = None, sg_reason = Some Uncertain_submission\<rparr>
            (email_success threadId)) (\<lambda>_. ret ())"

definition fail ::
  "filing_env \<Rightarrow> mail_env \<Rightarrow> bool \<Rightarrow> string \<Rightarrow> int \<Rightarrow> app_error \<Rightarrow> ('w filing_world_scheme, unit) prog" where
  "fail E M final i attempt err =
     (if me_isDeadline M err
      then seq (settle E i attempt [Set_status Needs_human, Set_reason (Some Uncertain_submission)]) (\<lambda>_. ret ())
      else if final
      then seq (settle E i attempt [Set_status Needs_human, Set_reason (Some Portal_error),
             Set_reasonDetail (Some (take FILING_REASON_DETAIL_MAX (me_message M err)))]) (\<lambda>_. ret ())
      else seq (settle E i attempt [Set_status Queued]) (\<lambda>moved. if moved then raise err else ret ()))"

definition recordThread :: "filing_env \<Rightarrow> filing_record \<Rightarrow> int \<Rightarrow> string \<Rightarrow> ('w filing_world_scheme, bool) prog" where
  "recordThread E filing attempt threadId =
     (if f_mailThreadId filing = Some threadId then ret True
      else settle E (f_id filing) attempt [Set_mailThreadId (Some threadId)])"

definition send_on :: "filing_env \<Rightarrow> filing_record \<Rightarrow> int \<Rightarrow> string \<Rightarrow> ('w filing_world_scheme, email_step) prog" where
  "send_on E filing attempt threadId = seq (recordThread E filing attempt threadId) (\<lambda>ok.
     ret (if ok then Step_send threadId else Step_moved))"

definition prepare ::
  "filing_env \<Rightarrow> mail_env \<Rightarrow> filing_record \<Rightarrow> int \<Rightarrow> string \<Rightarrow> ('w filing_world_scheme, email_step) prog" where
  "prepare E M filing attempt toAddr =
     (let outreach = me_outreach M in
      seq (recover (seq (assertRoutable outreach toAddr) (\<lambda>_. ret None))
             (\<lambda>err. if or_sendInFlight outreach \<or> or_threadId outreach = None then raise err
                    else ret (or_threadId outreach))) (\<lambda>delivered.
      case delivered of
        Some t \<Rightarrow> ret (Step_delivered t)
      | None \<Rightarrow>
          let knownThread = (case f_mailThreadId filing of Some t \<Rightarrow> Some t | None \<Rightarrow> or_threadId outreach)
          in case Option.bind knownThread (\<lambda>t. map_option (\<lambda>_. t) (me_unsent M t)) of
               Some t \<Rightarrow> send_on E filing attempt t
             | None \<Rightarrow> (case me_prepare M of Inl err \<Rightarrow> raise err | Inr t \<Rightarrow> send_on E filing attempt t)))"

text \<open>The job up to the send: what the claimed try does next, and the attempt it claimed.\<close>

definition email_start ::
  "filing_env \<Rightarrow> mail_env \<Rightarrow> string \<Rightarrow> ('w filing_app_scheme, (email_step \<times> int) option) prog" where
  "email_start E M filingId = seq (getById filingId) (\<lambda>row.
     case row of
       None \<Rightarrow> ret None
     | Some filing \<Rightarrow>
         if f_status filing \<noteq> Queued then ret None
         else seq getSettings (\<lambda>s. if fs_paused s then ret None
         else seq (getReport (f_reportId filing)) (\<lambda>report.
         case report of
           Some r \<Rightarrow>
             if \<not> isFileable r
             then seq (transition (fe_uuid E) filingId (tr_input [Queued] [Set_status Cancelled])) (\<lambda>_. ret None)
             else seq (getRouting (r_id r)) (\<lambda>routing.
               seq (if recipientOf routing = None then ret ()
                    else (case me_content M of None \<Rightarrow> ret () | Some e \<Rightarrow> raise e)) (\<lambda>_.
               let attempt = f_attempts filing + 1 in
               seq (claim (fe_uuid E) filingId attempt) (\<lambda>run.
               case run of
                 None \<Rightarrow> ret (Some (Step_stale, attempt))
               | Some _ \<Rightarrow>
                   (case recipientOf routing of
                      None \<Rightarrow> ret (Some (Step_no_route, attempt))
                    | Some toAddr \<Rightarrow> seq (recover (prepare E M filing attempt toAddr) (\<lambda>err. ret (Step_failed err)))
                        (\<lambda>step. ret (Some (step, attempt)))))))
         | None \<Rightarrow> seq (transition (fe_uuid E) filingId (tr_input [Queued] [Set_status Cancelled])) (\<lambda>_. ret None))))"

text \<open>The end of the try; \<open>sent\<close> is the delivery's rejection, if any.\<close>

fun email_finish ::
  "filing_env \<Rightarrow> mail_env \<Rightarrow> bool \<Rightarrow> string \<Rightarrow> int \<Rightarrow> app_error option \<Rightarrow> email_step \<Rightarrow> ('w filing_app_scheme, unit) prog" where
  "email_finish E M final i attempt sent Step_stale = ret ()"
| "email_finish E M final i attempt sent Step_moved = ret ()"
| "email_finish E M final i attempt sent Step_no_route =
     seq (settle E i attempt [Set_status Needs_human, Set_reason (Some No_route)]) (\<lambda>_. ret ())"
| "email_finish E M final i attempt sent (Step_delivered t) = succeed E i attempt t"
| "email_finish E M final i attempt sent (Step_failed err) = fail E M final i attempt err"
| "email_finish E M final i attempt sent (Step_send t) =
     (case sent of None \<Rightarrow> succeed E i attempt t | Some err \<Rightarrow> fail E M final i attempt err)"

end
