(* ===== verification/Filing_Machine.thy ===== *)
theory Filing_Machine
  imports Filing_Admin
begin

section \<open>City filings: the state machine\<close>

text \<open>
  The life of a filing as a step relation on the filings, the number of identifiers drawn and the public
  timeline.  Each rule is one guarded write of the services; \<open>Filing_Runs\<close> shows that every operation is a
  sequence of these steps.  The flag \<open>mixed\<close> says whether an email try may run on a portal filing, which the email
  job does not exclude.
\<close>

type_synonym filing_view = "filing_record list \<times> nat \<times> timeline_row list"

definition view :: "'w filing_world_scheme \<Rightarrow> filing_view" where
  "view w = (w_filings w, w_drawn w, w_timeline w)"

text \<open>What no write but a success and an operator's answer changes.\<close>

definition same_core :: "filing_record \<Rightarrow> filing_record \<Rightarrow> bool" where
  "same_core f g \<longleftrightarrow> f_id g = f_id f \<and> f_reportId g = f_reportId f \<and> f_submittedAt g = f_submittedAt f
     \<and> f_caseUrl g = f_caseUrl f \<and> f_method g = f_method f"

definition same_route :: "filing_record \<Rightarrow> filing_record \<Rightarrow> bool" where
  "same_route f g \<longleftrightarrow> f_channel g = f_channel f \<and> f_portalHost g = f_portalHost f"

definition not_city :: "filing_record \<Rightarrow> bool" where
  "not_city f \<longleftrightarrow> f_reason f \<noteq> Some City_needs_info"

inductive filing_write :: "filing_env \<Rightarrow> bool \<Rightarrow> nat \<Rightarrow> nat \<Rightarrow> filing_record \<Rightarrow> filing_record \<Rightarrow> bool" for E mixed where
  write_claim: "f_status f = Queued \<Longrightarrow> same_core f g \<Longrightarrow> same_route f g \<Longrightarrow> f_status g = Running
     \<Longrightarrow> f_attempts g = f_attempts f + 1 \<Longrightarrow> f_runId g = Some (fe_uuid E k) \<Longrightarrow> n \<le> k \<Longrightarrow> k < n'
     \<Longrightarrow> filing_write E mixed n n' f g"
| write_result: "f_status f = Running \<Longrightarrow> same_core f g \<Longrightarrow> same_route f g \<Longrightarrow> n \<le> n'
     \<Longrightarrow> f_status g \<in> {Needs_human, Queued, Cancelled} \<Longrightarrow> (f_status g = Needs_human \<Longrightarrow> not_city g)
     \<Longrightarrow> f_attempts g = f_attempts f \<or> f_attempts g = f_attempts f - 1
     \<Longrightarrow> (f_status g = Queued \<Longrightarrow> f_attempts g < MAX_ATTEMPTS \<or> f_attempts g = f_attempts f - 1)
     \<Longrightarrow> filing_write E mixed n n' f g"
| write_email: "f_status f = Running \<Longrightarrow> same_core f g \<Longrightarrow> same_route f g \<Longrightarrow> n \<le> n' \<Longrightarrow> f_attempts g = f_attempts f
     \<Longrightarrow> f_runId g = f_runId f \<Longrightarrow> f_status g \<in> {Needs_human, Queued, Running}
     \<Longrightarrow> (f_status g = Needs_human \<Longrightarrow> not_city g) \<Longrightarrow> mixed \<or> f_channel f \<noteq> Some Portal
     \<Longrightarrow> filing_write E mixed n n' f g"
| write_retry: "f_status f = Needs_human \<Longrightarrow> not_city f \<Longrightarrow> same_core f g \<Longrightarrow> f_status g \<in> {Queued, Needs_human}
     \<Longrightarrow> not_city g \<Longrightarrow> f_attempts g = 0 \<Longrightarrow> filing_write E mixed n n f g"
| write_off: "f_status f = Queued \<Longrightarrow> same_core f g \<Longrightarrow> same_route f g \<Longrightarrow> f_status g = Needs_human \<Longrightarrow> not_city g
     \<Longrightarrow> f_attempts g = f_attempts f \<Longrightarrow> filing_write E mixed n n f g"
| write_cancel: "f_status f \<in> {Queued, Needs_human} \<Longrightarrow> same_core f g \<Longrightarrow> same_route f g \<Longrightarrow> f_status g = Cancelled
     \<Longrightarrow> f_attempts g = f_attempts f \<Longrightarrow> filing_write E mixed n n f g"
| write_answer: "f_status f = Needs_human \<Longrightarrow> \<not> not_city f \<Longrightarrow> f_id g = f_id f \<Longrightarrow> f_reportId g = f_reportId f
     \<Longrightarrow> f_submittedAt g = f_submittedAt f \<Longrightarrow> f_status g = Submitted \<Longrightarrow> f_method g = Some By_operator
     \<Longrightarrow> f_attempts g = f_attempts f \<Longrightarrow> filing_write E mixed n n f g"
| write_city: "same_core f g \<Longrightarrow> same_route f g \<Longrightarrow> f_status g = f_status f \<Longrightarrow> f_reason g = f_reason f
     \<Longrightarrow> f_attempts g = f_attempts f \<Longrightarrow> f_runId g = f_runId f \<Longrightarrow> filing_write E mixed n n f g"

text \<open>A link to a portal request: https on the portal's own host.\<close>

definition portal_link :: "filing_env \<Rightarrow> filing_record \<Rightarrow> bool" where
  "portal_link E f \<longleftrightarrow> (case f_caseUrl f of None \<Rightarrow> True
     | Some u \<Rightarrow> (case fe_url E u of None \<Rightarrow> False | Some (p, h) \<Rightarrow> p = ''https:'' \<and> f_portalHost f = Some h))"

definition filing_success :: "filing_env \<Rightarrow> filing_record \<Rightarrow> filing_record \<Rightarrow> bool" where
  "filing_success E f g \<longleftrightarrow>
     (f_status f = Running \<or> (f_status f \<in> {Queued, Needs_human} \<and> not_city f))
     \<and> f_id g = f_id f \<and> f_reportId g = f_reportId f \<and> successful g \<and> f_submittedAt g \<noteq> None
     \<and> f_attempts g = f_attempts f
     \<and> (f_method g = Some By_script \<longrightarrow> f_caseUrl f = None \<longrightarrow> portal_link E g)"

definition replace_row :: "filing_record \<Rightarrow> filing_record list \<Rightarrow> filing_record list" where
  "replace_row g fs = update_rows (\<lambda>x. f_id x = f_id g) (\<lambda>_. g) fs"

definition route_rows :: "string \<Rightarrow> timeline_row list \<Rightarrow> timeline_row list" where
  "route_rows reportId lines = filter (\<lambda>t. t_kind t = TRoute \<and> t_reportId t = reportId) lines"

text \<open>At most one public route row, of the filing's own report.\<close>

definition announces :: "string \<Rightarrow> timeline_row list \<Rightarrow> bool" where
  "announces reportId ts \<longleftrightarrow> ts = [] \<or> (\<exists>t. ts = [t] \<and> t_kind t = TRoute \<and> t_reportId t = reportId)"

inductive filing_step :: "filing_env \<Rightarrow> bool \<Rightarrow> filing_view \<Rightarrow> filing_view \<Rightarrow> bool" for E mixed where
  step_quiet: "n \<le> n' \<Longrightarrow> list_all (\<lambda>t. t_kind t \<noteq> TRoute) ts \<Longrightarrow> filing_step E mixed (fs, n, lines) (fs, n', lines @ ts)"
| step_write: "f \<in> set fs \<Longrightarrow> filing_write E mixed n n' f g
     \<Longrightarrow> filing_step E mixed (fs, n, lines) (replace_row g fs, n', lines)"
| step_success: "f \<in> set fs \<Longrightarrow> filing_success E f g \<Longrightarrow> announces (f_reportId f) ts
     \<Longrightarrow> filing_step E mixed (fs, n, lines) (replace_row g fs, n, lines @ ts)"
| step_info: "f \<in> set fs \<Longrightarrow> successful f \<Longrightarrow> \<forall>a \<in> set fs. f_reportId a = f_reportId f \<longrightarrow> \<not> active a
     \<Longrightarrow> same_core f g \<Longrightarrow> same_route f g \<Longrightarrow> f_status g = Needs_human \<Longrightarrow> \<not> not_city g
     \<Longrightarrow> f_attempts g = f_attempts f \<Longrightarrow> filing_step E mixed (fs, n, lines) (replace_row g fs, n, lines)"
| step_open: "f_id f = fe_uuid E n \<Longrightarrow> \<forall>a \<in> set fs. f_reportId a = f_reportId f \<longrightarrow> \<not> active a
     \<Longrightarrow> f_status f \<in> {Queued, Needs_human} \<Longrightarrow> not_city f \<Longrightarrow> f_submittedAt f = None \<Longrightarrow> f_caseUrl f = None
     \<Longrightarrow> f_method f = None \<Longrightarrow> f_attempts f = 0 \<Longrightarrow> filing_step E mixed (fs, n, lines) (fs @ [f], Suc n, lines)"
| step_filed: "f_id f = fe_uuid E n \<Longrightarrow> successful f \<Longrightarrow> f_submittedAt f \<noteq> None \<Longrightarrow> f_method f = Some By_email
     \<Longrightarrow> f_attempts f = 0 \<Longrightarrow> announces (f_reportId f) ts \<Longrightarrow> filing_step E mixed (fs, n, lines) (fs @ [f], Suc n, lines @ ts)"

inductive_cases filing_stepE: "filing_step E mixed v v'"

text \<open>What every reachable view satisfies.\<close>

definition row_ok :: "filing_env \<Rightarrow> filing_record \<Rightarrow> bool" where
  "row_ok E f \<longleftrightarrow>
     (f_submittedAt f \<noteq> None \<longrightarrow> f_status f \<in> {Submitted, Linked_existing, Cancelled}
        \<or> (f_status f = Needs_human \<and> \<not> not_city f))
     \<and> (successful f \<longrightarrow> f_submittedAt f \<noteq> None)
     \<and> (f_status f = Needs_human \<longrightarrow> \<not> not_city f \<longrightarrow> f_submittedAt f \<noteq> None)
     \<and> (f_submittedAt f = None \<longrightarrow> f_caseUrl f = None \<and> f_method f = None)
     \<and> (f_method f = Some By_script \<longrightarrow> portal_link E f)
     \<and> 0 \<le> f_attempts f \<and> (f_status f = Running \<longrightarrow> 1 \<le> f_attempts f)"

fun view_ok :: "filing_env \<Rightarrow> filing_view \<Rightarrow> bool" where
  "view_ok E (fs, n, lines) \<longleftrightarrow>
     distinct (map f_id fs) \<and> (\<forall>f \<in> set fs. \<exists>k < n. f_id f = fe_uuid E k)
     \<and> active_unique fs \<and> (\<forall>f \<in> set fs. row_ok E f)
     \<and> (\<forall>r. length (route_rows r lines) \<le> length (filter (\<lambda>f. f_reportId f = r \<and> f_submittedAt f \<noteq> None) fs))"

subsection \<open>Replacing a row\<close>

lemma replace_row_map [simp]: "map f_id (replace_row g fs) = map f_id fs"
  by (auto simp: replace_row_def update_rows_def)

lemma ids_inj: "distinct (map f_id fs) \<Longrightarrow> f \<in> set fs \<Longrightarrow> x \<in> set fs \<Longrightarrow> f_id x = f_id f \<Longrightarrow> x = f"
  by (auto simp: distinct_map inj_on_def)

lemma set_replace_row:
  assumes "distinct (map f_id fs)" "f \<in> set fs" "f_id g = f_id f"
  shows "set (replace_row g fs) = insert g (set fs - {f})"
  using assms ids_inj [OF assms(1,2)] by (auto simp: replace_row_def update_rows_def image_iff)

lemma replace_row_split:
  assumes "distinct (map f_id (xs @ f # ys))" "f_id g = f_id f"
  shows "replace_row g (xs @ f # ys) = xs @ g # ys"
  using assms by (auto simp: replace_row_def update_rows_def image_iff intro!: map_idI)

lemma count_replace_row:
  assumes "distinct (map f_id fs)" "f \<in> set fs" "f_id g = f_id f"
  shows "length (filter Q (replace_row g fs)) + (if Q f then 1 else 0) = length (filter Q fs) + (if Q g then 1 else 0)"
proof -
  obtain xs ys where "fs = xs @ f # ys" using assms(2) by (metis split_list)
  with assms replace_row_split [of xs f ys g] show ?thesis by simp
qed

lemma active_unique_iff:
  assumes "distinct (map f_id fs)"
  shows "active_unique fs \<longleftrightarrow> inj_on f_reportId {f \<in> set fs. active f}"
  using assms by (simp add: active_unique_def distinct_map)

lemma active_unique_replace:
  assumes "distinct (map f_id fs)" "f \<in> set fs" "f_id g = f_id f" "f_reportId g = f_reportId f" "active_unique fs"
    and "active g \<Longrightarrow> active f \<or> (\<forall>a \<in> set fs. f_reportId a = f_reportId f \<longrightarrow> \<not> active a)"
  shows "active_unique (replace_row g fs)"
proof -
  have "inj_on f_reportId {x \<in> insert g (set fs - {f}). active x}"
    using assms(2,4-6) active_unique_iff [OF assms(1)] unfolding inj_on_def by (metis (no_types, lifting) Diff_iff insert_iff mem_Collect_eq)
  with active_unique_iff [of "replace_row g fs"] assms(1) set_replace_row [OF assms(1-3)] show ?thesis by simp
qed

lemma active_unique_snoc:
  "active_unique (fs @ [f]) \<longleftrightarrow> active_unique fs \<and> (active f \<longrightarrow> (\<forall>a \<in> set fs. f_reportId a = f_reportId f \<longrightarrow> \<not> active a))"
  by (auto simp: active_unique_def image_iff)

subsection \<open>Reachable views\<close>

lemma filing_write_core:
  assumes "filing_write E mixed n n' f g"
  shows "f_id g = f_id f" "f_reportId g = f_reportId f" "f_submittedAt g = f_submittedAt f" "n \<le> n'"
    "active g \<Longrightarrow> active f"
  using assms by (cases rule: filing_write.cases; simp add: same_core_def active_def ACTIVE_FILING_STATUSES_def)+

lemmas row_defs = row_ok_def same_core_def same_route_def successful_def SUCCESSFUL_FILING_STATUSES_def

lemma portal_link_same: "same_core f g \<Longrightarrow> same_route f g \<Longrightarrow> portal_link E g = portal_link E f"
  by (auto simp: portal_link_def same_core_def same_route_def split: option.splits)

lemma row_ok_write:
  assumes "filing_write E mixed n n' f g" "row_ok E f"
  shows "row_ok E g"
  using assms(1)
proof cases
  case write_claim
  with assms(2) portal_link_same [of f g E] show ?thesis by (simp add: row_defs)
next
  case write_result
  with assms(2) portal_link_same [of f g E] show ?thesis by (simp add: row_defs) (elim disjE; simp)
next
  case write_email
  with assms(2) portal_link_same [of f g E] show ?thesis by (simp add: row_defs) (elim disjE; simp)
next
  case write_retry
  with assms(2) portal_link_same [of f g E] show ?thesis by (simp add: row_defs) (elim disjE; simp)
next
  case write_off
  with assms(2) portal_link_same [of f g E] show ?thesis by (simp add: row_defs)
next
  case write_cancel
  with assms(2) portal_link_same [of f g E] show ?thesis by (simp add: row_defs)
next
  case write_answer
  with assms(2) portal_link_same [of f g E] show ?thesis by (simp add: row_defs)
next
  case write_city
  with assms(2) portal_link_same [of f g E] show ?thesis by (simp add: row_defs not_city_def)
qed

lemma success_first: "filing_success E f g \<Longrightarrow> row_ok E f \<Longrightarrow> f_submittedAt f = None \<and> f_caseUrl f = None"
  unfolding filing_success_def row_ok_def by (elim conjE disjE) auto

lemma row_ok_success:
  assumes "filing_success E f g" "row_ok E f"
  shows "row_ok E g"
proof -
  have "f_status g \<in> {Submitted, Linked_existing}"
    using assms(1) by (simp add: filing_success_def successful_def SUCCESSFUL_FILING_STATUSES_def)
  moreover have "f_submittedAt g \<noteq> None" "0 \<le> f_attempts g" "f_method g = Some By_script \<longrightarrow> portal_link E g"
    using assms success_first [OF assms] by (simp_all add: filing_success_def row_ok_def)
  ultimately show ?thesis by (auto simp: row_ok_def)
qed

lemma view_ok_replace:
  assumes "view_ok E (fs, n, lines)" "f \<in> set fs" "f_id g = f_id f" "f_reportId g = f_reportId f" "n \<le> n'"
    and "row_ok E g" "active g \<Longrightarrow> active f \<or> (\<forall>a \<in> set fs. f_reportId a = f_reportId f \<longrightarrow> \<not> active a)"
    and "f_submittedAt f \<noteq> None \<Longrightarrow> f_submittedAt g \<noteq> None"
    and "route_rows (f_reportId f) lines' = route_rows (f_reportId f) lines
      \<or> (f_submittedAt f = None \<and> f_submittedAt g \<noteq> None
         \<and> length (route_rows (f_reportId f) lines') \<le> Suc (length (route_rows (f_reportId f) lines)))"
    and "\<And>r. r \<noteq> f_reportId f \<Longrightarrow> route_rows r lines' = route_rows r lines"
  shows "view_ok E (replace_row g fs, n', lines')"
proof -
  have d: "distinct (map f_id fs)" using assms(1) by simp
  note rows = set_replace_row [OF d assms(2,3)]
  have "\<forall>x \<in> set (replace_row g fs). \<exists>k < n'. f_id x = fe_uuid E k"
    using assms(1-3,5) rows by (metis (no_types, lifting) DiffD1 insertE less_le_trans view_ok.simps)
  moreover have "\<forall>x \<in> set (replace_row g fs). row_ok E x" using assms(1,6) rows by auto
  moreover have "active_unique (replace_row g fs)"
    using assms(1) by (intro active_unique_replace [OF d assms(2-4) _ assms(7)]) auto
  moreover have "length (route_rows r lines') \<le> length (filter (\<lambda>f. f_reportId f = r \<and> f_submittedAt f \<noteq> None) (replace_row g fs))" for r
  proof -
    have "length (route_rows r lines) \<le> length (filter (\<lambda>f. f_reportId f = r \<and> f_submittedAt f \<noteq> None) fs)"
      using assms(1) by simp
    with count_replace_row [OF d assms(2,3), of "\<lambda>f. f_reportId f = r \<and> f_submittedAt f \<noteq> None"] assms(4,8-10)
    show ?thesis by (cases "r = f_reportId f") (auto split: if_splits)
  qed
  ultimately show ?thesis using d by simp
qed

lemma view_ok_add:
  assumes "inj (fe_uuid E)" "view_ok E (fs, n, lines)" "f_id f = fe_uuid E n" "row_ok E f"
    and "active f \<longrightarrow> (\<forall>a \<in> set fs. f_reportId a = f_reportId f \<longrightarrow> \<not> active a)"
    and "\<And>r. length (route_rows r lines') \<le> length (route_rows r lines) + (if r = f_reportId f \<and> f_submittedAt f \<noteq> None then 1 else 0)"
  shows "view_ok E (fs @ [f], Suc n, lines')"
proof -
  have "f_id f \<notin> f_id ` set fs"
  proof
    assume "f_id f \<in> f_id ` set fs"
    then obtain k where "k < n" "fe_uuid E n = fe_uuid E k" using assms(2,3) by auto
    with assms(1) show False by (auto dest: injD)
  qed
  moreover have "length (route_rows r lines') \<le> length (filter (\<lambda>f. f_reportId f = r \<and> f_submittedAt f \<noteq> None) (fs @ [f]))" for r
  proof -
    have "length (route_rows r lines) \<le> length (filter (\<lambda>f. f_reportId f = r \<and> f_submittedAt f \<noteq> None) fs)"
      using assms(2) by simp
    with assms(6) [of r] show ?thesis by (auto split: if_splits)
  qed
  ultimately show ?thesis using assms(2-5) by (auto simp: active_unique_snoc less_Suc_eq)
qed

lemma route_rows_append: "route_rows r (xs @ ys) = route_rows r xs @ route_rows r ys"
  by (simp add: route_rows_def)

lemma route_rows_quiet: "list_all (\<lambda>t. t_kind t \<noteq> TRoute) ts \<Longrightarrow> route_rows r ts = []"
  by (auto simp: route_rows_def filter_empty_conv list_all_iff)

lemma route_rows_announces: "announces i ts \<Longrightarrow> length (route_rows r ts) \<le> (if r = i then 1 else 0)"
  by (auto simp: announces_def route_rows_def)

theorem view_ok_step:
  assumes "inj (fe_uuid E)" "filing_step E mixed v v'" "view_ok E v"
  shows "view_ok E v'"
  using assms(2)
proof cases
  case (step_quiet n n' ts fs lines)
  with assms(3) show ?thesis by (force simp: route_rows_append route_rows_quiet intro: less_le_trans)
next
  case (step_write f fs n n' g lines)
  from assms(3) step_write have "row_ok E f" by simp
  with step_write assms(3) show ?thesis
    using filing_write_core [OF step_write(4)] row_ok_write [OF step_write(4)] by (auto intro!: view_ok_replace simp del: view_ok.simps)
next
  case (step_success f fs g ts n lines)
  have ok: "row_ok E f" using assms(3) step_success(1,3) by simp
  note new = row_ok_success [OF step_success(4) ok] success_first [OF step_success(4) ok]
  have "f_submittedAt g \<noteq> None" using step_success(4) by (simp add: filing_success_def)
  moreover
  have "length (route_rows (f_reportId f) (lines @ ts)) \<le> Suc (length (route_rows (f_reportId f) lines))"
    using route_rows_announces [OF step_success(5), of "f_reportId f"] by (simp add: route_rows_append)
  moreover have "route_rows r (lines @ ts) = route_rows r lines" if "r \<noteq> f_reportId f" for r
    using route_rows_announces [OF step_success(5), of r] that by (simp add: route_rows_append)
  moreover have "\<not> active g" "f_id g = f_id f" "f_reportId g = f_reportId f"
    using step_success(4) by (auto simp: filing_success_def successful_def active_def SUCCESSFUL_FILING_STATUSES_def ACTIVE_FILING_STATUSES_def)
  moreover have "view_ok E (fs, n, lines)" "f \<in> set fs" using step_success assms(3) by simp_all
  ultimately show ?thesis using new unfolding step_success(2)
    by (intro view_ok_replace [of E fs n lines f g n "lines @ ts"]) simp_all
next
  case (step_info f fs g n lines)
  have "row_ok E f" using assms(3) step_info by simp
  moreover from this have "f_submittedAt f \<noteq> None" using step_info by (simp add: row_ok_def)
  ultimately have "row_ok E g" using step_info portal_link_same [of f g E] by (auto simp: row_defs)
  with step_info assms(3) show ?thesis
    by (auto intro!: view_ok_replace simp: same_core_def simp del: view_ok.simps)
next
  case (step_open f n fs lines)
  then have "row_ok E f" by (auto simp: row_ok_def successful_def SUCCESSFUL_FILING_STATUSES_def)
  with step_open assms(1,3) show ?thesis by (auto intro!: view_ok_add simp del: view_ok.simps)
next
  case (step_filed f n ts fs lines)
  then have "row_ok E f" "\<not> active f"
    by (auto simp: row_ok_def successful_def active_def SUCCESSFUL_FILING_STATUSES_def ACTIVE_FILING_STATUSES_def)
  moreover have "length (route_rows r (lines @ ts)) \<le> length (route_rows r lines) + (if r = f_reportId f then 1 else 0)" for r
    using route_rows_announces [of "f_reportId f" ts r] step_filed by (simp add: route_rows_append)
  moreover have "view_ok E (fs, n, lines)" using step_filed assms(3) by simp
  ultimately show ?thesis using step_filed assms(1) unfolding step_filed(2)
    by (intro view_ok_add [of E fs n lines f "lines @ ts"]) simp_all
qed

lemma view_ok_steps:
  assumes "inj (fe_uuid E)" "(filing_step E mixed)\<^sup>*\<^sup>* v v'" "view_ok E v"
  shows "view_ok E v'"
  using assms(2,3) by induction (auto dest: view_ok_step [OF assms(1)] simp del: view_ok.simps)

text \<open>The runs in progress: a filing's identifier and its run.\<close>

definition running :: "filing_record list \<Rightarrow> (string \<times> string) set" where
  "running fs = {(f_id f, r) |f r. f \<in> set fs \<and> f_status f = Running \<and> f_runId f = Some r}"

definition fresh_runs :: "filing_env \<Rightarrow> nat \<Rightarrow> nat \<Rightarrow> (string \<times> string) set" where
  "fresh_runs E n n' = {(i, fe_uuid E k) |i k. n \<le> k \<and> k < n'}"

fun run_rel :: "filing_env \<Rightarrow> filing_view \<Rightarrow> filing_view \<Rightarrow> bool" where
  "run_rel E (fs, n, lines) (fs', n', lines') \<longleftrightarrow> n \<le> n' \<and> running fs' \<subseteq> running fs \<union> fresh_runs E n n'"

lemma running_replace: "running (replace_row g fs) \<subseteq> running fs \<union> running [g]"
  by (auto simp: running_def replace_row_def update_rows_def split: if_splits)

lemma running_write:
  assumes "filing_write E mixed n n' f g" "f \<in> set fs"
  shows "running [g] \<subseteq> running fs \<union> fresh_runs E n n'"
  using assms by cases (auto simp: running_def fresh_runs_def same_core_def)

lemma not_running: "f_status g \<noteq> Running \<Longrightarrow> running [g] = {}"
  by (simp add: running_def)

lemma run_rel_step: "filing_step E mixed v v' \<Longrightarrow> run_rel E v v'"
proof (induction rule: filing_step.induct)
  case (step_write f fs n n' g lines)
  with running_write [OF this(2,1)] running_replace [of g fs] filing_write_core(4) [OF this(2)] show ?case by auto
next
  case (step_success f fs g ts n lines)
  then have "f_status g \<noteq> Running" by (auto simp: filing_success_def successful_def SUCCESSFUL_FILING_STATUSES_def)
  with running_replace [of g fs] show ?case by (auto simp: not_running)
next
  case (step_info f fs g n lines)
  with running_replace [of g fs] show ?case by (auto simp: not_running)
qed (auto simp: running_def successful_def SUCCESSFUL_FILING_STATUSES_def)

lemma run_rel_trans: "run_rel E u v \<Longrightarrow> run_rel E v w \<Longrightarrow> run_rel E u w"
proof (cases u; cases v; cases w)
  fix fs n l fs' n' l' fs'' n'' l''
  assume eq: "u = (fs, n, l)" "v = (fs', n', l')" "w = (fs'', n'', l'')" and rel: "run_rel E u v" "run_rel E v w"
  then have "n \<le> n'" "n' \<le> n''" by simp_all
  then have "fresh_runs E n n' \<subseteq> fresh_runs E n n''" "fresh_runs E n' n'' \<subseteq> fresh_runs E n n''"
    by (auto simp: fresh_runs_def intro: less_le_trans le_trans)
  moreover from \<open>n \<le> n'\<close> \<open>n' \<le> n''\<close> have "n \<le> n''" by simp
  ultimately show "run_rel E u w" using rel unfolding eq run_rel.simps by blast
qed

lemma run_rel_refl: "run_rel E v v"
  by (cases v) auto

lemma run_rel_steps: "(filing_step E mixed)\<^sup>*\<^sup>* v v' \<Longrightarrow> run_rel E v v'"
  by (induction rule: rtranclp_induct) (auto intro: run_rel_refl run_rel_trans run_rel_step)

text \<open>Portal filings are tried at most \<^const>\<open>MAX_ATTEMPTS\<close> times, as long as no email try runs on one.\<close>

definition attempts_ok :: "filing_record \<Rightarrow> bool" where
  "attempts_ok f \<longleftrightarrow> f_channel f = Some Portal \<longrightarrow>
     (f_status f = Queued \<longrightarrow> f_attempts f < MAX_ATTEMPTS) \<and> (f_status f = Running \<longrightarrow> f_attempts f \<le> MAX_ATTEMPTS)"

lemma attempts_write: "filing_write E False n n' f g \<Longrightarrow> attempts_ok f \<Longrightarrow> attempts_ok g"
  by (cases rule: filing_write.cases) (auto simp: attempts_ok_def same_route_def MAX_ATTEMPTS_def)

lemma attempts_step:
  "filing_step E False v v' \<Longrightarrow> \<forall>f \<in> set (fst v). attempts_ok f \<Longrightarrow> \<forall>f \<in> set (fst v'). attempts_ok f"
proof (induction rule: filing_step.induct)
  case (step_write f fs n n' g lines)
  then have "attempts_ok g" using attempts_write by auto
  with step_write show ?case by (auto simp: replace_row_def update_rows_def)
next
  case (step_success f fs g ts n lines)
  then have "attempts_ok g" by (auto simp: attempts_ok_def filing_success_def successful_def SUCCESSFUL_FILING_STATUSES_def)
  with step_success show ?case by (auto simp: replace_row_def update_rows_def)
next
  case (step_info f fs g n lines)
  then have "attempts_ok g" by (auto simp: attempts_ok_def)
  with step_info show ?case by (auto simp: replace_row_def update_rows_def)
qed (auto simp: attempts_ok_def successful_def SUCCESSFUL_FILING_STATUSES_def MAX_ATTEMPTS_def)

lemma attempts_steps:
  assumes "(filing_step E False)\<^sup>*\<^sup>* v v'" "\<forall>f \<in> set (fst v). attempts_ok f"
  shows "\<forall>f \<in> set (fst v'). attempts_ok f"
  using assms by induction (auto dest: attempts_step)

end
