(* ===== verification/Filing_Runs.thy ===== *)
theory Filing_Runs
  imports Filing_Machine
begin

section \<open>City filings: every operation follows the machine\<close>

text \<open>
  Each operation of the services, run on a world whose view satisfies the machine's invariant, is a sequence of
  the machine's steps; so the invariant, the life of a run and the bound on attempts hold of every sequence of
  operations.  An operation is one step here: what an operator's action reads, nobody changes before it writes.
  An email try is two operations, so other operations may come between its claim and its outcome.
\<close>

definition good :: "filing_env \<Rightarrow> 'w filing_world_scheme \<Rightarrow> bool" where
  "good E w \<longleftrightarrow> inj (fe_uuid E) \<and> view_ok E (view w)"

definition moves :: "filing_env \<Rightarrow> bool \<Rightarrow> 'w filing_world_scheme \<Rightarrow> 'w filing_world_scheme \<Rightarrow> bool" where
  "moves E mixed w w' \<longleftrightarrow> (filing_step E mixed)\<^sup>*\<^sup>* (view w) (view w')"

definition Safe :: "filing_env \<Rightarrow> bool \<Rightarrow> ('w filing_world_scheme, 'a) prog \<Rightarrow> bool" where
  "Safe E mixed m \<longleftrightarrow> (\<forall>w. good E w \<longrightarrow> moves E mixed w (snd (m w)))"

definition quiet :: "('w filing_world_scheme, 'a) prog \<Rightarrow> bool" where
  "quiet m \<longleftrightarrow> (\<forall>w. w_filings (snd (m w)) = w_filings w \<and> w_timeline (snd (m w)) = w_timeline w
     \<and> w_drawn w \<le> w_drawn (snd (m w)))"

lemma good_moves: "good E w \<Longrightarrow> moves E mixed w w' \<Longrightarrow> good E w'"
  using view_ok_steps by (auto simp: good_def moves_def)

lemma good_ids: "good E w \<Longrightarrow> distinct (map f_id (w_filings w))"
  by (simp add: good_def view_def)

lemma good_row: "good E w \<Longrightarrow> f \<in> set (w_filings w) \<Longrightarrow> row_ok E f"
  by (simp add: good_def view_def)

lemma moves_refl [simp, intro]: "moves E mixed w w"
  by (simp add: moves_def)

lemma moves_trans: "moves E mixed u v \<Longrightarrow> moves E mixed v w \<Longrightarrow> moves E mixed u w"
  by (auto simp: moves_def)

lemma moves_step: "filing_step E mixed (view w) (view w') \<Longrightarrow> moves E mixed w w'"
  by (simp add: moves_def)

lemma moves_quiet: "quiet m \<Longrightarrow> moves E mixed w (snd (m w))"
  using step_quiet [of "w_drawn w" "w_drawn (snd (m w))" "[]" E mixed "w_filings w" "w_timeline w"]
  by (intro moves_step) (simp add: view_def quiet_def)

lemma SafeD: "Safe E mixed m \<Longrightarrow> good E w \<Longrightarrow> moves E mixed w (snd (m w))"
  by (simp add: Safe_def)

lemma Safe_quiet: "quiet m \<Longrightarrow> Safe E mixed m"
  by (simp add: Safe_def moves_quiet)

subsection \<open>Composition\<close>

lemma moves_seq:
  assumes "good E w" "moves E mixed w (snd (m w))"
    and "\<And>x. fst (m w) = Inr x \<Longrightarrow> good E (snd (m w)) \<Longrightarrow> moves E mixed (snd (m w)) (snd (f x (snd (m w))))"
  shows "moves E mixed w (snd (seq m f w))"
  using assms good_moves [OF assms(1,2)] by (auto simp: seq_run split: sum.split intro: moves_trans)

lemma moves_reads:
  assumes "moves E mixed w (snd (f (h w) w))"
  shows "moves E mixed w (snd (seq (reads h) f w))"
  using assms by (simp add: seq_run reads_run)

lemma Safe_seq:
  assumes "Safe E mixed m" "\<And>x. Safe E mixed (f x)"
  shows "Safe E mixed (seq m f)"
  using assms by (auto simp: Safe_def intro!: moves_seq)

lemma Safe_recover:
  assumes "Safe E mixed m" "\<And>e. Safe E mixed (h e)"
  shows "Safe E mixed (recover m h)"
proof -
  have "moves E mixed w (snd (recover m h w))" if "good E w" for w
  proof -
    have "moves E mixed w (snd (m w))" using assms(1) that by (rule SafeD)
    moreover from this have "good E (snd (m w))" using that good_moves by blast
    ultimately show ?thesis
      using assms(2) by (auto simp: recover_run Safe_def split: sum.split intro: moves_trans)
  qed
  then show ?thesis by (simp add: Safe_def)
qed


lemma still_seq:
  assumes "quiet m" "\<And>x. quiet (f x)"
  shows "quiet (seq m f)"
  using assms by (fastforce simp: quiet_def seq_run split: sum.split intro: le_trans)

lemma quiet_recover:
  assumes "quiet m" "\<And>e. quiet (h e)"
  shows "quiet (recover m h)"
  using assms by (fastforce simp: quiet_def recover_run split: sum.split intro: le_trans)

lemma quiet_prims:
  "quiet (ret x)" "quiet (raise e)" "quiet (reads h)" "quiet (guard b e)"
  "quiet (jobs_enqueue j)" "quiet (chat_emit c)" "quiet (insertAuditRow a)" "quiet (draw_uuid U)" "quiet (flagMessage i)"
  by (simp_all add: quiet_def prog_simps jobs_enqueue_def chat_emit_def insertAuditRow_def draw_uuid_def flagMessage_def)

lemma quiet_case: "(\<And>x. y = Some x \<Longrightarrow> quiet (f x)) \<Longrightarrow> quiet m \<Longrightarrow> quiet (case y of None \<Rightarrow> m | Some x \<Rightarrow> f x)"
  by (cases y) auto

lemma quiet_if: "quiet m \<Longrightarrow> quiet n \<Longrightarrow> quiet (if b then m else n)"
  by simp

lemma Safe_case: "(\<And>x. y = Some x \<Longrightarrow> Safe E mixed (f x)) \<Longrightarrow> Safe E mixed m \<Longrightarrow> Safe E mixed (case y of None \<Rightarrow> m | Some x \<Rightarrow> f x)"
  by (cases y) auto

lemma Safe_if: "Safe E mixed m \<Longrightarrow> Safe E mixed n \<Longrightarrow> Safe E mixed (if b then m else n)"
  by simp

lemma Safe_for_each: "(\<And>x. Safe E mixed (f x)) \<Longrightarrow> Safe E mixed (for_each f xs)"
  by (induction xs) (auto intro!: Safe_seq intro: Safe_quiet quiet_prims)

lemmas quiet_rules = still_seq quiet_recover quiet_prims quiet_case quiet_if

lemma quiet_audit_if: "quiet (audit_if a)"
  unfolding audit_if_def by (intro quiet_rules)

lemma quiet_insertEvidence: "quiet (insertEvidence U i es)"
proof (induction es)
  case (Cons e es)
  have "quiet (writes (\<lambda>w. w\<lparr>w_evidence := g w\<rparr>))" for g :: "'a filing_world_scheme \<Rightarrow> evidence_record list"
    by (simp add: quiet_def prog_simps)
  with Cons show ?case by (auto intro!: quiet_rules)
qed (auto intro: quiet_rules)

lemma quiet_enqueueFiling: "quiet (enqueueFiling E f)"
  unfolding enqueueFiling_def by (intro quiet_rules)

lemma quiet_createNotification: "quiet (createNotification E n)"
  by (simp add: quiet_def createNotification_def prog_simps)

lemma quiet_afterSuccess: "quiet (afterSuccess E r note)"
  unfolding afterSuccess_def notifyReporter_def getReport_def Let_def
  by (intro quiet_rules quiet_createNotification)

lemma quiet_getters:
  "quiet (getById i)" "quiet (getReport i)" "quiet (getRouting i)" "quiet (getActiveForReport i)" "quiet getSettings"
  "quiet (getLatestSuccessfulForReport i)" "quiet (getLatestForReport i)" "quiet (findRoutes g c)" "quiet (loadFiling i)"
  "quiet (dtoOf f)" "quiet (listDueQueued a b cs d)" "quiet (listStaleRunningEmail a d)"
  by (simp_all add: getById_def oneFiling_def getReport_def getRouting_def getActiveForReport_def getSettings_def
      getLatestSuccessfulForReport_def getLatestForReport_def findRoutes_def loadFiling_def dtoOf_def listDueQueued_def
      listStaleRunningEmail_def toSettings_def quiet_rules split: option.split)

lemma moves_seq_quiet:
  assumes "good E w" "moves E mixed w (snd (m w))" "\<And>x. quiet (f x)"
  shows "moves E mixed w (snd (seq m f w))"
  by (rule moves_seq [where m = m]) (use assms in \<open>auto intro: moves_quiet\<close>)

lemma Safe_seq_post:
  assumes "Safe E mixed m" "\<And>w x. fst (m w) = Inr x \<Longrightarrow> Q x" "\<And>x. Q x \<Longrightarrow> Safe E mixed (f x)"
  shows "Safe E mixed (seq m f)"
  using assms by (auto simp: Safe_def intro!: moves_seq)

subsection \<open>Guarded writes\<close>

lemma update_rows_replace:
  assumes "distinct (map f_id fs)" "f \<in> set fs" "P f" "\<And>x. P x \<Longrightarrow> f_id x = i" "f_id (g f) = f_id f"
  shows "update_rows P g fs = replace_row (g f) fs"
proof -
  have "P x \<longleftrightarrow> f_id x = f_id (g f)" "P x \<Longrightarrow> x = f" if "x \<in> set fs" for x
    using that assms ids_inj [OF assms(1,2) that] by metis+
  then show ?thesis unfolding replace_row_def update_rows_def by (intro map_cong) auto
qed

text \<open>An update whose every matching row is allowed to change as it does.\<close>

definition grants ::
  "filing_env \<Rightarrow> bool \<Rightarrow> 'w filing_world_scheme \<Rightarrow> (filing_record \<Rightarrow> bool) \<Rightarrow> (filing_record \<Rightarrow> filing_record) \<Rightarrow> bool" where
  "grants E mixed w P g \<longleftrightarrow> (\<exists>i. \<forall>x. P x \<longrightarrow> f_id x = i) \<and>
     (\<forall>f \<in> set (w_filings w). P f \<longrightarrow> f_id (g f) = f_id f
        \<and> filing_step E mixed (view w) (replace_row (g f) (w_filings w), w_drawn w, w_timeline w))"

lemma update_filing_run:
  assumes "good E w" "\<exists>i. \<forall>x. P x \<longrightarrow> f_id x = i" "find P (w_filings w) = Some f" "f_id (g f) = f_id f"
    and "active_unique (replace_row (g f) (w_filings w))"
  shows "update_filing P g w = (Inr (Some (toFiling (w\<lparr>w_filings := replace_row (g f) (w_filings w)\<rparr>) (g f))),
    w\<lparr>w_filings := replace_row (g f) (w_filings w)\<rparr>)"
proof -
  obtain i where "\<And>x. P x \<Longrightarrow> f_id x = i" using assms(2) by auto
  with update_rows_replace [OF good_ids [OF assms(1)], of f P i g] assms(3,4)
  have "update_rows P g (w_filings w) = replace_row (g f) (w_filings w)" by (auto dest: find_SomeD)
  with assms(3,5) show ?thesis by (simp add: update_filing_def put_filings_def prog_simps)
qed

lemma update_filing_none: "find P (w_filings w) = None \<Longrightarrow> update_filing P g w = (Inr None, w)"
  by (simp add: update_filing_def prog_simps)

lemma update_filing_moves:
  assumes "good E w" "grants E mixed w P g"
  shows "moves E mixed w (snd (update_filing P g w))"
proof (cases "find P (w_filings w)")
  case (Some f)
  then have f: "f \<in> set (w_filings w)" "P f" by (auto dest: find_SomeD)
  with assms(2) have step: "filing_step E mixed (view w) (replace_row (g f) (w_filings w), w_drawn w, w_timeline w)"
    and g: "f_id (g f) = f_id f" by (auto simp: grants_def)
  have "view_ok E (replace_row (g f) (w_filings w), w_drawn w, w_timeline w)"
    using assms(1) step view_ok_step unfolding good_def by blast
  then have "active_unique (replace_row (g f) (w_filings w))" by simp
  with update_filing_run [of E w P f g] assms Some g step show ?thesis
    by (auto simp: grants_def view_def intro!: moves_step)
qed (simp add: update_filing_none)

lemma setList_id [simp]: "f_id (setList now assigns f) = f_id f"
proof -
  have "f_id (fold assign xs f) = f_id f" for xs f
  proof (induction xs arbitrary: f)
    case (Cons x xs)
    then show ?case by (cases x) auto
  qed simp
  then show ?thesis by (simp add: setList_def)
qed

lemma writes_grant:
  assumes "\<exists>i. \<forall>x. P x \<longrightarrow> f_id x = i" "\<And>f. f_id (g f) = f_id f"
    and "\<And>f. f \<in> set (w_filings w) \<Longrightarrow> P f \<Longrightarrow> filing_write E mixed (w_drawn w) (w_drawn w) f (g f)"
  shows "grants E mixed w P g"
  using assms by (auto simp: grants_def view_def intro: step_write)

lemma transition_moves:
  assumes "good E w"
    and "\<And>f. f \<in> set (w_filings w) \<Longrightarrow> transition_guard i input f
      \<Longrightarrow> filing_write E mixed (w_drawn w) (w_drawn w) f (setList (clock w) (ti_set input) f)"
  shows "moves E mixed w (snd (transition U i input w))"
proof -
  have "grants E mixed w (transition_guard i input) (setList (clock w) (ti_set input))"
    by (rule writes_grant) (use assms(2) in \<open>auto simp: transition_guard_def\<close>)
  note update_filing_moves [OF assms(1) this]
  then show ?thesis unfolding transition_def
    by (intro moves_reads moves_seq [OF assms(1)], assumption)
      (intro moves_quiet quiet_rules quiet_insertEvidence quiet_audit_if)
qed

lemma Safe_transition:
  assumes "\<And>f n now. transition_guard i input f \<Longrightarrow> row_ok E f \<Longrightarrow> filing_write E mixed n n f (setList now (ti_set input) f)"
  shows "Safe E mixed (transition U i input)"
  using assms by (auto simp: Safe_def intro!: transition_moves dest: good_row)

lemma insertFiling_run:
  "snd (insertFiling U input s w) =
     (let fs = w_filings w @ [new_filing (U (w_drawn w)) (clock w) input s]
      in if active_unique fs then w\<lparr>w_drawn := Suc (w_drawn w), w_filings := fs\<rparr> else w\<lparr>w_drawn := Suc (w_drawn w)\<rparr>)"
  "fst (insertFiling U input s w) = Inr f \<Longrightarrow> f_id f = U (w_drawn w) \<and> f_reportId f = cf_reportId input
     \<and> active_unique (w_filings w @ [new_filing (U (w_drawn w)) (clock w) input s])"
  by (auto simp: insertFiling_def put_filings_def draw_uuid_def prog_simps Let_def toFiling_def new_filing_def split: if_splits)

lemma insertFiling_moves:
  assumes "cf_status input \<in> {Queued, Needs_human}" "cf_reason input \<noteq> Some City_needs_info"
    and "cf_caseUrl input = None" "cf_method input = None"
  shows "Safe E mixed (insertFiling (fe_uuid E) input False :: ('w filing_world_scheme, filing_record) prog)"
proof -
  have "moves E mixed w (snd (insertFiling (fe_uuid E) input False w))" for w :: "'w filing_world_scheme"
  proof (cases "active_unique (w_filings w @ [new_filing (fe_uuid E (w_drawn w)) (clock w) input False])")
    case True
    have "active (new_filing (fe_uuid E (w_drawn w)) (clock w) input False)"
      using assms(1) by (auto simp: new_filing_def active_def ACTIVE_FILING_STATUSES_def)
    with True have "filing_step E mixed (view w)
        (w_filings w @ [new_filing (fe_uuid E (w_drawn w)) (clock w) input False], Suc (w_drawn w), w_timeline w)"
      using assms unfolding view_def active_unique_snoc
      by (intro step_open) (simp_all add: new_filing_def not_city_def)
    with True show ?thesis by (intro moves_step) (simp add: insertFiling_run view_def Let_def)
  next
    case False
    have "filing_step E mixed (view w) (w_filings w, Suc (w_drawn w), w_timeline w @ [])"
      unfolding view_def by (intro step_quiet) auto
    with False show ?thesis by (intro moves_step) (simp add: insertFiling_run view_def Let_def)
  qed
  then show ?thesis by (simp add: Safe_def)
qed

lemma applyReportSuccess_run:
  "w_filings (snd (applyReportSuccess r note a w)) = w_filings w \<and> w_drawn (snd (applyReportSuccess r note a w)) = w_drawn w
   \<and> (\<exists>ts. announces r ts \<and> w_timeline (snd (applyReportSuccess r note a w)) = w_timeline w @ ts)
   \<and> (\<exists>b. fst (applyReportSuccess r note a w) = Inr b)"
  by (auto simp: applyReportSuccess_def prog_simps Let_def announces_def split: option.split)

text \<open>The part of a success after its row: the report, its public line, evidence and audit.\<close>

definition success_tail ::
  "(nat \<Rightarrow> string) \<Rightarrow> record_success_input \<Rightarrow> filing_record \<Rightarrow> ('w filing_world_scheme, record_success_result option) prog" where
  "success_tail U input f = seq (applyReportSuccess (f_reportId f) (rs_note input) (rs_actorId input)) (\<lambda>changed.
     seq (insertEvidence U (f_id f) (rs_evidence input)) (\<lambda>_. seq (audit_if (rs_audit input)) (\<lambda>_.
     ret (Some \<lparr>rr_filing = f, rr_reportChanged = changed\<rparr>))))"

lemma success_tail_moves:
  assumes "view w = (fs, n, lines)" "good E w0" "view w0 = v0"
    and "\<And>ts. announces (f_reportId f) ts \<Longrightarrow> filing_step E mixed v0 (fs, n, lines @ ts)"
  shows "moves E mixed w0 (snd (success_tail U input f w))"
proof -
  let ?w = "snd (applyReportSuccess (f_reportId f) (rs_note input) (rs_actorId input) w)"
  obtain ts where "announces (f_reportId f) ts" "view ?w = (fs, n, lines @ ts)"
    using applyReportSuccess_run [of "f_reportId f" "rs_note input" "rs_actorId input" w] assms(1) by (auto simp: view_def)
  then have "moves E mixed w0 ?w" using assms(3,4) by (intro moves_step) simp
  moreover have "moves E mixed ?w (snd (success_tail U input f w))"
  proof -
    have "quiet (\<lambda>w :: 'a filing_world_scheme. seq (insertEvidence U (f_id f) (rs_evidence input)) (\<lambda>_.
        seq (audit_if (rs_audit input)) (\<lambda>_. ret (Some \<lparr>rr_filing = f, rr_reportChanged = b\<rparr>))) w)" for b
      by (intro quiet_rules quiet_insertEvidence quiet_audit_if)
    then show ?thesis
      using applyReportSuccess_run [of "f_reportId f" "rs_note input" "rs_actorId input" w] moves_quiet
      by (fastforce simp: success_tail_def seq_run)
  qed
  ultimately show ?thesis by (rule moves_trans)
qed

lemma recordSuccess_eq: "recordSuccess U input = seq (success_row U input) (\<lambda>row. case row of None \<Rightarrow> ret None | Some f \<Rightarrow> success_tail U input f)"
  unfolding recordSuccess_def success_tail_def by (rule refl)

lemma recordSuccess_existing:
  fixes w :: "'w filing_world_scheme"
  assumes "good E w" "rs_target input = Existing i g"
    and "\<And>f. f \<in> set (w_filings w) \<Longrightarrow> success_guarded i g f
      \<Longrightarrow> filing_success E f ((setList (clock w) (success_set input) f)\<lparr>f_submittedAt := Some (clock w)\<rparr>)"
  shows "moves E mixed w (snd (recordSuccess (fe_uuid E) input w))"
proof (cases "find (success_guarded i g) (w_filings w)")
  case None
  then have "success_row (fe_uuid E) input w = (Inr None, w)"
    using assms(2) by (simp add: success_row_def updateToSuccess_def prog_simps update_filing_none)
  then show ?thesis by (simp add: recordSuccess_eq prog_simps)
next
  case (Some f)
  let ?h = "\<lambda>f. (setList (clock w) (success_set input) f)\<lparr>f_submittedAt := Some (clock w)\<rparr>"
  let ?w = "w\<lparr>w_filings := replace_row (?h f) (w_filings w)\<rparr>"
  from Some have f: "f \<in> set (w_filings w)" "success_guarded i g f" by (auto dest: find_SomeD)
  have step: "announces (f_reportId f) ts \<Longrightarrow> filing_step E mixed (view w) (replace_row (?h f) (w_filings w), w_drawn w, w_timeline w @ ts)" for ts
    using f assms(3) unfolding view_def by (intro step_success)
  have "view_ok E (replace_row (?h f) (w_filings w), w_drawn w, w_timeline w @ [])"
    using view_ok_step step [of "[]"] assms(1) unfolding good_def announces_def by blast
  then have "active_unique (replace_row (?h f) (w_filings w))" by simp
  moreover have "\<exists>j. \<forall>x. success_guarded i g x \<longrightarrow> f_id x = j" by (auto simp: success_guarded_def)
  ultimately have "success_row (fe_uuid E) input w = (Inr (Some (toFiling ?w (?h f))), ?w)"
    using update_filing_run [OF assms(1), of "success_guarded i g" f ?h] Some assms(2)
    by (simp add: success_row_def updateToSuccess_def prog_simps)
  moreover have "f_reportId (?h f) = f_reportId f" using assms(3) [OF f] by (simp add: filing_success_def)
  moreover have "moves E mixed w (snd (success_tail (fe_uuid E) input (toFiling ?w (?h f)) ?w))"
  proof (rule success_tail_moves [OF _ assms(1) refl])
    show "view ?w = (replace_row (?h f) (w_filings w), w_drawn w, w_timeline w)" by (simp add: view_def)
  qed (use step \<open>f_reportId (?h f) = f_reportId f\<close> in \<open>simp add: toFiling_def\<close>)
  ultimately show ?thesis by (simp add: recordSuccess_eq prog_simps)
qed

lemma recordSuccess_new:
  fixes w :: "'w filing_world_scheme"
  assumes "good E w" "rs_target input = New nf" "rs_outcome input = Submitted" "rs_method input = By_email"
  shows "moves E mixed w (snd (recordSuccess (fe_uuid E) input w))"
proof -
  let ?in = "nf\<lparr>cf_status := Submitted, cf_method := Some By_email, cf_caseId := Option.bind (rs_caseId input) id,
     cf_caseUrl := Option.bind (rs_caseUrl input) id, cf_mailThreadId := Option.bind (rs_mailThreadId input) id\<rparr>"
  let ?f = "new_filing (fe_uuid E (w_drawn w)) (clock w) ?in True"
  let ?w = "w\<lparr>w_drawn := Suc (w_drawn w), w_filings := w_filings w @ [?f]\<rparr>"
  have f: "\<not> active ?f" "successful ?f" "f_id ?f = fe_uuid E (w_drawn w)" "f_submittedAt ?f \<noteq> None"
    "f_method ?f = Some By_email" "f_attempts ?f = 0"
    by (simp_all add: new_filing_def active_def successful_def ACTIVE_FILING_STATUSES_def SUCCESSFUL_FILING_STATUSES_def)
  have "active_unique (w_filings w)" using assms(1) by (simp add: good_def view_def)
  with f have "insertFiling (fe_uuid E) ?in True w = (Inr (toFiling ?w ?f), ?w)"
    by (simp add: insertFiling_def put_filings_def draw_uuid_def prog_simps active_unique_snoc Let_def)
  then have "success_row (fe_uuid E) input w = (Inr (Some (toFiling ?w ?f)), ?w)"
    using assms by (simp add: success_row_def prog_simps)
  moreover have "moves E mixed w (snd (success_tail (fe_uuid E) input (toFiling ?w ?f) ?w))"
  proof (rule success_tail_moves [OF _ assms(1) refl])
    show "view ?w = (w_filings w @ [?f], Suc (w_drawn w), w_timeline w)" by (simp add: view_def)
    show "filing_step E mixed (view w) (w_filings w @ [?f], Suc (w_drawn w), w_timeline w @ ts)"
      if "announces (f_reportId (toFiling ?w ?f)) ts" for ts
      using that f unfolding view_def by (intro step_filed) (simp_all add: toFiling_def)
  qed
  ultimately show ?thesis by (simp add: recordSuccess_eq prog_simps)
qed

end
