(* ===== verification/Filing_Ops.thy ===== *)
theory Filing_Ops
  imports Filing_Runs
begin

section \<open>City filings: runs of operations\<close>

subsection \<open>Success\<close>

lemma success_fields:
  fixes f :: filing_record and now :: int and input :: record_success_input
  defines "g \<equiv> (setList now (success_set input) f)\<lparr>f_submittedAt := Some now\<rparr>"
  shows "f_id g = f_id f" "f_reportId g = f_reportId f" "f_status g = rs_outcome input"
    "f_method g = Some (rs_method input)" "f_portalHost g = f_portalHost f" "f_attempts g = f_attempts f"
    "f_caseUrl g = (case rs_caseUrl input of None \<Rightarrow> f_caseUrl f | Some u \<Rightarrow> u)" "f_submittedAt g = Some now"
  by (simp_all add: g_def setList_def success_set_def given_def split: option.split)

lemma applyFilingSuccess_moves:
  fixes w :: "'w filing_app_scheme"
  assumes "good E w" "as_outcome input \<in> {Submitted, Linked_existing}"
    and "\<And>f. f \<in> set (w_filings w) \<Longrightarrow> success_guarded i g f
      \<Longrightarrow> f_status f = Running \<or> (f_status f \<in> {Queued, Needs_human} \<and> not_city f)"
    and "\<And>f. f \<in> set (w_filings w) \<Longrightarrow> success_guarded i g f \<Longrightarrow> as_method input = By_script
      \<Longrightarrow> (case as_caseUrl input of Some (Some u) \<Rightarrow> (\<exists>h. fe_url E u = Some (''https:'', h) \<and> f_portalHost f = Some h) | _ \<Rightarrow> True)"
  shows "moves E mixed w (snd (applyFilingSuccess E i g input w))"
proof (cases "find (\<lambda>f. f_id f = i) (w_filings w)")
  case None
  then show ?thesis by (simp add: applyFilingSuccess_def getById_def oneFiling_def prog_simps)
next
  case (Some f0)
  define rs where "rs = (\<lambda>note. \<lparr>rs_target = Existing i g, rs_outcome = as_outcome input, rs_method = as_method input,
     rs_caseId = as_caseId input, rs_caseUrl = as_caseUrl input, rs_mailThreadId = as_mailThreadId input,
     rs_scriptVersion = as_scriptVersion input, rs_dryRun = as_dryRun input, rs_note = note,
     rs_actorId = as_actorId input, rs_audit = as_audit input, rs_evidence = as_evidence input\<rparr>)"
  have "filing_success E f ((setList (clock w) (success_set (rs msg)) f)\<lparr>f_submittedAt := Some (clock w)\<rparr>)"
    if "f \<in> set (w_filings w)" "success_guarded i g f" for f msg
  proof -
    have "f_caseUrl f = None \<Longrightarrow> as_method input = By_script
      \<Longrightarrow> portal_link E ((setList (clock w) (success_set (rs msg)) f)\<lparr>f_submittedAt := Some (clock w)\<rparr>)"
      using assms(4) [OF that] unfolding portal_link_def success_fields by (auto simp: rs_def split: option.splits)
    with assms(2) assms(3) [OF that] show ?thesis
      unfolding filing_success_def success_fields successful_def
      by (auto simp: rs_def SUCCESSFUL_FILING_STATUSES_def)
  qed
  then have rcd: "moves E mixed w (snd (recordSuccess (fe_uuid E) (rs msg) w))" for msg
    using assms(1) by (intro recordSuccess_existing [of E w "rs msg" i g]) (simp_all add: rs_def)
  have "moves E mixed w (snd (seq (recordSuccess (fe_uuid E) (rs msg)) (\<lambda>result.
      case result of None \<Rightarrow> ret False | Some r \<Rightarrow> seq (afterSuccess E r msg) (\<lambda>_. ret True)) w))" for msg
    by (rule moves_seq [OF assms(1)], rule rcd) (intro moves_quiet quiet_rules quiet_afterSuccess)
  with Some show ?thesis
    by (simp add: applyFilingSuccess_def getById_def oneFiling_def seq_run reads_run Let_def rs_def)
qed

subsection \<open>Claims and results\<close>

lemma claim_moves:
  assumes "good E w"
  shows "moves E mixed w (snd (claim (fe_uuid E) i attempt w))"
proof (cases "find (\<lambda>f. f_id f = i \<and> f_status f = Queued \<and> f_attempts f = attempt - 1) (w_filings w)")
  case None
  then show ?thesis by (simp add: claim_def prog_simps)
next
  case (Some f)
  let ?P = "\<lambda>f. f_id f = i \<and> f_status f = Queued \<and> f_attempts f = attempt - 1"
  let ?g = "\<lambda>f. f\<lparr>f_status := Running, f_attempts := attempt, f_runId := Some (fe_uuid E (w_drawn w)), f_updatedAt := clock w\<rparr>"
  let ?w = "w\<lparr>w_drawn := Suc (w_drawn w)\<rparr>"
  from Some have f: "f \<in> set (w_filings w)" "?P f" by (auto dest: find_SomeD)
  have "filing_write E mixed (w_drawn w) (Suc (w_drawn w)) f (?g f)"
    using f(2) by (intro write_claim [of f "?g f" E "w_drawn w"]) (simp_all add: same_core_def same_route_def)
  with f(1) have step: "filing_step E mixed (view w) (replace_row (?g f) (w_filings w), Suc (w_drawn w), w_timeline w)"
    unfolding view_def by (intro step_write)
  then have "view_ok E (replace_row (?g f) (w_filings w), Suc (w_drawn w), w_timeline w)"
    using view_ok_step assms unfolding good_def by blast
  moreover have "moves E mixed w (snd (draw_uuid (fe_uuid E) w))" by (intro moves_quiet quiet_prims)
  then have "good E ?w" using good_moves [OF assms] by (simp add: draw_uuid_def prog_simps)
  moreover have "\<exists>j. \<forall>x. ?P x \<longrightarrow> f_id x = j" by auto
  ultimately have "update_filing ?P ?g ?w = (Inr (Some (toFiling (?w\<lparr>w_filings := replace_row (?g f) (w_filings w)\<rparr>) (?g f))),
      ?w\<lparr>w_filings := replace_row (?g f) (w_filings w)\<rparr>)"
    using Some by (intro update_filing_run [of E ?w ?P f ?g, simplified]) simp_all
  with Some step show ?thesis
    by (intro moves_step) (simp add: claim_def draw_uuid_def prog_simps view_def)
qed

lemmas set_simps = setList_def same_core_def same_route_def not_city_def transition_guard_def tr_input_def guard_opt_def

lemma guarded_moves:
  assumes "good E w" "\<And>f. f \<in> set (w_filings w) \<Longrightarrow> f_status f = Running \<Longrightarrow> f_attempts f = fp_attempt p
      \<Longrightarrow> filing_write E mixed (w_drawn w) (w_drawn w) f
        (setList (clock w) (assigns @ [Set_dryRun (fp_dryRun p)]
           @ (case fp_scriptVersion p of None \<Rightarrow> [] | Some v \<Rightarrow> [Set_scriptVersion (Some v)])) f)"
  shows "moves E mixed w (snd (guarded E filing p assigns w))"
  unfolding guarded_def using assms
  by (intro transition_moves) (auto simp: transition_guard_def guard_opt_def)

lemma needsHuman_moves:
  assumes "good E w" "reason \<noteq> City_needs_info" "extra = [] \<or> (\<exists>d. extra = [Set_reasonDetail d])"
  shows "moves E mixed w (snd (needsHuman E filing p reason extra w))"
proof -
  have "moves E mixed w (snd (guarded E filing p ([Set_status Needs_human, Set_reason (Some reason)] @ extra) w))"
    using assms(2,3) by (intro guarded_moves assms(1) write_result) (auto simp: set_simps split: option.split)
  then show ?thesis unfolding needsHuman_def by (intro moves_seq assms(1)) (auto intro: moves_quiet quiet_rules)
qed

lemma requeue_moves:
  assumes "good E w" "assigns = [Set_nextAttemptAt t] \<and> fp_attempt p < MAX_ATTEMPTS
      \<or> assigns = [Set_attempts (fp_attempt p - 1), Set_nextAttemptAt t, Set_aiWaitSince s]"
  shows "moves E mixed w (snd (requeue E filing p assigns w))"
proof -
  have "moves E mixed w (snd (guarded E filing p (Set_status Queued # assigns) w))"
    using assms(2) by (intro guarded_moves assms(1) write_result) (auto simp: set_simps split: option.split)
  then show ?thesis unfolding requeue_def
    by (intro moves_seq assms(1)) (auto intro: moves_quiet quiet_rules quiet_enqueueFiling)
qed

lemma detail_shape: "detail p = [] \<or> (\<exists>d. detail p = [Set_reasonDetail d])"
  by (simp add: detail_def split: option.split)

lemma success_moves:
  assumes "good E w" "f0 \<in> set (w_filings w)" "f_id filing = f_id f0" "f_portalHost filing = f_portalHost f0"
  shows "moves E mixed w (snd (success E filing p w))"
proof -
  have "f = f0" if "f \<in> set (w_filings w)" "f_id f = f_id filing" for f
    using ids_inj [OF good_ids [OF assms(1)] assms(2) that(1)] that(2) assms(3) by simp
  then have "moves E mixed w (snd (applyFilingSuccess E (f_id filing)
        \<lparr>sg_status = [Running], sg_attempts = Some (fp_attempt p), sg_runId = Some (fp_runId p), sg_reason = None\<rparr>
        \<lparr>as_outcome = (if fp_outcome p = O_submitted then Submitted else Linked_existing), as_method = By_script,
         as_caseId = map_option Some (fp_caseId p),
         as_caseUrl = map_option (\<lambda>u. portalCaseUrl E u (f_portalHost filing)) (fp_caseUrl p),
         as_mailThreadId = None, as_actorId = None, as_audit = None,
         as_scriptVersion = map_option Some (fp_scriptVersion p), as_dryRun = Some (fp_dryRun p),
         as_evidence = fp_evidence p\<rparr> w))"
    using assms(4)
    by (intro applyFilingSuccess_moves assms(1))
      (auto simp: success_guarded_def portalCaseUrl_def split: option.splits prod.splits)
  then show ?thesis
    unfolding success_def Let_def using needsHuman_moves [OF assms(1)] detail_shape [of p] by auto
qed

lemma failed_moves:
  assumes "good E w"
  shows "moves E mixed w (snd (failed E filing p w))"
  unfolding failed_def Let_def
  by (rule moves_reads)
    (auto intro!: needsHuman_moves requeue_moves assms detail_shape simp: not_le split: option.split)

lemma apply_outcome_moves:
  assumes "good E w" "f0 \<in> set (w_filings w)" "f_id filing = f_id f0" "f_portalHost filing = f_portalHost f0"
    and "payload_ok p"
  shows "moves E mixed w (snd (apply_outcome E filing p (fp_outcome p) w))"
proof (cases "fp_outcome p")
  case O_needs_human
  then have "fp_reason p \<noteq> Some City_needs_info"
    using assms(5) by (auto simp: payload_ok_def reason_allowed_def IMMEDIATE_NEEDS_HUMAN_REASONS_def split: option.splits)
  with O_needs_human show ?thesis
    by (auto intro!: needsHuman_moves assms(1) detail_shape split: option.split)
next
  case O_cancelled
  have "moves E mixed w (snd (guarded E filing p [Set_status Cancelled] w))"
    by (intro guarded_moves assms(1) write_result) (auto simp: set_simps split: option.split)
  with O_cancelled show ?thesis by (auto intro!: moves_seq_quiet assms(1) quiet_rules)
qed (simp_all add: success_moves [OF assms(1-4)] failed_moves [OF assms(1)])

lemma getById_run: "getById i w = (Inr (map_option (toFiling w) (find (\<lambda>f. f_id f = i) (w_filings w))), w)"
  by (simp add: getById_def oneFiling_def prog_simps)

lemma toFiling_fields [simp]:
  "f_id (toFiling w f) = f_id f" "f_portalHost (toFiling w f) = f_portalHost f" "f_status (toFiling w f) = f_status f"
  "f_reason (toFiling w f) = f_reason f" "f_attempts (toFiling w f) = f_attempts f" "f_channel (toFiling w f) = f_channel f"
  "f_runId (toFiling w f) = f_runId f" "f_reportId (toFiling w f) = f_reportId f" "f_submittedAt (toFiling w f) = f_submittedAt f"
  by (simp_all add: toFiling_def)

lemma toFiling_open [simp]: "isOpen (toFiling w f) = isOpen f" "isCityNeedsInfo (toFiling w f) = isCityNeedsInfo f"
  by (simp_all add: isOpen_def isCityNeedsInfo_def)

lemma applyFilingResult_moves:
  assumes "good E w"
  shows "moves E mixed w (snd (applyFilingResult E p w))"
proof (cases "payload_ok p")
  case True
  show ?thesis
  proof (cases "find (\<lambda>f. f_id f = fp_filingId p) (w_filings w)")
    case None
    with True show ?thesis by (simp add: applyFilingResult_def parsePayload_def prog_simps getById_run)
  next
    case (Some f)
    with apply_outcome_moves [OF assms, of f "toFiling w f" p mixed] True show ?thesis
      by (auto simp: applyFilingResult_def parsePayload_def prog_simps getById_run dest: find_SomeD)
  qed
qed (simp add: applyFilingResult_def parsePayload_def prog_simps)

subsection \<open>Opening\<close>

lemma quiet_fromRoute: "quiet (fromRoute E r c)"
  unfolding fromRoute_def portalHostOf_def
  by (auto intro!: quiet_rules split: filing_channel.split option.split)

lemma quiet_routeFor: "quiet (routeFor E report routing)"
  unfolding routeFor_def resolveFilingRoute_def NO_ROUTE_def
  by (intro quiet_rules quiet_getters quiet_fromRoute)

lemma routeFor_reason: "fst (routeFor E report routing w) = Inr route \<Longrightarrow> rv_reason route \<noteq> Some City_needs_info"
  by (auto simp: routeFor_def resolveFilingRoute_def NO_ROUTE_def fromRoute_def prog_simps split: option.splits if_splits sum.splits)

lemma initialState_shape:
  assumes "rv_reason route \<noteq> Some City_needs_info" "initialState route a = (status, reason)"
  shows "status \<in> {Queued, Needs_human}" "reason \<noteq> Some City_needs_info"
  using assms by (auto simp: initialState_def split: option.splits if_splits)

lemma Safe_create:
  assumes "cf_status input \<in> {Queued, Needs_human}" "cf_reason input \<noteq> Some City_needs_info"
    and "cf_caseUrl input = None" "cf_method input = None"
  shows "Safe E mixed (create (fe_uuid E) input audit)"
  unfolding create_def
  by (intro Safe_recover Safe_seq insertFiling_moves assms Safe_quiet quiet_rules quiet_audit_if)

lemma Safe_open_filing: "Safe E mixed (open_filing E r routing actorId n audit)"
  unfolding open_filing_def
proof (rule Safe_seq_post [where Q = "\<lambda>route. rv_reason route \<noteq> Some City_needs_info"])
  fix route :: resolved_route assume r: "rv_reason route \<noteq> Some City_needs_info"
  obtain status reason where st: "initialState route (fe_automatic E) = (status, reason)" by fastforce
  note shape = initialState_shape [OF r st]
  show "Safe E mixed (let (status, reason) = initialState route (fe_automatic E); n = note_of n in
     seq (create (fe_uuid E) (blank_input\<lparr>cf_reportId := r_id r, cf_geoid := Option.bind routing ru_geoid,
       cf_category := r_category r, cf_routeCategory := rv_routeCategory route, cf_channel := rv_channel route,
       cf_portalHost := rv_portalHost route, cf_formUrl := rv_formUrl route, cf_status := status,
       cf_reason := reason, cf_ticketText := ticketText E r (rv_includeLink route) n, cf_note := n,
       cf_createdBy := actorId\<rparr>) audit)
      (\<lambda>created. case created of Created f \<Rightarrow>
          seq (if f_status f = Queued then enqueueFiling E f else ret False) (\<lambda>_. ret (Outcome_created f))
        | Active_exists \<Rightarrow> ret (Outcome_refused Already_filed)))"
    using shape unfolding st Let_def prod.case
    by (intro Safe_seq Safe_create)
      (auto simp: blank_input_def intro!: Safe_quiet quiet_rules quiet_enqueueFiling split: create_filing_result.split)
qed (auto intro: Safe_quiet quiet_routeFor dest: routeFor_reason)

lemma quiet_fileability: "quiet (fileability r)"
  unfolding fileability_def by (intro quiet_rules quiet_getters)

lemma Safe_service_create: "Safe E mixed (service_create E reportId actorId n audit)"
  unfolding service_create_def
  by (intro Safe_seq Safe_case Safe_if Safe_open_filing Safe_quiet [OF quiet_getters(2)] Safe_quiet [OF quiet_getters(3)]
      Safe_quiet [OF quiet_fileability] Safe_quiet [OF quiet_prims(1)] Safe_quiet [OF quiet_prims(2)])

lemma Safe_admin_file: "Safe E mixed (admin_file E reportId actorId n)"
  unfolding admin_file_def
  by (intro Safe_seq Safe_case Safe_service_create)
    (auto intro!: Safe_quiet quiet_rules quiet_getters split: create_outcome.split fileability_state.split)

lemma Safe_recordEmailRoute: "Safe E mixed (recordEmailRoute E report routing t a)"
  unfolding recordEmailRoute_def Let_def Safe_def
  by (auto intro!: moves_seq_quiet recordSuccess_new quiet_rules quiet_afterSuccess split: option.split)

lemma Safe_reopen: "Safe E mixed (insertReopenFilingIn (fe_uuid E) reportId)"
  unfolding insertReopenFilingIn_def
  by (rule Safe_seq, rule Safe_quiet, rule quiet_prims)
    (auto intro!: Safe_seq insertFiling_moves intro: Safe_quiet quiet_prims split: prod.split option.split)

subsection \<open>The operator\<close>

lemma Safe_cancel: "set from \<subseteq> {Queued, Needs_human} \<Longrightarrow> Safe E mixed (transition U i ((tr_input from [Set_status Cancelled])\<lparr>ti_audit := a\<rparr>))"
  by (intro Safe_transition write_cancel) (auto simp: set_simps)

lemma Safe_cancel_plain: "set from \<subseteq> {Queued, Needs_human} \<Longrightarrow> Safe E mixed (transition U i (tr_input from [Set_status Cancelled]))"
  by (intro Safe_transition write_cancel) (auto simp: set_simps)

lemma Safe_cancelForReport: "Safe E mixed (cancelForReport E reportId)"
  unfolding cancelForReport_def
  by (intro Safe_seq Safe_case Safe_if Safe_cancel_plain Safe_quiet [OF quiet_getters(4)] Safe_quiet [OF quiet_prims(1)]) simp

lemma Safe_onVerdict: "Safe E mixed (onVerdict E reportId approved actorId)"
  unfolding onVerdict_def by (intro Safe_if Safe_cancelForReport Safe_seq Safe_service_create Safe_quiet quiet_prims)

lemma Safe_admin_cancel: "Safe E mixed (admin_cancel E i actorId n)"
  unfolding admin_cancel_def
  by (intro Safe_seq Safe_if Safe_case Safe_cancel Safe_quiet [OF quiet_getters(9)] Safe_quiet [OF quiet_getters(10)]
      Safe_quiet [OF quiet_prims(2)]) simp

lemma loaded_row:
  assumes "good E w" "find (\<lambda>f. f_id f = i) (w_filings w) = Some f0" "f \<in> set (w_filings w)" "f_id f = i"
  shows "f = f0"
  using find_SomeD [OF assms(2)] assms(3,4) by (intro ids_inj [OF good_ids [OF assms(1)]]) simp_all

lemma loadFiling_run:
  "loadFiling i w = (case find (\<lambda>f. f_id f = i) (w_filings w) of
     None \<Rightarrow> (Inl (NotFound (Some FILING_NOT_FOUND)), w) | Some f \<Rightarrow> (Inr (toFiling w f), w))"
  by (simp add: loadFiling_def getById_run seq_run prog_simps split: option.split)

text \<open>A program run after a quiet one still finds the rows.\<close>

lemma moves_after_quiet:
  assumes "good E w" "quiet m"
    and "\<And>x w'. fst (m w) = Inr x \<Longrightarrow> good E w' \<Longrightarrow> w_filings w' = w_filings w \<Longrightarrow> moves E mixed w' (snd (f x w'))"
  shows "moves E mixed w (snd (seq m f w))"
proof (rule moves_seq [where m = m, OF assms(1)])
  show "moves E mixed w (snd (m w))" using assms(2) by (rule moves_quiet)
qed (use assms(2,3) in \<open>auto simp: quiet_def\<close>)

lemma retry_moves:
  fixes w :: "'w filing_app_scheme"
  assumes "good E w"
  shows "moves E mixed w (snd (retry E i actorId w))"
proof (cases "find (\<lambda>f. f_id f = i) (w_filings w)")
  case None
  then show ?thesis by (simp add: retry_def seq_run loadFiling_run)
next
  case (Some f0)
  have row: "f = f0" if "f \<in> set (w_filings w)" "f_id f = i" for f using loaded_row [OF assms Some that] .
  define rest where "rest = (\<lambda>r q. seq (if f_status q \<noteq> Queued then ret True else enqueueFiling E q) (\<lambda>sent.
     if sent then ret (dto_with q (Some r))
     else seq (transition (fe_uuid E) i (tr_input [Queued] [Set_status Needs_human, Set_reason (Some Filing_off)])) (\<lambda>off.
          case off of Some f \<Rightarrow> ret (dto_with f (Some r)) | None \<Rightarrow> seq (loadFiling i) (\<lambda>f. ret (dto_with f (Some r)))))
     :: ('w filing_app_scheme, admin_filing_dto) prog)"
  have "Safe E mixed (transition (fe_uuid E) i (tr_input [Queued] [Set_status Needs_human, Set_reason (Some Filing_off)]))"
    by (intro Safe_transition write_off) (auto simp: set_simps)
  then have rest: "Safe E mixed (rest r q)" for r q
    unfolding rest_def
    by (intro Safe_seq Safe_if Safe_case Safe_quiet [OF quiet_prims(1)] Safe_quiet [OF quiet_enqueueFiling] Safe_quiet [OF quiet_getters(9)])
  show ?thesis
  proof (cases "f_status f0 = Needs_human \<and> f_reason f0 \<noteq> Some City_needs_info")
    case True
    have wr: "moves E mixed w' (snd (transition (fe_uuid E) i
        ((tr_input [Needs_human] (retry_set route g status reason))\<lparr>ti_audit := a\<rparr>) w'))"
      if "good E w'" "w_filings w' = w_filings w" "rv_reason route \<noteq> Some City_needs_info"
        "initialState route b = (status, reason)" for w' :: "'w filing_app_scheme" and route g status reason a b
      using initialState_shape [OF that(3,4)] True that(2) row
      by (intro transition_moves that(1) write_retry) (auto simp: set_simps retry_set_def)
    have "moves E mixed w' (snd (seq (routeFor E r routing) (\<lambda>route.
         let (status, reason) = initialState route (fe_automatic E) in
         seq (transition (fe_uuid E) i ((tr_input [Needs_human] (retry_set route (Option.bind routing ru_geoid) status reason))
            \<lparr>ti_audit := Some (filingAudit ''filing.retried'' i actorId None)\<rparr>))
           (\<lambda>retried. case retried of None \<Rightarrow> raise (ConflictErr (Some WRONG_STATE)) | Some q \<Rightarrow> rest r q)) w'))"
      if "good E w'" "w_filings w' = w_filings w" for w' :: "'w filing_app_scheme" and r routing
    proof (rule moves_after_quiet [OF that(1) quiet_routeFor])
      fix route and w2 :: "'w filing_app_scheme"
      assume r: "fst (routeFor E r routing w') = Inr route" and w2: "good E w2" "w_filings w2 = w_filings w'"
      obtain status reason where st: "initialState route (fe_automatic E) = (status, reason)" by fastforce
      have w2': "w_filings w2 = w_filings w" using w2(2) that(2) by simp
      show "moves E mixed w2 (snd ((let (status, reason) = initialState route (fe_automatic E) in
         seq (transition (fe_uuid E) i ((tr_input [Needs_human] (retry_set route (Option.bind routing ru_geoid) status reason))
            \<lparr>ti_audit := Some (filingAudit ''filing.retried'' i actorId None)\<rparr>))
           (\<lambda>retried. case retried of None \<Rightarrow> raise (ConflictErr (Some WRONG_STATE)) | Some q \<Rightarrow> rest r q)) w2))"
        unfolding st Let_def prod.case
        by (rule moves_seq [OF w2(1)], rule wr [OF w2(1) w2' routeFor_reason [OF r] st])
          (auto split: option.split intro: SafeD [OF rest] moves_quiet quiet_prims)
    qed
    with True Some assms show ?thesis unfolding rest_def
      by (simp add: retry_def seq_run loadFiling_run getReport_def getRouting_def reads_run raise_run split: option.split)
  qed (use Some in \<open>auto simp: retry_def seq_run loadFiling_run raise_run\<close>)
qed

lemma recordManual_moves:
  fixes w :: "'w filing_app_scheme"
  assumes "good E w"
  shows "moves E mixed w (snd (recordManual E i actorId caseId caseUrl n w))"
proof (cases "find (\<lambda>f. f_id f = i) (w_filings w)")
  case None
  then show ?thesis by (simp add: recordManual_def seq_run loadFiling_run)
next
  case (Some f0)
  have row: "f = f0" if "f \<in> set (w_filings w)" "f_id f = i" for f using loaded_row [OF assms Some that] .
  let ?audit = "filingAudit ''filing.manual_recorded'' i actorId n"
  let ?answer = "transition (fe_uuid E) i ((tr_input [Needs_human]
     [Set_status Submitted, Set_method (Some By_operator), Set_caseId (Some caseId), Set_caseUrl caseUrl])\<lparr>ti_audit := Some ?audit\<rparr>)
     :: ('w filing_app_scheme, filing_record option) prog"
  let ?apply = "applyFilingSuccess E i \<lparr>sg_status = [f_status f0], sg_attempts = None, sg_runId = None, sg_reason = None\<rparr>
     (manual_success caseId caseUrl actorId ?audit) :: ('w filing_app_scheme, bool) prog"
  consider (info) "isCityNeedsInfo f0" | (opn) "\<not> isCityNeedsInfo f0" "isOpen f0" | (no) "\<not> isCityNeedsInfo f0" "\<not> isOpen f0" by blast
  then show ?thesis
  proof cases
    case info
    have "moves E mixed w (snd (?answer w))"
      using info row by (intro transition_moves assms write_answer) (auto simp: set_simps isCityNeedsInfo_def)
    then have "moves E mixed w (snd (seq ?answer (\<lambda>submitted.
        case submitted of None \<Rightarrow> raise (ConflictErr (Some WRONG_STATE)) | Some f \<Rightarrow> dtoOf f) w))"
      by (intro moves_seq_quiet assms quiet_case quiet_getters quiet_prims)
    with info Some show ?thesis
      by (simp add: recordManual_def seq_run [of "loadFiling i"] loadFiling_run Let_def)
  next
    case opn
    have "f_status f = Running \<or> (f_status f \<in> {Queued, Needs_human} \<and> not_city f)"
      if "f \<in> set (w_filings w)" "success_guarded i \<lparr>sg_status = [f_status f0], sg_attempts = None, sg_runId = None, sg_reason = None\<rparr> f" for f
    proof -
      have "f = f0" using row that by (simp add: success_guarded_def)
      with opn(2) show ?thesis by (auto simp: isOpen_def not_city_def)
    qed
    then have "moves E mixed w (snd (?apply w))"
      by (intro applyFilingSuccess_moves assms) (simp_all add: manual_success_def)
    then have "moves E mixed w (snd (seq ?apply (\<lambda>applied.
        if \<not> applied then raise (ConflictErr (Some WRONG_STATE)) else seq (loadFiling i) dtoOf) w))"
      by (intro moves_seq_quiet assms quiet_if still_seq quiet_getters quiet_prims)
    with opn Some show ?thesis
      by (simp add: recordManual_def seq_run [of "loadFiling i"] loadFiling_run Let_def)
  next
    case no
    with Some show ?thesis
      by (simp add: recordManual_def seq_run loadFiling_run Let_def raise_run)
  qed
qed

subsection \<open>City updates\<close>

lemma Safe_add_timeline: "kind \<noteq> TRoute \<Longrightarrow> Safe E mixed (add_timeline r s n kind)"
  unfolding Safe_def add_timeline_def view_def
  by (auto simp: writes_run view_def intro!: moves_step step_quiet)

lemma quiet_reports: "quiet (writes (\<lambda>w. w\<lparr>w_reports := h w\<rparr>))" "quiet (writes (\<lambda>w. w\<lparr>w_messages := k w\<rparr>))"
  by (simp_all add: quiet_def writes_run)

lemma Safe_city_write:
  assumes "\<exists>i. \<forall>x. P x \<longrightarrow> f_id x = i" "\<And>f t. f_id (g t f) = f_id f" "\<And>f t n. filing_write E mixed n n f (g t f)"
  shows "Safe E mixed (seq (reads clock) (\<lambda>now. update_filing P (g now)))"
  unfolding Safe_def using assms by (auto intro!: moves_reads update_filing_moves writes_grant)

lemma needs_info_moves:
  fixes w :: "'w filing_world_scheme"
  assumes "good E w"
  shows "moves E mixed w (snd (applyEffectIn filing (Needs_info_effect d) w))"
proof -
  let ?P = "\<lambda>f. f_id f = cu_id filing \<and> successful f \<and> \<not> (\<exists>a \<in> set (w_filings w). f_reportId a = f_reportId f \<and> active a)"
  let ?g = "\<lambda>f. f\<lparr>f_status := Needs_human, f_reason := Some City_needs_info, f_reasonDetail := Some d, f_updatedAt := clock w\<rparr>"
  have "grants E mixed w ?P ?g"
    unfolding grants_def view_def
    by (auto intro!: step_info simp: same_core_def same_route_def not_city_def)
  then have "moves E mixed w (snd (update_filing ?P ?g w))" by (rule update_filing_moves [OF assms])
  then have "moves E mixed w (snd (seq (update_filing ?P ?g) (\<lambda>row. ret (isSome row)) w))"
    by (intro moves_seq_quiet assms quiet_prims)
  then show ?thesis by (simp add: seq_run [of "reads _"] reads_run)
qed

lemma Safe_applyEffectIn:
  assumes "\<And>from target n kind c. effect = Report_status_effect from target n kind c \<Longrightarrow> kind \<noteq> TRoute"
  shows "Safe E mixed (applyEffectIn filing effect)"
proof (cases effect)
  case (Case_id_effect caseId n)
  have "Safe E mixed (seq (seq (reads clock) (\<lambda>now. update_filing (\<lambda>f. f_id f = cu_id filing \<and> f_caseId f = None)
            (\<lambda>f. f\<lparr>f_caseId := Some caseId, f_updatedAt := now\<rparr>))) (\<lambda>row.
     if row = None then ret False
     else seq (reads (\<lambda>w. find (\<lambda>r. r_id r = cu_reportId filing) (w_reports w))) (\<lambda>r.
          case r of None \<Rightarrow> ret True
          | Some report \<Rightarrow> seq (add_timeline (cu_reportId filing) (r_status report) n TReply) (\<lambda>_. ret True))))"
    by (intro Safe_seq [OF Safe_city_write] Safe_if Safe_seq [OF Safe_quiet] Safe_case Safe_seq [OF Safe_add_timeline]
        write_city Safe_quiet quiet_prims) (auto simp: same_core_def same_route_def)
  then show ?thesis unfolding Case_id_effect applyEffectIn.simps seq_assoc .
next
  case (Report_status_effect sts target n kind c)
  have closed: "Safe E mixed (seq (reads clock) (\<lambda>now. update_filing (\<lambda>f. f_id f = cu_id filing)
          (\<lambda>f. f\<lparr>f_cityClosedAt := Some now, f_updatedAt := now\<rparr>)))"
    by (intro Safe_city_write write_city) (auto simp: same_core_def same_route_def)
  show ?thesis unfolding Report_status_effect applyEffectIn.simps Let_def
    by (intro closed Safe_seq Safe_if Safe_add_timeline assms [OF Report_status_effect] Safe_quiet [OF quiet_prims(1)]
        Safe_quiet [OF quiet_prims(3)] Safe_quiet [OF quiet_reports(1)])
next
  case (Needs_info_effect d)
  then show ?thesis unfolding Safe_def by (auto intro: needs_info_moves simp del: applyEffectIn.simps)
qed (auto intro: Safe_quiet quiet_prims)

lemma plan_kind: "planCityUpdate c f = Report_status_effect from target n kind b \<Longrightarrow> kind \<noteq> TRoute"
  by (auto simp: planCityUpdate_def Let_def split: option.splits classification_status.splits if_splits)

lemma Safe_city_update: "Safe E mixed (city_update E messageId c)"
proof -
  have "Safe E mixed (applyCityUpdate messageId c (planCityUpdate c))"
    unfolding applyCityUpdate_def Let_def
    by (intro Safe_seq Safe_case Safe_if Safe_applyEffectIn plan_kind Safe_quiet [OF quiet_prims(1)] Safe_quiet [OF quiet_prims(2)]
        Safe_quiet [OF quiet_prims(3)] Safe_quiet [OF quiet_getters(1)] Safe_quiet [OF quiet_reports(2)] Safe_quiet [OF quiet_prims(9)]) 
  then show ?thesis unfolding city_update_def notifyReporterOfStatus_def
    by (rule Safe_seq)
      (auto intro!: Safe_quiet quiet_rules quiet_getters quiet_createNotification split: city_update_result.split city_update_effect.split)
qed

end
