(* ===== verification/Filing_Properties.thy ===== *)
theory Filing_Properties
  imports Filing_Ops
begin

section \<open>City filings: what every run of operations keeps\<close>

subsection \<open>Email tries and the sweep\<close>

text \<open>Email writes leave a portal filing alone, or \<open>mixed\<close> allows them on it.\<close>

definition email_row :: "bool \<Rightarrow> string \<Rightarrow> 'w filing_world_scheme \<Rightarrow> bool" where
  "email_row mixed i w \<longleftrightarrow> mixed \<or> (\<forall>f \<in> set (w_filings w). f_id f = i \<longrightarrow> f_channel f \<noteq> Some Portal)"

definition email_set :: "filing_set \<Rightarrow> bool" where
  "email_set s \<longleftrightarrow> s = [Set_status Queued] \<or> (\<exists>t. s = [Set_mailThreadId t])
     \<or> (\<exists>r. r \<noteq> City_needs_info \<and> (s = [Set_status Needs_human, Set_reason (Some r)]
          \<or> (\<exists>d. s = [Set_status Needs_human, Set_reason (Some r), Set_reasonDetail d])))"

lemma settle_moves:
  assumes "good E w" "email_row mixed i w" "email_set s"
  shows "moves E mixed w (snd (settle E i attempt s w))"
proof -
  have "moves E mixed w (snd (transition (fe_uuid E) i ((tr_input [Running] s)\<lparr>ti_attempts := Some attempt\<rparr>) w))"
    using assms(2,3)
    by (intro transition_moves assms(1) write_email) (auto simp: set_simps email_set_def email_row_def)
  then show ?thesis unfolding settle_def by (intro moves_seq_quiet assms(1) quiet_prims)
qed

lemma succeed_moves:
  assumes "good E w"
  shows "moves E mixed w (snd (succeed E i attempt t w))" "moves E mixed w (snd (lateSuccess E i t w))"
proof -
  have "moves E mixed w (snd (applyFilingSuccess E i
      \<lparr>sg_status = [Running], sg_attempts = Some attempt, sg_runId = None, sg_reason = None\<rparr> (email_success t) w))"
    by (intro applyFilingSuccess_moves assms) (auto simp: email_success_def success_guarded_def)
  then show "moves E mixed w (snd (succeed E i attempt t w))"
    unfolding succeed_def by (intro moves_seq_quiet assms quiet_prims)
  have "moves E mixed w (snd (applyFilingSuccess E i
      \<lparr>sg_status = [Needs_human], sg_attempts = None, sg_runId = None, sg_reason = Some Uncertain_submission\<rparr> (email_success t) w))"
    by (intro applyFilingSuccess_moves assms) (auto simp: email_success_def success_guarded_def not_city_def)
  then show "moves E mixed w (snd (lateSuccess E i t w))"
    unfolding lateSuccess_def by (intro moves_seq_quiet assms quiet_prims)
qed

lemma fail_moves:
  assumes "good E w" "email_row mixed i w"
  shows "moves E mixed w (snd (fail E M final i attempt err w))"
  unfolding fail_def
  by (auto intro!: moves_seq_quiet assms settle_moves quiet_prims quiet_if simp: email_set_def)

lemma email_finish_moves:
  assumes "good E w" "email_row mixed i w"
  shows "moves E mixed w (snd (email_finish E M final i attempt sent step w))"
  by (cases step)
    (auto intro!: moves_seq_quiet assms settle_moves succeed_moves fail_moves quiet_prims
      simp: email_set_def ret_run split: option.split)

text \<open>No write but an operator's retry changes the channel of a filing.\<close>

definition same_channels :: "'w filing_world_scheme \<Rightarrow> 'w filing_world_scheme \<Rightarrow> bool" where
  "same_channels w w' \<longleftrightarrow> map (\<lambda>f. (f_id f, f_channel f)) (w_filings w') = map (\<lambda>f. (f_id f, f_channel f)) (w_filings w)"

lemma same_channels_row: "same_channels w w' \<Longrightarrow> email_row mixed i w \<Longrightarrow> email_row mixed i w'"
proof -
  assume same: "same_channels w w'" and row: "email_row mixed i w"
  have "(\<exists>f \<in> set (w_filings w'). f_id f = i \<and> f_channel f = c) \<longleftrightarrow> (i, c) \<in> set (map (\<lambda>f. (f_id f, f_channel f)) (w_filings w'))" for c
    by auto
  then have "\<exists>g \<in> set (w_filings w). f_id g = i \<and> f_channel g = c"
    if "\<exists>f \<in> set (w_filings w'). f_id f = i \<and> f_channel f = c" for c
    using same that unfolding same_channels_def by auto
  with row show ?thesis unfolding email_row_def by metis
qed

lemma update_filing_channels:
  assumes "\<And>f. f_id (g f) = f_id f \<and> f_channel (g f) = f_channel f"
  shows "same_channels w (snd (update_filing P g w))"
  using assms
  by (auto simp: same_channels_def update_filing_def put_filings_def update_rows_def prog_simps split: option.split if_splits)

lemma quiet_channels: "quiet m \<Longrightarrow> same_channels w (snd (m w))"
  by (simp add: quiet_def same_channels_def)

lemma same_channels_trans: "same_channels u v \<Longrightarrow> same_channels v w \<Longrightarrow> same_channels u w"
  by (simp add: same_channels_def)

lemma seq_channels:
  assumes "same_channels w (snd (m w))" "\<And>x. same_channels (snd (m w)) (snd (f x (snd (m w))))"
  shows "same_channels w (snd (seq m f w))"
  using assms by (auto simp: seq_run split: sum.split intro: same_channels_trans)

lemma transition_channels:
  assumes "\<And>f now. f_channel (setList now (ti_set input) f) = f_channel f"
  shows "same_channels w (snd (transition U i input w))"
  unfolding transition_def
  by (intro seq_channels quiet_channels [OF quiet_prims(3)] update_filing_channels)
    (auto simp: assms intro!: quiet_channels quiet_rules quiet_insertEvidence quiet_audit_if split: option.split)

lemma claim_channels: "same_channels w (snd (claim U i attempt w))"
  unfolding claim_def
  by (intro seq_channels quiet_channels [OF quiet_prims(3)])
    (auto intro!: seq_channels update_filing_channels intro: quiet_channels quiet_prims split: option.split)

lemma quiet_assertRoutable: "quiet (assertRoutable st a)"
  unfolding assertRoutable_def assertNoSendInFlight_def Let_def by (intro quiet_rules)

lemma prepare_moves:
  fixes w :: "'w filing_world_scheme"
  assumes "good E w" "email_row mixed (f_id filing) w"
  shows "moves E mixed w (snd (prepare E M filing attempt toAddr w))"
proof -
  have send: "moves E mixed w' (snd (send_on E filing attempt t w'))"
    if "good E w'" "w_filings w' = w_filings w" for w' :: "'w filing_world_scheme" and t
    unfolding send_on_def recordThread_def
    using settle_moves [OF that(1), of mixed "f_id filing" "[Set_mailThreadId (Some t)]"] assms(2) that
    by (auto intro!: moves_seq_quiet quiet_prims simp: email_set_def email_row_def ret_run)
  show ?thesis unfolding prepare_def Let_def
    by (rule moves_after_quiet [OF assms(1)], intro quiet_rules quiet_assertRoutable)
      (auto intro: send simp: raise_run ret_run split: option.split sum.split)
qed

lemma moves_if: "moves E mixed w (snd (m w)) \<Longrightarrow> moves E mixed w (snd (n w)) \<Longrightarrow> moves E mixed w (snd ((if b then m else n) w))"
  by simp

lemma moves_case:
  "(\<And>x. moves E mixed w (snd (f x w))) \<Longrightarrow> moves E mixed w (snd (m w)) \<Longrightarrow> moves E mixed w (snd ((case y of None \<Rightarrow> m | Some x \<Rightarrow> f x) w))"
  by (cases y) auto

lemma email_claimed_moves:
  fixes w :: "'w filing_app_scheme"
  assumes "good E w" "email_row mixed (f_id filing) w"
  shows "moves E mixed w (snd (seq (claim (fe_uuid E) (f_id filing) attempt) (\<lambda>run.
       case run of
         None \<Rightarrow> ret (Some (Step_stale, attempt))
       | Some _ \<Rightarrow> (case recipientOf routing of
              None \<Rightarrow> ret (Some (Step_no_route, attempt))
            | Some toAddr \<Rightarrow> seq (recover (prepare E M filing attempt toAddr) (\<lambda>err. ret (Step_failed err)))
                (\<lambda>step. ret (Some (step, attempt))))) w))"
proof (rule moves_seq [where m = "claim (fe_uuid E) (f_id filing) attempt", OF assms(1)])
  show "moves E mixed w (snd (claim (fe_uuid E) (f_id filing) attempt w))" by (rule claim_moves [OF assms(1)])
next
  let ?w = "snd (claim (fe_uuid E) (f_id filing) attempt w)"
  fix run assume g: "good E ?w"
  note prepare_moves [OF g same_channels_row [OF claim_channels assms(2)]]
  then show "moves E mixed ?w (snd ((case run of
       None \<Rightarrow> ret (Some (Step_stale, attempt))
     | Some _ \<Rightarrow> (case recipientOf routing of
            None \<Rightarrow> ret (Some (Step_no_route, attempt))
          | Some toAddr \<Rightarrow> seq (recover (prepare E M filing attempt toAddr) (\<lambda>err. ret (Step_failed err)))
              (\<lambda>step. ret (Some (step, attempt))))) ?w))"
    by (auto simp: seq_run recover_run ret_run split: option.split sum.split)
qed

lemma email_start_moves:
  fixes w :: "'w filing_app_scheme"
  assumes "good E w" "email_row mixed i w"
  shows "moves E mixed w (snd (email_start E M i w))"
proof (cases "find (\<lambda>f. f_id f = i) (w_filings w)")
  case None
  then show ?thesis by (simp add: email_start_def seq_run getById_run ret_run)
next
  case (Some f)
  then have i: "f_id (toFiling w f) = i" by (auto dest: find_SomeD)
  have claimed: "moves E mixed w' (snd (seq (claim (fe_uuid E) i attempt) (\<lambda>run.
       case run of
         None \<Rightarrow> ret (Some (Step_stale, attempt))
       | Some _ \<Rightarrow> (case recipientOf routing of
              None \<Rightarrow> ret (Some (Step_no_route, attempt))
            | Some toAddr \<Rightarrow> seq (recover (prepare E M (toFiling w f) attempt toAddr) (\<lambda>err. ret (Step_failed err)))
                (\<lambda>step. ret (Some (step, attempt))))) w'))"
    if "good E w'" "w_filings w' = w_filings w" for w' :: "'w filing_app_scheme" and attempt routing
    using email_claimed_moves [OF that(1), of mixed "toFiling w f" attempt M routing] assms(2) that(2)
    unfolding i by (simp add: email_row_def)
  have cancelled: "Safe E mixed (seq (transition (fe_uuid E) i (tr_input [Queued] [Set_status Cancelled])) (\<lambda>_. ret (None :: (email_step \<times> int) option)))"
    by (intro Safe_seq Safe_cancel_plain Safe_quiet quiet_prims) simp
  have content: "quiet (if b then ret () else (case me_content M of None \<Rightarrow> ret () | Some e \<Rightarrow> raise e))" for b
    by (intro quiet_rules)
  have run: "moves E mixed w' (snd (ret x w'))" for x and w' :: "'w filing_app_scheme" by (simp add: ret_run)
  show ?thesis
    unfolding email_start_def seq_run [of "getById i"] getById_run Some fst_conv snd_conv sum.case option.map option.case Let_def
    by (intro moves_if run moves_after_quiet [OF assms(1) quiet_getters(5)] moves_after_quiet [OF _ quiet_getters(2)] moves_case
        moves_after_quiet [OF _ quiet_getters(3)] moves_after_quiet [OF _ content] SafeD [OF cancelled] claimed; simp)
qed

lemma requeue_stuck_moves:
  assumes "good E w" "email_row mixed (f_id f) w"
  shows "moves E mixed w (snd (requeue_stuck E f w))" "same_channels w (snd (requeue_stuck E f w))"
proof -
  let ?in = "(tr_input [Running] [Set_status Queued])\<lparr>ti_attempts := Some (f_attempts f)\<rparr>"
  have "moves E mixed w (snd (transition (fe_uuid E) (f_id f) ?in w))"
    using assms(2) by (intro transition_moves assms(1) write_email) (auto simp: set_simps email_row_def)
  then show "moves E mixed w (snd (requeue_stuck E f w))"
    unfolding requeue_stuck_def by (intro moves_seq_quiet assms(1) quiet_case still_seq quiet_enqueueFiling quiet_prims)
  have "same_channels w (snd (transition (fe_uuid E) (f_id f) ?in w))"
    by (rule transition_channels) (simp add: set_simps)
  then show "same_channels w (snd (requeue_stuck E f w))"
    unfolding requeue_stuck_def
    by (rule seq_channels) (intro quiet_channels quiet_case still_seq quiet_enqueueFiling quiet_prims)
qed

lemma requeue_all_moves:
  "good E w \<Longrightarrow> \<forall>f \<in> set fs. email_row mixed (f_id f) w \<Longrightarrow> moves E mixed w (snd (for_each (requeue_stuck E) fs w))"
proof (induction fs arbitrary: w)
  case (Cons f fs)
  have row: "email_row mixed (f_id f) w" using Cons.prems(2) by simp
  note step = requeue_stuck_moves [OF Cons.prems(1) row]
  have "\<forall>g \<in> set fs. email_row mixed (f_id g) (snd (requeue_stuck E f w))"
    using Cons.prems(2) same_channels_row [OF step(2)] by simp
  then show ?case unfolding for_each.simps
    by (intro moves_seq [where m = "requeue_stuck E f", OF Cons.prems(1) step(1)] Cons.IH)
qed (simp add: ret_run)

lemma sweep_moves:
  fixes w :: "'w filing_app_scheme"
  assumes "good E w"
  shows "moves E mixed w (snd (runSweepPass E ignoreAge w))"
  unfolding runSweepPass_def
proof (rule moves_after_quiet [OF assms quiet_getters(5)])
  have stuck: "moves E mixed w (snd (requeueStuckEmail E now w))" if "good E w" for w :: "'w filing_app_scheme" and now
  proof -
    have "email_row mixed (f_id g) w" if "f \<in> set (w_filings w)" "f_channel f = Some Email" "g = toFiling w f" for f g
      using that ids_inj [OF good_ids [OF \<open>good E w\<close>] that(1)] by (fastforce simp: email_row_def)
    then show ?thesis
      unfolding requeueStuckEmail_def listStaleRunningEmail_def
      by (intro moves_reads requeue_all_moves that) (auto dest!: in_set_takeD)
  qed
  have "quiet (for_each (\<lambda>f. seq (enqueueFiling E f) (\<lambda>_. ret ())) due)" for due
    by (induction due) (auto intro: quiet_rules quiet_enqueueFiling)
  then show "moves E mixed w' (snd ((if fs_paused s then ret () else seq (reads clock) (\<lambda>now.
     seq (listDueQueued now (if ignoreAge then None else Some (now - SWEEP_MIN_AGE_MS))
            (if fe_automatic E then [Email, Portal] else [Email]) FILING_DUE_MAX_LIMIT) (\<lambda>due.
     seq (for_each (\<lambda>f. seq (enqueueFiling E f) (\<lambda>_. ret ())) due) (\<lambda>_. requeueStuckEmail E now)))) w'))"
    if "good E w'" for w' :: "'w filing_app_scheme" and s
    using that
    by (auto simp: ret_run intro!: moves_reads moves_after_quiet quiet_getters stuck)
qed

end
