(* ===== verification/Filing_Claims.thy ===== *)
theory Filing_Claims
  imports Filing_Properties
begin

section \<open>City filings: the properties\<close>

text \<open>
  A run is a sequence of the operations of the services and of what other parts of the system do to the reports,
  the routing and the mail threads.
\<close>

datatype filing_op =
    Op_file string string "string option"
  | Op_verdict string bool "string option"
  | Op_email_route report_row "routing_record option" string "string option"
  | Op_reopen string
  | Op_claim string int
  | Op_result result_payload
  | Op_sweep bool
  | Op_settings bool string
  | Op_retry string string
  | Op_cancel string string "string option"
  | Op_manual string string string "string option" "string option"
  | Op_email_start mail_env string
  | Op_email_finish mail_env bool string int "app_error option" email_step
  | Op_late_success string string
  | Op_message string "string option" "string option" bool
  | Op_city_update string "filing_classification option"
  | Op_others "report_row list" "(string, routing_record) js_map" "filing_route_record list" "string list"
  | Op_tick int

fun filing_exec :: "filing_env \<Rightarrow> filing_op \<Rightarrow> filing_app \<Rightarrow> filing_app" where
  "filing_exec E (Op_file r a n) w = snd (admin_file E r a n w)"
| "filing_exec E (Op_verdict r ok a) w = snd (onVerdict E r ok a w)"
| "filing_exec E (Op_email_route report routing t a) w = snd (recordEmailRoute E report routing t a w)"
| "filing_exec E (Op_reopen r) w = snd (insertReopenFilingIn (fe_uuid E) r w)"
| "filing_exec E (Op_claim i k) w = snd (claim (fe_uuid E) i k w)"
| "filing_exec E (Op_result p) w = snd (applyFilingResult E p w)"
| "filing_exec E (Op_sweep ignoreAge) w = snd (runSweepPass E ignoreAge w)"
| "filing_exec E (Op_settings paused a) w = snd (setSettings E paused a w)"
| "filing_exec E (Op_retry i a) w = snd (retry E i a w)"
| "filing_exec E (Op_cancel i a n) w = snd (admin_cancel E i a n w)"
| "filing_exec E (Op_manual i a c u n) w = snd (recordManual E i a c u n w)"
| "filing_exec E (Op_email_start M i) w = snd (email_start E M i w)"
| "filing_exec E (Op_email_finish M final i k sent step) w = snd (email_finish E M final i k sent step w)"
| "filing_exec E (Op_late_success i t) w = snd (lateSuccess E i t w)"
| "filing_exec E (Op_message i e m trusted) w = snd (insertMessageIfAbsent (fe_uuid E) i e m trusted w)"
| "filing_exec E (Op_city_update m c) w = snd (city_update E m c w)"
| "filing_exec E (Op_others rs ru ro bt) w = w\<lparr>w_reports := rs, w_routing := ru, w_routes := ro, w_bouncedThreads := bt\<rparr>"
| "filing_exec E (Op_tick d) w = tick d w"

definition filing_run :: "filing_env \<Rightarrow> filing_op list \<Rightarrow> filing_app \<Rightarrow> filing_app" where
  "filing_run E ops w = fold (filing_exec E) ops w"

text \<open>A world before the first filing.\<close>

definition no_filings :: "'w filing_world_scheme \<Rightarrow> bool" where
  "no_filings w \<longleftrightarrow> w_filings w = [] \<and> w_timeline w = []"

text \<open>The email tries of a run are on filings whose channel is not the portal's.\<close>

fun op_apart :: "filing_op \<Rightarrow> 'w filing_world_scheme \<Rightarrow> bool" where
  "op_apart (Op_email_start M i) w = email_row False i w"
| "op_apart (Op_email_finish M final i k sent step) w = email_row False i w"
| "op_apart _ w = True"

fun email_apart :: "filing_env \<Rightarrow> filing_op list \<Rightarrow> filing_app \<Rightarrow> bool" where
  "email_apart E [] w = True"
| "email_apart E (op # ops) w = (op_apart op w \<and> email_apart E ops (filing_exec E op w))"

lemma quiet_setPaused: "quiet (setPaused b a)"
proof -
  have "quiet (writes (\<lambda>w. w\<lparr>w_settings := h w\<rparr>))" for h by (simp add: quiet_def writes_run)
  then show ?thesis unfolding setPaused_def by (intro quiet_rules quiet_getters quiet_audit_if)
qed

lemma setSettings_moves:
  assumes "good E w"
  shows "moves E mixed w (snd (setSettings E paused a w))"
  unfolding setSettings_def
  by (intro moves_after_quiet [OF assms quiet_getters(5)] moves_if moves_quiet [OF quiet_prims(1)]
      moves_after_quiet [OF _ quiet_setPaused] moves_seq_quiet sweep_moves quiet_prims; simp)

lemma exec_moves:
  assumes "good E w" "mixed \<or> op_apart op w"
  shows "moves E mixed w (filing_exec E op w)"
proof (cases op)
  case (Op_message i e m trusted)
  have "quiet (insertMessageIfAbsent U i e m trusted)" for U
    unfolding insertMessageIfAbsent_def Let_def
    by (auto intro!: quiet_rules quiet_reports split: prod.split)
  then show ?thesis unfolding Op_message filing_exec.simps by (intro moves_quiet)
next
  case (Op_email_start M i)
  with assms email_start_moves show ?thesis by (simp add: email_row_def)
next
  case (Op_email_finish M final i k sent step)
  with assms email_finish_moves show ?thesis by (simp add: email_row_def)
next
  case (Op_others rs ru ro bt)
  then show ?thesis by (simp add: moves_def view_def)
next
  case (Op_tick d)
  then show ?thesis by (simp add: moves_def view_def tick_def)
qed (use assms(1) in \<open>simp_all add: SafeD [OF Safe_admin_file] SafeD [OF Safe_onVerdict] SafeD [OF Safe_recordEmailRoute]
       SafeD [OF Safe_reopen] claim_moves applyFilingResult_moves sweep_moves setSettings_moves retry_moves
       SafeD [OF Safe_admin_cancel] recordManual_moves succeed_moves SafeD [OF Safe_city_update]\<close>)

lemma run_moves:
  "good E w \<Longrightarrow> mixed \<or> email_apart E ops w \<Longrightarrow> moves E mixed w (filing_run E ops w)"
proof (induction ops arbitrary: w)
  case (Cons op ops)
  then have step: "moves E mixed w (filing_exec E op w)" by (auto intro!: exec_moves)
  with Cons have "moves E mixed (filing_exec E op w) (filing_run E ops (filing_exec E op w))"
    by (intro Cons.IH good_moves [OF Cons.prems(1) step]) auto
  with step show ?case by (auto simp: filing_run_def intro: moves_trans)
qed (simp add: filing_run_def)

lemma start_good: "inj (fe_uuid E) \<Longrightarrow> no_filings w \<Longrightarrow> good E w"
  by (simp add: good_def view_def no_filings_def active_unique_def route_rows_def)

lemma run_good:
  assumes "inj (fe_uuid E)" "no_filings w"
  shows "good E (filing_run E ops w)"
  using good_moves [OF start_good [OF assms] run_moves [OF start_good [OF assms], of True]] by simp

subsection \<open>Results and the runs they belong to\<close>

lemma update_filing_Some:
  assumes "update_filing P g w = (Inr (Some y), w')"
  obtains f where "f \<in> set (w_filings w)" "P f" "w_filings w' = update_rows P g (w_filings w)"
proof (cases "find P (w_filings w)")
  case None
  with assms show ?thesis by (simp add: update_filing_none)
next
  case (Some f)
  with assms have "w_filings w' = update_rows P g (w_filings w)"
    by (auto simp: update_filing_def put_filings_def prog_simps split: if_splits)
  moreover from Some have "f \<in> set (w_filings w)" "P f" by (auto dest: find_SomeD)
  ultimately show ?thesis by (intro that)
qed

lemma update_ends:
  assumes "distinct (map f_id (w_filings w))" "update_filing P g w = (Inr (Some y), w')"
    and "\<And>f. P f \<Longrightarrow> f_id f = i \<and> f_status f = Running \<and> f_runId f = Some r"
    and "\<And>f. f_id (g f) = f_id f" "\<And>f. f_status (g f) \<noteq> Running"
  shows "(i, r) \<in> running (w_filings w) \<and> (i, r) \<notin> running (w_filings w')"
proof
  obtain f where f: "f \<in> set (w_filings w)" "P f" and fs: "w_filings w' = update_rows P g (w_filings w)"
    using assms(2) by (rule update_filing_Some)
  note at_f = assms(3) [OF f(2)]
  with f(1) show "(i, r) \<in> running (w_filings w)" unfolding running_def by blast
  show "(i, r) \<notin> running (w_filings w')"
  proof
    assume "(i, r) \<in> running (w_filings w')"
    then obtain x where x: "x \<in> set (w_filings w)" "f_id (if P x then g x else x) = i"
        "f_status (if P x then g x else x) = Running"
      by (auto simp: running_def fs update_rows_def)
    show False
    proof (cases "P x")
      case True
      with x(3) assms(5) show False by simp
    next
      case False
      with x(2) at_f have "f_id x = f_id f" by simp
      with ids_inj [OF assms(1) f(1) x(1)] f(2) False show False by simp
    qed
  qed
qed

text \<open>A program that ends a run whenever it answers as \<open>Q\<close> says.\<close>

definition ends :: "string \<Rightarrow> string \<Rightarrow> ('a \<Rightarrow> bool) \<Rightarrow> ('w filing_world_scheme, 'a) prog \<Rightarrow> bool" where
  "ends i r Q m \<longleftrightarrow> (\<forall>w x. distinct (map f_id (w_filings w)) \<longrightarrow> fst (m w) = Inr x \<longrightarrow> Q x
     \<longrightarrow> (i, r) \<in> running (w_filings w) \<and> (i, r) \<notin> running (w_filings (snd (m w))))"

lemma endsD:
  assumes "ends i r id m" "distinct (map f_id (w_filings w))" "fst (m w) = Inr True"
  shows "(i, r) \<in> running (w_filings w)" "(i, r) \<notin> running (w_filings (snd (m w)))"
  using assms unfolding ends_def id_apply by blast+

definition same_rows :: "('w filing_world_scheme, 'a) prog \<Rightarrow> bool" where
  "same_rows m \<longleftrightarrow> (\<forall>w. w_filings (snd (m w)) = w_filings w)"

lemma same_rows_seq: "same_rows m \<Longrightarrow> (\<And>x. same_rows (f x)) \<Longrightarrow> same_rows (seq m f)"
  by (auto simp: same_rows_def seq_run split: sum.split)

lemma same_rows_quiet: "quiet m \<Longrightarrow> same_rows m"
  by (simp add: same_rows_def quiet_def)

lemma same_rows_report: "same_rows (applyReportSuccess r n a)"
  using applyReportSuccess_run by (auto simp: same_rows_def)

lemma ends_never: "(\<And>w x. fst (m w) = Inr x \<Longrightarrow> \<not> Q x) \<Longrightarrow> ends i r Q m"
  by (auto simp: ends_def)

lemma ends_reads: "(\<And>x. ends i r Q (f x)) \<Longrightarrow> ends i r Q (seq (reads h) f)"
  by (simp add: ends_def prog_simps)

lemma ends_seq:
  assumes "ends i r Q m" "\<And>x. same_rows (h x)" "\<And>x w y. fst (h x w) = Inr y \<Longrightarrow> R y \<Longrightarrow> Q x"
  shows "ends i r R (seq m h)"
  unfolding ends_def
proof (intro allI impI)
  fix w y
  assume d: "distinct (map f_id (w_filings w))" and y: "fst (seq m h w) = Inr y" "R y"
  then obtain x where x: "fst (m w) = Inr x" "fst (h x (snd (m w))) = Inr y" by (auto simp: seq_run split: sum.splits)
  with assms(3) y(2) have "Q x" by blast
  with assms(1) d x(1) have "(i, r) \<in> running (w_filings w) \<and> (i, r) \<notin> running (w_filings (snd (m w)))"
    by (simp add: ends_def)
  with assms(2) [of x] x(1) show "(i, r) \<in> running (w_filings w) \<and> (i, r) \<notin> running (w_filings (snd (seq m h w)))"
    by (simp add: seq_run same_rows_def)
qed

lemma ends_update:
  assumes "\<And>f. P f \<Longrightarrow> f_id f = i \<and> f_status f = Running \<and> f_runId f = Some r"
    and "\<And>f. f_id (g f) = f_id f" "\<And>f. f_status (g f) \<noteq> Running"
  shows "ends i r (\<lambda>x. x \<noteq> None) (update_filing P g)"
  using update_ends [where P = P and g = g, OF _ _ assms] unfolding ends_def by (metis option.exhaust prod.collapse)

lemma setList_status:
  assumes "\<forall>a \<in> set xs. \<forall>s. a \<noteq> Set_status s"
  shows "f_status (setList now (Set_status s # xs) f) = s"
proof -
  have "f_status (fold assign xs f) = f_status f" for f
    using assms
  proof (induction xs arbitrary: f)
    case (Cons x xs)
    then show ?case by (cases x) auto
  qed simp
  then show ?thesis by (simp add: setList_def)
qed

lemma ends_guarded:
  assumes "\<forall>a \<in> set xs. \<forall>s. a \<noteq> Set_status s" "s \<noteq> Running"
  shows "ends (f_id filing) (fp_runId p) (\<lambda>x. x \<noteq> None) (guarded E filing p (Set_status s # xs))"
proof -
  have "f_status (setList now ((Set_status s # xs) @ [Set_dryRun d]
      @ (case v of None \<Rightarrow> [] | Some v \<Rightarrow> [Set_scriptVersion (Some v)])) f) = s" for now d v f
    using assms(1) setList_status [of "xs @ Set_dryRun d # (case v of None \<Rightarrow> [] | Some v \<Rightarrow> [Set_scriptVersion (Some v)])" now s f]
    by (auto split: option.split)
  with assms(2) show ?thesis
    unfolding guarded_def transition_def
    by (intro ends_reads ends_seq [OF ends_update])
      (auto simp: transition_guard_def prog_simps split: option.splits
        intro!: same_rows_quiet quiet_rules quiet_insertEvidence quiet_audit_if)
qed

lemma ends_needsHuman:
  assumes "\<forall>a \<in> set xs. \<forall>s. a \<noteq> Set_status s"
  shows "ends (f_id filing) (fp_runId p) id (needsHuman E filing p reason xs)"
  unfolding needsHuman_def append_Cons append_Nil
  by (rule ends_seq [OF ends_guarded]) (use assms in \<open>auto simp: prog_simps isSome_def intro!: same_rows_quiet quiet_rules\<close>)

lemma ends_requeue:
  assumes "\<forall>a \<in> set xs. \<forall>s. a \<noteq> Set_status s"
  shows "ends (f_id filing) (fp_runId p) id (requeue E filing p xs)"
  unfolding requeue_def
  by (rule ends_seq [OF ends_guarded])
    (use assms in \<open>auto simp: prog_simps split: option.splits intro!: same_rows_quiet quiet_rules quiet_enqueueFiling\<close>)

lemma detail_no_status: "Set_status s \<notin> set (detail p)"
  using detail_shape [of p] by auto

lemma ends_failed: "ends (f_id filing) (fp_runId p) id (failed E filing p)"
  unfolding failed_def Let_def
  by (intro ends_reads) (auto intro!: ends_needsHuman ends_requeue simp: detail_no_status split: option.split)

lemma ends_success_row:
  assumes "rs_outcome input = Submitted \<or> rs_outcome input = Linked_existing" "sg_status g = [Running]" "sg_runId g = Some r"
    "rs_target input = Existing i g"
  shows "ends i r (\<lambda>x. x \<noteq> None) (recordSuccess U input)"
proof -
  have "f_status (setList now (success_set input) f) = rs_outcome input" for now f
    unfolding success_set_def append_Cons append_Nil given_def
    by (rule setList_status) (auto split: option.split)
  with assms have row: "ends i r (\<lambda>x. x \<noteq> None) (success_row U input)"
    unfolding success_row_def updateToSuccess_def assms(4) success_target.case
    by (intro ends_reads ends_update) (auto simp: success_guarded_def)
  have tail: "same_rows (success_tail U input f)" for f :: filing_record
    unfolding success_tail_def
    by (intro same_rows_seq same_rows_report; intro same_rows_quiet quiet_rules quiet_insertEvidence quiet_audit_if)
  show ?thesis unfolding recordSuccess_eq
    by (rule ends_seq [OF row]) (auto simp: prog_simps tail split: option.splits intro: same_rows_quiet quiet_rules)
qed

lemma ends_applySuccess:
  assumes "as_outcome input = Submitted \<or> as_outcome input = Linked_existing" "sg_status g = [Running]" "sg_runId g = Some r"
  shows "ends i r id (applyFilingSuccess E i g input)"
proof -
  have "ends i r id (seq (recordSuccess U inp) (\<lambda>result. case result of None \<Rightarrow> ret False
      | Some x \<Rightarrow> seq (afterSuccess E x n) (\<lambda>_. ret True)))"
    if "rs_outcome inp = as_outcome input" "rs_target inp = Existing i g" for U inp n
    using that assms
    by (intro ends_seq [OF ends_success_row [where g = g]])
      (auto simp: prog_simps split: option.splits intro!: same_rows_quiet quiet_rules quiet_afterSuccess)
  note rest = this
  show ?thesis unfolding applyFilingSuccess_def getById_def oneFiling_def Let_def
    by (intro ends_reads) (auto split: option.split intro!: rest ends_never [of "ret False"] simp: ret_run)
qed

lemma ends_outcome: "ends (f_id filing) (fp_runId p) id (apply_outcome E filing p (fp_outcome p))"
proof -
  have "ends (f_id filing) (fp_runId p) id (success E filing p)"
    unfolding success_def Let_def
    by (auto intro!: ends_needsHuman ends_applySuccess simp: detail_no_status)
  moreover have "ends (f_id filing) (fp_runId p) id (seq (guarded E filing p [Set_status Cancelled]) (\<lambda>r. ret (isSome r)))"
    by (rule ends_seq [OF ends_guarded]) (auto simp: prog_simps isSome_def intro!: same_rows_quiet quiet_rules)
  ultimately show ?thesis
    by (cases "fp_outcome p") (auto intro!: ends_failed ends_needsHuman simp: detail_no_status)
qed


lemma getById_id: "fst (getById i w) = Inr (Some f) \<Longrightarrow> f_id f = i"
  by (auto simp: getById_run dest: find_SomeD)

lemma ends_result: "ends (fp_filingId p) (fp_runId p) id (applyFilingResult E p)"
  unfolding ends_def
proof (intro allI impI)
  fix w and x
  assume d: "distinct (map f_id (w_filings w))" and x: "fst (applyFilingResult E p w) = Inr x" "id x"
  then obtain f where f: "find (\<lambda>f. f_id f = fp_filingId p) (w_filings w) = Some f" and "payload_ok p"
    by (auto simp: applyFilingResult_def parsePayload_def prog_simps getById_run split: if_splits option.splits)
  then have eq: "applyFilingResult E p w = apply_outcome E (toFiling w f) p (fp_outcome p) w"
    by (simp add: applyFilingResult_def parsePayload_def prog_simps getById_run)
  have "f_id (toFiling w f) = fp_filingId p" using f by (auto dest: find_SomeD)
  with endsD [OF ends_outcome [of "toFiling w f" p E] d] x show "(fp_filingId p, fp_runId p) \<in> running (w_filings w)
      \<and> (fp_filingId p, fp_runId p) \<notin> running (w_filings (snd (applyFilingResult E p w)))"
    unfolding eq by simp
qed

subsection \<open>Results of other runs\<close>

lemma guarded_stale:
  assumes "(f_id filing, fp_runId p) \<notin> running (w_filings w)"
  shows "guarded E filing p xs w = (Inr None, w)"
proof -
  have "find (transition_guard (f_id filing) \<lparr>ti_from = [Running], ti_attempts = Some (fp_attempt p), ti_runId = Some (fp_runId p),
      ti_set = ys, ti_audit = None, ti_evidence = fp_evidence p\<rparr>) (w_filings w) = None" for ys
    using assms by (auto simp: find_None_iff transition_guard_def running_def)
  then show ?thesis unfolding guarded_def transition_def by (simp add: prog_simps update_filing_none)
qed

lemma applySuccess_stale:
  assumes "(i, r) \<notin> running (w_filings w)" "sg_status g = [Running]" "sg_runId g = Some r"
  shows "applyFilingSuccess E i g input w = (Inr False, w)"
proof -
  have "find (success_guarded i g) (w_filings w) = None"
    using assms by (auto simp: find_None_iff success_guarded_def running_def)
  then have "recordSuccess U inp w = (Inr None, w)" if "rs_target inp = Existing i g" for U inp
    using that by (simp add: recordSuccess_def success_row_def updateToSuccess_def prog_simps update_filing_none)
  then show ?thesis by (simp add: applyFilingSuccess_def getById_run prog_simps Let_def split: option.split)
qed

lemma result_stale:
  assumes "payload_ok p" "(fp_filingId p, fp_runId p) \<notin> running (w_filings w)"
  shows "applyFilingResult E p w = (Inr False, w)"
proof -
  have "apply_outcome E f p (fp_outcome p) w = (Inr False, w)" if "f_id f = fp_filingId p" for f
  proof -
    note stale = guarded_stale [of f p w E, unfolded that, OF assms(2)]
    have "needsHuman E f p reason xs w = (Inr False, w)" "requeue E f p xs w = (Inr False, w)" for reason xs
      using stale by (simp_all add: needsHuman_def requeue_def prog_simps isSome_def)
    then show ?thesis
      using stale applySuccess_stale [OF assms(2)] that
      by (cases "fp_outcome p") (auto simp: success_def failed_def Let_def prog_simps isSome_def split: option.split)
  qed
  with assms(1) show ?thesis
    by (auto simp: applyFilingResult_def parsePayload_def prog_simps getById_run split: option.split dest!: find_SomeD)
qed


text \<open>The runs whose result was applied, in order.\<close>

fun applied_runs :: "filing_env \<Rightarrow> filing_op list \<Rightarrow> filing_app \<Rightarrow> (string \<times> string) list" where
  "applied_runs E [] w = []"
| "applied_runs E (op # ops) w =
     (case op of
        Op_result p \<Rightarrow> if fst (applyFilingResult E p w) = Inr True then [(fp_filingId p, fp_runId p)] else []
      | _ \<Rightarrow> []) @ applied_runs E ops (filing_exec E op w)"

definition drawn_runs :: "filing_env \<Rightarrow> nat \<Rightarrow> (string \<times> string) set" where
  "drawn_runs E n = fresh_runs E 0 n"

lemma drawn_fresh: "inj (fe_uuid E) \<Longrightarrow> drawn_runs E n \<inter> fresh_runs E n n' = {}"
  by (auto simp: drawn_runs_def fresh_runs_def dest: injD)

lemma drawn_grow: "n \<le> n' \<Longrightarrow> drawn_runs E n \<union> fresh_runs E n n' \<subseteq> drawn_runs E n'"
  by (auto simp: drawn_runs_def fresh_runs_def intro: less_le_trans)

lemma exec_runs:
  assumes "good E w"
  shows "w_drawn w \<le> w_drawn (filing_exec E op w)"
    "running (w_filings (filing_exec E op w)) \<subseteq> running (w_filings w) \<union> fresh_runs E (w_drawn w) (w_drawn (filing_exec E op w))"
  using run_rel_steps [of E True "view w" "view (filing_exec E op w)"] exec_moves [OF assms, of True op]
  by (simp_all add: moves_def view_def)

text \<open>A result that was applied belongs to a run that is over, and no run is given its identifier again.\<close>

lemma applied_distinct:
  assumes "good E w" "running (w_filings w) \<subseteq> drawn_runs E (w_drawn w)"
    and "used \<subseteq> drawn_runs E (w_drawn w)" "used \<inter> running (w_filings w) = {}"
  shows "distinct (applied_runs E ops w) \<and> set (applied_runs E ops w) \<inter> used = {}"
  using assms
proof (induction ops arbitrary: w used)
  case (Cons op ops)
  let ?w = "filing_exec E op w"
  let ?now = "case op of Op_result p \<Rightarrow> if fst (applyFilingResult E p w) = Inr True then [(fp_filingId p, fp_runId p)] else [] | _ \<Rightarrow> []"
  have good: "good E ?w" using good_moves [OF Cons.prems(1) exec_moves [OF Cons.prems(1), of True]] by simp
  note grow = exec_runs [OF Cons.prems(1), of op]
  have inj: "inj (fe_uuid E)" using Cons.prems(1) by (simp add: good_def)
  have now: "distinct ?now" "set ?now \<subseteq> running (w_filings w)" "set ?now \<inter> running (w_filings ?w) = {}"
    using endsD [OF ends_result good_ids [OF Cons.prems(1)]] by (auto split: filing_op.splits)
  have next_ids: "running (w_filings ?w) \<subseteq> drawn_runs E (w_drawn ?w)" "used \<union> set ?now \<subseteq> drawn_runs E (w_drawn ?w)"
    using grow drawn_grow [OF grow(1), of E] Cons.prems(2,3) now(2) by blast+
  have "(used \<union> set ?now) \<inter> running (w_filings ?w) = {}"
    using grow(2) drawn_fresh [OF inj, of "w_drawn w" "w_drawn ?w"] Cons.prems(3,4) now(3) by blast
  from Cons.IH [OF good next_ids this] now(1,2) Cons.prems(4) show ?case
    by (simp only: applied_runs.simps distinct_append set_append) blast
qed simp

subsection \<open>A concrete run\<close>

text \<open>A city with a portal, one report, and a run in which its filing is made, tried, and its result delivered twice.\<close>

definition example_env :: filing_env where
  "example_env = \<lparr>fe_uuid = (\<lambda>n. replicate n (CHR ''u'')), fe_automatic = True, fe_webBaseUrl = ''https://civfix.test'',
     fe_url = (\<lambda>s. Some (''https:'', ''portal.test'')), fe_caseIdOk = (\<lambda>c. c \<noteq> []),
     fe_public = (\<lambda>s. s \<noteq> RRejected), fe_notifies = (\<lambda>u. True), fe_issues = []\<rparr>"

definition example_world :: filing_app where
  "example_world = \<lparr>clock = 0, w_filings = [],
     w_reports = [\<lparr>r_id = ''r'', r_category = ''pothole'', r_status = RPublished, r_public = True, r_title = ''Hole'',
       r_desc = ''Deep'', r_referenceCode = None, r_reporterId = Some ''ann'', r_verdict = Some True, r_deletedAt = None\<rparr>],
     w_jurisdictions = [(''g'', ''Springfield'')],
     w_routing = [(''r'', \<lparr>ru_geoid = Some ''g'', ru_place = ''Springfield'', ru_contact = Some ''311@city.test''\<rparr>)],
     w_timeline = [], w_evidence = [], w_audit = [],
     w_routes = [\<lparr>ro_geoid = ''g'', ro_category = None, ro_channel = Portal, ro_formUrl = Some ''https://portal.test/new'',
       ro_requestTypeHint = None, ro_includeLink = True, ro_statusSenderDomains = [], ro_enabled = True, ro_updatedAt = 0,
       ro_updatedBy = None\<rparr>],
     w_settings = Some \<lparr>fs_paused = False, fs_updatedAt = 0, fs_updatedBy = None\<rparr>, w_messages = [], w_bouncedThreads = [], w_drawn = 0, w_jobs = [], w_chat = [], w_notices = []\<rparr>"

definition example_result :: result_payload where
  "example_result = \<lparr>fp_filingId = '''', fp_runId = ''u'', fp_attempt = 1, fp_outcome = O_submitted, fp_reason = None,
     fp_reasonDetail = None, fp_caseId = Some ''SR-1'', fp_caseUrl = Some ''https://portal.test/SR-1'',
     fp_scriptVersion = None, fp_dryRun = False, fp_evidence = []\<rparr>"

definition example_ops :: "filing_op list" where
  "example_ops = [Op_file ''r'' ''op'' None, Op_claim '''' 1, Op_result example_result, Op_result example_result]"



definition example_mail :: mail_env where
  "example_mail = \<lparr>me_outreach = \<lparr>or_bounced = False, or_threadId = None, or_routedTo = None, or_packetSent = False,
       or_sendFailed = False, or_sendInFlight = False\<rparr>, me_unsent = (\<lambda>t. None),
     me_prepare = Inr ''thread'', me_content = None, me_isDeadline = (\<lambda>e. False), me_message = (\<lambda>e. [])\<rparr>"

lemma example_inj: "inj (fe_uuid example_env)"
  by (auto simp: example_env_def inj_def dest: arg_cong [where f = length])

lemma example_empty: "no_filings example_world"
  by (simp add: no_filings_def example_world_def)

text \<open>
  The email job looks at the status of its filing and not at its channel: a queued portal filing is claimed, a packet
  is prepared for it, and its portal run then finds it taken.
\<close>

lemma email_job_takes_portal_filing:
  "let w = filing_run example_env [Op_file ''r'' ''op'' None] example_world; (r, w') = email_start example_env example_mail '''' w
   in r = Inr (Some (Step_send ''thread'', 1))
     \<and> map (\<lambda>f. (f_channel f, f_status f)) (w_filings w') = [(Some Portal, Running)]
     \<and> fst (claim (fe_uuid example_env) '''' 1 w') = Inr None"
  by code_simp

subsection \<open>The properties\<close>

text \<open>
  C1: The public timeline tells of a filing once: whatever operators, the filer, email tries, the sweep and the
  city's messages do, a report has at most as many public \<open>route\<close> lines as filings of it that succeeded; no report
  has two open filings; and a filing with a recorded success is filed, cancelled, or waits for an answer to
  the city.
\<close>

theorem filing_announced_once:
  assumes "inj (fe_uuid E)" "no_filings w"
  shows "length (route_rows r (w_timeline (filing_run E ops w)))
      \<le> length (filter (\<lambda>f. f_reportId f = r \<and> f_submittedAt f \<noteq> None) (w_filings (filing_run E ops w)))
    \<and> active_unique (w_filings (filing_run E ops w))
    \<and> (\<forall>f \<in> set (w_filings (filing_run E ops w)). f_submittedAt f \<noteq> None \<longleftrightarrow>
        f_status f \<in> {Submitted, Linked_existing} \<or> (f_status f = Needs_human \<and> f_reason f = Some City_needs_info)
        \<or> (f_status f = Cancelled \<and> f_submittedAt f \<noteq> None))"
proof -
  note g = run_good [OF assms, of ops]
  have "f_submittedAt f \<noteq> None \<longleftrightarrow>
      f_status f \<in> {Submitted, Linked_existing} \<or> (f_status f = Needs_human \<and> f_reason f = Some City_needs_info)
      \<or> (f_status f = Cancelled \<and> f_submittedAt f \<noteq> None)" if "f \<in> set (w_filings (filing_run E ops w))" for f
    using good_row [OF g that] unfolding row_ok_def not_city_def successful_def SUCCESSFUL_FILING_STATUSES_def
    by (metis insertCI insertE empty_iff list.set(1) list.set(2))
  with g show ?thesis unfolding good_def view_def by simp
qed


theorem filing_announced_once_witness:
  "length (route_rows ''r'' (w_timeline (filing_run example_env example_ops example_world))) = 1
   \<and> active_unique (w_filings (filing_run example_env example_ops example_world))"
proof -
  have "length (route_rows ''r'' (w_timeline (filing_run example_env example_ops example_world))) = 1" by code_simp
  then show ?thesis using filing_announced_once [OF example_inj example_empty, where ops = example_ops] by blast
qed

text \<open>
  C4: The result of a filer's run is applied at most once, however often it is delivered and whatever comes in
  between; the result of a run that is not the one in progress is not applied and changes nothing.
\<close>

theorem run_result_applied_once:
  assumes "inj (fe_uuid E)" "no_filings w"
  shows "distinct (applied_runs E ops w)
    \<and> (payload_ok p \<and> (fp_filingId p, fp_runId p) \<notin> running (w_filings (filing_run E ops w))
       \<longrightarrow> applyFilingResult E p (filing_run E ops w) = (Inr False, filing_run E ops w))"
proof -
  have "running (w_filings w) = {}" using assms(2) by (simp add: running_def no_filings_def)
  then have "distinct (applied_runs E ops w)" using applied_distinct [OF start_good [OF assms], of "{}" ops] by simp
  with result_stale show ?thesis by blast
qed

theorem run_result_applied_once_witness:
  "applied_runs example_env example_ops example_world = [('''', ''u'')] \<and> distinct (applied_runs example_env example_ops example_world)
   \<and> applyFilingResult example_env example_result (filing_run example_env example_ops example_world)
     = (Inr False, filing_run example_env example_ops example_world)"
proof -
  have "map f_status (w_filings (filing_run example_env example_ops example_world)) = [Submitted]" by code_simp
  then have "(fp_filingId example_result, fp_runId example_result) \<notin> running (w_filings (filing_run example_env example_ops example_world))"
    by (auto simp: running_def map_eq_Cons_conv)
  moreover have "payload_ok example_result" by code_simp
  moreover have "applied_runs example_env example_ops example_world = [('''', ''u'')]" by code_simp
  ultimately show ?thesis
    using run_result_applied_once [OF example_inj example_empty, where ops = example_ops and p = example_result] by blast
qed



text \<open>
  A link to a city request that a run reported is shown only when it is an https link to the host of the portal
  the filing went to.
\<close>

theorem portal_links_stay_on_host:
  assumes "inj (fe_uuid E)" "no_filings w"
    and "f \<in> set (w_filings (filing_run E ops w))" "f_method f = Some By_script" "f_caseUrl f = Some u"
  shows "\<exists>h. fe_url E u = Some (''https:'', h) \<and> f_portalHost f = Some h"
  using good_row [OF run_good [OF assms(1,2)] assms(3)] assms(4,5)
  by (auto simp: row_ok_def portal_link_def split: option.splits)

theorem portal_links_stay_on_host_witness:
  "\<exists>f h. f \<in> set (w_filings (filing_run example_env example_ops example_world)) \<and> f_caseUrl f = Some ''https://portal.test/SR-1''
     \<and> fe_url example_env ''https://portal.test/SR-1'' = Some (''https:'', h) \<and> f_portalHost f = Some h"
proof -
  have "list_ex (\<lambda>f. f_method f = Some By_script \<and> f_caseUrl f = Some ''https://portal.test/SR-1'')
      (w_filings (filing_run example_env example_ops example_world))" by code_simp
  then show ?thesis
    using portal_links_stay_on_host [OF example_inj example_empty, where ops = example_ops] by (auto simp: list_ex_iff)
qed

end
