(* ===== verification/Registration_Repository.thy ===== *)
theory Registration_Repository
  imports Answer_Validation "HOL-Library.List_Lexorder" "HOL-Library.Char_ord" "HOL-Library.Product_Lexorder" "HOL-Library.Option_ord"
begin

section \<open>Event registrations (\<open>services/host/registration-repository-*.drizzle.ts\<close>)\<close>

text \<open>
  Ticket types, registrations, seats and the waitlist of an event: the statements of the registration repository
  as operations on lists of rows.  A transaction is one step, and it rolls back where the source throws.  Party
  sizes and seats are natural numbers, so \<open>GREATEST(a - b, 0)\<close> is their subtraction.  A subject's two columns,
  of which a row has exactly one, are one field.  Parameters: fresh identifiers, the identifier hashed from an
  idempotency key, the contract package's end of an event, and which notifications and jobs are accepted.
\<close>

datatype registration_subject = By_user string | By_guest string
datatype registration_status = Registered | Cancelled_registration | Transferred_registration
datatype registration_source = Self | From_waitlist | Walkup | Transfer
datatype seat_status = Seat_active | Seat_cancelled
datatype waitlist_status = Waiting | Offered | Claimed | Expired | Withdrawn
datatype ticket_visibility = Public_type | Hidden_type | Access_code_type
datatype event_visibility = Public_event | Unlisted_event | Private_event

record event_row =
  gv_id :: string
  gv_cancelled :: bool
  gv_visibility :: event_visibility
  gv_opensAt :: "int option"
  gv_closesAt :: "int option"
  gv_capacity :: "nat option"
  gv_scheduledAt :: int
  gv_endsAt :: "int option"

record ticket_type_row =
  ty_id :: string
  ty_event :: string
  ty_name :: string
  ty_description :: "string option"
  ty_capacity :: "nat option"
  ty_reserved :: nat
  ty_salesOpensAt :: "int option"
  ty_salesClosesAt :: "int option"
  ty_visibility :: ticket_visibility
  ty_accessCodeHash :: "string option"
  ty_maxPartySize :: nat
  ty_sortOrder :: int
  ty_waitlistEnabled :: bool
  ty_updatedAt :: int

record registration_row =
  rg_id :: string
  rg_event :: string
  rg_type :: "string option"
  rg_subject :: registration_subject
  rg_party :: nat
  rg_status :: registration_status
  rg_source :: registration_source
  rg_hostNote :: "string option"
  rg_registeredAt :: int
  rg_cancelledAt :: "int option"
  rg_cancelledBy :: "string option"

record seat_row =
  se_id :: string
  se_event :: string
  se_registration :: string
  se_index :: nat
  se_attendeeName :: "string option"
  se_tokenHash :: string
  se_status :: seat_status
  se_checkedInAt :: "int option"
  se_checkedInBy :: "string option"
  se_method :: "string option"
  se_coarsenedAt :: "int option"
  se_noShowAt :: "int option"
  se_createdAt :: int

record waitlist_row =
  wl_id :: string
  wl_event :: string
  wl_type :: string
  wl_subject :: registration_subject
  wl_party :: nat
  wl_status :: waitlist_status
  wl_createdAt :: int
  wl_offeredAt :: "int option"
  wl_claimExpiresAt :: "int option"
  wl_promoted :: "string option"

record guest_row =
  gu_id :: string
  gu_event :: string
  gu_name :: string
  gu_tokenHash :: string
  gu_cancelledAt :: "int option"

record slot_row =
  sl_id :: string
  sl_event :: string
  sl_capacity :: "nat option"

record slot_claim =
  sc_event :: string
  sc_user :: string
  sc_slot :: string

record consent_write =
  cw_termsVersion :: string
  cw_disclosureVersion :: string
  cw_hostContactOptIn :: bool
  cw_smsOptIn :: "bool option"
  cw_surface :: "string option"
  cw_documents :: "(string \<times> string) list"

record seat_draft =
  sd_id :: string
  sd_attendeeName :: "string option"
  sd_tokenHash :: string

record register_args =
  ra_event :: string
  ra_subject :: registration_subject
  ra_type :: "string option"
  ra_seats :: "seat_draft list"
  ra_accessCodeHash :: "string option"
  ra_answers :: "answer_write list"
  ra_consent :: "consent_write option"
  ra_slot :: "string option"
  ra_source :: registration_source
  ra_key :: string
  ra_owner :: "string option"
  ra_waitlist :: "string option"
  ra_now :: int

record reg_world = clock_world +
  g_events :: "event_row list"
  g_types :: "ticket_type_row list"
  g_regs :: "registration_row list"
  g_seats :: "seat_row list"
  g_waitlist :: "waitlist_row list"
  g_bans :: "(string \<times> string) list"             \<comment> \<open>event, user\<close>
  g_members :: "(string \<times> string \<times> string) list"  \<comment> \<open>event, user, role\<close>
  g_guests :: "guest_row list"
  g_slots :: "slot_row list"
  g_claims :: "slot_claim list"
  g_keys :: "(string \<times> string \<times> string) list"     \<comment> \<open>key, owner, registration\<close>
  g_answers :: "(string \<times> answer_write) list"
  g_consents :: "(string \<times> consent_write) list"
  g_accepted :: "(string \<times> string \<times> string) list"
  g_jobs :: "string list"                        \<comment> \<open>\<open>waitlist.promote\<close>, by ticket type\<close>
  g_notices :: "registration_subject list"
  g_audits :: "(string \<times> string) list"          \<comment> \<open>action, target\<close>
  g_changed :: "string list"
  g_drawn :: nat

record reg_env =
  re_uuid :: "nat \<Rightarrow> string"
  re_keyOf :: "string list \<Rightarrow> string"
  re_ended :: "bool \<Rightarrow> int \<Rightarrow> int option \<Rightarrow> int \<Rightarrow> bool"
  re_duration :: int
  re_notifies :: "registration_subject \<Rightarrow> bool"
  re_enqueues :: "string \<Rightarrow> bool"

type_synonym 'a reg_prog = "(reg_world, 'a) prog"

text \<open>
  \<open>sql.begin\<close>: a rejected body leaves nothing behind.  A refusal found after the first write is thrown, so it
  leaves nothing behind either, and the caller turns it into its outcome (\<open>RegistrationRefusal\<close>, \<open>ClaimRefusal\<close>).
\<close>

datatype 'a tx_result = Done 'a | Thrown 'a

definition transact :: "'a tx_result reg_prog \<Rightarrow> 'a reg_prog" where
  "transact m = (\<lambda>w. case m w of
     (Inl e, _) \<Rightarrow> (Inl e, w) | (Inr (Done x), w') \<Rightarrow> (Inr x, w') | (Inr (Thrown x), _) \<Rightarrow> (Inr x, w))"

text \<open>
  \<open>UPDATE ... FROM source WHERE match\<close>: a row is updated once; where several source rows match it, one of them is
  used, here the first.
\<close>

definition update_from :: "('s \<Rightarrow> 't \<Rightarrow> bool) \<Rightarrow> ('s \<Rightarrow> 't \<Rightarrow> 't) \<Rightarrow> 's list \<Rightarrow> 't list \<Rightarrow> 't list" where
  "update_from match f src ts = map (\<lambda>t. case find (\<lambda>s. match s t) src of None \<Rightarrow> t | Some s \<Rightarrow> f s t) ts"

definition draw :: "reg_env \<Rightarrow> string reg_prog" where
  "draw E = seq (reads g_drawn) (\<lambda>n. seq (writes (\<lambda>w. w\<lparr>g_drawn := Suc n\<rparr>)) (\<lambda>_. ret (re_uuid E n)))"

definition add_seats :: "nat \<Rightarrow> int \<Rightarrow> ticket_type_row \<Rightarrow> ticket_type_row" where
  "add_seats n now t = t\<lparr>ty_reserved := ty_reserved t + n, ty_updatedAt := now\<rparr>"

definition release_seats :: "nat \<Rightarrow> int \<Rightarrow> ticket_type_row \<Rightarrow> ticket_type_row" where
  "release_seats n now t = t\<lparr>ty_reserved := ty_reserved t - n, ty_updatedAt := now\<rparr>"

definition has_room :: "nat \<Rightarrow> ticket_type_row \<Rightarrow> bool" where
  "has_room n t = (case ty_capacity t of None \<Rightarrow> True | Some c \<Rightarrow> ty_reserved t + n \<le> c)"

subsection \<open>Registering (\<open>registration-repository-register.drizzle.ts\<close>)\<close>

definition REGISTER_IDEMPOTENCY_SCOPE :: string where "REGISTER_IDEMPOTENCY_SCOPE = ''event.register''"
definition SLOT_NOT_FOUND_MESSAGE :: string where "SLOT_NOT_FOUND_MESSAGE = ''That slot no longer exists.''"
definition SLOT_FULL_MESSAGE :: string where "SLOT_FULL_MESSAGE = ''That slot is already full.''"

type_synonym registration_record = "registration_row \<times> seat_row list"

datatype register_refusal =
    Event_not_found | Event_closed | Registration_closed | Banned | Already_registered | Type_not_found
  | Code_required | Code_invalid | Party_too_large | Sales_closed | Full

datatype register_outcome =
    Registered_as registration_record | Replayed "registration_record option" | Refused register_refusal

definition loadRegistrationById :: "string \<Rightarrow> string \<Rightarrow> registration_record option reg_prog" where
  "loadRegistrationById event i = reads (\<lambda>w. map_option
     (\<lambda>r. (r, sort_key se_index (filter (\<lambda>s. se_registration s = rg_id r) (g_seats w))))
     (find (\<lambda>r. rg_id r = i \<and> rg_event r = event) (g_regs w)))"

fun subjectOwner :: "registration_subject \<Rightarrow> string" where
  "subjectOwner (By_user u) = ''user:'' @ u"
| "subjectOwner (By_guest g) = ''guest:'' @ g"

fun is_guest :: "registration_subject \<Rightarrow> bool" where
  "is_guest (By_user u) = False"
| "is_guest (By_guest g) = True"

definition isEventPubliclyVisible :: "event_visibility \<Rightarrow> bool" where
  "isEventPubliclyVisible v \<longleftrightarrow> v = Public_event \<or> v = Unlisted_event"

definition guestSelfRegistrationOnPrivateEvent :: "register_args \<Rightarrow> event_visibility \<Rightarrow> bool" where
  "guestSelfRegistrationOnPrivateEvent a v \<longleftrightarrow>
     is_guest (ra_subject a) \<and> ra_source a = Self \<and> \<not> isEventPubliclyVisible v"

definition withinSalesWindow :: "int \<Rightarrow> int option \<Rightarrow> int option \<Rightarrow> bool" where
  "withinSalesWindow now opensAt closesAt \<longleftrightarrow>
     (case opensAt of None \<Rightarrow> True | Some t \<Rightarrow> \<not> now < t) \<and> (case closesAt of None \<Rightarrow> True | Some t \<Rightarrow> \<not> now \<ge> t)"

definition claimSlotIn :: "string \<Rightarrow> string \<Rightarrow> string \<Rightarrow> unit reg_prog" where
  "claimSlotIn event user slotId =
     seq (reads (\<lambda>w. find (\<lambda>s. sl_id s = slotId \<and> sl_event s = event) (g_slots w))) (\<lambda>slot.
     case slot of
       None \<Rightarrow> raise (NotFound (Some SLOT_NOT_FOUND_MESSAGE))
     | Some s \<Rightarrow>
         seq (reads (\<lambda>w. (find (\<lambda>c. sc_event c = event \<and> sc_user c = user) (g_claims w),
                length (filter (\<lambda>c. sc_slot c = slotId) (g_claims w))))) (\<lambda>(mine, n).
         if map_option sc_slot mine = Some slotId then ret ()
         else seq (guard (case sl_capacity s of None \<Rightarrow> True | Some c \<Rightarrow> \<not> n \<ge> c) (ConflictErr (Some SLOT_FULL_MESSAGE))) (\<lambda>_.
              writes (\<lambda>w. w\<lparr>g_claims :=
                if mine = None then g_claims w @ [\<lparr>sc_event = event, sc_user = user, sc_slot = slotId\<rparr>]
                else update_rows (\<lambda>c. sc_event c = event \<and> sc_user c = user) (\<lambda>c. c\<lparr>sc_slot := slotId\<rparr>) (g_claims w)\<rparr>))))"

definition idempotencyOwnerOf :: "register_args \<Rightarrow> string" where
  "idempotencyOwnerOf a = (case ra_owner a of Some x \<Rightarrow> x | None \<Rightarrow> subjectOwner (ra_subject a))"

definition registerIdempotencyKey :: "reg_env \<Rightarrow> register_args \<Rightarrow> string" where
  "registerIdempotencyKey E a = re_keyOf E [REGISTER_IDEMPOTENCY_SCOPE, idempotencyOwnerOf a, ra_key a]"

definition findRegisterSnapshot :: "reg_env \<Rightarrow> register_args \<Rightarrow> string option reg_prog" where
  "findRegisterSnapshot E a = reads (\<lambda>w. map_option (\<lambda>(_, _, i). i)
     (find (\<lambda>(k, owner, _). k = registerIdempotencyKey E a \<and> owner = idempotencyOwnerOf a) (g_keys w)))"

definition replayOf :: "register_args \<Rightarrow> string \<Rightarrow> register_outcome reg_prog" where
  "replayOf a i = seq (loadRegistrationById (ra_event a) i) (\<lambda>r. ret (Replayed r))"

definition replaySnapshot :: "reg_env \<Rightarrow> register_args \<Rightarrow> register_outcome reg_prog" where
  "replaySnapshot E a = seq (findRegisterSnapshot E a) (\<lambda>s.
     case s of None \<Rightarrow> ret (Refused Already_registered) | Some i \<Rightarrow> replayOf a i)"

text \<open>Both unique indexes lead to the replay; every other rejection is thrown again.\<close>

definition registerErrorOutcome :: "reg_env \<Rightarrow> register_args \<Rightarrow> app_error \<Rightarrow> register_outcome reg_prog" where
  "registerErrorOutcome E a e = (if e = UniqueViolation then replaySnapshot E a else raise e)"

definition isBannedIn :: "string \<Rightarrow> registration_subject \<Rightarrow> reg_world \<Rightarrow> bool" where
  "isBannedIn event s w = (case s of By_user u \<Rightarrow> (event, u) \<in> set (g_bans w) | By_guest _ \<Rightarrow> False)"

definition registered_for :: "string \<Rightarrow> registration_subject \<Rightarrow> registration_row \<Rightarrow> bool" where
  "registered_for event s r \<longleftrightarrow> rg_event r = event \<and> rg_status r = Registered \<and> rg_subject r = s"

definition eventGateRefusal :: "event_row \<Rightarrow> register_args \<Rightarrow> register_refusal option reg_prog" where
  "eventGateRefusal event a = reads (\<lambda>w.
     if gv_cancelled event then Some Event_closed
     else if \<not> withinSalesWindow (ra_now a) (gv_opensAt event) (gv_closesAt event) then Some Registration_closed
     else if isBannedIn (ra_event a) (ra_subject a) w then Some Banned
     else if (\<exists>r \<in> set (g_regs w). registered_for (ra_event a) (ra_subject a) r) then Some Already_registered
     else None)"

fun selectTicketType ::
  "ticket_type_row list \<Rightarrow> register_args \<Rightarrow> register_refusal + ticket_type_row option" where
  "selectTicketType types a =
     (case ra_type a of
        None \<Rightarrow> if length types > 1 then Inl Type_not_found
                else (case types of
                        [] \<Rightarrow> Inr None
                      | t # _ \<Rightarrow> if ty_visibility t = Hidden_type \<and> ra_source a = Self then Inl Type_not_found else Inr (Some t))
      | Some i \<Rightarrow> (case find (\<lambda>t. ty_id t = i) types of
                     None \<Rightarrow> Inl Type_not_found
                   | Some t \<Rightarrow> if ty_visibility t = Hidden_type \<and> ra_source a = Self then Inl Type_not_found else Inr (Some t)))"

definition pickTicketType :: "register_args \<Rightarrow> (register_refusal + ticket_type_row option) reg_prog" where
  "pickTicketType a = reads (\<lambda>w. selectTicketType
     (sort_key (\<lambda>t. (ty_sortOrder t, ty_id t)) (filter (\<lambda>t. ty_event t = ra_event a) (g_types w))) a)"

definition accessCodeRefusal :: "ticket_type_row \<Rightarrow> string option \<Rightarrow> register_refusal option" where
  "accessCodeRefusal t given =
     (if ty_visibility t \<noteq> Access_code_type then None
      else case given of None \<Rightarrow> Some Code_required
           | Some h \<Rightarrow> if ty_accessCodeHash t = Some h then None else Some Code_invalid)"

definition ticketTypeGateRefusal :: "ticket_type_row \<Rightarrow> register_args \<Rightarrow> nat \<Rightarrow> register_refusal option" where
  "ticketTypeGateRefusal t a partySize =
     (case (if ra_waitlist a = None then accessCodeRefusal t (ra_accessCodeHash a) else None) of
        Some r \<Rightarrow> Some r
      | None \<Rightarrow>
          if partySize > ty_maxPartySize t then Some Party_too_large
          else if ra_waitlist a = None \<and> \<not> withinSalesWindow (ra_now a) (ty_salesOpensAt t) (ty_salesClosesAt t)
          then Some Sales_closed else None)"

definition event_held :: "string \<Rightarrow> reg_world \<Rightarrow> nat" where
  "event_held event w = sum_list (map rg_party (filter (\<lambda>r. rg_event r = event \<and> rg_status r = Registered) (g_regs w)))"

definition reserveCapacity ::
  "register_args \<Rightarrow> nat option \<Rightarrow> ticket_type_row option \<Rightarrow> nat \<Rightarrow> register_refusal option tx_result reg_prog" where
  "reserveCapacity a eventCapacity ticketType partySize =
     (if ra_waitlist a \<noteq> None then ret (Done None)
      else case ticketType of
        None \<Rightarrow> (case eventCapacity of
            None \<Rightarrow> ret (Done None)
          | Some c \<Rightarrow> reads (\<lambda>w. Done (if event_held (ra_event a) w + partySize > c then Some Full else None)))
      | Some t \<Rightarrow>
          let open_type = (\<lambda>x. ty_id x = ty_id t \<and> ty_event x = ra_event a \<and> partySize \<le> ty_maxPartySize x
                 \<and> withinSalesWindow (ra_now a) (ty_salesOpensAt x) (ty_salesClosesAt x) \<and> has_room partySize x)
          in seq (reads (\<lambda>w. find open_type (g_types w))) (\<lambda>row.
             case row of
               None \<Rightarrow> ret (Thrown (Some Full))
             | Some _ \<Rightarrow> seq (writes (\<lambda>w. w\<lparr>g_types := update_rows open_type (add_seats partySize (ra_now a)) (g_types w)\<rparr>))
                           (\<lambda>_. ret (Done None))))"

definition insertRegistrationRow :: "reg_env \<Rightarrow> register_args \<Rightarrow> string option \<Rightarrow> string reg_prog" where
  "insertRegistrationRow E a typeId = seq (draw E) (\<lambda>i. seq (reads g_regs) (\<lambda>regs.
     if (\<exists>r \<in> set regs. registered_for (ra_event a) (ra_subject a) r) then raise UniqueViolation
     else seq (writes (\<lambda>w. w\<lparr>g_regs := regs @ [\<lparr>rg_id = i, rg_event = ra_event a, rg_type = typeId,
            rg_subject = ra_subject a, rg_party = length (ra_seats a), rg_status = Registered, rg_source = ra_source a,
            rg_hostNote = None, rg_registeredAt = ra_now a, rg_cancelledAt = None, rg_cancelledBy = None\<rparr>]\<rparr>)) (\<lambda>_. ret i)))"

definition seat_rows :: "register_args \<Rightarrow> string \<Rightarrow> seat_row list" where
  "seat_rows a i = map (\<lambda>(index, s). \<lparr>se_id = sd_id s, se_event = ra_event a, se_registration = i, se_index = index,
     se_attendeeName = sd_attendeeName s, se_tokenHash = sd_tokenHash s, se_status = Seat_active, se_checkedInAt = None,
     se_checkedInBy = None, se_method = None, se_coarsenedAt = None, se_noShowAt = None, se_createdAt = ra_now a\<rparr>)
     (enumerate 0 (ra_seats a))"

text \<open>The token hash is unique over the table, and so is the seat's own identifier.\<close>

definition insertSeatRows :: "register_args \<Rightarrow> string \<Rightarrow> unit reg_prog" where
  "insertSeatRows a i = seq (reads (\<lambda>w. g_seats w @ seat_rows a i)) (\<lambda>seats.
     if distinct (map se_tokenHash seats) \<and> distinct (map se_id seats) then writes (\<lambda>w. w\<lparr>g_seats := seats\<rparr>)
     else raise (PlainError ''duplicate key value violates unique constraint''))"

definition insertAnswerRows :: "register_args \<Rightarrow> string \<Rightarrow> unit reg_prog" where
  "insertAnswerRows a i = writes (\<lambda>w. w\<lparr>g_answers := g_answers w @ map (\<lambda>x. (i, x)) (ra_answers a)\<rparr>)"

definition insertConsentRow :: "register_args \<Rightarrow> string \<Rightarrow> unit reg_prog" where
  "insertConsentRow a i =
     (case ra_consent a of
        None \<Rightarrow> ret ()
      | Some c \<Rightarrow> seq (writes (\<lambda>w. w\<lparr>g_consents := g_consents w @ [(i, c)]\<rparr>)) (\<lambda>_.
          case ra_subject a of
            By_user u \<Rightarrow> writes (\<lambda>w. w\<lparr>g_accepted := g_accepted w @ map (\<lambda>(d, v). (u, d, v)) (cw_documents c)\<rparr>)
          | By_guest _ \<Rightarrow> ret ()))"

definition insert_member :: "register_args \<Rightarrow> unit reg_prog" where
  "insert_member a =
     (case ra_subject a of
        By_user u \<Rightarrow> writes (\<lambda>w. if (\<exists>m \<in> set (g_members w). fst m = ra_event a \<and> fst (snd m) = u) then w
                               else w\<lparr>g_members := g_members w @ [(ra_event a, u, ''member'')]\<rparr>)
      | By_guest _ \<Rightarrow> ret ())"

definition insertRegistrationRows :: "reg_env \<Rightarrow> register_args \<Rightarrow> string option \<Rightarrow> string reg_prog" where
  "insertRegistrationRows E a typeId =
     seq (insert_member a) (\<lambda>_. seq (insertRegistrationRow E a typeId) (\<lambda>i.
     seq (insertSeatRows a i) (\<lambda>_. seq (insertAnswerRows a i) (\<lambda>_. seq (insertConsentRow a i) (\<lambda>_. ret i)))))"

definition linkWaitlistEntry :: "register_args \<Rightarrow> string \<Rightarrow> unit reg_prog" where
  "linkWaitlistEntry a i =
     (case ra_waitlist a of
        None \<Rightarrow> ret ()
      | Some x \<Rightarrow> writes (\<lambda>w. w\<lparr>g_waitlist := update_rows
            (\<lambda>e. wl_id e = x \<and> wl_event e = ra_event a \<and> wl_status e = Claimed)
            (\<lambda>e. e\<lparr>wl_promoted := Some i\<rparr>) (g_waitlist w)\<rparr>))"

definition recordRegisterIdempotency :: "reg_env \<Rightarrow> register_args \<Rightarrow> string \<Rightarrow> unit reg_prog" where
  "recordRegisterIdempotency E a i = seq (findRegisterSnapshot E a) (\<lambda>s.
     if s \<noteq> None then raise UniqueViolation
     else writes (\<lambda>w. w\<lparr>g_keys := g_keys w @ [(registerIdempotencyKey E a, idempotencyOwnerOf a, i)]\<rparr>))"

text \<open>The part of \<open>registerIn\<close> after the capacity is reserved.\<close>

definition register_writes :: "reg_env \<Rightarrow> register_args \<Rightarrow> string option \<Rightarrow> register_outcome tx_result reg_prog" where
  "register_writes E a typeId =
     seq (case (ra_slot a, ra_subject a) of
            (Some s, By_user u) \<Rightarrow> claimSlotIn (ra_event a) u s | _ \<Rightarrow> ret ()) (\<lambda>_.
     seq (insertRegistrationRows E a typeId) (\<lambda>i.
     seq (linkWaitlistEntry a i) (\<lambda>_. seq (recordRegisterIdempotency E a i) (\<lambda>_.
     seq (loadRegistrationById (ra_event a) i) (\<lambda>r.
     case r of None \<Rightarrow> raise (PlainError ''registration reload returned no row'')
     | Some x \<Rightarrow> ret (Done (Registered_as x)))))))"

definition register_seats ::
  "reg_env \<Rightarrow> event_row \<Rightarrow> register_args \<Rightarrow> ticket_type_row option \<Rightarrow> register_outcome tx_result reg_prog" where
  "register_seats E event a ticketType =
     (let partySize = length (ra_seats a) in
      case (case ticketType of None \<Rightarrow> None | Some t \<Rightarrow> ticketTypeGateRefusal t a partySize) of
        Some r \<Rightarrow> ret (Done (Refused r))
      | None \<Rightarrow> seq (reserveCapacity a (gv_capacity event) ticketType partySize) (\<lambda>reserved.
          case reserved of
            Thrown r \<Rightarrow> ret (Thrown (Refused (case r of None \<Rightarrow> Full | Some x \<Rightarrow> x)))
          | Done (Some r) \<Rightarrow> ret (Done (Refused r))
          | Done None \<Rightarrow> register_writes E a (map_option ty_id ticketType)))"

definition registerIn :: "reg_env \<Rightarrow> register_args \<Rightarrow> register_outcome tx_result reg_prog" where
  "registerIn E a = seq (reads (\<lambda>w. find (\<lambda>e. gv_id e = ra_event a) (g_events w))) (\<lambda>row.
     case row of
       None \<Rightarrow> ret (Done (Refused Event_not_found))
     | Some event \<Rightarrow>
         if guestSelfRegistrationOnPrivateEvent a (gv_visibility event) then ret (Done (Refused Event_not_found))
         else seq (findRegisterSnapshot E a) (\<lambda>replay.
           case replay of
             Some i \<Rightarrow> seq (replayOf a i) (\<lambda>o'. ret (Done o'))
           | None \<Rightarrow> seq (eventGateRefusal event a) (\<lambda>refusal.
               case refusal of
                 Some r \<Rightarrow> ret (Done (Refused r))
               | None \<Rightarrow> seq (pickTicketType a) (\<lambda>picked.
                   case picked of
                     Inl r \<Rightarrow> ret (Done (Refused r))
                   | Inr ticketType \<Rightarrow> register_seats E event a ticketType))))"

definition registerTx :: "reg_env \<Rightarrow> register_args \<Rightarrow> register_outcome reg_prog" where
  "registerTx E a = recover (transact (registerIn E a)) (registerErrorOutcome E a)"

record walkup_args =
  wa_event :: string
  wa_name :: string
  wa_tokenHash :: string
  wa_type :: "string option"
  wa_seats :: "seat_draft list"
  wa_key :: string
  wa_owner :: string
  wa_now :: int
  wa_checkIn :: "(string \<times> string) option"   \<comment> \<open>actor, method\<close>

definition insertWalkupGuest :: "reg_env \<Rightarrow> walkup_args \<Rightarrow> string reg_prog" where
  "insertWalkupGuest E a = seq (draw E) (\<lambda>i. seq (writes (\<lambda>w. w\<lparr>g_guests := g_guests w @
     [\<lparr>gu_id = i, gu_event = wa_event a, gu_name = wa_name a, gu_tokenHash = wa_tokenHash a, gu_cancelledAt = None\<rparr>]\<rparr>))
     (\<lambda>_. ret i))"

definition walkupRegisterArgs :: "walkup_args \<Rightarrow> string \<Rightarrow> register_args" where
  "walkupRegisterArgs a guestId =
     \<lparr>ra_event = wa_event a, ra_subject = By_guest guestId, ra_type = wa_type a, ra_seats = wa_seats a,
      ra_accessCodeHash = None, ra_answers = [], ra_consent = None, ra_slot = None, ra_source = Walkup,
      ra_key = wa_key a, ra_owner = Some (wa_owner a), ra_waitlist = None, ra_now = wa_now a\<rparr>"

definition checkInWalkupSeats :: "walkup_args \<Rightarrow> string \<Rightarrow> string \<times> string \<Rightarrow> unit reg_prog" where
  "checkInWalkupSeats a i c = writes (\<lambda>w. w\<lparr>g_seats := update_rows
     (\<lambda>s. se_registration s = i \<and> se_event s = wa_event a \<and> se_status s = Seat_active \<and> se_checkedInAt s = None)
     (\<lambda>s. s\<lparr>se_checkedInAt := Some (wa_now a), se_checkedInBy := Some (fst c), se_method := Some (snd c)\<rparr>) (g_seats w)\<rparr>)"

definition walkup_body :: "reg_env \<Rightarrow> walkup_args \<Rightarrow> string \<Rightarrow> register_outcome tx_result reg_prog" where
  "walkup_body E a guestId = seq (registerIn E (walkupRegisterArgs a guestId)) (\<lambda>res.
     case res of
       Thrown o' \<Rightarrow> ret (Thrown o')
     | Done o' \<Rightarrow>
         (case (o', wa_checkIn a) of
            (Registered_as (r, _), Some c) \<Rightarrow>
              seq (checkInWalkupSeats a (rg_id r) c) (\<lambda>_. seq (loadRegistrationById (wa_event a) (rg_id r)) (\<lambda>row.
              case row of None \<Rightarrow> raise (PlainError ''walk-up reload returned no row'')
              | Some x \<Rightarrow> ret (Done (Registered_as x))))
          | (Registered_as x, None) \<Rightarrow> ret (Done (Registered_as x))
          | _ \<Rightarrow> ret (Thrown o')))"

text \<open>The arguments of a mapped rejection are those of the attempt, with the guest it drew.\<close>

definition registerWalkupTx :: "reg_env \<Rightarrow> walkup_args \<Rightarrow> register_outcome reg_prog" where
  "registerWalkupTx E a = seq (reads (\<lambda>w. re_uuid E (g_drawn w))) (\<lambda>guestId.
     recover (transact (seq (insertWalkupGuest E a) (walkup_body E a)))
       (registerErrorOutcome E (walkupRegisterArgs a guestId)))"

end
