(* ===== verification/Registration_Roster.thy ===== *)
theory Registration_Roster
  imports Registration_Repository
begin

section \<open>The waitlist, the roster, ticket types and check-in (\<open>services/host/\<close>)\<close>

text \<open>
  The rest of the registration repository: \<open>registration-repository-waitlist.drizzle.ts\<close>,
  \<open>-roster.drizzle.ts\<close>, \<open>-ticket-types.drizzle.ts\<close> and \<open>-checkin.drizzle.ts\<close>, the service over the waitlist
  (\<open>waitlist-service.ts\<close>), and the statements of other repositories that write these tables.  Pages of rosters,
  names and pictures are left out.
\<close>

subsection \<open>The waitlist (\<open>registration-repository-waitlist.drizzle.ts\<close>)\<close>

definition WAITLIST_CLAIM_IDEMPOTENCY_PREFIX :: string where "WAITLIST_CLAIM_IDEMPOTENCY_PREFIX = ''waitlist:''"

definition live :: "waitlist_row \<Rightarrow> bool" where
  "live e \<longleftrightarrow> wl_status e = Waiting \<or> wl_status e = Offered"

definition waitlistEntryNotBanned :: "reg_world \<Rightarrow> waitlist_row \<Rightarrow> bool" where
  "waitlistEntryNotBanned w e = (\<not> isBannedIn (wl_event e) (wl_subject e) w)"

definition waitlistEventStillLive :: "reg_env \<Rightarrow> reg_world \<Rightarrow> waitlist_row \<Rightarrow> bool" where
  "waitlistEventStillLive E w e = (\<exists>c \<in> set (g_events w). gv_id c = wl_event e \<and> \<not> gv_cancelled c
     \<and> (case gv_endsAt c of Some t \<Rightarrow> t | None \<Rightarrow> gv_scheduledAt c + re_duration E) > clock w)"

text \<open>Releasing what a list of entries, or of sums, holds.\<close>

definition release_from :: "('s \<Rightarrow> string) \<Rightarrow> ('s \<Rightarrow> nat) \<Rightarrow> int \<Rightarrow> 's list \<Rightarrow> ticket_type_row list \<Rightarrow> ticket_type_row list" where
  "release_from type_of seats now src = update_from (\<lambda>s t. ty_id t = type_of s) (\<lambda>s. release_seats (seats s) now) src"

definition cancelWaitlistEntriesIn ::
  "string \<Rightarrow> string option \<Rightarrow> registration_subject \<Rightarrow> int \<Rightarrow> (nat \<times> string list) reg_prog" where
  "cancelWaitlistEntriesIn event ticketTypeId s now =
     (let leaving = (\<lambda>e. wl_event e = event \<and> live e
            \<and> (case ticketTypeId of None \<Rightarrow> True | Some t \<Rightarrow> wl_type e = t) \<and> wl_subject e = s)
      in seq (reads (\<lambda>w. filter leaving (g_waitlist w))) (\<lambda>gone.
         let held = filter (\<lambda>e. wl_offeredAt e \<noteq> None) gone
         in seq (writes (\<lambda>w. w\<lparr>g_waitlist := update_rows leaving (\<lambda>e. e\<lparr>wl_status := Withdrawn\<rparr>) (g_waitlist w),
                  g_types := release_from wl_type wl_party now held (g_types w)\<rparr>)) (\<lambda>_.
            ret (length gone, remdups (map wl_type held)))))"

definition releaseWaitlistHold :: "string \<Rightarrow> string \<Rightarrow> int \<Rightarrow> unit reg_prog" where
  "releaseWaitlistHold event i now =
     (let this = (\<lambda>e. wl_id e = i \<and> wl_event e = event)
      in seq (reads (\<lambda>w. filter this (g_waitlist w))) (\<lambda>rows.
         writes (\<lambda>w. w\<lparr>g_waitlist := update_rows this (\<lambda>e. e\<lparr>wl_status := Expired\<rparr>) (g_waitlist w),
           g_types := release_from wl_type wl_party now (filter (\<lambda>e. wl_offeredAt e \<noteq> None) rows) (g_types w)\<rparr>)))"

datatype claim_outcome = Claim_claimed registration_record | Claim_not_found | Claim_expired | Claim_not_offered

definition claimed_before :: "string \<Rightarrow> registration_subject \<Rightarrow> waitlist_row \<Rightarrow> registration_record option reg_prog" where
  "claimed_before event s e =
     (if wl_status e = Claimed \<and> wl_subject e = s
      then (case wl_promoted e of None \<Rightarrow> ret None | Some r \<Rightarrow> loadRegistrationById event r) else ret None)"

definition classifyUnclaimable :: "string \<Rightarrow> string \<Rightarrow> registration_subject \<Rightarrow> int \<Rightarrow> claim_outcome reg_prog" where
  "classifyUnclaimable event i s now =
     seq (reads (\<lambda>w. find (\<lambda>e. wl_id e = i \<and> wl_event e = event) (g_waitlist w))) (\<lambda>row.
     case row of
       None \<Rightarrow> ret Claim_not_found
     | Some e \<Rightarrow>
         seq (claimed_before event s e) (\<lambda>reg.
         case reg of
           Some r \<Rightarrow> ret (Claim_claimed r)
         | None \<Rightarrow>
             if wl_status e = Expired then ret Claim_expired
             else if wl_status e \<noteq> Offered then ret Claim_not_offered
             else if (case wl_claimExpiresAt e of None \<Rightarrow> False | Some t \<Rightarrow> t \<le> now)
             then seq (releaseWaitlistHold event i now) (\<lambda>_. ret Claim_expired)
             else ret Claim_not_offered))"

definition eventWindowEnded :: "reg_env \<Rightarrow> reg_world \<Rightarrow> event_row \<Rightarrow> bool" where
  "eventWindowEnded E w e = re_ended E (gv_cancelled e) (gv_scheduledAt e) (gv_endsAt e) (clock w)"

datatype join_outcome =
    Joined waitlist_row | Already_waiting waitlist_row | Join_registered | Join_code_required | Join_code_invalid
  | Waitlist_disabled | Join_type_not_found | Join_banned | Join_closed | Join_ended | Join_not_found

record join_args =
  ja_event :: string
  ja_type :: string
  ja_subject :: registration_subject
  ja_party :: nat
  ja_accessCodeHash :: "string option"
  ja_now :: int

definition findLiveWaitlistEntry :: "string \<Rightarrow> registration_subject \<Rightarrow> reg_world \<Rightarrow> waitlist_row option" where
  "findLiveWaitlistEntry typeId s w = find (\<lambda>e. wl_type e = typeId \<and> live e \<and> wl_subject e = s) (g_waitlist w)"

definition waitlistTicketTypeRefusal :: "ticket_type_row option \<Rightarrow> string option \<Rightarrow> join_outcome option" where
  "waitlistTicketTypeRefusal row accessCodeHash =
     (case row of
        None \<Rightarrow> Some Join_type_not_found
      | Some t \<Rightarrow>
          if ty_visibility t = Hidden_type then Some Join_type_not_found
          else if \<not> ty_waitlistEnabled t then Some Waitlist_disabled
          else if ty_visibility t \<noteq> Access_code_type then None
          else case accessCodeHash of None \<Rightarrow> Some Join_code_required
               | Some h \<Rightarrow> if ty_accessCodeHash t = Some h then None else Some Join_code_invalid)"

definition joinWaitlistGateRefusal :: "reg_env \<Rightarrow> join_args \<Rightarrow> join_outcome option reg_prog" where
  "joinWaitlistGateRefusal E a = reads (\<lambda>w.
     case find (\<lambda>e. gv_id e = ja_event a) (g_events w) of
       None \<Rightarrow> Some Join_not_found
     | Some event \<Rightarrow>
         if gv_cancelled event then Some Join_closed
         else if eventWindowEnded E w event then Some Join_ended
         else if isBannedIn (ja_event a) (ja_subject a) w then Some Join_banned
         else case waitlistTicketTypeRefusal
                (find (\<lambda>t. ty_id t = ja_type a \<and> ty_event t = ja_event a) (g_types w)) (ja_accessCodeHash a) of
           Some r \<Rightarrow> Some r
         | None \<Rightarrow> if (\<exists>r \<in> set (g_regs w). registered_for (ja_event a) (ja_subject a) r)
                   then Some Join_registered else None)"

text \<open>
  The unique indexes allow one live entry for each person and ticket type; the check before the insert finds it
  first, so the index is never hit here.
\<close>

definition joinWaitlist :: "reg_env \<Rightarrow> join_args \<Rightarrow> join_outcome reg_prog" where
  "joinWaitlist E a = seq (joinWaitlistGateRefusal E a) (\<lambda>refusal.
     case refusal of
       Some r \<Rightarrow> ret r
     | None \<Rightarrow> seq (reads (findLiveWaitlistEntry (ja_type a) (ja_subject a))) (\<lambda>existing.
         case existing of
           Some e \<Rightarrow> ret (Already_waiting e)
         | None \<Rightarrow> seq (draw E) (\<lambda>i.
             let e = \<lparr>wl_id = i, wl_event = ja_event a, wl_type = ja_type a, wl_subject = ja_subject a,
                      wl_party = ja_party a, wl_status = Waiting, wl_createdAt = ja_now a, wl_offeredAt = None,
                      wl_claimExpiresAt = None, wl_promoted = None\<rparr>
             in seq (writes (\<lambda>w. w\<lparr>g_waitlist := g_waitlist w @ [e]\<rparr>)) (\<lambda>_. ret (Joined e)))))"

definition leaveWaitlist :: "string \<Rightarrow> string option \<Rightarrow> registration_subject \<Rightarrow> int \<Rightarrow> (nat \<times> string list) reg_prog" where
  "leaveWaitlist = cancelWaitlistEntriesIn"

record waitlist_offer =
  of_entry :: waitlist_row
  of_claimExpiresAt :: int

definition reserveAndOffer ::
  "waitlist_row \<Rightarrow> (ticket_type_row \<Rightarrow> bool) \<Rightarrow> int \<Rightarrow> int \<Rightarrow> waitlist_offer option reg_prog" where
  "reserveAndOffer candidate cleanupScope now claimExpiresAt =
     (let fitting = (\<lambda>t. ty_id t = wl_type candidate \<and> cleanupScope t \<and> has_room (wl_party candidate) t)
      in seq (reads (\<lambda>w. find fitting (g_types w))) (\<lambda>row.
         case row of
           None \<Rightarrow> ret None
         | Some _ \<Rightarrow> seq (writes (\<lambda>w. w\<lparr>g_types := update_rows fitting (add_seats (wl_party candidate) now) (g_types w),
                g_waitlist := update_rows (\<lambda>e. wl_id e = wl_id candidate)
                  (\<lambda>e. e\<lparr>wl_status := Offered, wl_offeredAt := Some now, wl_claimExpiresAt := Some claimExpiresAt\<rparr>) (g_waitlist w)\<rparr>))
              (\<lambda>_. ret (Some \<lparr>of_entry = candidate, of_claimExpiresAt = claimExpiresAt\<rparr>))))"

text \<open>The head of the queue: the oldest waiting entry that may be seated.\<close>

definition eligible :: "reg_env \<Rightarrow> reg_world \<Rightarrow> waitlist_row \<Rightarrow> bool" where
  "eligible E w e \<longleftrightarrow> wl_status e = Waiting \<and> waitlistEntryNotBanned w e \<and> waitlistEventStillLive E w e"

definition queue_head :: "reg_env \<Rightarrow> string \<Rightarrow> reg_world \<Rightarrow> waitlist_row option" where
  "queue_head E typeId w =
     (case sort_key (\<lambda>e. (wl_createdAt e, wl_id e)) (filter (\<lambda>e. wl_type e = typeId \<and> eligible E w e) (g_waitlist w)) of
        [] \<Rightarrow> None | e # _ \<Rightarrow> Some e)"

definition offerNextWaitlistEntry :: "reg_env \<Rightarrow> string \<Rightarrow> int \<Rightarrow> int \<Rightarrow> waitlist_offer option reg_prog" where
  "offerNextWaitlistEntry E typeId now claimWindowMs = seq (reads (queue_head E typeId)) (\<lambda>row.
     case row of None \<Rightarrow> ret None | Some e \<Rightarrow> reserveAndOffer e (\<lambda>_. True) now (now + claimWindowMs))"

definition offerWaitlistEntry :: "reg_env \<Rightarrow> string \<Rightarrow> string \<Rightarrow> int \<Rightarrow> int \<Rightarrow> waitlist_offer option reg_prog" where
  "offerWaitlistEntry E event i now claimWindowMs =
     seq (reads (\<lambda>w. find (\<lambda>e. wl_id e = i \<and> wl_event e = event \<and> eligible E w e) (g_waitlist w))) (\<lambda>row.
     case row of None \<Rightarrow> ret None | Some e \<Rightarrow> reserveAndOffer e (\<lambda>t. ty_event t = event) now (now + claimWindowMs))"

definition expired_offers :: "int \<Rightarrow> nat \<Rightarrow> reg_world \<Rightarrow> waitlist_row list" where
  "expired_offers now limit w = take limit (sort_key wl_claimExpiresAt
     (filter (\<lambda>e. wl_status e = Offered \<and> (case wl_claimExpiresAt e of None \<Rightarrow> False | Some t \<Rightarrow> t \<le> now)) (g_waitlist w)))"

definition expireWaitlistOffers :: "int \<Rightarrow> nat \<Rightarrow> string list reg_prog" where
  "expireWaitlistOffers now limit = seq (reads (expired_offers now limit)) (\<lambda>gone.
     seq (writes (\<lambda>w. w\<lparr>g_waitlist := update_rows (\<lambda>e. wl_id e \<in> wl_id ` set gone) (\<lambda>e. e\<lparr>wl_status := Expired\<rparr>) (g_waitlist w),
            g_types := release_from wl_type wl_party now gone (g_types w)\<rparr>)) (\<lambda>_.
     ret (remdups (map wl_type gone))))"

record claim_args =
  ca_event :: string
  ca_waitlist :: string
  ca_subject :: "registration_subject option"
  ca_seats :: "seat_draft list"
  ca_now :: int

definition claimRegisterArgs :: "claim_args \<Rightarrow> waitlist_row \<Rightarrow> register_args" where
  "claimRegisterArgs a e =
     \<lparr>ra_event = ca_event a, ra_subject = wl_subject e, ra_type = Some (wl_type e),
      ra_seats = take (wl_party e) (ca_seats a), ra_accessCodeHash = None, ra_answers = [], ra_consent = None,
      ra_slot = None, ra_source = From_waitlist, ra_key = WAITLIST_CLAIM_IDEMPOTENCY_PREFIX @ ca_waitlist a,
      ra_owner = None, ra_waitlist = Some (ca_waitlist a), ra_now = ca_now a\<rparr>"

definition claim_registered ::
  "reg_env \<Rightarrow> claim_args \<Rightarrow> register_args \<Rightarrow> claim_outcome tx_result reg_prog" where
  "claim_registered E a ra = seq (registerIn E ra) (\<lambda>res.
     case res of
       Thrown _ \<Rightarrow> ret (Thrown Claim_not_offered)
     | Done (Registered_as r) \<Rightarrow> ret (Done (Claim_claimed r))
     | Done (Replayed (Some r)) \<Rightarrow> ret (Done (Claim_claimed r))
     | Done (Refused x) \<Rightarrow>
         if x = Registration_closed \<or> x = Event_closed
         then seq (releaseWaitlistHold (ca_event a) (ca_waitlist a) (ca_now a)) (\<lambda>_. ret (Done Claim_not_offered))
         else ret (Thrown Claim_not_offered)
     | Done (Replayed None) \<Rightarrow> ret (Thrown Claim_not_offered))"

definition claimOfferIn ::
  "reg_env \<Rightarrow> claim_args \<Rightarrow> registration_subject \<Rightarrow> register_args \<Rightarrow> claim_outcome tx_result reg_prog" where
  "claimOfferIn E a s ra =
     (let claimable = (\<lambda>e. wl_id e = ca_waitlist a \<and> wl_event e = ca_event a \<and> wl_status e = Offered
            \<and> (case wl_claimExpiresAt e of None \<Rightarrow> True | Some t \<Rightarrow> t > ca_now a) \<and> wl_party e = length (ra_seats ra))
      in seq (reads (\<lambda>w. (find (\<lambda>e. gv_id e = ca_event a) (g_events w), find claimable (g_waitlist w), w))) (\<lambda>(event, row, w0).
      case row of
        None \<Rightarrow> seq (classifyUnclaimable (ca_event a) (ca_waitlist a) s (ca_now a)) (\<lambda>o'. ret (Done o'))
      | Some e \<Rightarrow>
          seq (writes (\<lambda>w. w\<lparr>g_waitlist := update_rows claimable (\<lambda>e. e\<lparr>wl_status := Claimed\<rparr>) (g_waitlist w)\<rparr>)) (\<lambda>_.
          if wl_subject e \<noteq> s then ret (Thrown Claim_not_found)
          else if (case event of None \<Rightarrow> False | Some ev \<Rightarrow> eventWindowEnded E w0 ev)
          then seq (releaseWaitlistHold (ca_event a) (ca_waitlist a) (ca_now a)) (\<lambda>_. ret (Done Claim_not_offered))
          else claim_registered E a ra)))"

definition claimWaitlistOffer :: "reg_env \<Rightarrow> claim_args \<Rightarrow> claim_outcome reg_prog" where
  "claimWaitlistOffer E a =
     seq (reads (\<lambda>w. find (\<lambda>e. wl_id e = ca_waitlist a \<and> wl_event e = ca_event a) (g_waitlist w))) (\<lambda>row.
     case row of
       None \<Rightarrow> ret Claim_not_found
     | Some e \<Rightarrow>
         if (case ca_subject a of None \<Rightarrow> False | Some s \<Rightarrow> wl_subject e \<noteq> s) then ret Claim_not_found
         else let ra = claimRegisterArgs a e
              in recover (transact (claimOfferIn E a (wl_subject e) ra))
                   (\<lambda>err. seq (registerErrorOutcome E ra err) (\<lambda>mapped.
                      case mapped of Replayed (Some r) \<Rightarrow> ret (Claim_claimed r) | _ \<Rightarrow> ret Claim_not_offered)))"

subsection \<open>The roster (\<open>registration-repository-roster.drizzle.ts\<close>)\<close>

definition cancel_row :: "int \<Rightarrow> string option \<Rightarrow> registration_row \<Rightarrow> registration_row" where
  "cancel_row now actorId r = r\<lparr>rg_status := Cancelled_registration, rg_cancelledAt := Some now, rg_cancelledBy := actorId\<rparr>"

definition cancel_seats :: "registration_row list \<Rightarrow> seat_row list \<Rightarrow> seat_row list" where
  "cancel_seats gone = update_rows (\<lambda>s. se_registration s \<in> rg_id ` set gone \<and> se_status s = Seat_active)
     (\<lambda>s. s\<lparr>se_status := Seat_cancelled\<rparr>)"

text \<open>\<open>GROUP BY ticket_type_id\<close> with the sum of the party sizes.\<close>

definition held_by_type :: "(string \<times> nat) list \<Rightarrow> (string \<times> nat) list" where
  "held_by_type rows = map (\<lambda>t. (t, sum_list (map snd (filter (\<lambda>r. fst r = t) rows)))) (remdups (map fst rows))"

definition typed_parties :: "registration_row list \<Rightarrow> (string \<times> nat) list" where
  "typed_parties regs = List.map_filter (\<lambda>r. map_option (\<lambda>t. (t, rg_party r)) (rg_type r)) regs"

record applied_ban =
  ab_cancelled :: "(string \<times> string option) list"
  ab_released :: "string list"

definition applyBanIn :: "string \<Rightarrow> string \<Rightarrow> string \<Rightarrow> int \<Rightarrow> applied_ban reg_prog" where
  "applyBanIn event user actorId now =
     (let mine = registered_for event (By_user user) in
      seq (writes (\<lambda>w. w\<lparr>g_bans := (if (event, user) \<in> set (g_bans w) then g_bans w else g_bans w @ [(event, user)]),
             g_members := filter (\<lambda>m. \<not> (m = (event, user, ''member''))) (g_members w)\<rparr>)) (\<lambda>_.
      seq (cancelWaitlistEntriesIn event None (By_user user) now) (\<lambda>(_, waitlist_released).
      seq (reads (\<lambda>w. filter mine (g_regs w))) (\<lambda>gone.
      seq (writes (\<lambda>w. w\<lparr>g_regs := update_rows mine (cancel_row now (Some actorId)) (g_regs w),
             g_seats := cancel_seats gone (g_seats w),
             g_types := release_from fst snd now (held_by_type (typed_parties gone)) (g_types w),
             g_claims := filter (\<lambda>c. \<not> (sc_event c = event \<and> sc_user c = user)) (g_claims w)\<rparr>)) (\<lambda>_.
      ret \<lparr>ab_cancelled = map (\<lambda>r. (rg_id r, rg_type r)) gone,
           ab_released = remdups (waitlist_released @ List.map_filter rg_type gone)\<rparr>)))))"

datatype cancel_outcome = Cancelled registration_record "string option" | Already_cancelled | Cancel_not_found

definition cancelRegistrationIn :: "string \<Rightarrow> string \<Rightarrow> string option \<Rightarrow> int \<Rightarrow> cancel_outcome reg_prog" where
  "cancelRegistrationIn event i actorId now =
     (let this = (\<lambda>r. rg_id r = i \<and> rg_event r = event \<and> rg_status r = Registered)
      in seq (reads (\<lambda>w. filter this (g_regs w))) (\<lambda>gone.
         seq (writes (\<lambda>w. w\<lparr>g_regs := update_rows this (cancel_row now actorId) (g_regs w),
                g_seats := cancel_seats gone (g_seats w),
                g_types := release_from fst snd now (typed_parties gone) (g_types w)\<rparr>)) (\<lambda>_.
         seq (loadRegistrationById event i) (\<lambda>reg.
         ret (case (gone, reg) of
                ([], None) \<Rightarrow> Cancel_not_found | ([], Some _) \<Rightarrow> Already_cancelled
              | (r # _, None) \<Rightarrow> Cancel_not_found | (r # _, Some x) \<Rightarrow> Cancelled x (rg_type r))))))"

definition removeRegistrationIn ::
  "string \<Rightarrow> string \<Rightarrow> string \<Rightarrow> bool \<Rightarrow> int \<Rightarrow> (cancel_outcome \<times> string list) reg_prog" where
  "removeRegistrationIn event i actorId ban now =
     seq (reads (\<lambda>w. find (\<lambda>r. rg_id r = i \<and> rg_event r = event) (g_regs w))) (\<lambda>row.
     case row of
       None \<Rightarrow> ret (Cancel_not_found, [])
     | Some target \<Rightarrow>
         (case (ban, rg_subject target) of
            (True, By_user u) \<Rightarrow> seq (applyBanIn event u actorId now) (\<lambda>applied.
              case find (\<lambda>r. fst r = i) (ab_cancelled applied) of
                None \<Rightarrow> seq (cancelRegistrationIn event i (Some actorId) now) (\<lambda>o'. ret (o', ab_released applied))
              | Some (_, t) \<Rightarrow> seq (loadRegistrationById event i) (\<lambda>reg.
                  ret (case reg of None \<Rightarrow> Cancel_not_found | Some x \<Rightarrow> Cancelled x t, ab_released applied)))
          | _ \<Rightarrow> seq (cancelRegistrationIn event i (Some actorId) now) (\<lambda>o'. ret (o', []))))"

datatype transfer_outcome =
    Transferred registration_record "string option" | Transfer_full | Transfer_party_too_large | Same_type
  | Transfer_type_not_found | Transfer_not_found

text \<open>The refusals come before the first write.\<close>

definition transferRegistrationIn :: "string \<Rightarrow> string \<Rightarrow> string \<Rightarrow> int \<Rightarrow> transfer_outcome reg_prog" where
  "transferRegistrationIn event i typeId now =
     seq (reads (\<lambda>w. (find (\<lambda>e. gv_id e = event) (g_events w),
            find (\<lambda>r. rg_id r = i \<and> rg_event r = event) (g_regs w),
            find (\<lambda>t. ty_id t = typeId \<and> ty_event t = event) (g_types w)))) (\<lambda>(ev, row, target).
     case (ev, row) of
       (Some _, Some r) \<Rightarrow>
         if rg_status r \<noteq> Registered then ret Transfer_not_found
         else if rg_type r = Some typeId then ret Same_type
         else (case target of
           None \<Rightarrow> ret Transfer_type_not_found
         | Some t \<Rightarrow>
             if rg_party r > ty_maxPartySize t then ret Transfer_party_too_large
             else if \<not> has_room (rg_party r) t then ret Transfer_full
             else seq (writes (\<lambda>w. w\<lparr>g_types :=
                    update_rows (\<lambda>x. Some (ty_id x) = rg_type r \<and> ty_event x = event) (release_seats (rg_party r) now)
                      (update_rows (\<lambda>x. ty_id x = typeId \<and> ty_event x = event \<and> has_room (rg_party r) x)
                        (add_seats (rg_party r) now) (g_types w)),
                    g_regs := update_rows (\<lambda>x. rg_id x = i \<and> rg_event x = event)
                      (\<lambda>x. x\<lparr>rg_type := Some typeId, rg_source := Transfer\<rparr>) (g_regs w)\<rparr>)) (\<lambda>_.
                  seq (loadRegistrationById event i) (\<lambda>reg.
                  ret (case reg of None \<Rightarrow> Transfer_not_found | Some x \<Rightarrow> Transferred x (rg_type r)))))
     | _ \<Rightarrow> ret Transfer_not_found)"

definition setHostNote :: "string \<Rightarrow> string \<Rightarrow> string option \<Rightarrow> bool reg_prog" where
  "setHostNote event i note =
     (let this = (\<lambda>r. rg_id r = i \<and> rg_event r = event)
      in seq (reads (\<lambda>w. \<exists>r \<in> set (g_regs w). this r)) (\<lambda>found.
         seq (writes (\<lambda>w. w\<lparr>g_regs := update_rows this (\<lambda>r. r\<lparr>rg_hostNote := note\<rparr>) (g_regs w)\<rparr>)) (\<lambda>_. ret found)))"

subsection \<open>Ticket types (\<open>registration-repository-ticket-types.drizzle.ts\<close>)\<close>

definition MAX_TICKET_TYPES :: nat where "MAX_TICKET_TYPES = 20"

record ticket_type_write =
  tw_event :: string
  tw_name :: string
  tw_description :: "string option"
  tw_capacity :: "nat option"
  tw_salesOpensAt :: "int option"
  tw_salesClosesAt :: "int option"
  tw_visibility :: ticket_visibility
  tw_accessCodeHash :: "string option"
  tw_clearAccessCode :: bool
  tw_maxPartySize :: nat
  tw_sortOrder :: "int option"
  tw_waitlistEnabled :: bool
  tw_now :: int

datatype capacity_fit = Fits | Too_small nat nat   \<comment> \<open>event capacity, used\<close>

definition ticketTypeCapacityFit ::
  "string \<Rightarrow> nat option \<Rightarrow> nat option \<Rightarrow> string option \<Rightarrow> reg_world \<Rightarrow> capacity_fit" where
  "ticketTypeCapacityFit event eventCapacity nextCapacity exclude w =
     (case eventCapacity of
        None \<Rightarrow> Fits
      | Some c \<Rightarrow>
          let others = filter (\<lambda>t. ty_event t = event \<and> Some (ty_id t) \<noteq> exclude) (g_types w);
              used = sum_list (List.map_filter ty_capacity others)
          in if (\<exists>t \<in> set others. ty_capacity t = None) then Too_small c used
             else case nextCapacity of
                    None \<Rightarrow> Too_small c used
                  | Some n \<Rightarrow> if used + n > c then Too_small c used else Fits)"

text \<open>The index on the lower-cased name and the check of the sales window.\<close>

definition type_constraints :: "ticket_type_row list \<Rightarrow> app_error option" where
  "type_constraints types =
     (if \<not> distinct (map (\<lambda>t. (ty_event t, toLowerCase (ty_name t))) types) then Some UniqueViolation
      else if list_all (\<lambda>t. case (ty_salesOpensAt t, ty_salesClosesAt t) of (Some a, Some b) \<Rightarrow> b > a | _ \<Rightarrow> True) types
      then None else Some (PlainError ''cleanup_ticket_types_sales_window''))"

datatype type_outcome =
    Type_written ticket_type_row | Name_taken | Too_many | Capacity_exceeded nat nat | Capacity_below_reserved nat
  | Sales_window_invalid | Type_write_not_found

definition write_types :: "ticket_type_row list \<Rightarrow> ticket_type_row option \<Rightarrow> type_outcome reg_prog" where
  "write_types types result =
     (case type_constraints types of
        Some UniqueViolation \<Rightarrow> ret Name_taken
      | Some _ \<Rightarrow> ret Sales_window_invalid
      | None \<Rightarrow> seq (writes (\<lambda>w. w\<lparr>g_types := types\<rparr>)) (\<lambda>_.
          ret (case result of None \<Rightarrow> Type_write_not_found | Some t \<Rightarrow> Type_written t)))"

definition createTicketType :: "reg_env \<Rightarrow> ticket_type_write \<Rightarrow> type_outcome reg_prog" where
  "createTicketType E a = seq (reads (\<lambda>w. (find (\<lambda>e. gv_id e = tw_event a) (g_events w), w))) (\<lambda>(ev, w0).
     case ev of
       None \<Rightarrow> ret Type_write_not_found
     | Some event \<Rightarrow>
         let mine = filter (\<lambda>t. ty_event t = tw_event a) (g_types w0) in
         if length mine \<ge> MAX_TICKET_TYPES then ret Too_many
         else (case ticketTypeCapacityFit (tw_event a) (gv_capacity event) (tw_capacity a) None w0 of
           Too_small c used \<Rightarrow> ret (Capacity_exceeded c used)
         | Fits \<Rightarrow> seq (draw E) (\<lambda>i.
             let t = \<lparr>ty_id = i, ty_event = tw_event a, ty_name = tw_name a, ty_description = tw_description a,
                  ty_capacity = tw_capacity a, ty_reserved = 0, ty_salesOpensAt = tw_salesOpensAt a,
                  ty_salesClosesAt = tw_salesClosesAt a, ty_visibility = tw_visibility a,
                  ty_accessCodeHash = tw_accessCodeHash a, ty_maxPartySize = tw_maxPartySize a,
                  ty_sortOrder = (case tw_sortOrder a of Some n \<Rightarrow> n
                                  | None \<Rightarrow> (case mine of [] \<Rightarrow> 0 | m # ms \<Rightarrow> fold max (map ty_sortOrder ms) (ty_sortOrder m) + 1)),
                  ty_waitlistEnabled = tw_waitlistEnabled a, ty_updatedAt = tw_now a\<rparr>
             in write_types (g_types w0 @ [t]) (Some t))))"

text \<open>The columns a patch may name.\<close>

datatype type_column =
  Col_name | Col_description | Col_capacity | Col_salesOpensAt | Col_salesClosesAt | Col_visibility
  | Col_maxPartySize | Col_sortOrder | Col_waitlistEnabled

definition patch_type :: "type_column list \<Rightarrow> ticket_type_write \<Rightarrow> ticket_type_row \<Rightarrow> ticket_type_row" where
  "patch_type patch a t =
     (let pick = (\<lambda>c. c \<in> set patch) in
      t\<lparr>ty_name := (if pick Col_name then tw_name a else ty_name t),
        ty_description := (if pick Col_description then tw_description a else ty_description t),
        ty_capacity := (if pick Col_capacity then tw_capacity a else ty_capacity t),
        ty_salesOpensAt := (if pick Col_salesOpensAt then tw_salesOpensAt a else ty_salesOpensAt t),
        ty_salesClosesAt := (if pick Col_salesClosesAt then tw_salesClosesAt a else ty_salesClosesAt t),
        ty_visibility := (if pick Col_visibility then tw_visibility a else ty_visibility t),
        ty_accessCodeHash := (if tw_clearAccessCode a then None
          else (case tw_accessCodeHash a of Some h \<Rightarrow> Some h | None \<Rightarrow> ty_accessCodeHash t)),
        ty_maxPartySize := (if pick Col_maxPartySize then tw_maxPartySize a else ty_maxPartySize t),
        ty_sortOrder := (case tw_sortOrder a of Some n \<Rightarrow> if pick Col_sortOrder then n else ty_sortOrder t
                         | None \<Rightarrow> ty_sortOrder t),
        ty_waitlistEnabled := (if pick Col_waitlistEnabled then tw_waitlistEnabled a else ty_waitlistEnabled t),
        ty_updatedAt := tw_now a\<rparr>)"

definition updateTicketType :: "string \<Rightarrow> type_column list \<Rightarrow> ticket_type_write \<Rightarrow> type_outcome reg_prog" where
  "updateTicketType i patch a =
     (let this = (\<lambda>t. ty_id t = i \<and> ty_event t = tw_event a) in
      seq (reads (\<lambda>w. (find (\<lambda>e. gv_id e = tw_event a) (g_events w), find this (g_types w), w))) (\<lambda>(ev, row, w0).
      case (ev, row) of
        (Some event, Some t) \<Rightarrow>
          if Col_capacity \<in> set patch \<and> (case tw_capacity a of None \<Rightarrow> False | Some c \<Rightarrow> c < ty_reserved t)
          then ret (Capacity_below_reserved (ty_reserved t))
          else (case (if Col_capacity \<in> set patch
                      then ticketTypeCapacityFit (tw_event a) (gv_capacity event) (tw_capacity a) (Some i) w0 else Fits) of
            Too_small c used \<Rightarrow> ret (Capacity_exceeded c used)
          | Fits \<Rightarrow> write_types (update_rows this (patch_type patch a) (g_types w0)) (Some (patch_type patch a t)))
      | _ \<Rightarrow> ret Type_write_not_found))"

datatype delete_outcome = Deleted | In_use | Delete_not_found

definition deleteTicketType :: "string \<Rightarrow> string \<Rightarrow> delete_outcome reg_prog" where
  "deleteTicketType event i =
     (let this = (\<lambda>t. ty_id t = i \<and> ty_event t = event) in
      seq (reads (\<lambda>w. (find this (g_types w),
             (\<exists>r \<in> set (g_regs w). rg_event r = event \<and> rg_type r = Some i)
             \<or> (\<exists>e \<in> set (g_waitlist w). wl_event e = event \<and> wl_type e = i)))) (\<lambda>(row, used).
      if row = None then ret Delete_not_found
      else if used then ret In_use
      else seq (writes (\<lambda>w. w\<lparr>g_types := filter (\<lambda>t. \<not> this t) (g_types w)\<rparr>)) (\<lambda>_. ret Deleted)))"

text \<open>The last position of a repeated identifier wins.\<close>

definition position_of :: "string list \<Rightarrow> string \<Rightarrow> nat" where
  "position_of ids i = fold (\<lambda>(n, x) p. if x = i then n else p) (enumerate 0 ids) 0"

definition reorderTicketTypes :: "string \<Rightarrow> string list \<Rightarrow> int \<Rightarrow> ticket_type_row list option reg_prog" where
  "reorderTicketTypes event ids now =
     seq (reads (\<lambda>w. map ty_id (filter (\<lambda>t. ty_event t = event) (g_types w)))) (\<lambda>existing.
     if set existing \<noteq> set ids then ret None
     else seq (writes (\<lambda>w. w\<lparr>g_types := update_rows (\<lambda>t. ty_event t = event \<and> ty_id t \<in> set ids)
            (\<lambda>t. t\<lparr>ty_sortOrder := int (position_of ids (ty_id t)), ty_updatedAt := now\<rparr>) (g_types w)\<rparr>)) (\<lambda>_.
          reads (\<lambda>w. Some (sort_key (\<lambda>t. (ty_sortOrder t, ty_id t)) (filter (\<lambda>t. ty_event t = event) (g_types w))))))"

end
