(* ===== verification/Registration_Desk.thy ===== *)
theory Registration_Desk
  imports Registration_Roster
begin

section \<open>Check-in, the services and the other writers (\<open>services/host/\<close>)\<close>

text \<open>
  Check-in (\<open>registration-repository-checkin.drizzle.ts\<close>), the waitlist's service (\<open>waitlist-service.ts\<close>,
  \<open>waitlist-promotion.ts\<close>), the operations of \<open>registration-service.ts\<close> that free seats, and the statements of the
  cleanup, guest and erasure repositories that write registrations, the waitlist or ticket types.
\<close>

subsection \<open>Check-in (\<open>registration-repository-checkin.drizzle.ts\<close>)\<close>

datatype checkin_outcome = Checked_in | Already_checked_in | Unknown_token | Wrong_event | Seat_was_cancelled | Marked_no_show

record checkin_result =
  cr_outcome :: checkin_outcome
  cr_firstTime :: bool
  cr_seat :: "seat_row option"
  cr_registration :: "registration_record option"

definition emptyCheckinResult :: "checkin_outcome \<Rightarrow> checkin_result" where
  "emptyCheckinResult o' = \<lparr>cr_outcome = o', cr_firstTime = False, cr_seat = None, cr_registration = None\<rparr>"

definition stamp_seat :: "string \<Rightarrow> string \<Rightarrow> int \<Rightarrow> seat_row \<Rightarrow> seat_row" where
  "stamp_seat actorId meth now s =
     s\<lparr>se_checkedInAt := (case se_checkedInAt s of Some t \<Rightarrow> Some t | None \<Rightarrow> Some now),
       se_checkedInBy := (case se_checkedInBy s of Some a \<Rightarrow> Some a | None \<Rightarrow> Some actorId),
       se_method := (case se_method s of Some m \<Rightarrow> Some m | None \<Rightarrow> Some meth)\<rparr>"

definition checkedInResult :: "string \<Rightarrow> bool \<Rightarrow> seat_row \<Rightarrow> checkin_result reg_prog" where
  "checkedInResult event firstTime s = seq (loadRegistrationById event (se_registration s)) (\<lambda>reg.
     ret \<lparr>cr_outcome = (if firstTime then Checked_in else Already_checked_in), cr_firstTime = firstTime,
          cr_seat = Some s, cr_registration = reg\<rparr>)"

definition unscannableTokenResult :: "string \<Rightarrow> string \<Rightarrow> checkin_result reg_prog" where
  "unscannableTokenResult event tokenHash = reads (\<lambda>w. emptyCheckinResult
     (case find (\<lambda>s. se_tokenHash s = tokenHash) (g_seats w) of
        None \<Rightarrow> Unknown_token
      | Some s \<Rightarrow> if se_event s \<noteq> event then Wrong_event
                  else if se_status s = Seat_cancelled then Seat_was_cancelled
                  else if se_noShowAt s \<noteq> None then Marked_no_show else Unknown_token))"

definition stamp_target ::
  "string \<Rightarrow> (seat_row \<Rightarrow> bool) \<Rightarrow> (seat_row \<Rightarrow> seat_row) \<Rightarrow> checkin_result reg_prog \<Rightarrow> checkin_result reg_prog" where
  "stamp_target event target stamp otherwise = seq (reads (\<lambda>w. find target (g_seats w))) (\<lambda>row.
     case row of
       None \<Rightarrow> otherwise
     | Some s \<Rightarrow> seq (writes (\<lambda>w. w\<lparr>g_seats := update_rows (\<lambda>x. se_id x = se_id s) stamp (g_seats w)\<rparr>)) (\<lambda>_.
         checkedInResult event (se_checkedInAt s = None) (stamp s)))"

definition checkInByToken :: "string \<Rightarrow> string \<Rightarrow> string \<Rightarrow> string \<Rightarrow> int \<Rightarrow> checkin_result reg_prog" where
  "checkInByToken event tokenHash actorId meth now = stamp_target event
     (\<lambda>s. se_tokenHash s = tokenHash \<and> se_event s = event \<and> se_status s = Seat_active \<and> se_noShowAt s = None)
     (stamp_seat actorId meth now) (unscannableTokenResult event tokenHash)"

definition checkInSeat :: "string \<Rightarrow> string \<Rightarrow> string \<Rightarrow> string \<Rightarrow> int \<Rightarrow> checkin_result reg_prog" where
  "checkInSeat event seatId actorId meth now = stamp_target event
     (\<lambda>s. se_id s = seatId \<and> se_event s = event \<and> se_status s = Seat_active)
     (\<lambda>s. (stamp_seat actorId meth now s)\<lparr>se_noShowAt := None\<rparr>)
     (reads (\<lambda>w. emptyCheckinResult
        (if (\<exists>s \<in> set (g_seats w). se_id s = seatId \<and> se_event s = event) then Seat_was_cancelled else Unknown_token)))"

definition undoCheckIn :: "string \<Rightarrow> string \<Rightarrow> seat_row option reg_prog" where
  "undoCheckIn event seatId =
     (let this = (\<lambda>s. se_id s = seatId \<and> se_event s = event);
          clear = (\<lambda>s. s\<lparr>se_checkedInAt := None, se_checkedInBy := None, se_method := None, se_coarsenedAt := None\<rparr>)
      in seq (reads (\<lambda>w. find this (g_seats w))) (\<lambda>row.
         seq (writes (\<lambda>w. w\<lparr>g_seats := update_rows this clear (g_seats w)\<rparr>)) (\<lambda>_. ret (map_option clear row))))"

definition mark_no_show :: "int \<Rightarrow> (seat_row \<Rightarrow> bool) \<Rightarrow> nat reg_prog" where
  "mark_no_show now absent = seq (reads (\<lambda>w. length (filter absent (g_seats w)))) (\<lambda>n.
     seq (writes (\<lambda>w. w\<lparr>g_seats := update_rows absent (\<lambda>s. s\<lparr>se_noShowAt := Some now\<rparr>) (g_seats w)\<rparr>)) (\<lambda>_. ret n))"

definition no_show_open :: "seat_row \<Rightarrow> bool" where
  "no_show_open s \<longleftrightarrow> se_status s = Seat_active \<and> se_checkedInAt s = None \<and> se_noShowAt s = None"

definition markNoShows :: "string \<Rightarrow> string list option \<Rightarrow> int \<Rightarrow> nat reg_prog" where
  "markNoShows event seatIds now = mark_no_show now
     (\<lambda>s. se_event s = event \<and> no_show_open s \<and> (case seatIds of None \<Rightarrow> True | Some ids \<Rightarrow> se_id s \<in> set ids))"

definition NO_SHOW_GRACE_MS :: int where "NO_SHOW_GRACE_MS = 7200000"

definition sweepNoShows :: "int \<Rightarrow> nat \<Rightarrow> nat reg_prog" where
  "sweepNoShows now limit = seq (reads (\<lambda>w. map se_id (take limit (sort_key se_createdAt (filter (\<lambda>s. no_show_open s
       \<and> (\<exists>c \<in> set (g_events w). gv_id c = se_event s \<and> \<not> gv_cancelled c
            \<and> (case gv_endsAt c of None \<Rightarrow> False | Some t \<Rightarrow> t \<le> now - NO_SHOW_GRACE_MS))) (g_seats w)))))) (\<lambda>ids.
     mark_no_show now (\<lambda>s. se_id s \<in> set ids))"

subsection \<open>Promotion (\<open>waitlist-promotion.ts\<close>, \<open>waitlist-service.ts\<close>)\<close>

definition WAITLIST_CLAIM_WINDOW_MS :: int where "WAITLIST_CLAIM_WINDOW_MS = 24 * 60 * 60 * 1000"
definition WAITLIST_EXPIRE_BATCH :: nat where "WAITLIST_EXPIRE_BATCH = 500"
definition WAITLIST_PROMOTE_MAX_PER_RUN :: nat where "WAITLIST_PROMOTE_MAX_PER_RUN = 50"

definition enqueueWaitlistPromotion :: "reg_env \<Rightarrow> string option list \<Rightarrow> unit reg_prog" where
  "enqueueWaitlistPromotion E ids =
     writes (\<lambda>w. w\<lparr>g_jobs := g_jobs w @ filter (re_enqueues E)
       (rev (remdups (rev (filter (\<lambda>i. i \<noteq> []) (List.map_filter id ids)))))\<rparr>)"

definition eventChanged :: "string \<Rightarrow> unit reg_prog" where
  "eventChanged event = writes (\<lambda>w. w\<lparr>g_changed := g_changed w @ [event]\<rparr>)"

definition audit_row :: "string \<Rightarrow> string \<Rightarrow> unit reg_prog" where
  "audit_row action target = writes (\<lambda>w. w\<lparr>g_audits := g_audits w @ [(action, target)]\<rparr>)"

definition notifyOffered :: "reg_env \<Rightarrow> waitlist_offer \<Rightarrow> unit reg_prog" where
  "notifyOffered E offer =
     (if re_notifies E (wl_subject (of_entry offer))
      then writes (\<lambda>w. w\<lparr>g_notices := g_notices w @ [wl_subject (of_entry offer)]\<rparr>) else ret ())"

definition waitlist_join :: "reg_env \<Rightarrow> join_args \<Rightarrow> waitlist_row reg_prog" where
  "waitlist_join E a = seq (joinWaitlist E a) (\<lambda>outcome.
     case outcome of
       Joined e \<Rightarrow> seq (eventChanged (ja_event a)) (\<lambda>_. ret e)
     | Already_waiting e \<Rightarrow> seq (eventChanged (ja_event a)) (\<lambda>_. ret e)
     | Join_registered \<Rightarrow> raise (ConflictErr (Some ''You are already registered for this event.''))
     | Waitlist_disabled \<Rightarrow> raise (ConflictErr (Some ''This ticket type has no waitlist.''))
     | Join_code_required \<Rightarrow> raise (ValidationErr [(''accessCode'', ''required for this ticket type'')] None)
     | Join_code_invalid \<Rightarrow> raise (ValidationErr [(''accessCode'', ''that code is not valid for this ticket type'')] None)
     | Join_type_not_found \<Rightarrow> raise (NotFound (Some ''Ticket type not found''))
     | Join_banned \<Rightarrow> raise (Forbidden (Some ''A host removed you from this event.''))
     | Join_closed \<Rightarrow> raise (ConflictErr (Some ''This event is closed.''))
     | Join_ended \<Rightarrow> raise (ConflictErr (Some ''This event has already ended.''))
     | Join_not_found \<Rightarrow> raise (NotFound (Some ''Cleanup not found'')))"

definition waitlist_leave :: "reg_env \<Rightarrow> string \<Rightarrow> string option \<Rightarrow> registration_subject \<Rightarrow> int \<Rightarrow> unit reg_prog" where
  "waitlist_leave E event typeId s now = seq (leaveWaitlist event typeId s now) (\<lambda>(left, released).
     seq (enqueueWaitlistPromotion E (map Some released)) (\<lambda>_. if left > 0 then eventChanged event else ret ()))"

definition waitlist_claim :: "reg_env \<Rightarrow> claim_args \<Rightarrow> claim_outcome reg_prog" where
  "waitlist_claim E a =
     seq (reads (\<lambda>w. find (\<lambda>e. wl_id e = ca_waitlist a \<and> wl_event e = ca_event a) (g_waitlist w))) (\<lambda>row.
     case row of
       None \<Rightarrow> ret Claim_not_found
     | Some e \<Rightarrow> seq (claimWaitlistOffer E a) (\<lambda>outcome.
         seq (case outcome of
                Claim_claimed _ \<Rightarrow> eventChanged (ca_event a)
              | Claim_expired \<Rightarrow> enqueueWaitlistPromotion E [Some (wl_type e)]
              | _ \<Rightarrow> ret ()) (\<lambda>_. ret outcome)))"

definition waitlist_promote :: "reg_env \<Rightarrow> string \<Rightarrow> string \<Rightarrow> int \<Rightarrow> waitlist_row reg_prog" where
  "waitlist_promote E event i now =
     (let entry = (\<lambda>w. find (\<lambda>e. wl_id e = i \<and> wl_event e = event) (g_waitlist w)) in
      seq (reads entry) (\<lambda>row.
      case row of
        None \<Rightarrow> raise (NotFound (Some ''Waitlist entry not found''))
      | Some e \<Rightarrow>
          if wl_status e \<noteq> Waiting then raise (ConflictErr (Some ''That waitlist entry is no longer waiting.''))
          else seq (offerWaitlistEntry E event i now WAITLIST_CLAIM_WINDOW_MS) (\<lambda>offer.
            case offer of
              None \<Rightarrow> raise (ConflictErr (Some ''That ticket type has no room to promote into.''))
            | Some x \<Rightarrow> seq (notifyOffered E x) (\<lambda>_. seq (audit_row ''event.waitlist_promoted'' (''waitlist:'' @ i)) (\<lambda>_.
                seq (eventChanged event) (\<lambda>_. seq (reads entry) (\<lambda>promoted.
                case promoted of None \<Rightarrow> raise (NotFound (Some ''Waitlist entry not found'')) | Some p \<Rightarrow> ret p)))))))"

primrec promote_rounds :: "reg_env \<Rightarrow> string \<Rightarrow> int \<Rightarrow> nat \<Rightarrow> nat \<Rightarrow> nat reg_prog" where
  "promote_rounds E typeId now 0 offered = ret offered"
| "promote_rounds E typeId now (Suc n) offered = seq (offerNextWaitlistEntry E typeId now WAITLIST_CLAIM_WINDOW_MS) (\<lambda>offer.
     case offer of
       None \<Rightarrow> ret offered
     | Some x \<Rightarrow> seq (notifyOffered E x) (\<lambda>_. seq (eventChanged (wl_event (of_entry x))) (\<lambda>_.
         promote_rounds E typeId now n (Suc offered))))"

definition runPromote :: "reg_env \<Rightarrow> string \<Rightarrow> int \<Rightarrow> nat reg_prog" where
  "runPromote E typeId now = promote_rounds E typeId now WAITLIST_PROMOTE_MAX_PER_RUN 0"

definition runExpireSweep :: "reg_env \<Rightarrow> int \<Rightarrow> nat reg_prog" where
  "runExpireSweep E now = seq (expireWaitlistOffers now WAITLIST_EXPIRE_BATCH) (\<lambda>ids.
     seq (enqueueWaitlistPromotion E (map Some ids)) (\<lambda>_. ret (length ids)))"

subsection \<open>Freeing seats (\<open>registration-service.ts\<close>)\<close>

definition REGISTRATION_NOT_FOUND :: string where "REGISTRATION_NOT_FOUND = ''Registration not found''"

definition registration_cancel ::
  "reg_env \<Rightarrow> string \<Rightarrow> string \<Rightarrow> string \<Rightarrow> bool \<Rightarrow> int \<Rightarrow> registration_record option reg_prog" where
  "registration_cancel E event i actorId byHost now = seq (cancelRegistrationIn event i (Some actorId) now) (\<lambda>outcome.
     case outcome of
       Cancel_not_found \<Rightarrow> raise (NotFound (Some REGISTRATION_NOT_FOUND))
     | Already_cancelled \<Rightarrow> ret None
     | Cancelled r typeId \<Rightarrow> seq (enqueueWaitlistPromotion E [typeId]) (\<lambda>_. seq (eventChanged event) (\<lambda>_.
         seq (if byHost then audit_row ''event.attendee_removed'' (''registration:'' @ i) else ret ()) (\<lambda>_. ret (Some r)))))"

definition registration_remove :: "reg_env \<Rightarrow> string \<Rightarrow> string \<Rightarrow> string \<Rightarrow> bool \<Rightarrow> int \<Rightarrow> unit reg_prog" where
  "registration_remove E event i actorId ban now = seq (removeRegistrationIn event i actorId ban now) (\<lambda>(outcome, released).
     if outcome = Cancel_not_found then raise (NotFound (Some REGISTRATION_NOT_FOUND))
     else let typeId = (case outcome of Cancelled _ t \<Rightarrow> t | _ \<Rightarrow> None);
              isCancelled = (case outcome of Cancelled _ _ \<Rightarrow> True | _ \<Rightarrow> False)
          in seq (enqueueWaitlistPromotion E (typeId # map Some released)) (\<lambda>_.
             seq (if isCancelled \<or> released \<noteq> [] then eventChanged event else ret ()) (\<lambda>_.
             audit_row ''event.attendee_removed'' (''registration:'' @ i))))"

definition registration_transfer ::
  "reg_env \<Rightarrow> string \<Rightarrow> string \<Rightarrow> string \<Rightarrow> int \<Rightarrow> registration_record reg_prog" where
  "registration_transfer E event i typeId now = seq (transferRegistrationIn event i typeId now) (\<lambda>outcome.
     case outcome of
       Transferred r previous \<Rightarrow> seq (enqueueWaitlistPromotion E [previous]) (\<lambda>_. seq (eventChanged event) (\<lambda>_.
         seq (audit_row ''event.attendee_transferred'' (''registration:'' @ i)) (\<lambda>_. ret r)))
     | Transfer_full \<Rightarrow> raise (ConflictErr (Some ''That ticket type is full.''))
     | Transfer_party_too_large \<Rightarrow> raise (ConflictErr (Some ''That ticket type does not allow a party this size.''))
     | Same_type \<Rightarrow> raise (ConflictErr (Some ''The registration is already on that ticket type.''))
     | Transfer_type_not_found \<Rightarrow> raise (NotFound (Some ''Ticket type not found''))
     | Transfer_not_found \<Rightarrow> raise (NotFound (Some REGISTRATION_NOT_FOUND)))"

subsection \<open>The other writers\<close>

text \<open>\<open>guest-rsvp-repository.drizzle.ts\<close>; what the guest's registrations and offers hold is summed first.\<close>

definition cancelGuest :: "string \<Rightarrow> int \<Rightarrow> string list reg_prog" where
  "cancelGuest guestId now =
     (let this = (\<lambda>g. gu_id g = guestId \<and> gu_cancelledAt g = None);
          regs_of = (\<lambda>r. rg_subject r = By_guest guestId \<and> rg_status r = Registered);
          entries_of = (\<lambda>e. wl_subject e = By_guest guestId \<and> live e)
      in seq (reads (\<lambda>w. (find this (g_guests w), filter regs_of (g_regs w), filter entries_of (g_waitlist w)))) (\<lambda>(g, regs, entries).
         case g of
           None \<Rightarrow> ret []
         | Some _ \<Rightarrow>
             let held = held_by_type (typed_parties regs
                   @ map (\<lambda>e. (wl_type e, wl_party e)) (filter (\<lambda>e. wl_offeredAt e \<noteq> None) entries))
             in seq (writes (\<lambda>w. w\<lparr>g_guests := update_rows this (\<lambda>g. g\<lparr>gu_cancelledAt := Some now\<rparr>) (g_guests w),
                    g_regs := update_rows regs_of
                      (\<lambda>r. r\<lparr>rg_status := Cancelled_registration, rg_cancelledAt := Some now\<rparr>) (g_regs w),
                    g_seats := update_rows (\<lambda>s. se_registration s \<in> rg_id ` set regs \<and> se_status s = Seat_active)
                      (\<lambda>s. s\<lparr>se_status := Seat_cancelled, se_attendeeName := None\<rparr>) (g_seats w),
                    g_waitlist := update_rows entries_of (\<lambda>e. e\<lparr>wl_status := Withdrawn\<rparr>) (g_waitlist w),
                    g_types := release_from fst snd now held (g_types w)\<rparr>)) (\<lambda>_.
                reads (\<lambda>w. map ty_id (filter (\<lambda>t. ty_id t \<in> fst ` set held) (g_types w))))))"

text \<open>The waitlist part of \<open>scrubAttendeeContributions\<close> (\<open>erasure-repository.drizzle.ts\<close>).\<close>

definition scrubWaitlist :: "string \<Rightarrow> string list reg_prog" where
  "scrubWaitlist user =
     (let entries_of = (\<lambda>e. wl_subject e = By_user user \<and> live e)
      in seq (reads (\<lambda>w. (clock w, filter entries_of (g_waitlist w)))) (\<lambda>(now, entries).
         let held = held_by_type (map (\<lambda>e. (wl_type e, wl_party e)) (filter (\<lambda>e. wl_offeredAt e \<noteq> None) entries))
         in seq (writes (\<lambda>w. w\<lparr>g_waitlist := update_rows entries_of (\<lambda>e. e\<lparr>wl_status := Withdrawn\<rparr>) (g_waitlist w),
                g_types := release_from fst snd now held (g_types w)\<rparr>)) (\<lambda>_.
            reads (\<lambda>w. map ty_id (filter (\<lambda>t. ty_id t \<in> fst ` set held) (g_types w))))))"

text \<open>\<open>cleanup-repository.drizzle.ts\<close>: the registration of somebody who joins an event without ticket types.\<close>

definition ensureSignupRegistrationIn ::
  "reg_env \<Rightarrow> string \<Rightarrow> string \<Rightarrow> string \<Rightarrow> string \<Rightarrow> int \<Rightarrow> string option reg_prog" where
  "ensureSignupRegistrationIn E event user seatId tokenHash now =
     (let a = \<lparr>ra_event = event, ra_subject = By_user user, ra_type = None,
               ra_seats = [\<lparr>sd_id = seatId, sd_attendeeName = None, sd_tokenHash = tokenHash\<rparr>], ra_accessCodeHash = None,
               ra_answers = [], ra_consent = None, ra_slot = None, ra_source = Self, ra_key = [], ra_owner = None,
               ra_waitlist = None, ra_now = now\<rparr>
      in seq (reads (\<lambda>w. ((\<exists>t \<in> set (g_types w). ty_event t = event),
               (\<exists>r \<in> set (g_regs w). registered_for event (By_user user) r)))) (\<lambda>(typed, there).
         if typed \<or> there then ret None
         else seq (insertRegistrationRow E a None) (\<lambda>i. seq (insertSeatRows a i) (\<lambda>_. ret (Some i)))))"

definition cancelSignupRegistrationIn :: "string \<Rightarrow> string \<Rightarrow> string option \<Rightarrow> int \<Rightarrow> bool reg_prog" where
  "cancelSignupRegistrationIn event user actorId now =
     (let mine = (\<lambda>r. registered_for event (By_user user) r \<and> rg_type r = None)
      in seq (reads (\<lambda>w. filter mine (g_regs w))) (\<lambda>gone.
         seq (writes (\<lambda>w. w\<lparr>g_regs := update_rows mine (cancel_row now actorId) (g_regs w),
                g_seats := cancel_seats gone (g_seats w)\<rparr>)) (\<lambda>_. ret (gone \<noteq> []))))"

text \<open>The ticket types of a duplicated event start empty.\<close>

definition copy_type :: "string \<Rightarrow> int \<Rightarrow> string \<Rightarrow> ticket_type_row \<Rightarrow> ticket_type_row" where
  "copy_type event now i t =
     (let ahead = (\<lambda>x. case x of None \<Rightarrow> None | Some d \<Rightarrow> if d > now then Some d else None)
      in t\<lparr>ty_id := i, ty_event := event, ty_reserved := 0, ty_salesOpensAt := ahead (ty_salesOpensAt t),
           ty_salesClosesAt := ahead (ty_salesClosesAt t), ty_updatedAt := now\<rparr>)"

fun copy_types :: "reg_env \<Rightarrow> string \<Rightarrow> ticket_type_row list \<Rightarrow> string list reg_prog" where
  "copy_types E event [] = ret []"
| "copy_types E event (t # ts) = seq (draw E) (\<lambda>i.
     seq (writes (\<lambda>w. w\<lparr>g_types := g_types w @ [copy_type event (clock w) i t]\<rparr>)) (\<lambda>_.
     seq (copy_types E event ts) (\<lambda>is. ret (i # is))))"

definition copyTicketTypesInTx :: "reg_env \<Rightarrow> bool \<Rightarrow> nat \<Rightarrow> string \<Rightarrow> string \<Rightarrow> (string list \<times> string list) reg_prog" where
  "copyTicketTypesInTx E ticketTypes limit event source =
     (if \<not> ticketTypes then ret ([], []) else
     seq (reads (\<lambda>w. take limit (sort_key (\<lambda>t. (ty_sortOrder t, ty_id t)) (filter (\<lambda>t. ty_event t = source) (g_types w))))) (\<lambda>rows.
     seq (copy_types E event rows) (\<lambda>new_ids. ret (map ty_id rows, new_ids))))"

end
