(* ===== verification/Registration_Laws.thy ===== *)
theory Registration_Laws
  imports Registration_Desk "HOL-Library.Multiset"
begin

section \<open>Seats that are held and seats that are reserved\<close>

text \<open>
  A ticket type's \<open>reserved_seats\<close> is a counter kept beside the rows it counts: the registrations of the type and the
  offers made from its waitlist.  The invariant says that the counter covers those rows and stays within the
  capacity, and that the rows keep their identifiers, their events and their unique indexes.  With \<open>exact\<close> the
  counter is equal to the rows.  A credit stands for seats that a transaction has taken off the waitlist and not
  yet registered.
\<close>

definition reg_held :: "string \<Rightarrow> registration_row list \<Rightarrow> nat" where
  "reg_held i regs = sum_list (map rg_party (filter (\<lambda>r. rg_status r = Registered \<and> rg_type r = Some i) regs))"

definition offer_held :: "string \<Rightarrow> waitlist_row list \<Rightarrow> nat" where
  "offer_held i ws = sum_list (map wl_party (filter (\<lambda>e. wl_status e = Offered \<and> wl_type e = i) ws))"

definition held :: "string \<Rightarrow> registration_row list \<Rightarrow> waitlist_row list \<Rightarrow> nat" where
  "held i rs ws = reg_held i rs + offer_held i ws"

definition covers :: "bool \<Rightarrow> nat \<Rightarrow> ticket_type_row \<Rightarrow> bool" where
  "covers exact h t \<longleftrightarrow> h \<le> ty_reserved t \<and> (exact \<longrightarrow> h = ty_reserved t)
     \<and> (case ty_capacity t of None \<Rightarrow> True | Some c \<Rightarrow> ty_reserved t \<le> c)"

definition acct ::
  "bool \<Rightarrow> (string \<Rightarrow> nat) \<Rightarrow> ticket_type_row list \<Rightarrow> registration_row list \<Rightarrow> waitlist_row list \<Rightarrow> bool" where
  "acct exact credit ts rs ws \<longleftrightarrow> (\<forall>t \<in> set ts. covers exact (held (ty_id t) rs ws + credit (ty_id t)) t)"

definition drawn_id :: "reg_env \<Rightarrow> nat \<Rightarrow> string \<Rightarrow> bool" where
  "drawn_id E n i \<longleftrightarrow> (\<exists>k < n. i = re_uuid E k)"

definition types_ok :: "reg_env \<Rightarrow> nat \<Rightarrow> ticket_type_row list \<Rightarrow> bool" where
  "types_ok E n ts \<longleftrightarrow> distinct (map ty_id ts) \<and> (\<forall>t \<in> set ts. drawn_id E n (ty_id t))"

definition registered :: "registration_row \<Rightarrow> bool" where
  "registered r \<longleftrightarrow> rg_status r = Registered"

definition regs_ok :: "reg_env \<Rightarrow> nat \<Rightarrow> registration_row list \<Rightarrow> bool" where
  "regs_ok E n rs \<longleftrightarrow> distinct (map rg_id rs)
     \<and> distinct (map (\<lambda>r. (rg_event r, rg_subject r)) (filter registered rs))
     \<and> (\<forall>r \<in> set rs. drawn_id E n (rg_id r) \<and> (\<forall>i. rg_type r = Some i \<longrightarrow> drawn_id E n i))"

definition entry_ok :: "waitlist_row \<Rightarrow> bool" where
  "entry_ok e \<longleftrightarrow> (wl_status e = Waiting \<longrightarrow> wl_offeredAt e = None)
     \<and> (wl_status e = Offered \<or> wl_status e = Claimed \<longrightarrow> wl_offeredAt e \<noteq> None)"

definition waitlist_ok :: "reg_env \<Rightarrow> nat \<Rightarrow> waitlist_row list \<Rightarrow> bool" where
  "waitlist_ok E n ws \<longleftrightarrow> distinct (map wl_id ws)
     \<and> distinct (map (\<lambda>e. (wl_type e, wl_subject e)) (filter live ws))
     \<and> (\<forall>e \<in> set ws. drawn_id E n (wl_id e) \<and> drawn_id E n (wl_type e) \<and> entry_ok e)"

text \<open>A registration and a waitlist entry belong to the event of their ticket type.\<close>

definition placed :: "ticket_type_row list \<Rightarrow> registration_row list \<Rightarrow> waitlist_row list \<Rightarrow> bool" where
  "placed ts rs ws \<longleftrightarrow> (\<forall>t \<in> set ts. (\<forall>r \<in> set rs. rg_type r = Some (ty_id t) \<longrightarrow> ty_event t = rg_event r)
     \<and> (\<forall>e \<in> set ws. wl_type e = ty_id t \<longrightarrow> ty_event t = wl_event e))"

definition tables_ok ::
  "reg_env \<Rightarrow> nat \<Rightarrow> ticket_type_row list \<Rightarrow> registration_row list \<Rightarrow> waitlist_row list \<Rightarrow> bool" where
  "tables_ok E n ts rs ws \<longleftrightarrow> inj (re_uuid E) \<and> types_ok E n ts \<and> regs_ok E n rs \<and> waitlist_ok E n ws \<and> placed ts rs ws"

definition booked :: "bool \<Rightarrow> reg_env \<Rightarrow> reg_world \<Rightarrow> bool" where
  "booked exact E w \<longleftrightarrow> tables_ok E (g_drawn w) (g_types w) (g_regs w) (g_waitlist w)
     \<and> acct exact (\<lambda>_. 0) (g_types w) (g_regs w) (g_waitlist w)"

subsection \<open>Rows that keep their keys\<close>

definition type_kept :: "ticket_type_row \<Rightarrow> ticket_type_row \<Rightarrow> bool" where
  "type_kept t t' \<longleftrightarrow> ty_id t' = ty_id t \<and> ty_event t' = ty_event t"

definition reg_kept :: "ticket_type_row list \<Rightarrow> registration_row \<Rightarrow> registration_row \<Rightarrow> bool" where
  "reg_kept ts r r' \<longleftrightarrow> rg_id r' = rg_id r \<and> rg_event r' = rg_event r \<and> rg_subject r' = rg_subject r
     \<and> (registered r' \<longrightarrow> registered r)
     \<and> (rg_type r' = rg_type r \<or> (\<exists>t \<in> set ts. rg_type r' = Some (ty_id t) \<and> ty_event t = rg_event r))"

definition entry_kept :: "waitlist_row \<Rightarrow> waitlist_row \<Rightarrow> bool" where
  "entry_kept e e' \<longleftrightarrow> wl_id e' = wl_id e \<and> wl_event e' = wl_event e \<and> wl_type e' = wl_type e \<and> wl_subject e' = wl_subject e
     \<and> (live e' \<longrightarrow> live e) \<and> (entry_ok e \<longrightarrow> entry_ok e')"

lemma rows_same: "(\<And>x. R x x) \<Longrightarrow> list_all2 R xs xs"
  by (simp add: list_all2_refl)

lemma rows_updated:
  "(\<And>x. R x x) \<Longrightarrow> (\<And>x. x \<in> set xs \<Longrightarrow> P x \<Longrightarrow> R x (f x)) \<Longrightarrow> list_all2 R xs (update_rows P f xs)"
  by (induction xs) (auto simp: update_rows_def)

lemma kept_refl [simp]: "type_kept t t" "reg_kept ts r r" "entry_kept e e"
  by (auto simp: type_kept_def reg_kept_def entry_kept_def)

lemma list_all2_keys: "list_all2 R xs ys \<Longrightarrow> (\<And>x y. R x y \<Longrightarrow> k y = k x) \<Longrightarrow> map k ys = map k xs"
  by (induction rule: list_all2_induct) auto

lemma list_all2_ex: "list_all2 R xs ys \<Longrightarrow> y \<in> set ys \<Longrightarrow> \<exists>x \<in> set xs. R x y"
  by (induction rule: list_all2_induct) auto

lemma filtered_keys:
  assumes "list_all2 R xs ys" "\<And>x y. R x y \<Longrightarrow> Q y \<Longrightarrow> P x" "\<And>x y. R x y \<Longrightarrow> k y = k x"
  shows "set (map k (filter Q ys)) \<subseteq> set (map k (filter P xs))"
  using list_all2_ex [OF assms(1)] assms(2,3) by fastforce

lemma distinct_filtered_keys:
  assumes "list_all2 R xs ys" "\<And>x y. R x y \<Longrightarrow> Q y \<Longrightarrow> P x" "\<And>x y. R x y \<Longrightarrow> k y = k x"
    and "distinct (map k (filter P xs))"
  shows "distinct (map k (filter Q ys))"
  using assms(1,4)
proof (induction rule: list_all2_induct)
  case (Cons x xs y ys)
  have sub: "set (map k (filter Q ys)) \<subseteq> set (map k (filter P xs))"
    by (rule filtered_keys [OF Cons.hyps(2)]) (use assms(2,3) in auto)
  from Cons.hyps(1) assms(2,3) have "Q y \<Longrightarrow> P x" "k y = k x" by auto
  with Cons.prems sub Cons.IH show ?case by (cases "P x"; cases "Q y") auto
qed simp

lemma drawn_id_Suc [intro]: "drawn_id E n i \<Longrightarrow> drawn_id E (Suc n) i"
  by (auto simp: drawn_id_def intro: less_SucI)

lemma drawn_id_fresh: "inj (re_uuid E) \<Longrightarrow> drawn_id E n i \<Longrightarrow> i \<noteq> re_uuid E n"
  by (auto simp: drawn_id_def inj_eq)

lemma drawn_id_new [simp]: "drawn_id E (Suc n) (re_uuid E n)"
  by (auto simp: drawn_id_def)

lemma tables_kept:
  assumes "tables_ok E n ts rs ws"
    and t: "list_all2 type_kept ts ts'" and r: "list_all2 (reg_kept ts) rs rs'" and e: "list_all2 entry_kept ws ws'"
  shows "tables_ok E n ts' rs' ws'"
  unfolding tables_ok_def
proof (intro conjI)
  note ok = assms(1) [unfolded tables_ok_def]
  show "inj (re_uuid E)" using ok by simp
  have ids: "map ty_id ts' = map ty_id ts" using list_all2_keys [OF t, of ty_id] by (simp add: type_kept_def)
  with ok show "types_ok E n ts'" by (auto simp: types_ok_def) (metis image_iff set_map)
  have "map rg_id rs' = map rg_id rs" using list_all2_keys [OF r, of rg_id] by (simp add: reg_kept_def)
  moreover have "distinct (map (\<lambda>r. (rg_event r, rg_subject r)) (filter registered rs'))"
    by (rule distinct_filtered_keys [OF r, where P = registered])
       (use ok in \<open>auto simp: reg_kept_def regs_ok_def\<close>)
  moreover have "\<forall>r' \<in> set rs'. drawn_id E n (rg_id r') \<and> (\<forall>i. rg_type r' = Some i \<longrightarrow> drawn_id E n i)"
  proof
    fix r' assume "r' \<in> set rs'"
    with list_all2_ex [OF r] obtain x where "x \<in> set rs" "reg_kept ts x r'" by blast
    with ok show "drawn_id E n (rg_id r') \<and> (\<forall>i. rg_type r' = Some i \<longrightarrow> drawn_id E n i)"
      by (auto simp: reg_kept_def regs_ok_def types_ok_def)
  qed
  ultimately show "regs_ok E n rs'" using ok by (simp add: regs_ok_def)
  have "map wl_id ws' = map wl_id ws" using list_all2_keys [OF e, of wl_id] by (simp add: entry_kept_def)
  moreover have "distinct (map (\<lambda>e. (wl_type e, wl_subject e)) (filter live ws'))"
    by (rule distinct_filtered_keys [OF e, where P = live]) (use ok in \<open>auto simp: entry_kept_def waitlist_ok_def\<close>)
  moreover have "\<forall>y \<in> set ws'. drawn_id E n (wl_id y) \<and> drawn_id E n (wl_type y) \<and> entry_ok y"
    using list_all2_ex [OF e] ok by (fastforce simp: entry_kept_def waitlist_ok_def)
  ultimately show "waitlist_ok E n ws'" using ok by (simp add: waitlist_ok_def)
  show "placed ts' rs' ws'" unfolding placed_def
  proof (intro ballI conjI impI)
    fix t' r' assume "t' \<in> set ts'" "r' \<in> set rs'" and ty: "rg_type r' = Some (ty_id t')"
    with list_all2_ex [OF t] list_all2_ex [OF r] obtain x y
      where x: "x \<in> set ts" "type_kept x t'" and y: "y \<in> set rs" "reg_kept ts y r'" by metis
    from y(2) consider "rg_type r' = rg_type y"
      | z where "z \<in> set ts" "rg_type r' = Some (ty_id z)" "ty_event z = rg_event y" by (auto simp: reg_kept_def)
    then show "ty_event t' = rg_event r'"
    proof cases
      case 1
      with x y ty ok show ?thesis by (auto simp: placed_def type_kept_def reg_kept_def)
    next
      case 2
      with x ty ok have "z = x" by (auto simp: types_ok_def type_kept_def distinct_map inj_on_def)
      with 2 x y show ?thesis by (simp add: type_kept_def reg_kept_def)
    qed
  next
    fix t' e' assume "t' \<in> set ts'" "e' \<in> set ws'" "wl_type e' = ty_id t'"
    with list_all2_ex [OF t] list_all2_ex [OF e] obtain x y
      where "x \<in> set ts" "type_kept x t'" "y \<in> set ws" "entry_kept y e'" by metis
    with \<open>wl_type e' = ty_id t'\<close> ok show "ty_event t' = wl_event e'"
      by (auto simp: placed_def type_kept_def entry_kept_def)
  qed
qed

lemma tables_add_reg:
  assumes "tables_ok E n ts rs ws" "rg_id r = re_uuid E n"
    and "\<And>x. x \<in> set rs \<Longrightarrow> registered x \<Longrightarrow> (rg_event x, rg_subject x) \<noteq> (rg_event r, rg_subject r)"
    and "rg_type r = None \<or> (\<exists>t \<in> set ts. rg_type r = Some (ty_id t) \<and> ty_event t = rg_event r)"
  shows "tables_ok E (Suc n) ts (rs @ [r]) ws"
proof -
  have inj: "inj (re_uuid E)" and d: "distinct (map ty_id ts)" using assms(1) by (auto simp: tables_ok_def types_ok_def)
  have "rg_id r \<notin> rg_id ` set rs"
    using assms(1,2) drawn_id_fresh [OF inj] by (fastforce simp: tables_ok_def regs_ok_def)
  moreover have "(rg_event r, rg_subject r) \<notin> (\<lambda>r. (rg_event r, rg_subject r)) ` set (filter registered rs)"
    using assms(3) by fastforce
  moreover have "\<forall>t \<in> set ts. rg_type r = Some (ty_id t) \<longrightarrow> ty_event t = rg_event r"
    using assms(4) d by (auto simp: distinct_map inj_on_def)
  moreover have "\<forall>i. rg_type r = Some i \<longrightarrow> drawn_id E n i"
    using assms(1,4) by (auto simp: tables_ok_def types_ok_def)
  ultimately show ?thesis using assms(1,2)
    by (auto simp: tables_ok_def types_ok_def regs_ok_def waitlist_ok_def placed_def)
qed

lemma tables_add_entry:
  assumes "tables_ok E n ts rs ws" "wl_id e = re_uuid E n" "entry_ok e"
    and "\<And>x. x \<in> set ws \<Longrightarrow> live x \<Longrightarrow> (wl_type x, wl_subject x) \<noteq> (wl_type e, wl_subject e)"
    and "t \<in> set ts" "wl_type e = ty_id t" "ty_event t = wl_event e"
  shows "tables_ok E (Suc n) ts rs (ws @ [e])"
proof -
  have inj: "inj (re_uuid E)" and d: "distinct (map ty_id ts)" using assms(1) by (auto simp: tables_ok_def types_ok_def)
  have "wl_id e \<notin> wl_id ` set ws"
    using assms(1,2) drawn_id_fresh [OF inj] by (fastforce simp: tables_ok_def waitlist_ok_def)
  moreover have "(wl_type e, wl_subject e) \<notin> (\<lambda>e. (wl_type e, wl_subject e)) ` set (filter live ws)"
    using assms(4) by fastforce
  moreover have "\<forall>x \<in> set ts. wl_type e = ty_id x \<longrightarrow> ty_event x = wl_event e"
    using assms(5-7) d by (auto simp: distinct_map inj_on_def)
  moreover have "drawn_id E n (wl_type e)" using assms(1,5,6) by (auto simp: tables_ok_def types_ok_def)
  ultimately show ?thesis using assms(1-3)
    by (auto simp: tables_ok_def types_ok_def regs_ok_def waitlist_ok_def placed_def)
qed

lemma tables_add_type:
  assumes "tables_ok E n ts rs ws" "ty_id t = re_uuid E n"
  shows "tables_ok E (Suc n) (ts @ [t]) rs ws"
proof -
  have inj: "inj (re_uuid E)" using assms(1) by (auto simp: tables_ok_def)
  have "ty_id t \<notin> ty_id ` set ts"
    using assms drawn_id_fresh [OF inj] by (fastforce simp: tables_ok_def types_ok_def)
  moreover have "\<forall>r \<in> set rs. rg_type r \<noteq> Some (ty_id t)" "\<forall>e \<in> set ws. wl_type e \<noteq> ty_id t"
    using assms drawn_id_fresh [OF inj] by (fastforce simp: tables_ok_def regs_ok_def waitlist_ok_def)+
  ultimately show ?thesis using assms
    by (auto simp: tables_ok_def types_ok_def regs_ok_def waitlist_ok_def placed_def)
qed

lemma tables_drop_types: "tables_ok E n ts rs ws \<Longrightarrow> tables_ok E n (filter P ts) rs ws"
  by (auto simp: tables_ok_def types_ok_def placed_def distinct_map inj_on_def)

end
