(* ===== verification/Registration_Account.thy ===== *)
theory Registration_Account
  imports Registration_Laws
begin

section \<open>Keeping account of reserved seats\<close>

text \<open>
  How each kind of statement moves the sum of the held seats and the counters: releasing from a list of rows
  (\<open>UPDATE ... FROM\<close>), adding the seats of one row, and statements that move neither.
\<close>

subsection \<open>Sums of rows\<close>

lemma held_simps:
  "reg_held i [] = 0" "offer_held i [] = 0"
  "reg_held i (r # rs) = (if rg_status r = Registered \<and> rg_type r = Some i then rg_party r else 0) + reg_held i rs"
  "offer_held i (e # es) = (if wl_status e = Offered \<and> wl_type e = i then wl_party e else 0) + offer_held i es"
  "reg_held i (rs @ rs') = reg_held i rs + reg_held i rs'"
  "offer_held i (es @ es') = offer_held i es + offer_held i es'"
  by (simp_all add: reg_held_def offer_held_def)

lemma reg_held_cancel:
  assumes "\<And>r. P r \<Longrightarrow> rg_status (g r) \<noteq> Registered"
  shows "reg_held i (update_rows P g rs) + reg_held i (filter P rs) = reg_held i rs"
  using assms by (induction rs) (auto simp: update_rows_def held_simps)

lemma offer_held_withdraw:
  assumes "\<And>e. P e \<Longrightarrow> wl_status (g e) \<noteq> Offered"
  shows "offer_held i (update_rows P g es) + offer_held i (filter P es) = offer_held i es"
  using assms by (induction es) (auto simp: update_rows_def held_simps)

lemma offer_held_same:
  assumes "\<And>e. P e \<Longrightarrow> wl_status (g e) = wl_status e \<and> wl_type (g e) = wl_type e \<and> wl_party (g e) = wl_party e"
  shows "offer_held i (update_rows P g es) = offer_held i es"
  using assms by (induction es) (auto simp: update_rows_def held_simps)

lemma reg_held_same:
  assumes "\<And>r. P r \<Longrightarrow> rg_status (g r) = rg_status r \<and> rg_type (g r) = rg_type r \<and> rg_party (g r) = rg_party r"
  shows "reg_held i (update_rows P g rs) = reg_held i rs"
  using assms by (induction rs) (auto simp: update_rows_def held_simps)

text \<open>An update of the one row with a given key.\<close>

lemma update_one:
  assumes "distinct (map key rs)" "x \<in> set rs" "\<And>r. r \<in> set rs \<Longrightarrow> P r \<longleftrightarrow> key r = key x"
  obtains us vs where "rs = us @ x # vs" "update_rows P g rs = us @ g x # vs"
proof -
  from split_list [OF assms(2)] obtain us vs where rs: "rs = us @ x # vs" by blast
  have "\<not> P r" if "r \<in> set us \<union> set vs" for r
  proof -
    from assms(1) that have "key r \<noteq> key x" unfolding rs by (auto simp: image_iff)
    with that assms(3) [of r] show ?thesis unfolding rs by auto
  qed
  then have "update_rows P g us = us" "update_rows P g vs = vs" by (auto simp: update_rows_def intro!: map_idI)
  moreover have "P x" using assms(2,3) by blast
  ultimately have "update_rows P g rs = us @ g x # vs" unfolding rs by (simp add: update_rows_def)
  with rs that show ?thesis by blast
qed

lemma reg_held_replace:
  assumes "distinct (map rg_id rs)" "x \<in> set rs" "\<And>r. r \<in> set rs \<Longrightarrow> P r \<longleftrightarrow> rg_id r = rg_id x"
  shows "reg_held i (update_rows P g rs) + reg_held i [x] = reg_held i rs + reg_held i [g x]"
  by (rule update_one [OF assms, where g = g]) (simp_all add: held_simps)

lemma offer_held_replace:
  assumes "distinct (map wl_id ws)" "x \<in> set ws" "\<And>e. e \<in> set ws \<Longrightarrow> P e \<longleftrightarrow> wl_id e = wl_id x"
  shows "offer_held i (update_rows P g ws) + offer_held i [x] = offer_held i ws + offer_held i [g x]"
  by (rule update_one [OF assms, where g = g]) (simp_all add: held_simps)

lemma reg_held_absent: "(\<And>r. r \<in> set rs \<Longrightarrow> rg_type r \<noteq> Some i) \<Longrightarrow> reg_held i rs = 0"
  by (induction rs) (auto simp: held_simps)

lemma offer_held_absent: "(\<And>e. e \<in> set ws \<Longrightarrow> wl_type e \<noteq> i) \<Longrightarrow> offer_held i ws = 0"
  by (induction ws) (auto simp: held_simps)

lemma held_absent:
  assumes "tables_ok E n ts rs ws"
  shows "held (re_uuid E n) rs ws = 0"
proof -
  have "reg_held (re_uuid E n) rs = 0" "offer_held (re_uuid E n) ws = 0"
    using assms drawn_id_fresh [of E n]
    by (force simp: tables_ok_def regs_ok_def waitlist_ok_def intro!: reg_held_absent offer_held_absent)+
  then show ?thesis by (simp add: held_def)
qed

subsection \<open>What a release takes off a counter\<close>

definition released :: "('s \<Rightarrow> string) \<Rightarrow> ('s \<Rightarrow> nat) \<Rightarrow> 's list \<Rightarrow> string \<Rightarrow> nat" where
  "released type_of seats src i = (case find (\<lambda>s. i = type_of s) src of None \<Rightarrow> 0 | Some s \<Rightarrow> seats s)"

definition seats_of :: "('s \<Rightarrow> string) \<Rightarrow> ('s \<Rightarrow> nat) \<Rightarrow> 's list \<Rightarrow> string \<Rightarrow> nat" where
  "seats_of type_of seats src i = sum_list (map seats (filter (\<lambda>s. type_of s = i) src))"

lemma release_from_map:
  "release_from type_of seats now src ts = map (\<lambda>t. if find (\<lambda>s. ty_id t = type_of s) src = None then t
     else release_seats (released type_of seats src (ty_id t)) now t) ts"
  by (auto simp: release_from_def update_from_def released_def split: option.split)

lemma release_from_rows:
  assumes "t' \<in> set (release_from type_of seats now src ts)"
  shows "\<exists>t \<in> set ts. ty_id t' = ty_id t \<and> ty_capacity t' = ty_capacity t
           \<and> ty_reserved t' = ty_reserved t - released type_of seats src (ty_id t)"
proof -
  from assms obtain t where "t \<in> set ts" and t': "t' = (if find (\<lambda>s. ty_id t = type_of s) src = None then t
      else release_seats (released type_of seats src (ty_id t)) now t)" unfolding release_from_map by auto
  have "ty_id t' = ty_id t \<and> ty_capacity t' = ty_capacity t
      \<and> ty_reserved t' = ty_reserved t - released type_of seats src (ty_id t)"
    unfolding t' by (simp add: release_seats_def released_def)
  with \<open>t \<in> set ts\<close> show ?thesis by blast
qed

lemma release_from_kept [intro]: "list_all2 type_kept ts (release_from type_of seats now src ts)"
  unfolding release_from_map by (induction ts) (auto simp: release_seats_def type_kept_def)

lemma released_Cons:
  "released type_of seats (s # src) i = (if type_of s = i then seats s else released type_of seats src i)"
  by (auto simp: released_def)

lemma released_le: "released type_of seats src i \<le> seats_of type_of seats src i"
  by (induction src) (auto simp: released_Cons seats_of_def released_def)

lemma released_eq: "distinct (map type_of src) \<Longrightarrow> released type_of seats src i = seats_of type_of seats src i"
proof (induction src)
  case (Cons s src)
  show ?case
  proof (cases "type_of s = i")
    case True
    with Cons.prems have "filter (\<lambda>s. type_of s = i) src = []" by (auto simp: filter_empty_conv image_iff)
    with True show ?thesis by (simp add: released_Cons seats_of_def)
  qed (use Cons in \<open>simp add: released_Cons seats_of_def\<close>)
qed (simp add: released_def seats_of_def)

lemma seats_of_simps:
  "seats_of f g [] i = 0" "seats_of f g (s # src) i = (if f s = i then g s else 0) + seats_of f g src i"
  "seats_of f g (src @ src') i = seats_of f g src i + seats_of f g src' i"
  by (simp_all add: seats_of_def)

lemma seats_held_by_type: "seats_of fst snd (held_by_type rows) i = seats_of fst snd rows i"
proof -
  have one: "sum_list (map snd (filter (\<lambda>s. fst s = i) (map (\<lambda>t. (t, h t)) ts))) = (if i \<in> set ts then h i else 0)"
    if "distinct ts" for h :: "string \<Rightarrow> nat" and ts
    using that by (induction ts) auto
  have "filter (\<lambda>r. fst r = i) rows = []" if "i \<notin> fst ` set rows"
    using that by (auto simp: filter_empty_conv)
  with one [OF distinct_remdups] show ?thesis by (auto simp: seats_of_def held_by_type_def)
qed

lemma held_by_type_distinct [simp]: "distinct (map fst (held_by_type rows))"
  by (simp add: held_by_type_def comp_def)

lemma released_held_by_type: "released fst snd (held_by_type rows) i = seats_of fst snd rows i"
  by (simp add: released_eq seats_held_by_type)

lemma typed_parties_seats: "list_all registered regs \<Longrightarrow> seats_of fst snd (typed_parties regs) i = reg_held i regs"
  by (induction regs)
     (auto simp: typed_parties_def map_filter_simps seats_of_simps held_simps registered_def split: option.split)

lemma offered_entries_seats:
  assumes "list_all live es" "list_all entry_ok es"
  shows "seats_of wl_type wl_party (filter (\<lambda>e. wl_offeredAt e \<noteq> None) es) i = offer_held i es"
  using assms by (induction es) (auto simp: seats_of_simps held_simps live_def entry_ok_def)

lemma seats_of_pairs: "seats_of fst snd (map (\<lambda>e. (f e, g e)) es) i = seats_of f g es i"
  by (induction es) (simp_all add: seats_of_simps)

subsection \<open>The account\<close>

lemma covers_release:
  assumes "covers exact h t" "h' + freed = h" "rel \<le> freed" "exact \<longrightarrow> rel = freed"
    and "ty_capacity t' = ty_capacity t" "ty_reserved t' = ty_reserved t - rel"
  shows "covers exact h' t'"
  using assms by (auto simp: covers_def split: option.splits)

lemma acct_release:
  assumes "acct exact credit ts rs ws"
    and "\<And>i. held i rs' ws' + credit' i + freed i = held i rs ws + credit i"
    and "\<And>i. released type_of seats src i \<le> freed i" "\<And>i. exact \<Longrightarrow> released type_of seats src i = freed i"
  shows "acct exact credit' (release_from type_of seats now src ts) rs' ws'"
  unfolding acct_def
proof
  fix t'
  assume "t' \<in> set (release_from type_of seats now src ts)"
  then obtain t where t: "t \<in> set ts" "ty_id t' = ty_id t" "ty_capacity t' = ty_capacity t"
      "ty_reserved t' = ty_reserved t - released type_of seats src (ty_id t)"
    using release_from_rows by metis
  have "covers exact (held (ty_id t) rs ws + credit (ty_id t)) t" using assms(1) t(1) by (simp add: acct_def)
  from covers_release [OF this assms(2) [of "ty_id t"] assms(3) [of "ty_id t"] _ t(3,4)] assms(4) t(2)
  show "covers exact (held (ty_id t') rs' ws' + credit' (ty_id t')) t'" by simp
qed

definition type_still :: "ticket_type_row \<Rightarrow> ticket_type_row \<Rightarrow> bool" where
  "type_still t t' \<longleftrightarrow> ty_id t' = ty_id t \<and> ty_reserved t' = ty_reserved t
     \<and> (ty_capacity t' = ty_capacity t \<or> (case ty_capacity t' of None \<Rightarrow> True | Some c \<Rightarrow> ty_reserved t \<le> c))"

lemma acct_still:
  assumes "acct exact credit ts rs ws" "list_all2 type_still ts ts'"
    and "\<And>i. held i rs' ws' + credit' i \<le> held i rs ws + credit i"
    and "\<And>i. exact \<Longrightarrow> held i rs' ws' + credit' i = held i rs ws + credit i"
  shows "acct exact credit' ts' rs' ws'"
  unfolding acct_def
proof
  fix t'
  assume "t' \<in> set ts'"
  with list_all2_ex [OF assms(2)] obtain t where t: "t \<in> set ts" "type_still t t'" by blast
  have "covers exact (held (ty_id t) rs ws + credit (ty_id t)) t" using assms(1) t(1) by (simp add: acct_def)
  with assms(3) [of "ty_id t"] assms(4) [of "ty_id t"] t(2)
  show "covers exact (held (ty_id t') rs' ws' + credit' (ty_id t')) t'"
    by (auto simp: covers_def type_still_def split: option.splits)
qed

lemma acct_same_sums:
  assumes "acct exact credit ts rs ws" "\<And>i. held i rs' ws' + credit' i = held i rs ws + credit i"
  shows "acct exact credit' ts rs' ws'"
  using assms by (simp add: acct_def)

lemma acct_add:
  assumes "acct exact credit ts rs ws" "distinct (map ty_id ts)"
    and "x \<in> set ts" "P x" "\<And>t. P t \<Longrightarrow> ty_id t = ty_id x \<and> has_room n t"
    and "\<And>i. held i rs' ws' = held i rs ws + (if i = ty_id x then n else 0)"
  shows "acct exact credit (update_rows P (add_seats n now) ts) rs' ws'"
  unfolding acct_def
proof
  fix t'
  assume "t' \<in> set (update_rows P (add_seats n now) ts)"
  then obtain t where t: "t \<in> set ts" "t' = (if P t then add_seats n now t else t)" by (auto simp: update_rows_def)
  have "covers exact (held (ty_id t) rs ws + credit (ty_id t)) t" using assms(1) t(1) by (simp add: acct_def)
  moreover have "P t \<longleftrightarrow> ty_id t = ty_id x"
    using assms(2-5) t(1) by (metis distinct_map inj_onD)
  ultimately show "covers exact (held (ty_id t') rs' ws' + credit (ty_id t')) t'"
    using t(2) assms(5) [of t] assms(6) [of "ty_id t"]
    by (auto simp: covers_def add_seats_def has_room_def split: option.splits)
qed

end
