(* ===== verification/Registration_Steps.thy ===== *)
theory Registration_Steps
  imports Registration_Account
begin

section \<open>Registering and the waitlist keep the account\<close>

text \<open>
  Each operation of the repository that moves a registration, an offer or a ticket type keeps the tables and covers
  the held seats; \<open>exact\<close> is kept too, apart from the two places that name what they need for it.
\<close>

definition core :: "reg_world \<Rightarrow> ticket_type_row list \<times> registration_row list \<times> waitlist_row list \<times> nat" where
  "core w = (g_types w, g_regs w, g_waitlist w, g_drawn w)"

definition frame :: "'a reg_prog \<Rightarrow> bool" where
  "frame m \<longleftrightarrow> (\<forall>w. core (snd (m w)) = core w)"

lemma booked_core: "core w' = core w \<Longrightarrow> booked exact E w' = booked exact E w"
  by (simp add: booked_def core_def)

lemma frame_basic [intro]: "frame (ret x)" "frame (raise e)" "frame (reads f)" "frame (guard b e)"
  by (simp_all add: frame_def prog_simps)

lemma frame_writes: "(\<And>w. core (f w) = core w) \<Longrightarrow> frame (writes f)"
  by (simp add: frame_def prog_simps)

lemma frame_seq [intro]: "frame m \<Longrightarrow> (\<And>x. frame (f x)) \<Longrightarrow> frame (seq m f)"
  by (simp add: frame_def prog_simps split: sum.split)

lemma frame_if [intro]: "frame m \<Longrightarrow> frame n \<Longrightarrow> frame (if b then m else n)"
  by simp

lemma frame_option [intro]: "frame m \<Longrightarrow> (\<And>x. frame (f x)) \<Longrightarrow> frame (case y of None \<Rightarrow> m | Some x \<Rightarrow> f x)"
  by (cases y) auto

lemma frame_keeps [intro]: "frame m \<Longrightarrow> keeps (booked exact E) m"
  unfolding keeps_def frame_def using booked_core by blast

lemma frameD: "frame m \<Longrightarrow> m w = (r, w') \<Longrightarrow>
    g_types w' = g_types w \<and> g_regs w' = g_regs w \<and> g_waitlist w' = g_waitlist w \<and> g_drawn w' = g_drawn w"
  by (simp add: frame_def core_def) (metis prod.inject snd_conv)

lemma transact_Inr: "transact m w = (r, w') \<Longrightarrow> w' = w \<or> (\<exists>x. m w = (Inr (Done x), w') \<and> r = Inr x)"
  by (auto simp: transact_def split: prod.splits sum.splits tx_result.splits)

lemma keeps_transact:
  assumes "\<And>w x w'. I w \<Longrightarrow> m w = (Inr (Done x), w') \<Longrightarrow> I w'"
  shows "keeps I (transact m)"
  unfolding keeps_def using assms transact_Inr by (metis prod.collapse)

subsection \<open>Registering\<close>

definition reg_row :: "reg_env \<Rightarrow> register_args \<Rightarrow> string option \<Rightarrow> nat \<Rightarrow> registration_row" where
  "reg_row E a typeId n = \<lparr>rg_id = re_uuid E n, rg_event = ra_event a, rg_type = typeId, rg_subject = ra_subject a,
     rg_party = length (ra_seats a), rg_status = Registered, rg_source = ra_source a, rg_hostNote = None,
     rg_registeredAt = ra_now a, rg_cancelledAt = None, rg_cancelledBy = None\<rparr>"

lemma frame_claimSlotIn [intro]: "frame (claimSlotIn event user slot)"
  unfolding claimSlotIn_def by (auto simp: core_def split: prod.split intro!: frame_seq frame_option frame_if frame_writes)

lemma frame_rows [intro]:
  "frame (insertSeatRows a i)" "frame (insertAnswerRows a i)" "frame (insertConsentRow a i)"
  "frame (recordRegisterIdempotency E a i)" "frame (loadRegistrationById event i)" "frame (findRegisterSnapshot E a)"
  unfolding insertSeatRows_def insertAnswerRows_def insertConsentRow_def recordRegisterIdempotency_def
    loadRegistrationById_def findRegisterSnapshot_def
  by (auto simp: core_def split: registration_subject.split intro!: frame_seq frame_option frame_if frame_writes)

lemma frame_replays [intro]: "frame (replayOf a i)" "frame (replaySnapshot E a)" "frame (registerErrorOutcome E a e)"
  unfolding replayOf_def replaySnapshot_def registerErrorOutcome_def by auto

lemma insertRegistrationRow_effect:
  assumes "insertRegistrationRow E a typeId w = (Inr i, w')"
  shows "i = re_uuid E (g_drawn w) \<and> (\<forall>r \<in> set (g_regs w). \<not> registered_for (ra_event a) (ra_subject a) r)
    \<and> g_types w' = g_types w \<and> g_regs w' = g_regs w @ [reg_row E a typeId (g_drawn w)]
    \<and> g_waitlist w' = g_waitlist w \<and> g_drawn w' = Suc (g_drawn w)"
  using assms
  by (auto simp: insertRegistrationRow_def draw_def prog_simps reg_row_def split: if_splits)

lemma frame_insert_member [intro]: "frame (insert_member a)"
  unfolding insert_member_def by (auto simp: core_def split: registration_subject.split intro!: frame_writes)

text \<open>The statements around the insert leave the tables of the account alone.\<close>

definition linked :: "waitlist_row \<Rightarrow> waitlist_row \<Rightarrow> bool" where
  "linked e e' \<longleftrightarrow> e'\<lparr>wl_promoted := wl_promoted e\<rparr> = e"

lemma linked_same [simp]: "linked e e" "list_all2 linked ws ws"
  by (simp_all add: linked_def list_all2_refl)

definition enrolled :: "reg_env \<Rightarrow> register_args \<Rightarrow> string option \<Rightarrow> reg_world \<Rightarrow> reg_world \<Rightarrow> bool" where
  "enrolled E a typeId w w' \<longleftrightarrow> (\<forall>r \<in> set (g_regs w). \<not> registered_for (ra_event a) (ra_subject a) r)
     \<and> g_types w' = g_types w \<and> g_regs w' = g_regs w @ [reg_row E a typeId (g_drawn w)] \<and> g_drawn w' = Suc (g_drawn w)
     \<and> list_all2 linked (g_waitlist w) (g_waitlist w')"

lemma enrolled_frames:
  assumes "frame m" "m w = (r, w1)" "enrolled E a typeId w1 w2" "frame m'" "m' w2 = (r', w')"
  shows "enrolled E a typeId w w'"
  using assms(3) frameD [OF assms(1,2)] frameD [OF assms(4,5)] by (simp add: enrolled_def)

lemma register_rows_effect:
  assumes "insertRegistrationRows E a typeId w = (Inr i, w')"
  shows "enrolled E a typeId w w' \<and> g_waitlist w' = g_waitlist w"
proof -
  let ?rest = "\<lambda>i. seq (insertSeatRows a i) (\<lambda>_. seq (insertAnswerRows a i) (\<lambda>_. seq (insertConsentRow a i) (\<lambda>_. ret i)))"
  obtain x w1 j w2 where s: "insert_member a w = (Inr x, w1)" "insertRegistrationRow E a typeId w1 = (Inr j, w2)"
    "?rest j w2 = (Inr i, w')"
    by (insert assms, unfold insertRegistrationRows_def, erule seq_InrE, erule seq_InrE, rule that; assumption)
  have f: "frame (?rest j)" by auto
  from insertRegistrationRow_effect [OF s(2)] have "enrolled E a typeId w1 w2" "g_waitlist w2 = g_waitlist w1"
    by (auto simp: enrolled_def)
  with enrolled_frames [OF frame_insert_member s(1) _ f s(3)] frameD [OF frame_insert_member s(1)] frameD [OF f s(3)]
  show ?thesis by simp
qed

lemma linkWaitlistEntry_effect:
  assumes "linkWaitlistEntry a i w = (Inr x, w')"
  shows "g_types w' = g_types w \<and> g_regs w' = g_regs w \<and> g_drawn w' = g_drawn w \<and> list_all2 linked (g_waitlist w) (g_waitlist w')"
  using assms by (auto simp: linkWaitlistEntry_def prog_simps linked_def split: option.splits intro!: rows_updated)

lemma register_writes_effect:
  assumes "register_writes E a typeId w = (Inr o', w')"
  shows "(\<exists>x. o' = Done (Registered_as x)) \<and> enrolled E a typeId w w'"
proof -
  let ?slot = "case (ra_slot a, ra_subject a) of (Some s, By_user u) \<Rightarrow> claimSlotIn (ra_event a) u s | _ \<Rightarrow> ret ()"
  let ?load = "\<lambda>i. seq (loadRegistrationById (ra_event a) i) (\<lambda>r.
     case r of None \<Rightarrow> raise (PlainError ''registration reload returned no row'') | Some x \<Rightarrow> ret (Done (Registered_as x)))"
  let ?last = "\<lambda>i. seq (recordRegisterIdempotency E a i) (\<lambda>_. ?load i)"
  obtain u w1 i w2 v w3 where s: "?slot w = (Inr u, w1)" "insertRegistrationRows E a typeId w1 = (Inr i, w2)"
    "linkWaitlistEntry a i w2 = (Inr v, w3)" "?last i w3 = (Inr o', w')"
    by (insert assms, unfold register_writes_def, erule seq_InrE, erule seq_InrE, erule seq_InrE, rule that; assumption)
  have "frame ?slot" by (auto split: option.split registration_subject.split)
  moreover have f: "frame (?last i)" by auto
  moreover have "enrolled E a typeId w1 w3"
    using register_rows_effect [OF s(2)] linkWaitlistEntry_effect [OF s(3)] by (auto simp: enrolled_def)
  ultimately have "enrolled E a typeId w w'" using enrolled_frames s(1,4) by blast
  moreover have "\<exists>x. o' = Done (Registered_as x)"
    using s(4) by (auto simp: seq_run raise_run ret_run split: sum.splits option.splits)
  ultimately show ?thesis by blast
qed

lemma selectTicketType_picks:
  "selectTicketType types a = Inr tt \<Longrightarrow>
     (\<forall>t. tt = Some t \<longrightarrow> t \<in> set types) \<and> (\<forall>i. ra_type a = Some i \<longrightarrow> map_option ty_id tt = Some i)"
  by (cases "ra_type a"; cases types; cases "find (\<lambda>t. ty_id t = the (ra_type a)) types")
     (auto split: if_splits dest: find_SomeD)

declare selectTicketType.simps [simp del]

definition picked_type :: "register_args \<Rightarrow> reg_world \<Rightarrow> ticket_type_row option \<Rightarrow> bool" where
  "picked_type a w tt \<longleftrightarrow> (\<forall>t. tt = Some t \<longrightarrow> t \<in> set (g_types w) \<and> ty_event t = ra_event a)
     \<and> (\<forall>i. ra_type a = Some i \<longrightarrow> map_option ty_id tt = Some i)"

lemma select_picked:
  "selectTicketType (sort_key f (filter (\<lambda>t. ty_event t = ra_event a) (g_types w))) a = Inr tt \<Longrightarrow> picked_type a w tt"
  unfolding picked_type_def by (auto dest!: selectTicketType_picks)

text \<open>Reserving adds the party to one ticket type with room for it.\<close>

definition reserved :: "nat \<Rightarrow> int \<Rightarrow> ticket_type_row \<Rightarrow> ticket_type_row list \<Rightarrow> ticket_type_row list \<Rightarrow> bool" where
  "reserved n now t ts ts' \<longleftrightarrow> (\<exists>P. ts' = update_rows P (add_seats n now) ts \<and> (\<exists>x \<in> set ts. P x)
     \<and> (\<forall>x. P x \<longrightarrow> ty_id x = ty_id t \<and> has_room n x))"

lemma reserveCapacity_effect:
  assumes "reserveCapacity a c tt n w = (Inr (Done None), w')"
  shows "(ra_waitlist a \<noteq> None \<or> tt = None) \<and> w' = w
    \<or> ra_waitlist a = None \<and> (\<exists>t ts'. tt = Some t \<and> w' = w\<lparr>g_types := ts'\<rparr> \<and> reserved n (ra_now a) t (g_types w) ts')"
proof (cases "ra_waitlist a = None \<and> tt \<noteq> None")
  case True
  then obtain t where tt: "tt = Some t" by auto
  let ?P = "\<lambda>x. ty_id x = ty_id t \<and> ty_event x = ra_event a \<and> n \<le> ty_maxPartySize x
    \<and> withinSalesWindow (ra_now a) (ty_salesOpensAt x) (ty_salesClosesAt x) \<and> has_room n x"
  from assms True tt obtain x where x: "find ?P (g_types w) = Some x"
    and w': "w' = w\<lparr>g_types := update_rows ?P (add_seats n (ra_now a)) (g_types w)\<rparr>"
    unfolding reserveCapacity_def Let_def by (auto simp: prog_simps split: option.splits)
  from find_SomeD [OF x] have "reserved n (ra_now a) t (g_types w) (update_rows ?P (add_seats n (ra_now a)) (g_types w))"
    unfolding reserved_def by (intro exI [of _ ?P]) auto
  with True tt w' show ?thesis by blast
next
  case False
  with assms show ?thesis by (auto simp: reserveCapacity_def prog_simps split: option.splits if_splits)
qed

definition seated :: "reg_env \<Rightarrow> register_args \<Rightarrow> reg_world \<Rightarrow> reg_world \<Rightarrow> bool" where
  "seated E a w w' \<longleftrightarrow> (\<exists>tt. picked_type a w tt
     \<and> ((ra_waitlist a \<noteq> None \<or> tt = None) \<and> enrolled E a (map_option ty_id tt) w w'
       \<or> ra_waitlist a = None \<and> (\<exists>t ts'. tt = Some t \<and> reserved (length (ra_seats a)) (ra_now a) t (g_types w) ts'
            \<and> enrolled E a (Some (ty_id t)) (w\<lparr>g_types := ts'\<rparr>) w')))"

lemma register_seats_effect:
  assumes "register_seats E event a tt w = (Inr (Done o'), w')" "picked_type a w tt"
  shows "(\<forall>x. o' \<noteq> Registered_as x) \<and> w' = w \<or> (\<exists>x. o' = Registered_as x) \<and> seated E a w w'"
proof -
  let ?n = "length (ra_seats a)"
  consider (gate) r where "(case tt of None \<Rightarrow> None | Some t \<Rightarrow> ticketTypeGateRefusal t a ?n) = Some r"
    | (open_gate) "(case tt of None \<Rightarrow> None | Some t \<Rightarrow> ticketTypeGateRefusal t a ?n) = None" by fastforce
  then show ?thesis
  proof cases
    case gate
    with assms(1) show ?thesis by (auto simp: register_seats_def Let_def prog_simps)
  next
    case open_gate
    from assms(1) obtain res w1 where res: "reserveCapacity a (gv_capacity event) tt ?n w = (Inr res, w1)"
      and rest: "(case res of Thrown r \<Rightarrow> ret (Thrown (Refused (case r of None \<Rightarrow> Full | Some x \<Rightarrow> x)))
          | Done (Some r) \<Rightarrow> ret (Done (Refused r))
          | Done None \<Rightarrow> register_writes E a (map_option ty_id tt)) w1 = (Inr (Done o'), w')"
      unfolding register_seats_def Let_def open_gate option.case by (rule seq_InrE)
    show ?thesis
    proof (cases "res = Done None")
      case True
      with rest have wr: "register_writes E a (map_option ty_id tt) w1 = (Inr (Done o'), w')" by simp
      from register_writes_effect [OF this] reserveCapacity_effect [OF res [unfolded True]] assms(2)
      show ?thesis unfolding seated_def by auto
    next
      case False
      with rest obtain r where r: "res = Done (Some r)" "o' = Refused r" "w' = w1"
        by (auto simp: prog_simps split: tx_result.splits option.splits)
      from res [unfolded r(1)] have "w1 = w"
        by (auto simp: reserveCapacity_def prog_simps Let_def split: option.splits if_splits)
      with r show ?thesis by simp
    qed
  qed
qed

lemma registerIn_effect:
  assumes "registerIn E a w = (Inr (Done o'), w')"
  shows "(\<forall>x. o' \<noteq> Registered_as x) \<and> w' = w \<or> (\<exists>x. o' = Registered_as x) \<and> seated E a w w'"
  using assms unfolding registerIn_def
  by (auto simp: seq_run reads_run ret_run findRegisterSnapshot_def eventGateRefusal_def replayOf_def loadRegistrationById_def
      pickTicketType_def split: option.splits sum.splits if_splits dest: register_seats_effect [OF _ select_picked])

text \<open>An enrolment moves its party from the credit, or from the reserved counter, to the registrations.\<close>

lemma linkedD:
  assumes "linked e e'"
  shows "wl_id e' = wl_id e" "wl_event e' = wl_event e" "wl_type e' = wl_type e" "wl_subject e' = wl_subject e"
    "wl_party e' = wl_party e" "wl_status e' = wl_status e" "wl_offeredAt e' = wl_offeredAt e"
  using assms unfolding linked_def by (metis waitlist_row.select_convs waitlist_row.surjective waitlist_row.update_convs(10))+

lemma linked_kept: "list_all2 linked ws ws' \<Longrightarrow> list_all2 entry_kept ws ws'"
  by (erule list_all2_mono) (auto simp: entry_kept_def live_def entry_ok_def linkedD)

lemma linked_held: "list_all2 linked ws ws' \<Longrightarrow> offer_held i ws' = offer_held i ws"
  by (induction rule: list_all2_induct) (simp_all add: held_simps linkedD)

lemma enrolled_tables:
  assumes "tables_ok E (g_drawn w) (g_types w) (g_regs w) (g_waitlist w)" "enrolled E a typeId w w'"
    and "typeId = None \<or> (\<exists>t \<in> set (g_types w). typeId = Some (ty_id t) \<and> ty_event t = ra_event a)"
  shows "tables_ok E (g_drawn w') (g_types w') (g_regs w') (g_waitlist w')"
proof -
  have "tables_ok E (Suc (g_drawn w)) (g_types w) (g_regs w @ [reg_row E a typeId (g_drawn w)]) (g_waitlist w)"
    by (rule tables_add_reg [OF assms(1)])
       (use assms(2,3) in \<open>auto simp: reg_row_def enrolled_def registered_for_def registered_def\<close>)
  from tables_kept [OF this rows_same rows_same linked_kept] assms(2) show ?thesis by (simp add: enrolled_def)
qed

lemma enrolled_held:
  assumes "enrolled E a typeId w w'"
  shows "held i (g_regs w') (g_waitlist w')
    = held i (g_regs w) (g_waitlist w) + (if typeId = Some i then length (ra_seats a) else 0)"
  using assms linked_held by (auto simp: held_def enrolled_def held_simps reg_row_def)

lemma reserved_kept: "reserved n now t ts ts' \<Longrightarrow> list_all2 type_kept ts ts'"
  by (auto simp: reserved_def add_seats_def type_kept_def intro!: rows_updated)

lemma acct_reserved:
  assumes "acct exact credit ts rs ws" "distinct (map ty_id ts)" "reserved n now t ts ts'"
    and "\<And>i. held i rs' ws' = held i rs ws + (if i = ty_id t then n else 0)"
  shows "acct exact credit ts' rs' ws'"
proof -
  from assms(3) obtain P x where P: "ts' = update_rows P (add_seats n now) ts" "x \<in> set ts" "P x"
    "\<And>y. P y \<Longrightarrow> ty_id y = ty_id t \<and> has_room n y" by (auto simp: reserved_def)
  then have "ty_id x = ty_id t" by blast
  with P(4) have "\<And>y. P y \<Longrightarrow> ty_id y = ty_id x \<and> has_room n y" by simp
  then show ?thesis unfolding P(1)
    by (rule acct_add [where P = P, OF assms(1,2) P(2,3)]) (use assms(4) \<open>ty_id x = ty_id t\<close> in auto)
qed

lemma seated_booked:
  assumes "booked exact E w" "seated E a w w'" "ra_waitlist a = None"
  shows "booked exact E w'"
proof -
  have tab: "tables_ok E (g_drawn w) (g_types w) (g_regs w) (g_waitlist w)"
    and acc: "acct exact (\<lambda>_. 0) (g_types w) (g_regs w) (g_waitlist w)" using assms(1) by (simp_all add: booked_def)
  from assms(2,3) obtain tt where tt: "picked_type a w tt"
    and "tt = None \<and> enrolled E a None w w' \<or> (\<exists>t ts'. tt = Some t \<and> reserved (length (ra_seats a)) (ra_now a) t (g_types w) ts'
      \<and> enrolled E a (Some (ty_id t)) (w\<lparr>g_types := ts'\<rparr>) w')" unfolding seated_def by auto
  then consider "enrolled E a None w w'"
    | t ts' where "tt = Some t" "reserved (length (ra_seats a)) (ra_now a) t (g_types w) ts'"
        "enrolled E a (Some (ty_id t)) (w\<lparr>g_types := ts'\<rparr>) w'" by blast
  then show ?thesis
  proof cases
    case 1
    with acc enrolled_held [OF 1] enrolled_tables [OF tab 1] show ?thesis
      by (auto simp: booked_def enrolled_def acct_def)
  next
    case 2
    let ?w = "w\<lparr>g_types := ts'\<rparr>"
    have tab': "tables_ok E (g_drawn ?w) (g_types ?w) (g_regs ?w) (g_waitlist ?w)"
      using tables_kept [OF tab reserved_kept [OF 2(2)] rows_same rows_same] by simp
    have "t \<in> set (g_types w)" "ty_event t = ra_event a" using tt 2(1) by (simp_all add: picked_type_def)
    then obtain t' where "t' \<in> set ts'" "ty_id t' = ty_id t" "ty_event t' = ra_event a"
      using reserved_kept [OF 2(2)] by (metis in_set_conv_nth list_all2_conv_all_nth type_kept_def)
    then have "\<exists>x \<in> set (g_types ?w). Some (ty_id t) = Some (ty_id x) \<and> ty_event x = ra_event a"
      by (intro bexI [of _ t']) simp_all
    then have "tables_ok E (g_drawn w') (g_types w') (g_regs w') (g_waitlist w')"
      using enrolled_tables [OF tab' 2(3)] by blast
    moreover have "acct exact (\<lambda>_. 0) ts' (g_regs w') (g_waitlist w')"
      by (rule acct_reserved [OF acc _ 2(2)])
         (use tab enrolled_held [OF 2(3)] in \<open>auto simp: tables_ok_def types_ok_def\<close>)
    ultimately show ?thesis using 2(3) by (simp add: booked_def enrolled_def)
  qed
qed

lemma registerTx_keeps: "ra_waitlist a = None \<Longrightarrow> keeps (booked exact E) (registerTx E a)"
  unfolding registerTx_def
proof (intro keeps_recover keeps_transact)
  fix w x w'
  assume "booked exact E w" "registerIn E a w = (Inr (Done x), w')" "ra_waitlist a = None"
  with registerIn_effect seated_booked show "booked exact E w'" by blast
qed auto

text \<open>A walk-up draws its guest's identifier first.\<close>

lemma tables_Suc: "tables_ok E n ts rs ws \<Longrightarrow> tables_ok E (Suc n) ts rs ws"
  by (auto simp: tables_ok_def types_ok_def regs_ok_def waitlist_ok_def)

lemma booked_drawn:
  assumes "booked exact E w" "g_types w' = g_types w" "g_regs w' = g_regs w" "g_waitlist w' = g_waitlist w"
    "g_drawn w' = Suc (g_drawn w)"
  shows "booked exact E w'"
  using assms tables_Suc by (simp add: booked_def)

lemma draw_keeps: "keeps (booked exact E) (draw E)"
  unfolding keeps_def draw_def by (auto simp: prog_simps intro: booked_drawn)

lemma frame_checkInWalkupSeats [intro]: "frame (checkInWalkupSeats a i c)"
  unfolding checkInWalkupSeats_def by (auto simp: core_def intro!: frame_writes)

lemma walkup_body_effect:
  assumes "walkup_body E a g w = (Inr (Done o'), w')" "booked exact E w"
  shows "booked exact E w'"
proof -
  let ?ra = "walkupRegisterArgs a g"
  from assms(1) obtain res w1 where res: "registerIn E ?ra w = (Inr res, w1)" and rest: "(case res of
       Thrown o' \<Rightarrow> ret (Thrown o')
     | Done o' \<Rightarrow>
         (case (o', wa_checkIn a) of
            (Registered_as (r, _), Some c) \<Rightarrow>
              seq (checkInWalkupSeats a (rg_id r) c) (\<lambda>_. seq (loadRegistrationById (wa_event a) (rg_id r)) (\<lambda>row.
              case row of None \<Rightarrow> raise (PlainError ''walk-up reload returned no row'')
              | Some x \<Rightarrow> ret (Done (Registered_as x))))
          | (Registered_as x, None) \<Rightarrow> ret (Done (Registered_as x))
          | _ \<Rightarrow> ret (Thrown o'))) w1 = (Inr (Done o'), w')"
    unfolding walkup_body_def by (rule seq_InrE)
  from rest obtain x where x: "res = Done x" by (cases res) (auto simp: prog_simps)
  have "booked exact E w1"
    using registerIn_effect [OF res [unfolded x]] seated_booked [OF assms(2), of ?ra w1] assms(2)
    by (auto simp: walkupRegisterArgs_def)
  moreover have "frame (case (x, wa_checkIn a) of
            (Registered_as (r, _), Some c) \<Rightarrow>
              seq (checkInWalkupSeats a (rg_id r) c) (\<lambda>_. seq (loadRegistrationById (wa_event a) (rg_id r)) (\<lambda>row.
              case row of None \<Rightarrow> raise (PlainError ''walk-up reload returned no row'')
              | Some x \<Rightarrow> ret (Done (Registered_as x))))
          | (Registered_as x, None) \<Rightarrow> ret (Done (Registered_as x))
          | _ \<Rightarrow> ret (Thrown x))"
    by (auto split: register_outcome.split option.split)
  ultimately show ?thesis using rest x booked_core unfolding frame_def by (metis (no_types, lifting) snd_conv tx_result.case(1))
qed

lemma registerWalkupTx_keeps: "keeps (booked exact E) (registerWalkupTx E a)"
  unfolding registerWalkupTx_def
proof (intro keeps_seq keeps_reads keeps_recover keeps_transact)
  fix w x w'
  assume b: "booked exact E w" and run: "seq (insertWalkupGuest E a) (walkup_body E a) w = (Inr (Done x), w')"
  from run obtain g w1 where g: "insertWalkupGuest E a w = (Inr g, w1)" and body: "walkup_body E a g w1 = (Inr (Done x), w')"
    by (rule seq_InrE)
  have "booked exact E w1" by (rule booked_drawn [OF b]) (use g in \<open>auto simp: insertWalkupGuest_def draw_def prog_simps\<close>)
  with body walkup_body_effect show "booked exact E w'" by blast
qed auto

end
