(* ===== verification/Registration_Queue.thy ===== *)
theory Registration_Queue
  imports Registration_Steps
begin

section \<open>The waitlist keeps the account\<close>

text \<open>
  Joining, leaving, offering, expiring and claiming.  An expiry takes the party of one offer of each ticket type off
  the counter, so the account stays exact only where no two offers of a type expire together; a claim that finds a
  stored registration under its key gives the offer up without a registration.
\<close>

lemma bookedD:
  assumes "booked exact E w"
  shows "tables_ok E (g_drawn w) (g_types w) (g_regs w) (g_waitlist w)"
    "acct exact (\<lambda>_. 0) (g_types w) (g_regs w) (g_waitlist w)"
    "distinct (map wl_id (g_waitlist w))" "distinct (map rg_id (g_regs w))" "distinct (map ty_id (g_types w))"
    "list_all entry_ok (g_waitlist w)"
  using assms
  by (auto simp: booked_def tables_ok_def waitlist_ok_def regs_ok_def types_ok_def list_all_iff)

lemma booked_weaken: "booked exact E w \<Longrightarrow> booked False E w"
  by (auto simp: booked_def acct_def covers_def)

definition left_row :: "waitlist_row \<Rightarrow> waitlist_row \<Rightarrow> bool" where
  "left_row e e' \<longleftrightarrow> (\<exists>s. s \<notin> {Waiting, Offered, Claimed} \<and> e' = e\<lparr>wl_status := s\<rparr>)"

lemma left_row_kept: "left_row e e' \<Longrightarrow> entry_kept e e'"
  by (auto simp: left_row_def entry_kept_def live_def entry_ok_def)

lemma left_row_not_offered: "left_row e e' \<Longrightarrow> wl_status e' \<noteq> Offered"
  by (auto simp: left_row_def)

lemma left_rows [simp]: "left_row e (e\<lparr>wl_status := Withdrawn\<rparr>)" "left_row e (e\<lparr>wl_status := Expired\<rparr>)"
  by (auto simp: left_row_def)

text \<open>Live entries that leave, with the counters of those that held an offer.\<close>

lemma entries_leave:
  assumes b: "booked exact E w" and P: "\<And>e. P e \<Longrightarrow> e \<in> set (g_waitlist w) \<Longrightarrow> live e" and g: "\<And>e. left_row e (g e)"
    and d: "exact \<Longrightarrow> distinct (map wl_type (filter P (g_waitlist w)))"
    and w': "g_types w' = release_from wl_type wl_party now
        (filter (\<lambda>e. wl_offeredAt e \<noteq> None) (filter P (g_waitlist w))) (g_types w)"
      "g_waitlist w' = update_rows P g (g_waitlist w)" "g_regs w' = g_regs w" "g_drawn w' = g_drawn w"
  shows "booked exact E w'"
proof -
  let ?gone = "filter P (g_waitlist w)" and ?src = "filter (\<lambda>e. wl_offeredAt e \<noteq> None) (filter P (g_waitlist w))"
  have seats: "seats_of wl_type wl_party ?src i = offer_held i ?gone" for i
    by (rule offered_entries_seats) (use P bookedD(6) [OF b] in \<open>auto simp: list_all_iff\<close>)
  have "acct exact (\<lambda>_. 0) (g_types w') (g_regs w') (g_waitlist w')" unfolding w'
  proof (rule acct_release [OF bookedD(2) [OF b], where freed = "\<lambda>i. offer_held i ?gone"])
    fix i
    show "held i (g_regs w) (update_rows P g (g_waitlist w)) + 0 + offer_held i ?gone = held i (g_regs w) (g_waitlist w) + 0"
      using offer_held_withdraw [of P g i "g_waitlist w"] left_row_not_offered [OF g] by (simp add: held_def)
    show "released wl_type wl_party ?src i \<le> offer_held i ?gone" using released_le seats by metis
    show "released wl_type wl_party ?src i = offer_held i ?gone" if exact
      using released_eq [of wl_type ?src] d [OF that] seats by (metis distinct_map_filter)
  qed
  moreover have "tables_ok E (g_drawn w') (g_types w') (g_regs w') (g_waitlist w')" unfolding w'
    by (rule tables_kept [OF bookedD(1) [OF b]]) (use left_row_kept [OF g] in \<open>auto intro!: rows_same rows_updated\<close>)
  ultimately show ?thesis by (simp add: booked_def)
qed

lemma distinct_types_of_subject:
  assumes "distinct (map (\<lambda>e. (wl_type e, wl_subject e)) (filter live ws))" "\<And>e. P e \<Longrightarrow> live e \<and> wl_subject e = s"
  shows "distinct (map wl_type (filter P ws))"
proof -
  have "filter P ws = filter P (filter live ws)" using assms(2) by (auto intro: filter_cong)
  moreover have "inj_on wl_type (set (filter P (filter live ws)))"
  proof (rule inj_onI)
    fix x y assume xy: "x \<in> set (filter P (filter live ws))" "y \<in> set (filter P (filter live ws))" "wl_type x = wl_type y"
    with assms(2) have "(\<lambda>e. (wl_type e, wl_subject e)) x = (\<lambda>e. (wl_type e, wl_subject e)) y" by simp
    with xy assms(1) show "x = y" unfolding distinct_map by (metis (lifting) filter_is_subset inj_onD subsetD)
  qed
  moreover have "distinct (filter P (filter live ws))" 
    using assms(1) distinct_filter [of "filter live ws" P] by (simp only: distinct_map)
  ultimately show ?thesis by (metis distinct_map)
qed

lemma cancelWaitlistEntriesIn_keeps: "keeps (booked exact E) (cancelWaitlistEntriesIn event typeId s now)"
  unfolding keeps_def
proof (intro allI impI)
  fix w
  assume b: "booked exact E w"
  let ?P = "\<lambda>e. wl_event e = event \<and> live e \<and> (case typeId of None \<Rightarrow> True | Some t \<Rightarrow> wl_type e = t) \<and> wl_subject e = s"
  have d: "distinct (map wl_type (filter ?P (g_waitlist w)))"
    by (rule distinct_types_of_subject) (use b in \<open>auto simp: booked_def tables_ok_def waitlist_ok_def\<close>)
  show "booked exact E (snd (cancelWaitlistEntriesIn event typeId s now w))"
    by (rule entries_leave [OF b, where P = ?P and g = "\<lambda>e. e\<lparr>wl_status := Withdrawn\<rparr>" and now = now])
       (use d in \<open>simp_all add: cancelWaitlistEntriesIn_def prog_simps Let_def\<close>)
qed

lemma distinct_one_id:
  assumes "distinct (map key rs)"
  shows "distinct (map f (filter (\<lambda>e. key e = i \<and> Q e) rs))"
  using assms
proof (induction rs)
  case (Cons r rs)
  have "filter (\<lambda>e. key e = i \<and> Q e) rs = []" if "key r = i" using Cons.prems that by (auto simp: filter_empty_conv image_iff)
  with Cons show ?case by auto
qed simp

lemma release_hold_booked:
  assumes "booked exact E w" "\<And>e. e \<in> set (g_waitlist w) \<Longrightarrow> wl_id e = i \<Longrightarrow> wl_event e = event \<Longrightarrow> live e"
  shows "booked exact E (snd (releaseWaitlistHold event i now w))"
  by (rule entries_leave [OF assms(1), where P = "\<lambda>e. wl_id e = i \<and> wl_event e = event"
        and g = "\<lambda>e. e\<lparr>wl_status := Expired\<rparr>" and now = now])
     (use assms distinct_one_id [OF bookedD(3) [OF assms(1)]] in \<open>auto simp: releaseWaitlistHold_def prog_simps Let_def\<close>)

lemma joinWaitlist_keeps: "keeps (booked exact E) (joinWaitlist E a)"
  unfolding keeps_def
proof (intro allI impI)
  fix w
  assume b: "booked exact E w"
  show "booked exact E (snd (joinWaitlist E a w))"
  proof (cases "fst (joinWaitlistGateRefusal E a w) = Inr None \<and> findLiveWaitlistEntry (ja_type a) (ja_subject a) w = None")
    case False
    then show ?thesis using b
      by (auto simp: joinWaitlist_def joinWaitlistGateRefusal_def seq_run reads_run ret_run split: option.split)
  next
    case True
    then obtain t where t: "find (\<lambda>t. ty_id t = ja_type a \<and> ty_event t = ja_event a) (g_types w) = Some t"
      by (auto simp: joinWaitlistGateRefusal_def reads_run waitlistTicketTypeRefusal_def split: option.splits if_splits)
    let ?e = "\<lparr>wl_id = re_uuid E (g_drawn w), wl_event = ja_event a, wl_type = ja_type a, wl_subject = ja_subject a,
      wl_party = ja_party a, wl_status = Waiting, wl_createdAt = ja_now a, wl_offeredAt = None,
      wl_claimExpiresAt = None, wl_promoted = None\<rparr>"
    have run: "snd (joinWaitlist E a w) = w\<lparr>g_drawn := Suc (g_drawn w), g_waitlist := g_waitlist w @ [?e]\<rparr>"
      using True by (simp add: joinWaitlist_def joinWaitlistGateRefusal_def draw_def prog_simps Let_def)
    have "tables_ok E (Suc (g_drawn w)) (g_types w) (g_regs w) (g_waitlist w @ [?e])"
    proof (rule tables_add_entry [OF bookedD(1) [OF b]])
      show "t \<in> set (g_types w)" using find_SomeD [OF t] by simp
      show "(wl_type x, wl_subject x) \<noteq> (wl_type ?e, wl_subject ?e)" if "x \<in> set (g_waitlist w)" "live x" for x
        using True that by (auto simp: findLiveWaitlistEntry_def find_None_iff)
    qed (use find_SomeD [OF t] in \<open>auto simp: entry_ok_def\<close>)
    with bookedD(2) [OF b] show ?thesis by (simp add: run booked_def acct_def held_def held_simps)
  qed
qed

subsection \<open>Offers\<close>

lemma reserveAndOffer_booked:
  assumes b: "booked exact E w" and e: "e \<in> set (g_waitlist w)" "wl_status e = Waiting"
  shows "booked exact E (snd (reserveAndOffer e scope now expires w))"
proof -
  let ?P = "\<lambda>t. ty_id t = wl_type e \<and> scope t \<and> has_room (wl_party e) t"
  show ?thesis
  proof (cases "find ?P (g_types w)")
    case None
    with b show ?thesis by (simp add: reserveAndOffer_def prog_simps Let_def)
  next
    case (Some t)
    let ?g = "\<lambda>e. e\<lparr>wl_status := Offered, wl_offeredAt := Some now, wl_claimExpiresAt := Some expires\<rparr>"
    let ?Q = "\<lambda>x. wl_id x = wl_id e"
    have run: "snd (reserveAndOffer e scope now expires w) = w\<lparr>g_types := update_rows ?P (add_seats (wl_party e) now) (g_types w),
        g_waitlist := update_rows ?Q ?g (g_waitlist w)\<rparr>"
      using Some by (simp add: reserveAndOffer_def prog_simps Let_def)
    have P: "reserved (wl_party e) now t (g_types w) (update_rows ?P (add_seats (wl_party e) now) (g_types w))"
      unfolding reserved_def by (intro exI [of _ ?P]) (use find_SomeD [OF Some] in auto)
    have waiting: "wl_status x = Waiting" if "x \<in> set (g_waitlist w)" "wl_id x = wl_id e" for x
      using bookedD(3) [OF b] e that by (auto simp: distinct_map inj_on_def)
    have "acct exact (\<lambda>_. 0) (update_rows ?P (add_seats (wl_party e) now) (g_types w)) (g_regs w) (update_rows ?Q ?g (g_waitlist w))"
    proof (rule acct_reserved [OF bookedD(2,5) [OF b] P])
      fix i
      show "held i (g_regs w) (update_rows ?Q ?g (g_waitlist w))
          = held i (g_regs w) (g_waitlist w) + (if i = ty_id t then wl_party e else 0)"
        using offer_held_replace [OF bookedD(3) [OF b] e(1), of ?Q i ?g] e(2) find_SomeD [OF Some]
        by (auto simp: held_def held_simps split: if_splits)
    qed
    moreover have "tables_ok E (g_drawn w) (update_rows ?P (add_seats (wl_party e) now) (g_types w)) (g_regs w)
        (update_rows ?Q ?g (g_waitlist w))"
      by (rule tables_kept [OF bookedD(1) [OF b] reserved_kept [OF P]])
         (use waiting in \<open>auto simp: entry_kept_def live_def entry_ok_def intro!: rows_same rows_updated\<close>)
    ultimately show ?thesis by (simp add: run booked_def)
  qed
qed

lemma queue_head_waiting: "queue_head E i w = Some e \<Longrightarrow> e \<in> set (g_waitlist w) \<and> wl_status e = Waiting \<and> wl_type e = i"
proof -
  assume h: "queue_head E i w = Some e"
  let ?q = "sort_key (\<lambda>e. (wl_createdAt e, wl_id e)) (filter (\<lambda>e. wl_type e = i \<and> eligible E w e) (g_waitlist w))"
  from h have "e \<in> set ?q" unfolding queue_head_def by (cases ?q) simp_all
  then show ?thesis by (auto simp: eligible_def)
qed

lemma offers_keep:
  "keeps (booked exact E) (offerNextWaitlistEntry E typeId now win)"
  "keeps (booked exact E) (offerWaitlistEntry E event i now win)"
  unfolding keeps_def offerNextWaitlistEntry_def offerWaitlistEntry_def
  by (auto simp: seq_run reads_run ret_run eligible_def split: option.split
      dest!: queue_head_waiting find_SomeD intro!: reserveAndOffer_booked)

subsection \<open>Expiry\<close>

text \<open>The rows that an expiry picks are the rows with their identifiers.\<close>

lemma picked_rows:
  assumes "distinct (map key rs)" "set gone \<subseteq> set rs" "distinct gone"
  shows "mset (filter (\<lambda>x. key x \<in> key ` set gone) rs) = mset gone"
proof (rule set_eq_iff_mset_eq_distinct [THEN iffD1])
  show "distinct (filter (\<lambda>x. key x \<in> key ` set gone) rs)" using assms(1) by (simp add: distinct_map)
  show "set (filter (\<lambda>x. key x \<in> key ` set gone) rs) = set gone"
    using assms by (auto simp: distinct_map inj_on_def)
qed (fact assms(3))

lemma offer_held_mset: "mset xs = mset ys \<Longrightarrow> offer_held i xs = offer_held i ys"
proof -
  assume eq: "mset xs = mset ys"
  let ?P = "\<lambda>e. wl_status e = Offered \<and> wl_type e = i"
  from eq have "mset (map wl_party (filter ?P xs)) = mset (map wl_party (filter ?P ys))" by simp
  then have "sum_mset (mset (map wl_party (filter ?P xs))) = sum_mset (mset (map wl_party (filter ?P ys)))" by (rule arg_cong)
  then show ?thesis by (simp only: offer_held_def sum_mset_sum_list)
qed

lemma expired_offers_props:
  assumes "distinct (map wl_id (g_waitlist w))"
  shows "set (expired_offers now limit w) \<subseteq> set (g_waitlist w)" "distinct (expired_offers now limit w)"
    "\<And>e. e \<in> set (expired_offers now limit w) \<Longrightarrow> wl_status e = Offered"
proof -
  show "set (expired_offers now limit w) \<subseteq> set (g_waitlist w)" by (auto simp: expired_offers_def dest!: in_set_takeD)
  have "distinct (g_waitlist w)" using assms by (simp add: distinct_map)
  then show "distinct (expired_offers now limit w)" by (simp add: expired_offers_def)
  show "wl_status e = Offered" if "e \<in> set (expired_offers now limit w)" for e
    using that by (auto simp: expired_offers_def dest!: in_set_takeD)
qed

lemma offered_seats: "(\<And>e. e \<in> set es \<Longrightarrow> wl_status e = Offered) \<Longrightarrow> seats_of wl_type wl_party es i = offer_held i es"
  by (induction es) (auto simp: seats_of_simps held_simps)

lemma expire_booked:
  assumes b: "booked exact E w" and d: "exact \<Longrightarrow> distinct (map wl_type (expired_offers now limit w))"
  shows "booked exact E (snd (expireWaitlistOffers now limit w))"
proof -
  let ?gone = "expired_offers now limit w" and ?P = "\<lambda>e. wl_id e \<in> wl_id ` set (expired_offers now limit w)"
  let ?g = "\<lambda>e. e\<lparr>wl_status := Expired\<rparr>"
  note props = expired_offers_props [OF bookedD(3) [OF b], where now = now and limit = limit]
  have run: "snd (expireWaitlistOffers now limit w) = w\<lparr>g_waitlist := update_rows ?P ?g (g_waitlist w),
      g_types := release_from wl_type wl_party now ?gone (g_types w)\<rparr>"
    by (simp add: expireWaitlistOffers_def prog_simps)
  have gone: "offer_held i (filter ?P (g_waitlist w)) = offer_held i ?gone" for i
    by (intro offer_held_mset picked_rows bookedD(3) [OF b] props)
  have seats: "seats_of wl_type wl_party ?gone i = offer_held i ?gone" for i
    by (intro offered_seats props)
  have "acct exact (\<lambda>_. 0) (release_from wl_type wl_party now ?gone (g_types w)) (g_regs w) (update_rows ?P ?g (g_waitlist w))"
  proof (rule acct_release [OF bookedD(2) [OF b], where freed = "\<lambda>i. offer_held i ?gone"])
    fix i
    show "held i (g_regs w) (update_rows ?P ?g (g_waitlist w)) + 0 + offer_held i ?gone = held i (g_regs w) (g_waitlist w) + 0"
      using offer_held_withdraw [of ?P ?g i "g_waitlist w"] gone [of i] by (simp add: held_def)
    show "released wl_type wl_party ?gone i \<le> offer_held i ?gone" using released_le seats by metis
    show "released wl_type wl_party ?gone i = offer_held i ?gone" if exact
      using released_eq [OF d [OF that]] seats by metis
  qed
  moreover have "tables_ok E (g_drawn w) (release_from wl_type wl_party now ?gone (g_types w)) (g_regs w)
      (update_rows ?P ?g (g_waitlist w))"
    by (rule tables_kept [OF bookedD(1) [OF b]]) (auto intro!: rows_same rows_updated intro: left_row_kept [OF left_rows(2)])
  ultimately show ?thesis by (simp add: run booked_def)
qed

subsection \<open>Claims\<close>

definition owed :: "waitlist_row \<Rightarrow> string \<Rightarrow> nat" where
  "owed e i = (if i = wl_type e then wl_party e else 0)"

definition owing :: "bool \<Rightarrow> reg_env \<Rightarrow> waitlist_row \<Rightarrow> reg_world \<Rightarrow> bool" where
  "owing exact E e w \<longleftrightarrow> tables_ok E (g_drawn w) (g_types w) (g_regs w) (g_waitlist w)
     \<and> acct exact (owed e) (g_types w) (g_regs w) (g_waitlist w)
     \<and> e\<lparr>wl_status := Claimed\<rparr> \<in> set (g_waitlist w) \<and> wl_offeredAt e \<noteq> None"

lemma claim_owing:
  assumes b: "booked exact E w" and e: "e \<in> set (g_waitlist w)" "P e" and P: "\<And>x. P x \<Longrightarrow> wl_id x = wl_id e \<and> wl_status x = Offered"
  shows "owing exact E e (w\<lparr>g_waitlist := update_rows P (\<lambda>x. x\<lparr>wl_status := Claimed\<rparr>) (g_waitlist w)\<rparr>)"
proof -
  let ?g = "\<lambda>x. x\<lparr>wl_status := Claimed\<rparr>"
  have one: "P x \<longleftrightarrow> wl_id x = wl_id e" if "x \<in> set (g_waitlist w)" for x
    using that e P bookedD(3) [OF b] by (metis distinct_map inj_onD)
  have "acct exact (owed e) (g_types w) (g_regs w) (update_rows P ?g (g_waitlist w))"
  proof (rule acct_same_sums [OF bookedD(2) [OF b]])
    fix i
    show "held i (g_regs w) (update_rows P ?g (g_waitlist w)) + owed e i = held i (g_regs w) (g_waitlist w) + 0"
      using offer_held_replace [OF bookedD(3) [OF b] e(1) one, of i ?g] P [OF e(2)]
      by (auto simp: held_def held_simps owed_def split: if_splits)
  qed
  moreover have "tables_ok E (g_drawn w) (g_types w) (g_regs w) (update_rows P ?g (g_waitlist w))"
    by (rule tables_kept [OF bookedD(1) [OF b]])
       (use P in \<open>auto simp: entry_kept_def live_def entry_ok_def intro!: rows_same rows_updated\<close>)
  moreover have "?g e \<in> set (update_rows P ?g (g_waitlist w))" using e by (auto simp: update_rows_def image_iff)
  moreover have "wl_offeredAt e \<noteq> None" using bookedD(6) [OF b] e P by (auto simp: list_all_iff entry_ok_def)
  ultimately show ?thesis by (simp add: owing_def)
qed

lemma filter_one:
  assumes "distinct (map key rs)" "c \<in> set rs" "Q c"
  shows "filter (\<lambda>x. key x = key c \<and> Q x) rs = [c]"
proof -
  from split_list [OF assms(2)] obtain us vs where rs: "rs = us @ c # vs" by blast
  with assms(1) have "filter (\<lambda>x. key x = key c \<and> Q x) us = []" "filter (\<lambda>x. key x = key c \<and> Q x) vs = []"
    by (auto simp: filter_empty_conv image_iff)
  with rs assms(3) show ?thesis by simp
qed

lemma owing_release:
  assumes o: "owing exact E e w"
  shows "booked exact E (snd (releaseWaitlistHold (wl_event e) (wl_id e) now w))"
proof -
  let ?c = "e\<lparr>wl_status := Claimed\<rparr>" and ?P = "\<lambda>x. wl_id x = wl_id e \<and> wl_event x = wl_event e"
  let ?g = "\<lambda>x. x\<lparr>wl_status := Expired\<rparr>"
  have d: "distinct (map wl_id (g_waitlist w))" and c: "?c \<in> set (g_waitlist w)" "wl_offeredAt e \<noteq> None"
    using o by (auto simp: owing_def tables_ok_def waitlist_ok_def)
  have one: "filter ?P (g_waitlist w) = [?c]"
    using filter_one [OF d c(1), where Q = "\<lambda>x. wl_event x = wl_event e"] by simp
  have run: "snd (releaseWaitlistHold (wl_event e) (wl_id e) now w) = w\<lparr>g_waitlist := update_rows ?P ?g (g_waitlist w),
      g_types := release_from wl_type wl_party now [?c] (g_types w)\<rparr>"
    using c(2) by (simp add: releaseWaitlistHold_def prog_simps Let_def one)
  have acc: "acct exact (owed e) (g_types w) (g_regs w) (g_waitlist w)" using o by (simp add: owing_def)
  have "acct exact (\<lambda>_. 0) (release_from wl_type wl_party now [?c] (g_types w)) (g_regs w) (update_rows ?P ?g (g_waitlist w))"
  proof (rule acct_release [OF acc, where freed = "owed e"])
    fix i
    show "held i (g_regs w) (update_rows ?P ?g (g_waitlist w)) + 0 + owed e i = held i (g_regs w) (g_waitlist w) + owed e i"
      using offer_held_withdraw [of ?P ?g i "g_waitlist w"] one by (simp add: held_def held_simps)
  qed (auto simp: released_Cons owed_def released_def)
  moreover have "tables_ok E (g_drawn w) (release_from wl_type wl_party now [?c] (g_types w)) (g_regs w)
      (update_rows ?P ?g (g_waitlist w))"
    by (rule tables_kept) (use o in \<open>auto simp: owing_def intro!: rows_same rows_updated intro: left_row_kept [OF left_rows(2)]\<close>)
  ultimately show ?thesis by (simp add: run booked_def)
qed

lemma owing_seated:
  assumes o: "owing exact E e w" and s: "seated E ra w w'"
    and ra: "ra_waitlist ra \<noteq> None" "ra_type ra = Some (wl_type e)" "length (ra_seats ra) = wl_party e"
  shows "booked exact E w'"
proof -
  from s ra obtain tt where tt: "picked_type ra w tt" "enrolled E ra (map_option ty_id tt) w w'" by (auto simp: seated_def)
  with ra(2) have ty: "map_option ty_id tt = Some (wl_type e)" by (simp add: picked_type_def)
  then obtain t where t: "tt = Some t" "ty_id t = wl_type e" by auto
  with tt(1) have "\<exists>t \<in> set (g_types w). map_option ty_id tt = Some (ty_id t) \<and> ty_event t = ra_event ra"
    by (intro bexI [of _ t]) (simp_all add: picked_type_def)
  moreover have "tables_ok E (g_drawn w) (g_types w) (g_regs w) (g_waitlist w)" using o by (simp add: owing_def)
  ultimately have "tables_ok E (g_drawn w') (g_types w') (g_regs w') (g_waitlist w')" using enrolled_tables tt(2) by blast
  moreover have "acct exact (\<lambda>_. 0) (g_types w) (g_regs w') (g_waitlist w')"
    by (rule acct_same_sums [where credit = "owed e"])
       (use o enrolled_held [OF tt(2)] ty ra(3) in \<open>auto simp: owing_def owed_def\<close>)
  ultimately show ?thesis using tt(2) by (simp add: booked_def enrolled_def)
qed

lemma owing_drop: "owing exact E e w \<Longrightarrow> booked False E w"
  unfolding owing_def booked_def by (auto simp: acct_def covers_def)

lemma register_seats_new: "register_seats E event a tt w \<noteq> (Inr (Done (Replayed x)), w')"
proof
  assume "register_seats E event a tt w = (Inr (Done (Replayed x)), w')"
  then show False unfolding register_seats_def Let_def
    by (auto simp: ret_run split: option.splits tx_result.splits elim!: seq_InrE dest!: register_writes_effect)
qed

lemma registerIn_replayed:
  "registerIn E a w = (Inr (Done (Replayed x)), w') \<Longrightarrow> fst (findRegisterSnapshot E a w) \<noteq> Inr None"
  unfolding registerIn_def
  by (auto simp: seq_run reads_run ret_run findRegisterSnapshot_def eventGateRefusal_def pickTicketType_def
      register_seats_new
      split: option.splits sum.splits if_splits)

lemma claim_registered_booked:
  assumes run: "claim_registered E a ra w = (Inr (Done o'), w')" and o: "owing exact E e w"
    and e: "wl_id e = ca_waitlist a" "wl_event e = ca_event a"
    and ra: "ra_waitlist ra \<noteq> None" "ra_type ra = Some (wl_type e)" "length (ra_seats ra) = wl_party e"
    and new: "exact \<Longrightarrow> fst (findRegisterSnapshot E ra w) = Inr None"
  shows "booked exact E w'"
proof -
  from run obtain res w1 where res: "registerIn E ra w = (Inr (Done res), w1)"
    and rest: "(case res of Registered_as r \<Rightarrow> ret (Done (Claim_claimed r)) | Replayed (Some r) \<Rightarrow> ret (Done (Claim_claimed r))
       | Refused x \<Rightarrow> if x = Registration_closed \<or> x = Event_closed
           then seq (releaseWaitlistHold (ca_event a) (ca_waitlist a) (ca_now a)) (\<lambda>_. ret (Done Claim_not_offered))
           else ret (Thrown Claim_not_offered)
       | Replayed None \<Rightarrow> ret (Thrown Claim_not_offered)) w1 = (Inr (Done o'), w')"
    unfolding claim_registered_def
    by (elim seq_InrE) (auto simp: ret_run split: tx_result.splits)
  show ?thesis
  proof (cases res)
    case (Registered_as x)
    with registerIn_effect [OF res] have "seated E ra w w1" by auto
    from owing_seated [OF o this ra] rest Registered_as show ?thesis by (simp add: ret_run)
  next
    case (Replayed x)
    with registerIn_effect [OF res] registerIn_replayed [of E ra w x w1] res new have "w1 = w" "\<not> exact" by auto
    with owing_drop [OF o] rest Replayed show ?thesis by (auto simp: ret_run split: option.splits)
  next
    case (Refused r)
    with registerIn_effect [OF res] have "w1 = w" by auto
    with owing_release [OF o, of "ca_now a"] rest Refused e show ?thesis
      by (auto simp: ret_run seq_run split: if_splits sum.splits)
  qed
qed

lemma claimed_before_run: "\<exists>x. claimed_before event s e w = (Inr x, w)"
  by (simp add: claimed_before_def loadRegistrationById_def prog_simps split: option.split)

lemma classifyUnclaimable_keeps: "keeps (booked exact E) (classifyUnclaimable event i s now)"
  unfolding keeps_def
proof (intro allI impI)
  fix w
  assume b: "booked exact E w"
  have rel: "booked exact E (snd (releaseWaitlistHold event i now w))"
    if "find (\<lambda>e. wl_id e = i \<and> wl_event e = event) (g_waitlist w) = Some e" "wl_status e = Offered" for e
  proof (rule release_hold_booked [OF b])
    fix x assume "x \<in> set (g_waitlist w)" "wl_id x = i" "wl_event x = event"
    with find_SomeD [OF that(1)] bookedD(3) [OF b] have "x = e" by (auto simp: distinct_map inj_on_def)
    with that(2) show "live x" by (simp add: live_def)
  qed
  show "booked exact E (snd (classifyUnclaimable event i s now w))"
  proof (cases "find (\<lambda>e. wl_id e = i \<and> wl_event e = event) (g_waitlist w)")
    case (Some e)
    obtain x where "claimed_before event s e w = (Inr x, w)" using claimed_before_run by blast
    with Some b rel [OF Some] show ?thesis
      by (simp add: classifyUnclaimable_def seq_run [of "reads _"] reads_run seq_run [of "claimed_before _ _ _"]
          ret_run seq_ret_state split: option.split)
  qed (use b in \<open>simp add: classifyUnclaimable_def prog_simps\<close>)
qed

lemma claimOfferIn_booked:
  assumes run: "claimOfferIn E a s ra w = (Inr (Done o'), w')" and b: "booked exact E w"
    and ra: "ra = claimRegisterArgs a e0" "e0 \<in> set (g_waitlist w)" "wl_id e0 = ca_waitlist a"
    and new: "exact \<Longrightarrow> fst (findRegisterSnapshot E ra w) = Inr None"
  shows "booked exact E w'"
proof -
  let ?P = "\<lambda>e. wl_id e = ca_waitlist a \<and> wl_event e = ca_event a \<and> wl_status e = Offered
    \<and> (case wl_claimExpiresAt e of None \<Rightarrow> True | Some t \<Rightarrow> t > ca_now a) \<and> wl_party e = length (ra_seats ra)"
  show ?thesis
  proof (cases "find ?P (g_waitlist w)")
    case None
    with run keepsD [OF classifyUnclaimable_keeps b, of "ca_event a" "ca_waitlist a" s "ca_now a"] show ?thesis
      by (auto simp: claimOfferIn_def Let_def seq_run reads_run ret_run split: sum.splits)
  next
    case (Some e)
    from find_SomeD [OF Some] have e: "e \<in> set (g_waitlist w)" "?P e" by simp_all
    with ra bookedD(3) [OF b] have e0: "e0 = e" by (auto simp: distinct_map inj_on_def)
    let ?w = "w\<lparr>g_waitlist := update_rows ?P (\<lambda>e. e\<lparr>wl_status := Claimed\<rparr>) (g_waitlist w)\<rparr>"
    have o: "owing exact E e ?w" by (rule claim_owing [OF b e(1)]) (use e in auto)
    have snap: "fst (findRegisterSnapshot E ra ?w) = fst (findRegisterSnapshot E ra w)"
      by (simp add: findRegisterSnapshot_def reads_run)
    from run Some consider
        "seq (releaseWaitlistHold (ca_event a) (ca_waitlist a) (ca_now a)) (\<lambda>_. ret (Done Claim_not_offered)) ?w = (Inr (Done o'), w')"
      | "claim_registered E a ra ?w = (Inr (Done o'), w')"
      by (auto simp: claimOfferIn_def Let_def seq_run [of "reads _"] reads_run seq_run [of "writes _"] writes_run ret_run
          split: if_splits)
    then show ?thesis
    proof cases
      case 1
      with owing_release [OF o, of "ca_now a"] e(2) show ?thesis
        by (auto simp: seq_run ret_run split: sum.splits)
    next
      case 2
      show ?thesis by (rule claim_registered_booked [OF 2 o])
          (use e ra e0 new snap in \<open>auto simp: claimRegisterArgs_def\<close>)
    qed
  qed
qed

lemma claim_booked:
  assumes b: "booked exact E w"
    and new: "\<And>e. exact \<Longrightarrow> e \<in> set (g_waitlist w) \<Longrightarrow> wl_id e = ca_waitlist a
      \<Longrightarrow> fst (findRegisterSnapshot E (claimRegisterArgs a e) w) = Inr None"
  shows "booked exact E (snd (claimWaitlistOffer E a w))"
proof (cases "find (\<lambda>e. wl_id e = ca_waitlist a \<and> wl_event e = ca_event a) (g_waitlist w)")
  case None
  with b show ?thesis by (simp add: claimWaitlistOffer_def prog_simps)
next
  case (Some e)
  let ?ra = "claimRegisterArgs a e"
  from find_SomeD [OF Some] have e: "e \<in> set (g_waitlist w)" "wl_id e = ca_waitlist a" by simp_all
  obtain r w1 where tx: "transact (claimOfferIn E a (wl_subject e) ?ra) w = (r, w1)" by fastforce
  have b1: "booked exact E w1"
    using transact_Inr [OF tx] claimOfferIn_booked [OF _ b refl e] new [OF _ e] b by blast
  have "frame (seq (registerErrorOutcome E ?ra err) (\<lambda>mapped.
      case mapped of Replayed (Some r) \<Rightarrow> ret (Claim_claimed r) | _ \<Rightarrow> ret Claim_not_offered))" for err
    by (intro frame_seq frame_replays) (auto split: register_outcome.split option.split)
  then have "booked exact E (snd (seq (registerErrorOutcome E ?ra err) (\<lambda>mapped.
      case mapped of Replayed (Some r) \<Rightarrow> ret (Claim_claimed r) | _ \<Rightarrow> ret Claim_not_offered) w1))" for err
    using keepsD [OF frame_keeps] b1 by blast
  with b b1 Some tx show ?thesis
    by (auto simp: claimWaitlistOffer_def seq_run [of "reads _"] reads_run ret_run recover_run Let_def split: sum.split)
qed

end
