(* ===== verification/Registration_Returns.thy ===== *)
theory Registration_Returns
  imports Registration_Queue
begin

section \<open>The roster, ticket types and the other writers keep the account\<close>

text \<open>
  Cancelling, banning, transferring, editing ticket types, and the statements of the guest, erasure and cleanup
  repositories.
\<close>

definition gone_reg :: "registration_row \<Rightarrow> registration_row \<Rightarrow> bool" where
  "gone_reg r r' \<longleftrightarrow> rg_status r' \<noteq> Registered \<and> rg_id r' = rg_id r \<and> rg_event r' = rg_event r
     \<and> rg_subject r' = rg_subject r \<and> rg_type r' = rg_type r"

lemma gone_reg_kept: "gone_reg r r' \<Longrightarrow> reg_kept ts r r'"
  by (auto simp: gone_reg_def reg_kept_def registered_def)

lemma gone_regs [simp]: "gone_reg r (cancel_row now actor r)"
  "gone_reg r (r\<lparr>rg_status := Cancelled_registration, rg_cancelledAt := Some now\<rparr>)"
  by (auto simp: gone_reg_def cancel_row_def)

text \<open>Registrations and entries that leave together, with what they held.\<close>

lemma rows_leave:
  assumes b: "booked exact E w" and f: "\<And>r. gone_reg r (f r)" and g: "\<And>e. left_row e (g e)"
    and held: "\<And>i. released type_of seats src i = reg_held i (filter P (g_regs w)) + offer_held i (filter Q (g_waitlist w))"
    and w': "g_types w' = release_from type_of seats now src (g_types w)" "g_regs w' = update_rows P f (g_regs w)"
      "g_waitlist w' = update_rows Q g (g_waitlist w)" "g_drawn w' = g_drawn w"
  shows "booked exact E w'"
proof -
  have "acct exact (\<lambda>_. 0) (g_types w') (g_regs w') (g_waitlist w')" unfolding w'
  proof (rule acct_release [OF bookedD(2) [OF b], where freed = "released type_of seats src"])
    fix i
    have "\<And>r. rg_status (f r) \<noteq> Registered" using f by (auto simp: gone_reg_def)
    then show "held i (update_rows P f (g_regs w)) (update_rows Q g (g_waitlist w)) + 0 + released type_of seats src i
        = held i (g_regs w) (g_waitlist w) + 0"
      using reg_held_cancel [of P f i "g_regs w"] offer_held_withdraw [of Q g i "g_waitlist w"] left_row_not_offered [OF g]
      by (simp add: held_def held)
  qed simp_all
  moreover have "tables_ok E (g_drawn w') (g_types w') (g_regs w') (g_waitlist w')" unfolding w'
    by (rule tables_kept [OF bookedD(1) [OF b]])
       (use left_row_kept [OF g] gone_reg_kept [OF f] in \<open>auto intro!: rows_same rows_updated\<close>)
  ultimately show ?thesis by (simp add: booked_def)
qed

lemma update_none: "update_rows (\<lambda>_. False) f xs = xs"
  by (simp add: update_rows_def)

lemma regs_leave:
  assumes "booked exact E w" "\<And>r. gone_reg r (f r)"
    and "\<And>i. released type_of seats src i = reg_held i (filter P (g_regs w))"
    and "g_types w' = release_from type_of seats now src (g_types w)" "g_regs w' = update_rows P f (g_regs w)"
      "g_waitlist w' = g_waitlist w" "g_drawn w' = g_drawn w"
  shows "booked exact E w'"
  by (rule rows_leave [OF assms(1), where f = f and Q = "\<lambda>_. False" and g = "\<lambda>e. e\<lparr>wl_status := Expired\<rparr>" and P = P
        and type_of = type_of and seats = seats and src = src and now = now])
     (use assms in \<open>simp_all add: update_none held_simps\<close>)

lemma typed_one:
  assumes "distinct (map rg_id rs)"
  shows "released fst snd (typed_parties (filter (\<lambda>r. rg_id r = i \<and> Q r) rs)) t
    = seats_of fst snd (typed_parties (filter (\<lambda>r. rg_id r = i \<and> Q r) rs)) t"
proof -
  have "length (filter (\<lambda>r. rg_id r = i \<and> Q r) rs) \<le> 1"
    using assms
  proof (induction rs)
    case (Cons r rs)
    have "filter (\<lambda>r. rg_id r = i \<and> Q r) rs = []" if "rg_id r = i" using Cons.prems that by (auto simp: filter_empty_conv image_iff)
    with Cons show ?case by auto
  qed simp
  then have "distinct (map fst (typed_parties (filter (\<lambda>r. rg_id r = i \<and> Q r) rs)))"
    by (cases "filter (\<lambda>r. rg_id r = i \<and> Q r) rs") (auto simp: typed_parties_def map_filter_simps split: option.split)
  then show ?thesis by (rule released_eq)
qed

lemma cancelRegistrationIn_keeps: "keeps (booked exact E) (cancelRegistrationIn event i actor now)"
  unfolding keeps_def
proof (intro allI impI)
  fix w
  assume b: "booked exact E w"
  let ?P = "\<lambda>r. rg_id r = i \<and> rg_event r = event \<and> rg_status r = Registered"
  have "list_all registered (filter ?P (g_regs w))" by (auto simp: list_all_iff registered_def)
  then have rel: "released fst snd (typed_parties (filter ?P (g_regs w))) t = reg_held t (filter ?P (g_regs w))" for t
    using typed_one [OF bookedD(4) [OF b], where Q = "\<lambda>r. rg_event r = event \<and> rg_status r = Registered"]
      typed_parties_seats by simp
  show "booked exact E (snd (cancelRegistrationIn event i actor now w))"
    by (rule regs_leave [OF b, where P = ?P and f = "cancel_row now actor" and type_of = fst and seats = snd
          and src = "typed_parties (filter ?P (g_regs w))" and now = now])
       (use rel in \<open>simp_all add: cancelRegistrationIn_def loadRegistrationById_def prog_simps Let_def\<close>)
qed

lemma ban_cancels:
  assumes b: "booked exact E w" and P: "\<And>r. P r \<Longrightarrow> registered r"
    and w': "core w' = core (w\<lparr>g_regs := update_rows P (cancel_row now actor) (g_regs w),
      g_types := release_from fst snd now (held_by_type (typed_parties (filter P (g_regs w)))) (g_types w)\<rparr>)"
  shows "booked exact E w'"
proof -
  have "list_all registered (filter P (g_regs w))" using P by (auto simp: list_all_iff)
  from typed_parties_seats [OF this] show ?thesis
    by (intro regs_leave [OF b, where P = P and f = "cancel_row now actor" and type_of = fst and seats = snd
          and src = "held_by_type (typed_parties (filter P (g_regs w)))" and now = now])
       (use w' in \<open>simp_all add: released_held_by_type core_def\<close>)
qed

lemma ban_leave_keeps:
  "keeps (booked exact E) (seq (reads (\<lambda>w. filter (registered_for event s) (g_regs w))) (\<lambda>gone.
      seq (writes (\<lambda>w. w\<lparr>g_regs := update_rows (registered_for event s) (cancel_row now actor) (g_regs w),
             g_seats := cancel_seats gone (g_seats w),
             g_types := release_from fst snd now (held_by_type (typed_parties gone)) (g_types w),
             g_claims := C (g_claims w)\<rparr>)) (\<lambda>_. ret (F gone))))"
  unfolding keeps_def
proof (intro allI impI)
  fix w
  assume "booked exact E w"
  then show "booked exact E (snd (seq (reads (\<lambda>w. filter (registered_for event s) (g_regs w))) (\<lambda>gone.
      seq (writes (\<lambda>w. w\<lparr>g_regs := update_rows (registered_for event s) (cancel_row now actor) (g_regs w),
             g_seats := cancel_seats gone (g_seats w),
             g_types := release_from fst snd now (held_by_type (typed_parties gone)) (g_types w),
             g_claims := C (g_claims w)\<rparr>)) (\<lambda>_. ret (F gone))) w))"
    by (rule ban_cancels [where P = "registered_for event s" and now = now and actor = actor])
       (auto simp: registered_for_def registered_def core_def prog_simps)
qed

lemma applyBanIn_keeps: "keeps (booked exact E) (applyBanIn event user actor now)"
proof -
  have "frame (writes (\<lambda>w. w\<lparr>g_bans := (if (event, user) \<in> set (g_bans w) then g_bans w else g_bans w @ [(event, user)]),
             g_members := filter (\<lambda>m. \<not> (m = (event, user, ''member''))) (g_members w)\<rparr>))"
    by (rule frame_writes) (simp add: core_def)
  then show ?thesis unfolding applyBanIn_def Let_def
    by (intro keeps_seq [OF frame_keeps] keeps_seq [OF cancelWaitlistEntriesIn_keeps])
       (auto simp: split_beta intro: ban_leave_keeps [where C = "\<lambda>c. filter (\<lambda>c. \<not> (sc_event c = event \<and> sc_user c = user)) c", simplified])
qed

lemmas load_keeps = frame_rows(5) [THEN frame_keeps]

lemma removeRegistrationIn_keeps: "keeps (booked exact E) (removeRegistrationIn event i actor ban now)"
  unfolding removeRegistrationIn_def
  by (intro keeps_seq [OF keeps_reads] keeps_case_option keeps_ret)
     (auto intro!: keeps_seq keeps_case_option applyBanIn_keeps cancelRegistrationIn_keeps load_keeps keeps_ret
      split: bool.split registration_subject.split prod.split)

subsection \<open>Transfers\<close>

lemma transfer_booked:
  assumes b: "booked exact E w"
    and r: "r \<in> set (g_regs w)" "rg_id r = i" "rg_event r = event" "registered r" "rg_type r \<noteq> Some typeId"
    and t: "t \<in> set (g_types w)" "ty_id t = typeId" "ty_event t = event" "has_room (rg_party r) t"
  shows "booked exact E (w\<lparr>g_types :=
      update_rows (\<lambda>x. Some (ty_id x) = rg_type r \<and> ty_event x = event) (release_seats (rg_party r) now)
        (update_rows (\<lambda>x. ty_id x = typeId \<and> ty_event x = event \<and> has_room (rg_party r) x)
          (add_seats (rg_party r) now) (g_types w)),
      g_regs := update_rows (\<lambda>x. rg_id x = i \<and> rg_event x = event)
        (\<lambda>x. x\<lparr>rg_type := Some typeId, rg_source := Transfer\<rparr>) (g_regs w)\<rparr>)" (is "booked exact E (w\<lparr>g_types := ?ts, g_regs := ?rs\<rparr>)")
proof -
  let ?g = "\<lambda>x. x\<lparr>rg_type := Some typeId, rg_source := Transfer\<rparr>"
  let ?P = "\<lambda>x. rg_id x = i \<and> rg_event x = event"
  have same: "?P x \<longleftrightarrow> rg_id x = rg_id r" if "x \<in> set (g_regs w)" for x
    using that r bookedD(4) [OF b] by (auto simp: distinct_map inj_on_def)
  have sum: "held j ?rs (g_waitlist w) + (if rg_type r = Some j then rg_party r else 0)
      = held j (g_regs w) (g_waitlist w) + (if j = typeId then rg_party r else 0)" for j
    using reg_held_replace [OF bookedD(4) [OF b] r(1) same, of j ?g] r(4) by (auto simp: held_def held_simps registered_def)
  have "acct exact (\<lambda>_. 0) ?ts ?rs (g_waitlist w)"
    unfolding acct_def
  proof
    fix t'
    assume "t' \<in> set ?ts"
    then obtain x y where x: "x \<in> set (g_types w)"
      and y: "y = (if ty_id x = typeId \<and> ty_event x = event \<and> has_room (rg_party r) x then add_seats (rg_party r) now x else x)"
      and t': "t' = (if Some (ty_id y) = rg_type r \<and> ty_event y = event then release_seats (rg_party r) now y else y)"
      by (auto simp: update_rows_def)
    have cov: "covers exact (held (ty_id x) (g_regs w) (g_waitlist w) + 0) x" using bookedD(2) [OF b] x by (simp add: acct_def)
    have ids: "ty_id y = ty_id x" "ty_event y = ty_event x" "ty_id t' = ty_id y"
      using y t' by (simp_all add: add_seats_def release_seats_def)
    consider (target) "ty_id x = typeId" | (source) "rg_type r = Some (ty_id x)" "ty_id x \<noteq> typeId"
      | (other) "rg_type r \<noteq> Some (ty_id x)" "ty_id x \<noteq> typeId" by blast
    then show "covers exact (held (ty_id t') ?rs (g_waitlist w) + 0) t'"
    proof cases
      case target
      with x t bookedD(5) [OF b] have "x = t" by (auto simp: distinct_map inj_on_def)
      with t y t' r(5) target have "t' = add_seats (rg_party r) now x" "has_room (rg_party r) x" by (auto simp: add_seats_def)
      with sum [of typeId] cov target r(5) show ?thesis
        by (auto simp: covers_def add_seats_def has_room_def split: option.splits)
    next
      case source
      with x r b have "ty_event x = event" by (auto simp: booked_def tables_ok_def placed_def)
      with source y t' have "t' = release_seats (rg_party r) now x" by simp
      with sum [of "ty_id x"] cov source show ?thesis by (auto simp: covers_def release_seats_def split: option.splits)
    next
      case other
      with y t' have "t' = x" by simp
      with sum [of "ty_id x"] cov other show ?thesis by simp
    qed
  qed
  moreover have "tables_ok E (g_drawn w) ?ts ?rs (g_waitlist w)"
  proof (rule tables_kept [OF bookedD(1) [OF b] _ _ rows_same])
    have "list_all2 type_kept (g_types w) (map f (g_types w))" if "\<And>x. type_kept x (f x)" for f
      using that by (simp add: list_all2_conv_all_nth)
    then show "list_all2 type_kept (g_types w) ?ts"
      by (auto simp: update_rows_def type_kept_def add_seats_def release_seats_def)
    show "list_all2 (reg_kept (g_types w)) (g_regs w) ?rs"
      using t by (auto simp: reg_kept_def registered_def intro!: rows_updated)
  qed simp
  ultimately show ?thesis by (simp add: booked_def)
qed

lemma transferRegistrationIn_keeps: "keeps (booked exact E) (transferRegistrationIn event i typeId now)"
  unfolding keeps_def
proof (intro allI impI)
  fix w
  assume b: "booked exact E w"
  show "booked exact E (snd (transferRegistrationIn event i typeId now w))"
    using b transfer_booked [OF b]
    by (auto simp: transferRegistrationIn_def seq_run reads_run writes_run ret_run loadRegistrationById_def registered_def
        split: option.split dest!: find_SomeD)
qed

lemma setHostNote_keeps: "keeps (booked exact E) (setHostNote event i n)"
  unfolding keeps_def
proof (intro allI impI)
  fix w
  assume b: "booked exact E w"
  let ?P = "\<lambda>r. rg_id r = i \<and> rg_event r = event" and ?g = "\<lambda>r. r\<lparr>rg_hostNote := n\<rparr>"
  have "acct exact (\<lambda>_. 0) (g_types w) (update_rows ?P ?g (g_regs w)) (g_waitlist w)"
    by (rule acct_same_sums [OF bookedD(2) [OF b]]) (simp add: held_def reg_held_same)
  moreover have "tables_ok E (g_drawn w) (g_types w) (update_rows ?P ?g (g_regs w)) (g_waitlist w)"
    by (rule tables_kept [OF bookedD(1) [OF b]]) (auto simp: reg_kept_def registered_def intro!: rows_same rows_updated)
  ultimately show "booked exact E (snd (setHostNote event i n w))"
    by (simp add: setHostNote_def prog_simps Let_def booked_def)
qed

end
