(* ===== verification/Registration_Types.thy ===== *)
theory Registration_Types
  imports Registration_Returns
begin

section \<open>Ticket types, guests, erasure, sign-ups and the services keep the account\<close>

text \<open>The remaining writers of the tables, and the services over all of them.\<close>

subsection \<open>Ticket types\<close>

lemma add_type_booked:
  assumes b: "booked exact E w" and t: "ty_id t = re_uuid E (g_drawn w)" "ty_reserved t = 0"
    and w': "core w' = (g_types w @ [t], g_regs w, g_waitlist w, Suc (g_drawn w))"
  shows "booked exact E w'"
proof -
  have "held (ty_id t) (g_regs w) (g_waitlist w) = 0" using held_absent [OF bookedD(1) [OF b]] t by simp
  then have "covers exact (held (ty_id t) (g_regs w) (g_waitlist w) + 0) t" using t(2) by (simp add: covers_def split: option.split)
  then have "acct exact (\<lambda>_. 0) (g_types w @ [t]) (g_regs w) (g_waitlist w)" using bookedD(2) [OF b] by (simp add: acct_def)
  with tables_add_type [OF bookedD(1) [OF b] t(1)] w' show ?thesis by (simp add: booked_def core_def)
qed

lemma still_types_booked:
  assumes b: "booked exact E w" and ts: "list_all2 type_kept (g_types w) ts" "list_all2 type_still (g_types w) ts"
  shows "booked exact E (w\<lparr>g_types := ts\<rparr>)"
  using tables_kept [OF bookedD(1) [OF b] ts(1) rows_same rows_same] acct_still [OF bookedD(2) [OF b] ts(2)]
  by (simp add: booked_def)

lemma write_types_cases: "snd (write_types types result w) = w \<or> snd (write_types types result w) = w\<lparr>g_types := types\<rparr>"
  by (auto simp: write_types_def prog_simps split: option.split app_error.split)

lemma createTicketType_keeps: "keeps (booked exact E) (createTicketType E a)"
  unfolding keeps_def
proof (intro allI impI)
  fix w
  assume b: "booked exact E w"
  let ?w = "w\<lparr>g_drawn := Suc (g_drawn w)\<rparr>"
  have "booked exact E (snd (write_types (g_types w @ [t]) (Some t) ?w))"
    if "ty_id t = re_uuid E (g_drawn w)" "ty_reserved t = 0" for t
    using write_types_cases [of "g_types w @ [t]" "Some t" ?w] booked_drawn [OF b, of ?w]
      add_type_booked [OF b that, of "?w\<lparr>g_types := g_types w @ [t]\<rparr>"] by (auto simp: core_def)
  with b show "booked exact E (snd (createTicketType E a w))"
    by (auto simp: createTicketType_def seq_run [of "reads _"] reads_run ret_run Let_def draw_def seq_run [of "seq _ _"]
        seq_run [of "writes _"] writes_run split: option.split capacity_fit.split)
qed

lemma updateTicketType_keeps: "keeps (booked exact E) (updateTicketType i patch a)"
  unfolding keeps_def
proof (intro allI impI)
  fix w
  assume b: "booked exact E w"
  let ?P = "\<lambda>t. ty_id t = i \<and> ty_event t = tw_event a"
  have upd: "booked exact E (snd (write_types (update_rows ?P (patch_type patch a) (g_types w)) (Some (patch_type patch a t)) w))"
    if t: "find ?P (g_types w) = Some t"
      and cap: "\<not> (Col_capacity \<in> set patch \<and> (case tw_capacity a of None \<Rightarrow> False | Some c \<Rightarrow> c < ty_reserved t))" for t
  proof -
    have one: "x = t" if "x \<in> set (g_types w)" "?P x" for x
      using that find_SomeD [OF t] bookedD(5) [OF b] by (auto simp: distinct_map inj_on_def)
    have "list_all2 type_kept (g_types w) (update_rows ?P (patch_type patch a) (g_types w))"
      by (auto simp: type_kept_def patch_type_def Let_def intro!: rows_updated)
    moreover have "list_all2 type_still (g_types w) (update_rows ?P (patch_type patch a) (g_types w))"
      by (rule rows_updated) (use one cap in \<open>auto simp: type_still_def patch_type_def Let_def not_less split: option.splits\<close>)
    ultimately show ?thesis
      using b still_types_booked [OF b]
        write_types_cases [of "update_rows ?P (patch_type patch a) (g_types w)" "Some (patch_type patch a t)" w] by auto
  qed
  from b upd show "booked exact E (snd (updateTicketType i patch a w))"
    by (auto simp: updateTicketType_def seq_run [of "reads _"] reads_run ret_run Let_def split: option.split capacity_fit.split)
qed

lemma deleteTicketType_keeps: "keeps (booked exact E) (deleteTicketType event i)"
proof -
  have "booked exact E (w\<lparr>g_types := filter P (g_types w)\<rparr>)" if "booked exact E w" for w P
    using that tables_drop_types [OF bookedD(1) [OF that], of P] by (auto simp: booked_def acct_def)
  then show ?thesis unfolding keeps_def by (simp add: deleteTicketType_def prog_simps Let_def)
qed

lemma reorderTicketTypes_keeps: "keeps (booked exact E) (reorderTicketTypes event ids now)"
  unfolding keeps_def
proof (intro allI impI)
  fix w
  assume b: "booked exact E w"
  show "booked exact E (snd (reorderTicketTypes event ids now w))"
    using b by (auto simp: reorderTicketTypes_def prog_simps type_kept_def type_still_def
        intro!: still_types_booked rows_updated)
qed

lemma copy_types_keeps: "keeps (booked exact E) (copy_types E event ts)"
proof (induction ts)
  case (Cons t ts)
  have first: "booked exact E (w\<lparr>g_drawn := Suc (g_drawn w), g_types := g_types w @ [copy_type event (clock w) (re_uuid E (g_drawn w)) t]\<rparr>)"
    if "booked exact E w" for w
    by (rule add_type_booked [OF that]) (simp_all add: core_def copy_type_def Let_def)
  show ?case unfolding keeps_def
  proof (intro allI impI)
    fix w
    assume b: "booked exact E w"
    from keepsD [OF Cons first [OF b]] show "booked exact E (snd (copy_types E event (t # ts) w))"
      by (simp add: seq_assoc draw_def seq_run [of "reads _"] reads_run seq_run [of "writes _"] writes_run seq_ret_left seq_ret_state
          seq_run ret_run split: sum.split)
  qed
qed auto

lemma copyTicketTypesInTx_keeps: "keeps (booked exact E) (copyTicketTypesInTx E ticketTypes limit event source)"
  unfolding copyTicketTypesInTx_def by (auto intro!: keeps_seq copy_types_keeps)

subsection \<open>Guests, erasure and sign-ups\<close>

lemma cancelGuest_keeps: "keeps (booked exact E) (cancelGuest g now)"
  unfolding keeps_def
proof (intro allI impI)
  fix w
  assume b: "booked exact E w"
  let ?P = "\<lambda>r. rg_subject r = By_guest g \<and> rg_status r = Registered" and ?Q = "\<lambda>e. wl_subject e = By_guest g \<and> live e"
  let ?offers = "filter (\<lambda>e. wl_offeredAt e \<noteq> None) (filter ?Q (g_waitlist w))"
  let ?src = "held_by_type (typed_parties (filter ?P (g_regs w)) @ map (\<lambda>e. (wl_type e, wl_party e)) ?offers)"
  have "list_all registered (filter ?P (g_regs w))" by (auto simp: list_all_iff registered_def)
  moreover have "seats_of wl_type wl_party ?offers i = offer_held i (filter ?Q (g_waitlist w))" for i
    by (rule offered_entries_seats) (use bookedD(6) [OF b] in \<open>auto simp: list_all_iff\<close>)
  ultimately have rel: "released fst snd ?src i = reg_held i (filter ?P (g_regs w)) + offer_held i (filter ?Q (g_waitlist w))" for i
    by (simp only: released_held_by_type seats_of_simps seats_of_pairs typed_parties_seats)
  show "booked exact E (snd (cancelGuest g now w))"
  proof (cases "find (\<lambda>x. gu_id x = g \<and> gu_cancelledAt x = None) (g_guests w)")
    case None
    with b show ?thesis by (simp add: cancelGuest_def prog_simps Let_def)
  next
    case (Some x)
    show ?thesis
      by (rule rows_leave [OF b, where P = ?P and Q = ?Q and type_of = fst and seats = snd and src = ?src and now = now
            and f = "\<lambda>r. r\<lparr>rg_status := Cancelled_registration, rg_cancelledAt := Some now\<rparr>"
            and g = "\<lambda>e. e\<lparr>wl_status := Withdrawn\<rparr>"])
         (use rel Some in \<open>simp_all add: cancelGuest_def prog_simps Let_def\<close>)
  qed
qed

lemma scrubWaitlist_keeps: "keeps (booked exact E) (scrubWaitlist user)"
  unfolding keeps_def
proof (intro allI impI)
  fix w
  assume b: "booked exact E w"
  let ?Q = "\<lambda>e. wl_subject e = By_user user \<and> live e"
  let ?offers = "filter (\<lambda>e. wl_offeredAt e \<noteq> None) (filter ?Q (g_waitlist w))"
  have "seats_of wl_type wl_party ?offers i = offer_held i (filter ?Q (g_waitlist w))" for i
    by (rule offered_entries_seats) (use bookedD(6) [OF b] in \<open>auto simp: list_all_iff\<close>)
  then have rel: "released fst snd (held_by_type (map (\<lambda>e. (wl_type e, wl_party e)) ?offers)) i
      = offer_held i (filter ?Q (g_waitlist w))" for i
    by (simp only: released_held_by_type seats_of_pairs)
  show "booked exact E (snd (scrubWaitlist user w))"
    by (rule rows_leave [OF b, where P = "\<lambda>_. False" and Q = ?Q and type_of = fst and seats = snd and now = "clock w"
          and f = "cancel_row 0 None" and g = "\<lambda>e. e\<lparr>wl_status := Withdrawn\<rparr>"
          and src = "held_by_type (map (\<lambda>e. (wl_type e, wl_party e)) ?offers)"])
       (use rel in \<open>simp_all add: scrubWaitlist_def prog_simps Let_def update_none held_simps\<close>)
qed

lemma insertRegistrationRow_keeps: "keeps (booked exact E) (insertRegistrationRow E a None)"
  unfolding keeps_def
proof (intro allI impI)
  fix w
  assume b: "booked exact E w"
  obtain res w' where run: "insertRegistrationRow E a None w = (res, w')" by fastforce
  show "booked exact E (snd (insertRegistrationRow E a None w))"
  proof (cases res)
    case (Inl err)
    with run have "w' = w\<lparr>g_drawn := Suc (g_drawn w)\<rparr>"
      by (auto simp: insertRegistrationRow_def draw_def prog_simps split: if_splits)
    with booked_drawn [OF b, of w'] run show ?thesis by simp
  next
    case (Inr i)
    with insertRegistrationRow_effect run have "enrolled E a None w w'" by (auto simp: enrolled_def)
    with enrolled_tables [OF bookedD(1) [OF b]] enrolled_held bookedD(2) [OF b] run show ?thesis
      by (auto simp: booked_def enrolled_def acct_def)
  qed
qed

lemma ensureSignupRegistrationIn_keeps: "keeps (booked exact E) (ensureSignupRegistrationIn E event user seatId hash now)"
  unfolding ensureSignupRegistrationIn_def Let_def
  by (auto intro!: keeps_seq keeps_reads keeps_if insertRegistrationRow_keeps frame_rows(1) [THEN frame_keeps] split: prod.split)

lemma release_nothing: "release_from type_of seats now [] ts = ts"
  by (simp add: release_from_map)

lemma cancelSignupRegistrationIn_keeps: "keeps (booked exact E) (cancelSignupRegistrationIn event user actor now)"
  unfolding keeps_def
proof (intro allI impI)
  fix w
  assume b: "booked exact E w"
  let ?P = "\<lambda>r. registered_for event (By_user user) r \<and> rg_type r = None"
  have none: "reg_held i (filter ?P (g_regs w)) = 0" for i by (rule reg_held_absent) auto
  show "booked exact E (snd (cancelSignupRegistrationIn event user actor now w))"
    by (rule regs_leave [OF b, where P = ?P and f = "cancel_row now actor" and src = "[]" and type_of = fst and seats = snd and now = now])
       (use none in \<open>simp_all add: cancelSignupRegistrationIn_def prog_simps Let_def release_nothing released_def\<close>)
qed

end
