(* ===== verification/Registration_Runs.thy ===== *)
theory Registration_Runs
  imports Registration_Types
begin

section \<open>Runs of the registration desk\<close>

text \<open>
  The services over the repository, every operation as a step on the tables, and runs of steps.  Between two steps
  anything may happen in the tables that no step here writes (events, guests, slots, bans, keys, the clock).
\<close>

subsection \<open>The services keep the account\<close>

lemma frame_services [intro]:
  "frame (enqueueWaitlistPromotion E ids)" "frame (eventChanged event)" "frame (audit_row action target)" "frame (notifyOffered E offer)"
  unfolding enqueueWaitlistPromotion_def eventChanged_def audit_row_def notifyOffered_def
  by (auto simp: core_def intro!: frame_writes)

lemmas service_keeps = frame_services [THEN frame_keeps]

lemma waitlist_join_keeps: "keeps (booked exact E) (waitlist_join E a)"
  unfolding waitlist_join_def
  by (auto intro!: keeps_seq joinWaitlist_keeps service_keeps split: join_outcome.split)

lemma waitlist_leave_keeps: "keeps (booked exact E) (waitlist_leave E event typeId s now)"
  unfolding waitlist_leave_def leaveWaitlist_def
  by (auto intro!: keeps_seq cancelWaitlistEntriesIn_keeps service_keeps split: prod.split)

lemma waitlist_promote_keeps: "keeps (booked exact E) (waitlist_promote E event i now)"
  unfolding waitlist_promote_def Let_def
  by (auto intro!: keeps_seq keeps_case_option offers_keep service_keeps split: option.split)

lemma promote_rounds_keeps: "keeps (booked exact E) (promote_rounds E typeId now n offered)"
  by (induction n arbitrary: offered) (auto intro!: keeps_seq keeps_case_option offers_keep service_keeps)

lemma registration_services_keep:
  "keeps (booked exact E) (registration_cancel E event i actor byHost now)"
  "keeps (booked exact E) (registration_remove E event i actor ban now)"
  "keeps (booked exact E) (registration_transfer E event i typeId now)"
  unfolding registration_cancel_def registration_remove_def registration_transfer_def Let_def
  by (auto intro!: keeps_seq cancelRegistrationIn_keeps removeRegistrationIn_keeps transferRegistrationIn_keeps service_keeps
      split: cancel_outcome.split transfer_outcome.split prod.split)

lemma snd_seq_keeps: "booked exact E (snd (m w)) \<Longrightarrow> (\<And>x. keeps (booked exact E) (f x)) \<Longrightarrow> booked exact E (snd (seq m f w))"
  by (auto simp: seq_run keeps_def split: sum.split)

lemma runExpireSweep_booked:
  assumes "booked exact E w" "exact \<Longrightarrow> distinct (map wl_type (expired_offers now WAITLIST_EXPIRE_BATCH w))"
  shows "booked exact E (snd (runExpireSweep E now w))"
proof -
  have "booked exact E (snd (expireWaitlistOffers now WAITLIST_EXPIRE_BATCH w))"
    by (rule expire_booked [OF assms(1)]) (rule assms(2))
  then show ?thesis unfolding runExpireSweep_def
    by (rule snd_seq_keeps) (auto intro!: keeps_seq service_keeps)
qed

definition claim_new :: "reg_env \<Rightarrow> claim_args \<Rightarrow> reg_world \<Rightarrow> bool" where
  "claim_new E a w = list_all (\<lambda>e. wl_id e = ca_waitlist a
     \<longrightarrow> fst (findRegisterSnapshot E (claimRegisterArgs a e) w) = Inr None) (g_waitlist w)"

lemma waitlist_claim_booked:
  assumes "booked exact E w" "exact \<Longrightarrow> claim_new E a w"
  shows "booked exact E (snd (waitlist_claim E a w))"
proof -
  have "booked exact E (snd (claimWaitlistOffer E a w))"
    by (rule claim_booked) (use assms in \<open>auto simp: claim_new_def list_all_iff\<close>)
  then have "booked exact E (snd (seq (claimWaitlistOffer E a) (\<lambda>outcome.
      seq (case outcome of Claim_claimed _ \<Rightarrow> eventChanged (ca_event a)
           | Claim_expired \<Rightarrow> enqueueWaitlistPromotion E [Some (wl_type e)] | _ \<Rightarrow> ret ()) (\<lambda>_. ret outcome)) w))" for e
    by (rule snd_seq_keeps) (auto intro!: keeps_seq service_keeps split: claim_outcome.split)
  with assms(1) show ?thesis
    by (auto simp: waitlist_claim_def seq_run [of "reads _"] reads_run ret_run split: option.split)
qed

lemma frame_checkins [intro]:
  "frame (checkInByToken event hash actor meth now)" "frame (checkInSeat event seatId actor meth now)"
  "frame (undoCheckIn event seatId)" "frame (markNoShows event ids now)" "frame (sweepNoShows now limit)"
  unfolding checkInByToken_def checkInSeat_def undoCheckIn_def markNoShows_def sweepNoShows_def stamp_target_def
    mark_no_show_def checkedInResult_def unscannableTokenResult_def Let_def
  by (auto simp: core_def intro!: frame_seq frame_option frame_writes)

subsection \<open>Steps and runs\<close>

datatype reg_op =
    Op_register register_args | Op_walkup walkup_args
  | Op_join join_args | Op_leave string "string option" registration_subject int
  | Op_claim claim_args | Op_promote string string int | Op_run_promote string int | Op_expire int
  | Op_cancel string string string bool int | Op_remove string string string bool int | Op_transfer string string string int
  | Op_ban string string string int | Op_host_note string string "string option"
  | Op_create ticket_type_write | Op_update string "type_column list" ticket_type_write | Op_delete string string
  | Op_reorder string "string list" int | Op_copy bool nat string string
  | Op_cancel_guest string int | Op_erase string
  | Op_signup string string string string int | Op_leave_signup string string "string option" int
  | Op_scan string string string string int | Op_check_in string string string string int | Op_undo string string
  | Op_no_shows string "string list option" int | Op_sweep_no_shows int nat
  | Op_elsewhere reg_world

text \<open>\<open>registration-service.ts\<close> passes no waitlist entry to \<open>registerTx\<close>.\<close>

fun reg_step :: "reg_env \<Rightarrow> reg_op \<Rightarrow> reg_world \<Rightarrow> reg_world" where
  "reg_step E (Op_register a) w = snd (registerTx E (a\<lparr>ra_waitlist := None\<rparr>) w)"
| "reg_step E (Op_walkup a) w = snd (registerWalkupTx E a w)"
| "reg_step E (Op_join a) w = snd (waitlist_join E a w)"
| "reg_step E (Op_leave event t s now) w = snd (waitlist_leave E event t s now w)"
| "reg_step E (Op_claim a) w = snd (waitlist_claim E a w)"
| "reg_step E (Op_promote event i now) w = snd (waitlist_promote E event i now w)"
| "reg_step E (Op_run_promote t now) w = snd (runPromote E t now w)"
| "reg_step E (Op_expire now) w = snd (runExpireSweep E now w)"
| "reg_step E (Op_cancel event i actor byHost now) w = snd (registration_cancel E event i actor byHost now w)"
| "reg_step E (Op_remove event i actor ban now) w = snd (registration_remove E event i actor ban now w)"
| "reg_step E (Op_transfer event i t now) w = snd (registration_transfer E event i t now w)"
| "reg_step E (Op_ban event user actor now) w = snd (applyBanIn event user actor now w)"
| "reg_step E (Op_host_note event i n) w = snd (setHostNote event i n w)"
| "reg_step E (Op_create a) w = snd (createTicketType E a w)"
| "reg_step E (Op_update i patch a) w = snd (updateTicketType i patch a w)"
| "reg_step E (Op_delete event i) w = snd (deleteTicketType event i w)"
| "reg_step E (Op_reorder event ids now) w = snd (reorderTicketTypes event ids now w)"
| "reg_step E (Op_copy ticketTypes limit event source) w = snd (copyTicketTypesInTx E ticketTypes limit event source w)"
| "reg_step E (Op_cancel_guest g now) w = snd (cancelGuest g now w)"
| "reg_step E (Op_erase user) w = snd (scrubWaitlist user w)"
| "reg_step E (Op_signup event user seatId hash now) w = snd (ensureSignupRegistrationIn E event user seatId hash now w)"
| "reg_step E (Op_leave_signup event user actor now) w = snd (cancelSignupRegistrationIn event user actor now w)"
| "reg_step E (Op_scan event hash actor meth now) w = snd (checkInByToken event hash actor meth now w)"
| "reg_step E (Op_check_in event i actor meth now) w = snd (checkInSeat event i actor meth now w)"
| "reg_step E (Op_undo event i) w = snd (undoCheckIn event i w)"
| "reg_step E (Op_no_shows event ids now) w = snd (markNoShows event ids now w)"
| "reg_step E (Op_sweep_no_shows now limit) w = snd (sweepNoShows now limit w)"
| "reg_step E (Op_elsewhere w') w =
     w'\<lparr>g_types := g_types w, g_regs := g_regs w, g_seats := g_seats w, g_waitlist := g_waitlist w, g_drawn := g_drawn w\<rparr>"

text \<open>The two steps that may leave the counter above what is held.\<close>

fun settles :: "reg_env \<Rightarrow> reg_op \<Rightarrow> reg_world \<Rightarrow> bool" where
  "settles E (Op_expire now) w = distinct (map wl_type (expired_offers now WAITLIST_EXPIRE_BATCH w))"
| "settles E (Op_claim a) w = claim_new E a w"
| "settles E op w = True"

lemma reg_step_booked: "booked exact E w \<Longrightarrow> (exact \<Longrightarrow> settles E op w) \<Longrightarrow> booked exact E (reg_step E op w)"
proof (cases op)
  case (Op_elsewhere w')
  assume "booked exact E w"
  with Op_elsewhere show ?thesis by (simp add: booked_def)
next
  case (Op_signup event user seatId hash now)
  assume "booked exact E w"
  with Op_signup show ?thesis by (simp add: keepsD ensureSignupRegistrationIn_keeps)
qed (simp_all add: runExpireSweep_booked waitlist_claim_booked runPromote_def
  keepsD registerTx_keeps registerWalkupTx_keeps waitlist_join_keeps waitlist_leave_keeps waitlist_promote_keeps promote_rounds_keeps
  registration_services_keep applyBanIn_keeps setHostNote_keeps createTicketType_keeps updateTicketType_keeps deleteTicketType_keeps
  reorderTicketTypes_keeps copyTicketTypesInTx_keeps cancelGuest_keeps scrubWaitlist_keeps
  cancelSignupRegistrationIn_keeps frame_checkins [THEN frame_keeps])

fun run_steps :: "('o \<Rightarrow> 'w \<Rightarrow> 'w) \<Rightarrow> 'o list \<Rightarrow> 'w \<Rightarrow> 'w" where
  "run_steps step [] w = w"
| "run_steps step (op # ops) w = run_steps step ops (step op w)"

fun fine_steps :: "('o \<Rightarrow> 'w \<Rightarrow> 'w) \<Rightarrow> ('o \<Rightarrow> 'w \<Rightarrow> bool) \<Rightarrow> 'o list \<Rightarrow> 'w \<Rightarrow> bool" where
  "fine_steps step fine [] w = True"
| "fine_steps step fine (op # ops) w = (fine op w \<and> fine_steps step fine ops (step op w))"

locale kept_steps =
  fixes step :: "'o \<Rightarrow> 'w \<Rightarrow> 'w" and fine :: "'o \<Rightarrow> 'w \<Rightarrow> bool" and holds :: "'w \<Rightarrow> bool"
  assumes step_kept: "holds w \<Longrightarrow> fine op w \<Longrightarrow> holds (step op w)"
begin

lemma run_kept: "holds w \<Longrightarrow> fine_steps step fine ops w \<Longrightarrow> holds (run_steps step ops w)"
  by (induction ops arbitrary: w) (auto simp: step_kept)

end

lemma fine_steps_any [simp]: "fine_steps step (\<lambda>_ _. True) ops w"
  by (induction ops arbitrary: w) auto

interpretation covering: kept_steps "reg_step E" "\<lambda>_ _. True" "booked False E" for E
  by unfold_locales (simp add: reg_step_booked)

interpretation settling: kept_steps "reg_step E" "settles E" "booked True E" for E
  by unfold_locales (simp add: reg_step_booked)

text \<open>Before the first ticket type there is nothing to account for.\<close>

definition no_tickets :: "reg_world \<Rightarrow> bool" where
  "no_tickets w \<longleftrightarrow> g_types w = [] \<and> g_regs w = [] \<and> g_waitlist w = []"

lemma no_tickets_booked: "no_tickets w \<Longrightarrow> inj (re_uuid E) \<Longrightarrow> booked exact E w"
  by (simp add: no_tickets_def booked_def tables_ok_def types_ok_def regs_ok_def waitlist_ok_def placed_def acct_def)

end
