(* ===== verification/Registration_Claims.thy ===== *)
theory Registration_Claims
  imports Registration_Runs
begin

section \<open>What registrations promise\<close>

text \<open>
  No run sells more seats than a ticket type has, the counter is exact where no two offers of a type expire together,
  it leaks where they do, a person has one place in an event, the waitlist is served in order, and a ticket admits once.
\<close>

text \<open>An environment and worlds for the witnesses.\<close>

definition demo_env :: reg_env where
  "demo_env = \<lparr>re_uuid = (\<lambda>n. replicate n CHR ''u''), re_keyOf = concat, re_ended = (\<lambda>c _ e now. c),
     re_duration = 1000, re_notifies = (\<lambda>_. True), re_enqueues = (\<lambda>_. True)\<rparr>"

definition demo_event :: event_row where
  "demo_event = \<lparr>gv_id = ''ev'', gv_cancelled = False, gv_visibility = Public_event, gv_opensAt = None, gv_closesAt = None,
     gv_capacity = None, gv_scheduledAt = 5000, gv_endsAt = None\<rparr>"

definition demo_type :: "nat \<Rightarrow> ticket_type_row" where
  "demo_type n = \<lparr>ty_id = [], ty_event = ''ev'', ty_name = ''General'', ty_description = None, ty_capacity = Some 2,
     ty_reserved = n, ty_salesOpensAt = None, ty_salesClosesAt = None, ty_visibility = Public_type, ty_accessCodeHash = None,
     ty_maxPartySize = 2, ty_sortOrder = 0, ty_waitlistEnabled = True, ty_updatedAt = 0\<rparr>"

definition demo_world :: reg_world where
  "demo_world = \<lparr>clock = 0, g_events = [demo_event], g_types = [], g_regs = [], g_seats = [], g_waitlist = [], g_bans = [],
     g_members = [], g_guests = [], g_slots = [], g_claims = [], g_keys = [], g_answers = [], g_consents = [], g_accepted = [],
     g_jobs = [], g_notices = [], g_audits = [], g_changed = [], g_drawn = 0\<rparr>"

definition demo_write :: ticket_type_write where
  "demo_write = \<lparr>tw_event = ''ev'', tw_name = ''General'', tw_description = None, tw_capacity = Some 1, tw_salesOpensAt = None,
     tw_salesClosesAt = None, tw_visibility = Public_type, tw_accessCodeHash = None, tw_clearAccessCode = False,
     tw_maxPartySize = 2, tw_sortOrder = None, tw_waitlistEnabled = True, tw_now = 1\<rparr>"

definition demo_register :: "string \<Rightarrow> register_args" where
  "demo_register u = \<lparr>ra_event = ''ev'', ra_subject = By_user u, ra_type = None,
     ra_seats = [\<lparr>sd_id = ''s'' @ u, sd_attendeeName = None, sd_tokenHash = ''h'' @ u\<rparr>], ra_accessCodeHash = None, ra_answers = [],
     ra_consent = None, ra_slot = None, ra_source = Self, ra_key = ''k'', ra_owner = None, ra_waitlist = None, ra_now = 2\<rparr>"

definition demo_join :: "string \<Rightarrow> join_args" where
  "demo_join u = \<lparr>ja_event = ''ev'', ja_type = [], ja_subject = By_user u, ja_party = 1, ja_accessCodeHash = None, ja_now = 3\<rparr>"

definition demo_ops :: "reg_op list" where
  "demo_ops = [Op_create demo_write, Op_register (demo_register ''a''), Op_register (demo_register ''b''), Op_join (demo_join ''b''),
     Op_cancel ''ev'' ''u'' ''a'' False 4, Op_run_promote [] 5]"



definition demo_offer :: "string \<Rightarrow> string \<Rightarrow> waitlist_row" where
  "demo_offer i u = \<lparr>wl_id = i, wl_event = ''ev'', wl_type = [], wl_subject = By_user u, wl_party = 1, wl_status = Offered,
     wl_createdAt = 1, wl_offeredAt = Some 2, wl_claimExpiresAt = Some 3, wl_promoted = None\<rparr>"

definition demo_offers :: reg_world where
  "demo_offers = demo_world\<lparr>g_types := [demo_type 2], g_waitlist := [demo_offer ''u'' ''a'', demo_offer ''uu'' ''b''], g_drawn := 3\<rparr>"

lemma demo_inj: "inj (re_uuid demo_env)"
  by (rule injI) (metis demo_env_def length_replicate reg_env.select_convs(1))

lemma demo_no_tickets: "no_tickets demo_world"
  by (simp add: no_tickets_def demo_world_def)

lemma demo_result:
  "map rg_status (g_regs (run_steps (reg_step demo_env) demo_ops demo_world)) = [Cancelled_registration]
   \<and> map wl_status (g_waitlist (run_steps (reg_step demo_env) demo_ops demo_world)) = [Offered]
   \<and> map ty_reserved (g_types (run_steps (reg_step demo_env) demo_ops demo_world)) = [1]"
  by code_simp

lemma demo_settles: "fine_steps (reg_step demo_env) (settles demo_env) demo_ops demo_world"
  by code_simp

subsection \<open>Seats\<close>

definition within_capacity :: "reg_world \<Rightarrow> ticket_type_row \<Rightarrow> bool" where
  "within_capacity w t \<longleftrightarrow> held (ty_id t) (g_regs w) (g_waitlist w) \<le> ty_reserved t
     \<and> (case ty_capacity t of None \<Rightarrow> True | Some c \<Rightarrow> ty_reserved t \<le> c)"

text \<open>
  C2: Whatever operations run from the first ticket type on, in whatever order, the seats that registrations and open
  offers hold of a ticket type are covered by its reserved counter, and the counter stays within the capacity.
\<close>

theorem never_oversold:
  assumes "inj (re_uuid E)" "no_tickets w"
  shows "list_all (within_capacity (run_steps (reg_step E) ops w)) (g_types (run_steps (reg_step E) ops w))"
proof -
  have "booked False E (run_steps (reg_step E) ops w)"
    using covering.run_kept [OF no_tickets_booked [OF assms(2,1)]] by simp
  then show ?thesis by (auto simp: booked_def acct_def covers_def within_capacity_def list_all_iff)
qed

theorem never_oversold_witness:
  "inj (re_uuid demo_env) \<and> no_tickets demo_world
   \<and> list_all (within_capacity (run_steps (reg_step demo_env) demo_ops demo_world)) (g_types (run_steps (reg_step demo_env) demo_ops demo_world))
   \<and> map ty_reserved (g_types (run_steps (reg_step demo_env) demo_ops demo_world)) = [1]"
  using never_oversold [OF demo_inj demo_no_tickets, of demo_ops] demo_inj demo_no_tickets demo_result by simp

text \<open>
  C8: Where no sweep expires two offers of one ticket type, and no claim finds a registration stored under its key,
  the reserved counter of every ticket type is exactly the seats that registrations and open offers hold.
\<close>

theorem seats_accounted_exactly:
  assumes "inj (re_uuid E)" "no_tickets w" "fine_steps (reg_step E) (settles E) ops w"
  shows "list_all (\<lambda>t. ty_reserved t = held (ty_id t) (g_regs (run_steps (reg_step E) ops w)) (g_waitlist (run_steps (reg_step E) ops w)))
    (g_types (run_steps (reg_step E) ops w))"
proof -
  have "booked True E (run_steps (reg_step E) ops w)"
    using settling.run_kept [OF no_tickets_booked [OF assms(2,1)] assms(3)] .
  then show ?thesis by (auto simp: booked_def acct_def covers_def list_all_iff)
qed

theorem seats_accounted_exactly_witness:
  "fine_steps (reg_step demo_env) (settles demo_env) demo_ops demo_world
   \<and> list_all (\<lambda>t. ty_reserved t = held (ty_id t) (g_regs (run_steps (reg_step demo_env) demo_ops demo_world))
        (g_waitlist (run_steps (reg_step demo_env) demo_ops demo_world))) (g_types (run_steps (reg_step demo_env) demo_ops demo_world))"
  using seats_accounted_exactly [OF demo_inj demo_no_tickets demo_settles] demo_settles by simp

lemma two_of_a_kind:
  assumes "length (filter (\<lambda>s. type_of s = i) src) \<ge> 2" "\<And>s. s \<in> set src \<Longrightarrow> 0 < seats s"
  shows "released type_of seats src i < seats_of type_of seats src i"
  using assms
proof (induction src)
  case (Cons s src)
  show ?case
  proof (cases "type_of s = i")
    case True
    with Cons.prems(1) obtain x xs where x: "filter (\<lambda>s. type_of s = i) src = x # xs" by (cases "filter (\<lambda>s. type_of s = i) src") auto
    then have "x \<in> set src" by (metis filter_is_subset list.set_intros(1) subsetD)
    with Cons.prems(2) x have "0 < seats_of type_of seats src i" by (simp add: seats_of_def)
    with True show ?thesis by (simp add: released_Cons seats_of_simps)
  next
    case False
    with Cons show ?thesis by (simp add: released_Cons seats_of_simps)
  qed
qed simp

lemma release_from_ex:
  "t \<in> set ts \<Longrightarrow> \<exists>t' \<in> set (release_from type_of seats now src ts). ty_id t' = ty_id t
     \<and> ty_reserved t' = ty_reserved t - released type_of seats src (ty_id t)"
  unfolding release_from_map
  by (rule bexI [where x = "if find (\<lambda>s. ty_id t = type_of s) src = None then t
        else release_seats (released type_of seats src (ty_id t)) now t"])
     (auto simp: release_seats_def released_def)

text \<open>
  C9: A sweep that expires two offers of one ticket type leaves its counter above what is held: the statement joins the
  counter with the expired offers and takes off the party of one of them, so the other seats stay reserved for nobody.
\<close>

theorem expired_offers_leak_seats:
  assumes "booked True E w" "t \<in> set (g_types w)" "list_all (\<lambda>e. 0 < wl_party e) (g_waitlist w)"
    and "length (filter (\<lambda>e. wl_type e = ty_id t) (expired_offers now limit w)) \<ge> 2"
  shows "\<exists>t' \<in> set (g_types (snd (expireWaitlistOffers now limit w))). ty_id t' = ty_id t
    \<and> held (ty_id t) (g_regs (snd (expireWaitlistOffers now limit w))) (g_waitlist (snd (expireWaitlistOffers now limit w))) < ty_reserved t'"
proof -
  let ?gone = "expired_offers now limit w" and ?i = "ty_id t"
  let ?P = "\<lambda>e. wl_id e \<in> wl_id ` set (expired_offers now limit w)" and ?g = "\<lambda>e. e\<lparr>wl_status := Expired\<rparr>"
  note props = expired_offers_props [OF bookedD(3) [OF assms(1)], where now = now and limit = limit]
  have run: "snd (expireWaitlistOffers now limit w) = w\<lparr>g_waitlist := update_rows ?P ?g (g_waitlist w),
      g_types := release_from wl_type wl_party now ?gone (g_types w)\<rparr>"
    by (simp add: expireWaitlistOffers_def prog_simps)
  have "offer_held ?i (filter ?P (g_waitlist w)) = offer_held ?i ?gone"
    by (intro offer_held_mset picked_rows bookedD(3) [OF assms(1)] props)
  then have after: "held ?i (g_regs w) (update_rows ?P ?g (g_waitlist w)) + offer_held ?i ?gone = held ?i (g_regs w) (g_waitlist w)"
    using offer_held_withdraw [of ?P ?g ?i "g_waitlist w"] by (simp add: held_def)
  have "released wl_type wl_party ?gone ?i < seats_of wl_type wl_party ?gone ?i"
    by (rule two_of_a_kind [OF assms(4)]) (use assms(3) props(1) in \<open>auto simp: list_all_iff\<close>)
  also have "\<dots> = offer_held ?i ?gone" by (intro offered_seats props)
  finally have less: "released wl_type wl_party ?gone ?i < offer_held ?i ?gone" .
  have "ty_reserved t = held ?i (g_regs w) (g_waitlist w)" using bookedD(2) [OF assms(1)] assms(2) by (simp add: acct_def covers_def)
  with after less release_from_ex [OF assms(2), of wl_type wl_party now ?gone] show ?thesis
    unfolding run by fastforce
qed

lemma demo_offers_booked: "booked True demo_env demo_offers"
proof -
  have "drawn_id demo_env 3 []" "drawn_id demo_env 3 ''u''" "drawn_id demo_env 3 ''uu''"
    unfolding drawn_id_def
    by (rule exI [of _ 0], simp add: demo_env_def, rule exI [of _ 1], simp add: demo_env_def,
        rule exI [of _ 2], simp add: demo_env_def numeral_2_eq_2)
  then show ?thesis using demo_inj
    by (simp add: booked_def tables_ok_def types_ok_def regs_ok_def waitlist_ok_def placed_def acct_def covers_def held_def held_simps
        demo_offers_def demo_world_def demo_type_def demo_offer_def entry_ok_def live_def)
qed

theorem expired_offers_leak_seats_witness:
  "length (expired_offers 9 500 demo_offers) = 2 \<and> held [] [] (g_waitlist (snd (expireWaitlistOffers 9 500 demo_offers))) = 0
   \<and> list_ex (\<lambda>t. 0 < ty_reserved t) (g_types (snd (expireWaitlistOffers 9 500 demo_offers)))
   \<and> map ty_reserved (g_types (snd (expireWaitlistOffers 9 500 demo_offers))) = [1]"
proof -
  have "demo_type 2 \<in> set (g_types demo_offers)" "list_all (\<lambda>e. 0 < wl_party e) (g_waitlist demo_offers)"
    "length (filter (\<lambda>e. wl_type e = ty_id (demo_type 2)) (expired_offers 9 500 demo_offers)) \<ge> 2"
    by (simp add: demo_offers_def) code_simp+
  from expired_offers_leak_seats [OF demo_offers_booked this]
  obtain t where "t \<in> set (g_types (snd (expireWaitlistOffers 9 500 demo_offers)))" and "0 < ty_reserved t"
    by (auto intro: le_less_trans [OF le0])
  then have "list_ex (\<lambda>t. 0 < ty_reserved t) (g_types (snd (expireWaitlistOffers 9 500 demo_offers)))"
    unfolding list_ex_iff by blast
  moreover have "length (expired_offers 9 500 demo_offers) = 2"
    "held [] [] (g_waitlist (snd (expireWaitlistOffers 9 500 demo_offers))) = 0"
    "map ty_reserved (g_types (snd (expireWaitlistOffers 9 500 demo_offers))) = [1]" by code_simp+
  ultimately show ?thesis by (intro conjI)
qed

subsection \<open>Places\<close>

text \<open>
  C11: In every run a person has at most one open registration in an event and at most one live waitlist entry for a
  ticket type, and no two registrations share an identifier.
\<close>

theorem one_place_per_person:
  assumes "inj (re_uuid E)" "no_tickets w" "w' = run_steps (reg_step E) ops w"
  shows "distinct (map (\<lambda>r. (rg_event r, rg_subject r)) (filter registered (g_regs w')))
    \<and> distinct (map (\<lambda>e. (wl_type e, wl_subject e)) (filter live (g_waitlist w'))) \<and> distinct (map rg_id (g_regs w'))"
proof -
  have "booked False E w'"
    using covering.run_kept [OF no_tickets_booked [OF assms(2,1)]] by (simp add: assms(3))
  then show ?thesis by (simp add: booked_def tables_ok_def regs_ok_def waitlist_ok_def)
qed

theorem one_place_per_person_witness:
  "distinct (map (\<lambda>r. (rg_event r, rg_subject r)) (filter registered (g_regs (run_steps (reg_step demo_env) demo_ops demo_world))))
   \<and> map wl_status (g_waitlist (run_steps (reg_step demo_env) demo_ops demo_world)) = [Offered]"
  using one_place_per_person [OF demo_inj demo_no_tickets refl, of demo_ops] demo_result by simp



subsection \<open>Check-in\<close>

lemma stamp_idem [simp]: "stamp_seat b n t' (stamp_seat a m t s) = stamp_seat a m t s"
  by (cases s) (auto simp: stamp_seat_def split: option.split)




end
