(* ===== verification/Spec2Isabelle.thy ===== *)
theory Spec2Isabelle
  imports Session_Race Single_Use_Secret Otp_Runs OAuth_Runs Request_Auth Send_Resilience Token_Bucket Ref_Counted
    Version_Gate Slur_Filter Dm_Views Chat_Presence Answer_Validation Ticket_Token Filing_Claims
    Registration_Claims
begin

text \<open>
  A verification library for the API service of CivFix (\<open>services/api/src\<close>): a TypeScript server where
  people report problems of their neighbourhood, meet for cleanups, and write to each other.

  \<^bold>\<open>How programs are modelled.\<close>  An \<open>async\<close> method is a program on a world (\<open>Prelude\<close>): it reads and updates
  an extensible record that holds the in-memory stores and the clock, and resolves or rejects with a value of
  \<open>app_error\<close>; a rejection keeps the writes made before it.  Maps and sets keep JavaScript's insertion order.
  Where an \<open>await\<close> lets other calls in between and the property depends on it, the operation is a step
  relation whose steps are the stretches between two awaits (\<open>Session_Race\<close>, \<open>Single_Use_Secret\<close>,
  \<open>Ref_Counted\<close>).  Code outside the repository (HMAC, hashes, random values, the providers' servers, the
  contract package) is a parameter, and what the source relies on is a named hypothesis.  Interfaces of the
  source are records of operations; their laws are locales, interpreted on the in-memory implementations.

  \<^bold>\<open>Accounts and sessions\<close> (\<open>auth/\<close>).
  \<^item> \<open>Cache\<close> models \<open>cache.ts\<close>: entries with expiry, counters and sets; the contract \<open>cache_laws\<close>.
  \<^item> \<open>Handle_Policy\<close>, \<open>Auth_Stores\<close> model \<open>handle-policy.ts\<close>, \<open>reserved-handles.ts\<close>, \<open>official-account.ts\<close>,
    \<open>operator-target.ts\<close> and the in-memory stores of \<open>stores.ts\<close>.
  \<^item> \<open>Session_Service\<close>, \<open>Session_Laws\<close>, \<open>Session_Runs\<close>: \<open>session-service.ts\<close> over any store and cache with the
    laws; over every run of operations revoked users stay out, projections are backed by rows, lookups are
    sound and logins last.  \<open>Session_Race\<close>: a login interleaved with a suspension.
  \<^item> \<open>Single_Use_Secret\<close>: \<open>single-use-secret.ts\<close> and the socket tickets; concurrent redemptions.
  \<^item> \<open>Otp_Service\<close>, \<open>Otp_Laws\<close>, \<open>Otp_Runs\<close>: one-time codes, their throttles and attempts.  The unbounded search
    for a free handle is given fuel; \<open>free_handle_search_ends\<close> shows the fuel of one round for each taken
    handle and one more is enough.
  \<^item> \<open>Jwks\<close>, \<open>OAuth_Service\<close>, \<open>OAuth_Runs\<close>: identity tokens, key sets and provider sign-in.
  \<^item> \<open>Request_Auth\<close>: bearer tokens, cookies, CSRF tokens, the operator allowlist and the guards of the console.

  \<^bold>\<open>Abuse\<close> (\<open>abuse/\<close>).  \<open>Counter_Store\<close>, \<open>Ip_Buckets\<close>, \<open>Anon_Token\<close>: windowed counters and byte meters,
  network buckets and H3 cells, anonymous tokens.  \<open>Slur_Filter\<close>: the word filter and its deobfuscation, with
  the equivalence of the counted patterns and of the separator loop with plain definitions.

  \<^bold>\<open>Realtime\<close> (\<open>ws/\<close>, \<open>adapters/\<close>).  \<open>Send_Resilience\<close>: reservations of sends and broadcast attempts;
  \<open>Token_Bucket\<close>: the rate limiter, over rationals; \<open>Ref_Counted\<close>: shared upstream subscriptions as a state
  machine, with the interleaving that leaks one.  \<open>Chat_Presence\<close>: who is online in a room, as a refinement of
  the instant each connection was last seen.

  \<^bold>\<open>Versions\<close> (\<open>versioning/\<close>).  \<open>Version_Gate\<close>: the policy, its boot check and the request hook.

  \<^bold>\<open>Direct messages\<close> (\<open>services/\<close>).  \<open>Dm_Repository\<close> has the operations of \<open>dm-repository.memory.ts\<close> in the
  order of the file, with the helpers it shares with the chat repositories (\<open>chat-history-window.ts\<close>,
  \<open>chat-tombstone.ts\<close>, \<open>public-author.ts\<close>, \<open>conversation-hides-repository.memory.ts\<close>), and \<open>dm-service.ts\<close>.
  \<open>Dm_Laws\<close> shows what each operation does to the logs and threads (\<open>log_step\<close>) and the invariant over
  runs; \<open>Dm_Runs\<close> one thread per pair, the order of messages, authorship and deletion; \<open>Dm_Views\<close> paging,
  the window around a message against the function the database repositories use, reactions as a refinement
  of a relation, and the gate in front of a conversation.  A client that follows cursors is given one page
  for each stored message and one more; \<open>history_pages_complete\<close> shows that is enough.

  \<^bold>\<open>Events\<close> (\<open>services/host/\<close>).  \<open>Answer_Validation\<close>: the answers of a registration against a declarative
  description of valid ones.  \<open>Ticket_Token\<close>: seat tokens, with the encoder kept on 32-bit words where it wraps.
  Registrations: \<open>Registration_Repository\<close> has the rows and the registering of
  \<open>registration-repository-register.drizzle.ts\<close>; \<open>Registration_Roster\<close> the waitlist, the roster and the ticket
  types; \<open>Registration_Desk\<close> check-in, \<open>waitlist-service.ts\<close>, the freeing operations of \<open>registration-service.ts\<close>
  and the statements of the cleanup, guest and erasure repositories that write the same tables.
  \<open>Registration_Laws\<close> states the invariant between the reserved counter and the rows it counts, with and without
  exactness; \<open>Registration_Account\<close> how each kind of statement moves both; \<open>Registration_Steps\<close>,
  \<open>Registration_Queue\<close>, \<open>Registration_Returns\<close> and \<open>Registration_Types\<close> that every operation keeps it;
  \<open>Registration_Runs\<close> the operations as steps, with the contract \<open>kept_steps\<close> interpreted for both invariants.
  \<open>Registration_Claims\<close> concludes: seats are never oversold, the counter is exact where no two offers of a type
  expire together and leaks where they do, a person has one place, the waitlist is served in order, and a ticket
  admits once.

  \<^bold>\<open>City filings\<close> (\<open>services/filings/\<close>).  A report is filed with its city through a portal, by email or by an
  operator.  \<open>Filing_Repository\<close> has the rows and the statements of \<open>filing-repository.drizzle.ts\<close>,
  \<open>filing-reopen.drizzle.ts\<close> and \<open>filing-ingest-sql.drizzle.ts\<close>, as operations on lists of rows with the unique
  index on active filings; \<open>Filing_Service\<close> the routes, the queue and its sweep, successes and the results of
  runs; \<open>Filing_Admin\<close> opening, verdicts, operators, the city's messages and the email job; \<open>Send_Policy\<close> the
  deadlines of a send (\<open>outbound-send-policy.ts\<close>) and \<open>Ticket_Text\<close> the text of a request.  \<open>Filing_Machine\<close> is
  the abstract life of a filing as a step relation with its invariants; \<open>Filing_Runs\<close>, \<open>Filing_Ops\<close> and
  \<open>Filing_Properties\<close> show that every operation is a sequence of its steps, and \<open>Filing_Claims\<close> concludes over
  runs of operations: a filing is announced once, a result is applied once, portal tries and links are bounded.
  A transaction is one step; an email try is two, around its send.

  \<^bold>\<open>Not modelled.\<close>  The other database repositories (SQL), the routes and the server (glue over Fastify and zod), the
  schema and seeds, the clients of outside services, the media worker (native image libraries), the city filer
  (browser automation) and the email worker.  Doubles are integers or rationals, and strings are ASCII; the
  texts of people may hold other characters, which no modelled code inspects except the word filter, where
  Unicode normalisation is a parameter.

  Of the filings, the paged list, the health and the editor of routes, evidence links and the mail correlator.
  Of the registrations, the pages of rosters and waitlists, the questions of ticket types and the request checks.
  The rules of cleanups and volunteer hours, report clustering, the socket frames and the rest of the host and
  admin consoles are not reached; they are compositions of database repositories and notifications.
\<close>

end
